(* ===== verification/Prelude.thy ===== *)
theory Prelude
  imports Complex_Main "HOL-Library.Word"
begin

text \<open>
  The vocabulary every component of the development shares: Python exceptions and fallible
  results, the sequencing of fallible computations, ordered dictionaries, and database tables
  as lists of rows addressed by their primary key.

  Fallible code returns \<open>py_exc + 'a\<close>, with \<open>Inl\<close> for a raised exception. The function
  \<open>rbind\<close> sequences two such computations the way consecutive Python statements do: the second
  runs only when the first returns. The laws of \<open>rbind\<close>, \<open>ensure\<close> and \<open>mapM\<close> are collected in
  \<open>result_simps\<close>, those of tables in \<open>table_simps\<close>.
\<close>

named_theorems result_simps
named_theorems table_simps

type_synonym byte = "8 word"
type_synonym bytes = "byte list"

section \<open>Exceptions and results\<close>

text \<open>
  The exceptions the modelled code raises or catches. \<open>ValueError\<close> carries the error code the
  source passes as its message; the others are raised by the language's own primitives.
\<close>

datatype py_exc =
    ValueError string
  | KeyError
  | TypeError
  | IndexError
  | AssertionError
  | OverflowError
  | LeaseLost string
  | OtherError string

type_synonym 'a result = "py_exc + 'a"

fun rbind :: "'e + 'a \<Rightarrow> ('a \<Rightarrow> 'e + 'b) \<Rightarrow> 'e + 'b" where
  "rbind (Inl e) f = Inl e"
| "rbind (Inr x) f = f x"

definition ensure :: "bool \<Rightarrow> 'e \<Rightarrow> 'e + unit" where
  "ensure b e = (if b then Inr () else Inl e)"

fun mapM :: "('a \<Rightarrow> 'e + 'b) \<Rightarrow> 'a list \<Rightarrow> 'e + 'b list" where
  "mapM f [] = Inr []"
| "mapM f (x # xs) = rbind (f x) (\<lambda>y. rbind (mapM f xs) (\<lambda>ys. Inr (y # ys)))"

definition is_ok :: "'e + 'a \<Rightarrow> bool" where
  "is_ok r = (case r of Inl _ \<Rightarrow> False | Inr _ \<Rightarrow> True)"

lemma rbind_Inr_iff [result_simps]:
  "(rbind m f = Inr y) = (\<exists>x. m = Inr x \<and> f x = Inr y)"
  by (cases m) auto

lemma rbind_Inl_iff:
  "(rbind m f = Inl e) = (m = Inl e \<or> (\<exists>x. m = Inr x \<and> f x = Inl e))"
  by (cases m) auto

lemma ensure_Inr_iff [result_simps, simp]: "(ensure b e = Inr u) = b"
  by (simp add: ensure_def)

lemma ensure_Inl_iff [simp]: "(ensure b e = Inl e') = (\<not> b \<and> e = e')"
  by (auto simp add: ensure_def)

lemma ensure_True [simp]: "ensure True e = Inr ()"
  by (simp add: ensure_def)

lemma ensure_False [simp]: "ensure False e = Inl e"
  by (simp add: ensure_def)

lemma rbind_ensure [simp]: "rbind (ensure b e) f = (if b then f () else Inl e)"
  by (simp add: ensure_def)

lemma rbind_cong [fundef_cong]:
  "m = m' \<Longrightarrow> (\<And>x. m' = Inr x \<Longrightarrow> f x = f' x) \<Longrightarrow> rbind m f = rbind m' f'"
  by (cases m') auto

lemma mapM_cong [fundef_cong]:
  "xs = ys \<Longrightarrow> (\<And>x. x \<in> set ys \<Longrightarrow> f x = g x) \<Longrightarrow> mapM f xs = mapM g ys"
proof (induction ys arbitrary: xs)
  case Nil
  then show ?case by simp
next
  case (Cons y ys)
  have "mapM f ys = mapM g ys"
    by (rule Cons.IH) (use Cons.prems in auto)
  with Cons.prems show ?case by simp
qed

lemma mapM_Inr_length [result_simps]: "mapM f xs = Inr ys \<Longrightarrow> length ys = length xs"
  by (induction xs arbitrary: ys) (auto simp: result_simps)

lemma mapM_Inr_iff:
  "mapM f xs = Inr ys \<longleftrightarrow> list_all2 (\<lambda>x y. f x = Inr y) xs ys"
  by (induction xs arbitrary: ys) (auto simp: rbind_Inr_iff list_all2_Cons1)

lemma mapM_Inl_ex: "mapM f xs = Inl e \<Longrightarrow> \<exists>x \<in> set xs. f x = Inl e"
  by (induction xs) (auto simp: rbind_Inl_iff)

lemma mapM_map_Inr:
  "(\<And>x. x \<in> set xs \<Longrightarrow> f (g x) = Inr x) \<Longrightarrow> mapM f (map g xs) = Inr xs"
  by (induction xs) auto

lemma mapM_Inr_all:
  assumes "mapM f xs = Inr ys" and "\<And>x y. f x = Inr y \<Longrightarrow> P y"
  shows "list_all P ys"
  using assms by (induction xs arbitrary: ys) (auto simp: rbind_Inr_iff)

section \<open>Ordered dictionaries\<close>

text \<open>
  A Python dictionary whose iteration order matters (a \<open>dict\<close> or an \<open>OrderedDict\<close>) is an
  association list with distinct keys. Assigning to a present key keeps its position; a new key
  goes to the end.
\<close>

fun dict_put :: "'k \<Rightarrow> 'v \<Rightarrow> ('k \<times> 'v) list \<Rightarrow> ('k \<times> 'v) list" where
  "dict_put k v [] = [(k, v)]"
| "dict_put k v ((k', v') # d) =
     (if k' = k then (k, v) # d else (k', v') # dict_put k v d)"

definition dict_del :: "'k \<Rightarrow> ('k \<times> 'v) list \<Rightarrow> ('k \<times> 'v) list" where
  "dict_del k d = filter (\<lambda>p. fst p \<noteq> k) d"

lemma map_of_dict_put [simp]: "map_of (dict_put k v d) = (map_of d)(k \<mapsto> v)"
  by (induction d) auto

lemma dict_put_keys:
  "map fst (dict_put k v d) =
     (if k \<in> fst ` set d then map fst d else map fst d @ [k])"
  by (induction d) force+

lemma distinct_dict_put: "distinct (map fst d) \<Longrightarrow> distinct (map fst (dict_put k v d))"
  by (auto simp: dict_put_keys)

lemma dict_put_absent: "k \<notin> fst ` set d \<Longrightarrow> dict_put k v d = d @ [(k, v)]"
  by (induction d) auto

lemma set_dict_put: "set (dict_put k v d) \<subseteq> insert (k, v) (set d)"
  by (induction d) (auto split: if_splits)

lemma map_of_dict_del: "map_of (dict_del k d) = (map_of d)(k := None)"
  by (induction d) (auto simp: dict_del_def)

lemma map_of_None_iff: "(map_of d k = None) = (k \<notin> fst ` set d)"
  by (rule map_of_eq_None_iff)

section \<open>Database tables\<close>

text \<open>
  A table is the list of its rows; the list's order stands for the order in which the server
  returns rows that the query's ORDER BY leaves tied, and every statement about a query holds
  for all such orders. \<open>row_get\<close> is a lookup by primary key (\<open>session.get\<close>), \<open>row_update\<close> is the
  flush of a mutated row, and \<open>select_first\<close> is a query with a WHERE clause, an ORDER BY key
  and LIMIT 1.
\<close>

definition row_get :: "('r \<Rightarrow> 'k) \<Rightarrow> 'k \<Rightarrow> 'r list \<Rightarrow> 'r option" where
  "row_get key k rows = find (\<lambda>r. key r = k) rows"

definition row_update :: "('r \<Rightarrow> 'k) \<Rightarrow> 'k \<Rightarrow> ('r \<Rightarrow> 'r) \<Rightarrow> 'r list \<Rightarrow> 'r list" where
  "row_update key k f rows = map (\<lambda>r. if key r = k then f r else r) rows"

definition unique_keys :: "('r \<Rightarrow> 'k) \<Rightarrow> 'r list \<Rightarrow> bool" where
  "unique_keys key rows = distinct (map key rows)"

fun min_by :: "('r \<Rightarrow> 'o::linorder) \<Rightarrow> 'r list \<Rightarrow> 'r option" where
  "min_by m [] = None"
| "min_by m (r # rs) =
     (case min_by m rs of
        None \<Rightarrow> Some r
      | Some s \<Rightarrow> if m r \<le> m s then Some r else Some s)"

definition select_first :: "('r \<Rightarrow> bool) \<Rightarrow> ('r \<Rightarrow> 'o::linorder) \<Rightarrow> 'r list \<Rightarrow> 'r option" where
  "select_first cond m rows = min_by m (filter cond rows)"

lemma row_get_Some: "row_get key k rows = Some r \<Longrightarrow> r \<in> set rows \<and> key r = k"
  unfolding row_get_def by (induction rows) (auto split: if_splits)

lemma row_get_None: "(row_get key k rows = None) = (k \<notin> key ` set rows)"
  unfolding row_get_def by (auto simp: find_None_iff)

lemma row_get_unique:
  "unique_keys key rows \<Longrightarrow> r \<in> set rows \<Longrightarrow> row_get key (key r) rows = Some r"
  unfolding row_get_def unique_keys_def
proof (induction rows)
  case Nil
  then show ?case by simp
next
  case (Cons a rows)
  then show ?case by (cases "a = r") (auto simp: image_iff)
qed

lemma row_update_keys [table_simps]:
  "(\<And>r. key (f r) = key r) \<Longrightarrow> map key (row_update key k f rows) = map key rows"
  by (induction rows) (auto simp: row_update_def)

lemma unique_keys_row_update:
  "(\<And>r. key (f r) = key r) \<Longrightarrow> unique_keys key (row_update key k f rows) = unique_keys key rows"
  by (simp add: unique_keys_def row_update_keys)

lemma row_get_update_same:
  "(\<And>r. key (f r) = key r) \<Longrightarrow>
     row_get key k (row_update key k f rows) = map_option f (row_get key k rows)"
  unfolding row_get_def row_update_def by (induction rows) auto

lemma row_get_update_other:
  "(\<And>r. key (f r) = key r) \<Longrightarrow> k \<noteq> k' \<Longrightarrow>
     row_get key k' (row_update key k f rows) = row_get key k' rows"
  unfolding row_get_def row_update_def by (induction rows) auto

lemma length_row_update [simp]: "length (row_update key k f rows) = length rows"
  by (simp add: row_update_def)

lemma row_update_absent:
  "k \<notin> key ` set rows \<Longrightarrow> row_update key k f rows = rows"
  unfolding row_update_def by (induction rows) auto

lemma set_row_update:
  "set (row_update key k f rows) =
     (\<lambda>r. if key r = k then f r else r) ` set rows"
  by (simp add: row_update_def)

lemma row_update_all:
  assumes "\<And>r. r \<in> set rows \<Longrightarrow> P r" and "\<And>r. r \<in> set rows \<Longrightarrow> key r = k \<Longrightarrow> P (f r)"
    and "r \<in> set (row_update key k f rows)"
  shows "P r"
  using assms by (auto simp: set_row_update)

lemma min_by_None [simp]: "(min_by m rs = None) = (rs = [])"
  by (cases rs) (auto split: option.splits)

lemma min_by_Some:
  "min_by m rs = Some r \<Longrightarrow> r \<in> set rs \<and> (\<forall>s \<in> set rs. m r \<le> m s)"
proof (induction rs arbitrary: r)
  case Nil
  then show ?case by simp
next
  case (Cons a rs)
  show ?case
  proof (cases "min_by m rs")
    case None
    with Cons.prems show ?thesis by auto
  next
    case (Some s)
    from Cons.IH [OF Some] have "s \<in> set rs" and "\<forall>t \<in> set rs. m s \<le> m t" by auto
    with Some Cons.prems show ?thesis by (auto split: if_splits intro: order_trans)
  qed
qed

lemma select_first_Some:
  assumes "select_first cond m rows = Some r"
  shows "r \<in> set rows" and "cond r" and "\<And>s. s \<in> set rows \<Longrightarrow> cond s \<Longrightarrow> m r \<le> m s"
  using min_by_Some [of m "filter cond rows" r] assms by (auto simp: select_first_def)

lemma select_first_None: "(select_first cond m rows = None) = (\<forall>r \<in> set rows. \<not> cond r)"
  by (auto simp: select_first_def filter_empty_conv)

text \<open>Counting rows: an update of one row adds at most one to a count, and nothing when it does not
  turn a row into a counted one.\<close>

lemma count_row_update_le:
  assumes "unique_keys key rows"
  shows "length (filter P (row_update key k f rows)) \<le> length (filter P rows) + 1"
  using assms
proof (induction rows)
  case Nil
  then show ?case by (simp add: row_update_def)
next
  case (Cons r rows)
  show ?case
  proof (cases "key r = k")
    case True
    with Cons.prems have "k \<notin> key ` set rows" by (auto simp: unique_keys_def)
    then have "row_update key k f rows = rows" by (rule row_update_absent)
    with True show ?thesis by (simp add: row_update_def)
  next
    case False
    with Cons show ?thesis by (simp add: row_update_def unique_keys_def)
  qed
qed

lemma count_map_le:
  assumes "\<And>r. r \<in> set rows \<Longrightarrow> P (f r) \<Longrightarrow> P r"
  shows "length (filter P (map f rows)) \<le> length (filter P rows)"
  using assms by (induction rows) (auto simp: le_Suc_eq)

end
