(* ===== verification/Py_Values.thy ===== *)
theory Py_Values
  imports Prelude
begin

text \<open>
  The dynamically typed values the wire decoders inspect, and the parts of the Python language
  and its standard library they use: truth of \<open>isinstance\<close>, iteration over an unknown object,
  \<open>float()\<close>, \<open>str.lower\<close>, \<open>str.strip\<close>, \<open>str.split\<close>, canonical UUID text and \<open>struct\<close>'s
  big-endian 32-bit integers.

  Three choices hold throughout. A Python \<open>str\<close> is a \<open>string\<close>, so its characters are the code
  points 0 to 255. A finite float is its exact real value: rounding is not modelled, while the
  three non-finite values are, because the decoders test for them. Lists and tuples share the
  constructor \<open>PList\<close>: MessagePack has one array type and both encode to it.
\<close>

section \<open>Values\<close>

datatype pyfloat = Fin real | PosInf | NegInf | NaN

datatype pyval =
    PNone
  | PBool bool
  | PInt int
  | PFloat pyfloat
  | PStr string
  | PBytes bytes
  | PList "pyval list"
  | PDict "(pyval \<times> pyval) list"

type_synonym pydict = "(pyval \<times> pyval) list"

text \<open>
  Iterating over an object: the elements of a list, the characters of a string, the integers of
  a bytes object, the keys of a dictionary; anything else raises TypeError.
\<close>

fun py_iter :: "pyval \<Rightarrow> pyval list result" where
  "py_iter (PList xs) = Inr xs"
| "py_iter (PStr s) = Inr (map (\<lambda>c. PStr [c]) s)"
| "py_iter (PBytes bs) = Inr (map (\<lambda>b. PInt (uint b)) bs)"
| "py_iter (PDict d) = Inr (map fst d)"
| "py_iter v = Inl TypeError"

text \<open>
  \<open>float(i)\<close> of an integer raises OverflowError when the nearest double is infinite, which is
  from \<open>2 ^ 1024 - 2 ^ 970\<close> on.
\<close>

definition float_of_int :: "int \<Rightarrow> real result" where
  "float_of_int i =
     (if \<bar>i\<bar> \<ge> 2 ^ 1024 - 2 ^ 970 then Inl OverflowError else Inr (of_int i))"

definition getitem :: "pydict \<Rightarrow> string \<Rightarrow> pyval result" where
  "getitem d k = (case map_of d (PStr k) of None \<Rightarrow> Inl KeyError | Some v \<Rightarrow> Inr v)"

definition missing_fields :: "string list \<Rightarrow> pydict \<Rightarrow> string list" where
  "missing_fields required d = filter (\<lambda>k. PStr k \<notin> fst ` set d) required"

definition unknown_fields :: "string list \<Rightarrow> pydict \<Rightarrow> pyval list" where
  "unknown_fields required d = filter (\<lambda>k. k \<notin> PStr ` set required) (map fst d)"

section \<open>Text\<close>

definition char_code :: "char \<Rightarrow> nat" where
  "char_code c = of_char c"

definition py_lower_char :: "char \<Rightarrow> char" where
  "py_lower_char c =
     (let n = char_code c
      in if (65 \<le> n \<and> n \<le> 90) \<or> (192 \<le> n \<and> n \<le> 222 \<and> n \<noteq> 215) then char_of (n + 32) else c)"

definition py_lower :: "string \<Rightarrow> string" where
  "py_lower s = map py_lower_char s"

definition is_space :: "char \<Rightarrow> bool" where
  "is_space c =
     (let n = char_code c in (9 \<le> n \<and> n \<le> 13) \<or> (28 \<le> n \<and> n \<le> 32) \<or> n = 133 \<or> n = 160)"

definition py_strip :: "string \<Rightarrow> string" where
  "py_strip s = rev (dropWhile is_space (rev (dropWhile is_space s)))"

fun split_on :: "char \<Rightarrow> string \<Rightarrow> string list" where
  "split_on sep [] = [[]]"
| "split_on sep (c # cs) =
     (if c = sep then [] # split_on sep cs
      else (case split_on sep cs of [] \<Rightarrow> [[c]] | w # ws \<Rightarrow> (c # w) # ws))"

definition lower_hex :: "char \<Rightarrow> bool" where
  "lower_hex c = (let n = char_code c in (48 \<le> n \<and> n \<le> 57) \<or> (97 \<le> n \<and> n \<le> 102))"

text \<open>\<open>str(n)\<close> of an integer.\<close>

fun nat_digits :: "nat \<Rightarrow> string" where
  "nat_digits n =
     (if n < 10 then [char_of (48 + n)] else nat_digits (n div 10) @ [char_of (48 + n mod 10)])"

declare nat_digits.simps [simp del]

definition str_int :: "int \<Rightarrow> string" where
  "str_int i = (if i < 0 then CHR ''-'' # nat_digits (nat (- i)) else nat_digits (nat i))"

text \<open>
  The text \<open>str(UUID(value))\<close>: groups of 8, 4, 4, 4 and 12 lower-case hexadecimal digits. The
  standard library's parser accepts more spellings (braces, a \<open>urn:uuid:\<close> prefix, no hyphens),
  but its output is always of this form, and the callers modelled here compare the output with
  the lower-cased input; so the comparison succeeds exactly on inputs that are canonical after
  lower-casing, and then both sides are that text.
\<close>

definition canonical_uuid :: "string \<Rightarrow> bool" where
  "canonical_uuid s =
     (length s = 36 \<and>
      list_all (\<lambda>(i, c). if i \<in> {8, 13, 18, 23} then c = CHR ''-'' else lower_hex c)
        (zip [0..<36] s))"

section \<open>Big-endian 32-bit integers\<close>

text \<open>\<open>struct.pack("!I", n)\<close> and \<open>struct.unpack("!I", b)\<close>.\<close>

definition pack_be32 :: "nat \<Rightarrow> bytes" where
  "pack_be32 n =
     [of_nat (n div 2 ^ 24), of_nat (n div 2 ^ 16), of_nat (n div 2 ^ 8), of_nat n]"

definition unpack_be32 :: "bytes \<Rightarrow> nat" where
  "unpack_be32 bs = foldl (\<lambda>acc b. acc * 256 + unat b) 0 bs"

section \<open>Laws\<close>

lemma getitem_Inr_iff [result_simps]: "(getitem d k = Inr v) = (map_of d (PStr k) = Some v)"
  by (auto simp: getitem_def split: option.splits)

lemma getitem_Inl: "getitem d k = Inl e \<Longrightarrow> e = KeyError \<and> PStr k \<notin> fst ` set d"
  by (auto simp: getitem_def map_of_eq_None_iff split: option.splits)

lemma getitem_Cons [simp]:
  "getitem ((k', v) # d) k = (if k' = PStr k then Inr v else getitem d k)"
  by (simp add: getitem_def)

lemma missing_fields_Nil: "(missing_fields req d = []) = (\<forall>k \<in> set req. PStr k \<in> fst ` set d)"
  by (auto simp: missing_fields_def filter_empty_conv)

lemma unknown_fields_Nil: "(unknown_fields req d = []) = (\<forall>p \<in> set d. fst p \<in> PStr ` set req)"
  by (auto simp: unknown_fields_def filter_empty_conv)

text \<open>A dictionary whose keys are exactly the required names, in any order, passes both tests.\<close>

lemma fields_exact:
  assumes "map fst d = map PStr req"
  shows "missing_fields req d = []" and "unknown_fields req d = []"
proof -
  have "fst ` set d = PStr ` set req"
    using assms by (metis list.set_map)
  then show "missing_fields req d = []" and "unknown_fields req d = []"
    by (auto simp: missing_fields_Nil unknown_fields_Nil)
qed

lemma getitem_required:
  "missing_fields req d = [] \<Longrightarrow> k \<in> set req \<Longrightarrow> \<exists>v. getitem d k = Inr v"
  by (auto simp: missing_fields_Nil getitem_def map_of_eq_None_iff split: option.splits)

lemma py_iter_Inl: "py_iter v = Inl e \<Longrightarrow> e = TypeError"
  by (cases v) auto

lemma split_on_not_Nil [simp]: "split_on c s \<noteq> []"
  by (cases s) (auto split: list.splits)

text \<open>Splitting keeps the text: joining the parts with the separator gives it back.\<close>

fun join_on :: "char \<Rightarrow> string list \<Rightarrow> string" where
  "join_on sep [] = []"
| "join_on sep [w] = w"
| "join_on sep (w # w' # ws) = w @ sep # join_on sep (w' # ws)"

lemma join_on_Cons: "ws \<noteq> [] \<Longrightarrow> join_on sep (w # ws) = w @ sep # join_on sep ws"
  by (cases ws) auto

lemma join_split_on: "join_on sep (split_on sep s) = s"
proof (induction s)
  case Nil
  then show ?case by simp
next
  case (Cons c s)
  obtain w ws where w: "split_on sep s = w # ws"
    using split_on_not_Nil [of sep s] by (meson neq_Nil_conv)
  with Cons show ?case by (cases ws) (auto simp: join_on_Cons)
qed

lemma char_code_less: "char_code c < 256"
  by (simp add: char_code_def)

lemma lower_hex_py_lower_char: "lower_hex c \<Longrightarrow> py_lower_char c = c"
  by (auto simp: lower_hex_def py_lower_char_def Let_def)

lemma hyphen_py_lower_char: "py_lower_char (CHR ''-'') = CHR ''-''"
  by (simp add: py_lower_char_def char_code_def Let_def)

text \<open>Lower-casing does not change a canonical UUID.\<close>

lemma canonical_uuid_lower:
  assumes "canonical_uuid s"
  shows "py_lower s = s"
proof -
  have "py_lower_char (s ! i) = s ! i" if "i < length s" for i
  proof -
    from assms have len: "length s = 36" by (simp add: canonical_uuid_def)
    with that have "(i, s ! i) \<in> set (zip [0..<36] s)"
      by (auto simp: set_zip intro!: exI [of _ i])
    with assms have "if i \<in> {8, 13, 18, 23} then s ! i = CHR ''-'' else lower_hex (s ! i)"
      unfolding canonical_uuid_def list_all_iff by fastforce
    then show ?thesis
      by (auto split: if_splits simp: hyphen_py_lower_char lower_hex_py_lower_char)
  qed
  then show ?thesis unfolding py_lower_def by (simp add: list_eq_iff_nth_eq)
qed

lemma length_pack_be32 [simp]: "length (pack_be32 n) = 4"
  by (simp add: pack_be32_def)

lemma unpack_pack_be32:
  assumes "n < 2 ^ 32"
  shows "unpack_be32 (pack_be32 n) = n"
proof -
  have "unat (of_nat m :: byte) = m mod 256" for m
    by (simp add: unat_of_nat)
  then have "unpack_be32 (pack_be32 n) =
      ((n div 2 ^ 24 mod 256 * 256 + n div 2 ^ 16 mod 256) * 256 + n div 2 ^ 8 mod 256) * 256
        + n mod 256"
    by (simp add: unpack_be32_def pack_be32_def)
  also have "n div 2 ^ 24 mod 256 = n div 2 ^ 16 div 256"
    using assms by (simp add: div_mult2_eq [symmetric] less_mult_imp_div_less)
  also have "n div 2 ^ 16 div 256 * 256 + n div 2 ^ 16 mod 256 = n div 2 ^ 16"
    by (rule div_mult_mod_eq)
  also have "n div 2 ^ 16 = n div 2 ^ 8 div 256"
    by (simp add: div_mult2_eq [symmetric])
  also have "n div 2 ^ 8 div 256 * 256 + n div 2 ^ 8 mod 256 = n div 256"
    by (simp only: div_mult_mod_eq) simp
  also have "n div 256 * 256 + n mod 256 = n"
    by (rule div_mult_mod_eq)
  finally show ?thesis .
qed

lemma be32_digits_less:
  fixes w x y z :: nat
  assumes "w < 256" "x < 256" "y < 256" "z < 256"
  shows "((w * 256 + x) * 256 + y) * 256 + z < 4294967296"
proof -
  have "w * 256 + x < 65536" using assms by simp
  then have "(w * 256 + x) * 256 + y < 16777216" using assms by simp
  then show ?thesis using assms by simp
qed

lemma unpack_be32_less:
  assumes "length bs = 4"
  shows "unpack_be32 bs < 2 ^ 32"
proof -
  from assms obtain a b c d where bs: "bs = [a, b, c, d]"
    by (auto simp: length_Suc_conv eval_nat_numeral)
  have bound: "unat x < 256" for x :: byte
  proof -
    have "int (unat x) < 256" using uint_bounded [of x] by simp
    then show ?thesis by linarith
  qed
  have "unpack_be32 bs = ((unat a * 256 + unat b) * 256 + unat c) * 256 + unat d"
    by (simp add: bs unpack_be32_def)
  also have "\<dots> < 4294967296"
    by (intro be32_digits_less bound)
  finally show ?thesis by simp
qed

end
