(* ===== verification/Session_Compiler.thy ===== *)
theory Session_Compiler
  imports Py_Values
begin

text \<open>
  The request of a live session and its compilation: the models of
  \<open>src/backend/app/presentation/schemas/live_sessions.py\<close> and
  \<open>src/backend/app/services/live_session_compiler.py\<close>. A request is a value that the schema has
  already parsed; \<open>request_ok\<close> is what its field bounds guarantee. The syntax check of source URLs
  is not modelled. The digest (SHA-256 of the canonical JSON text) is a parameter.
\<close>

section \<open>Requests\<close>

datatype live_source = RtspPull string | WhepPull string | WhipPush

fun source_kind :: "live_source \<Rightarrow> string" where
  "source_kind (RtspPull _) = ''rtspPull''"
| "source_kind (WhepPull _) = ''whepPull''"
| "source_kind WhipPush = ''whipPush''"

fun source_url :: "live_source \<Rightarrow> string option" where
  "source_url (RtspPull u) = Some u"
| "source_url (WhepPull u) = Some u"
| "source_url WhipPush = None"

record live_location =
  loc_site :: "string option"
  loc_area :: "string option"
  loc_display_name :: "string option"

record live_processing =
  lp_mode :: string
  lp_sampling_mode :: string
  lp_sampling_value :: real
  lp_detector_threshold :: real
  lp_recognition_threshold :: real
  lp_anonymous_threshold :: real
  lp_top2_margin :: real
  lp_minimum_identity_evidence :: int
  lp_track_gap_ms :: int
  lp_persistent_anonymous :: bool

record live_source_policy =
  sp_latency_ms :: int
  sp_frame_timeout_ms :: int
  sp_reconnect_interval_ms :: int
  sp_reconnect_attempts :: int

record live_json_output =
  jo_connector_refs :: "string list"
  jo_persist_frames :: bool
  jo_frame_retention :: string
  jo_appearance_summary :: bool

record live_recording_output =
  ro_enabled :: bool
  ro_segment_duration :: string
  ro_retention :: string

record live_annotated_output =
  ao_enabled :: bool
  ao_box_enabled :: bool
  ao_box_line_width :: int
  ao_landmarks_enabled :: bool
  ao_label_fields :: "string list"

record session_request =
  sr_schema_version :: int
  sr_profile :: string
  sr_source :: live_source
  sr_processing :: live_processing
  sr_source_policy :: live_source_policy
  sr_json :: live_json_output
  sr_recording :: live_recording_output
  sr_annotated :: live_annotated_output

text \<open>A create request also names the camera.\<close>

record create_request = session_request +
  sr_camera_id :: string
  sr_location :: "live_location option"

definition unit_interval :: "real \<Rightarrow> bool" where
  "unit_interval x = (0 \<le> x \<and> x \<le> 1)"

definition processing_ok :: "live_processing \<Rightarrow> bool" where
  "processing_ok p =
     (lp_mode p \<in> {''detect'', ''detectTrack'', ''recognize''}
      \<and> lp_sampling_mode p \<in> {''everyNFrames'', ''framesPerSecond''} \<and> 0 < lp_sampling_value p
      \<and> unit_interval (lp_detector_threshold p) \<and> unit_interval (lp_recognition_threshold p)
      \<and> unit_interval (lp_anonymous_threshold p) \<and> unit_interval (lp_top2_margin p)
      \<and> 1 \<le> lp_minimum_identity_evidence p \<and> 0 < lp_track_gap_ms p)"

definition source_policy_ok :: "live_source_policy \<Rightarrow> bool" where
  "source_policy_ok p =
     (0 \<le> sp_latency_ms p \<and> sp_latency_ms p \<le> 5000
      \<and> 0 < sp_frame_timeout_ms p \<and> sp_frame_timeout_ms p \<le> 120000
      \<and> 0 < sp_reconnect_interval_ms p \<and> sp_reconnect_interval_ms p \<le> 120000
      \<and> -1 \<le> sp_reconnect_attempts p)"

definition request_ok :: "'a session_request_scheme \<Rightarrow> bool" where
  "request_ok r =
     (sr_schema_version r = 1 \<and> processing_ok (sr_processing r) \<and> source_policy_ok (sr_source_policy r)
      \<and> 1 \<le> ao_box_line_width (sr_annotated r) \<and> ao_box_line_width (sr_annotated r) \<le> 10
      \<and> list_all canonical_uuid (jo_connector_refs (sr_json r)))"

section \<open>The compiler\<close>

record resolved_spec =
  rv_schema_version :: int
  rv_profile_id :: string
  rv_profile_version :: int
  rv_source_type :: string
  rv_processing :: live_processing
  rv_source_policy :: live_source_policy
  rv_json :: live_json_output
  rv_recording :: live_recording_output
  rv_annotated :: live_annotated_output
  rv_spec_hash :: string

text \<open>\<open>asdict\<close> of the parts. The alignment is a constant of the processing part.\<close>

abbreviation pkey :: "string \<Rightarrow> pyval \<Rightarrow> pyval \<times> pyval" where
  "pkey k v \<equiv> (PStr k, v)"

definition processing_dict :: "live_processing \<Rightarrow> pydict" where
  "processing_dict p =
     [pkey ''mode'' (PStr (lp_mode p)), pkey ''sampling_mode'' (PStr (lp_sampling_mode p)),
      pkey ''sampling_value'' (PFloat (Fin (lp_sampling_value p))),
      pkey ''detector_threshold'' (PFloat (Fin (lp_detector_threshold p))),
      pkey ''recognition_threshold'' (PFloat (Fin (lp_recognition_threshold p))),
      pkey ''anonymous_threshold'' (PFloat (Fin (lp_anonymous_threshold p))),
      pkey ''top2_margin'' (PFloat (Fin (lp_top2_margin p))),
      pkey ''minimum_identity_evidence'' (PInt (lp_minimum_identity_evidence p)),
      pkey ''track_gap_ms'' (PInt (lp_track_gap_ms p)),
      pkey ''persistent_anonymous'' (PBool (lp_persistent_anonymous p)),
      pkey ''alignment'' (PStr ''fivePoint'')]"

definition source_policy_dict :: "live_source_policy \<Rightarrow> pydict" where
  "source_policy_dict p =
     [pkey ''latency_ms'' (PInt (sp_latency_ms p)), pkey ''frame_timeout_ms'' (PInt (sp_frame_timeout_ms p)),
      pkey ''reconnect_interval_ms'' (PInt (sp_reconnect_interval_ms p)),
      pkey ''reconnect_attempts'' (PInt (sp_reconnect_attempts p))]"

definition json_dict :: "live_json_output \<Rightarrow> pydict" where
  "json_dict j =
     [pkey ''connector_refs'' (PList (map PStr (jo_connector_refs j))),
      pkey ''persist_frames'' (PBool (jo_persist_frames j)),
      pkey ''frame_retention'' (PStr (jo_frame_retention j)),
      pkey ''appearance_summary_enabled'' (PBool (jo_appearance_summary j))]"

definition recording_dict :: "live_recording_output \<Rightarrow> pydict" where
  "recording_dict r =
     [pkey ''enabled'' (PBool (ro_enabled r)), pkey ''segment_duration'' (PStr (ro_segment_duration r)),
      pkey ''retention'' (PStr (ro_retention r))]"

definition annotated_dict :: "live_annotated_output \<Rightarrow> pydict" where
  "annotated_dict a =
     [pkey ''enabled'' (PBool (ao_enabled a)), pkey ''bounding_box_enabled'' (PBool (ao_box_enabled a)),
      pkey ''bounding_box_line_width'' (PInt (ao_box_line_width a)),
      pkey ''landmarks_enabled'' (PBool (ao_landmarks_enabled a)),
      pkey ''label_fields'' (PList (map PStr (ao_label_fields a)))]"

definition canonical_values :: "int \<Rightarrow> 'a session_request_scheme \<Rightarrow> pydict" where
  "canonical_values version r =
     [pkey ''schema_version'' (PInt (sr_schema_version r)), pkey ''profile_id'' (PStr (sr_profile r)),
      pkey ''profile_version'' (PInt version), pkey ''source_type'' (PStr (source_kind (sr_source r))),
      pkey ''processing'' (PDict (processing_dict (sr_processing r))),
      pkey ''source_policy'' (PDict (source_policy_dict (sr_source_policy r))),
      pkey ''json'' (PDict (json_dict (sr_json r))),
      pkey ''recording'' (PDict (recording_dict (sr_recording r))),
      pkey ''annotated_stream'' (PDict (annotated_dict (sr_annotated r)))]"

definition compile ::
  "string \<Rightarrow> int \<Rightarrow> (pydict \<Rightarrow> string) \<Rightarrow> 'a session_request_scheme \<Rightarrow> resolved_spec result" where
  "compile profile version digest r =
     (if sr_profile r \<noteq> profile then Inl (ValueError ''LIVE_PROFILE_NOT_FOUND'')
      else if jo_connector_refs (sr_json r) = [] \<and> \<not> jo_persist_frames (sr_json r)
      then Inl (ValueError ''LIVE_JSON_SINK_REQUIRED'')
      else if lp_mode (sr_processing r) \<noteq> ''recognize'' \<and> lp_persistent_anonymous (sr_processing r)
      then Inl (ValueError ''LIVE_SESSION_SPEC_INVALID'')
      else Inr \<lparr>rv_schema_version = sr_schema_version r, rv_profile_id = sr_profile r,
                rv_profile_version = version, rv_source_type = source_kind (sr_source r),
                rv_processing = sr_processing r, rv_source_policy = sr_source_policy r,
                rv_json = sr_json r, rv_recording = sr_recording r, rv_annotated = sr_annotated r,
                rv_spec_hash = digest (canonical_values version r)\<rparr>)"

text \<open>\<open>asdict(resolved)\<close>, as it is stored.\<close>

definition resolved_dict :: "resolved_spec \<Rightarrow> pydict" where
  "resolved_dict v =
     [pkey ''schema_version'' (PInt (rv_schema_version v)), pkey ''profile_id'' (PStr (rv_profile_id v)),
      pkey ''profile_version'' (PInt (rv_profile_version v)), pkey ''source_type'' (PStr (rv_source_type v)),
      pkey ''processing'' (PDict (processing_dict (rv_processing v))),
      pkey ''source_policy'' (PDict (source_policy_dict (rv_source_policy v))),
      pkey ''json'' (PDict (json_dict (rv_json v))),
      pkey ''recording'' (PDict (recording_dict (rv_recording v))),
      pkey ''annotated_stream'' (PDict (annotated_dict (rv_annotated v))),
      pkey ''spec_hash'' (PStr (rv_spec_hash v))]"

section \<open>Snapshots of a request\<close>

definition opt_str :: "string option \<Rightarrow> pyval" where
  "opt_str s = (case s of None \<Rightarrow> PNone | Some t \<Rightarrow> PStr t)"

definition location_dump :: "live_location \<Rightarrow> pydict" where
  "location_dump l =
     [pkey ''site'' (opt_str (loc_site l)), pkey ''area'' (opt_str (loc_area l)),
      pkey ''displayName'' (opt_str (loc_display_name l))]"

definition location_snapshot :: "create_request \<Rightarrow> pydict option" where
  "location_snapshot r = map_option (\<lambda>l. filter (\<lambda>kv. snd kv \<noteq> PNone) (location_dump l)) (sr_location r)"

text \<open>
  \<open>model_dump\<close> in the JSON mode, by alias, with the source reduced to its type. A create request has
  its camera and location between the version and the profile.
\<close>

definition processing_dump :: "live_processing \<Rightarrow> pydict" where
  "processing_dump p =
     [pkey ''mode'' (PStr (lp_mode p)),
      pkey ''sampling'' (PDict [pkey ''mode'' (PStr (lp_sampling_mode p)),
        pkey ''value'' (PFloat (Fin (lp_sampling_value p)))]),
      pkey ''detectorThreshold'' (PFloat (Fin (lp_detector_threshold p))),
      pkey ''recognitionThreshold'' (PFloat (Fin (lp_recognition_threshold p))),
      pkey ''anonymousThreshold'' (PFloat (Fin (lp_anonymous_threshold p))),
      pkey ''top2Margin'' (PFloat (Fin (lp_top2_margin p))),
      pkey ''minimumIdentityEvidence'' (PInt (lp_minimum_identity_evidence p)),
      pkey ''trackGapMs'' (PInt (lp_track_gap_ms p)),
      pkey ''persistentAnonymous'' (PBool (lp_persistent_anonymous p))]"

definition outputs_dump :: "'a session_request_scheme \<Rightarrow> pydict" where
  "outputs_dump r =
     [pkey ''sourcePolicy'' (PDict
        [pkey ''latencyMs'' (PInt (sp_latency_ms (sr_source_policy r))),
         pkey ''frameTimeoutMs'' (PInt (sp_frame_timeout_ms (sr_source_policy r))),
         pkey ''reconnectIntervalMs'' (PInt (sp_reconnect_interval_ms (sr_source_policy r))),
         pkey ''reconnectAttempts'' (PInt (sp_reconnect_attempts (sr_source_policy r)))]),
      pkey ''json'' (PDict
        [pkey ''connectorRefs'' (PList (map PStr (jo_connector_refs (sr_json r)))),
         pkey ''persistFrames'' (PBool (jo_persist_frames (sr_json r))),
         pkey ''frameRetention'' (PStr (jo_frame_retention (sr_json r))),
         pkey ''appearanceSummary'' (PDict [pkey ''enabled'' (PBool (jo_appearance_summary (sr_json r)))])]),
      pkey ''recording'' (PDict
        [pkey ''enabled'' (PBool (ro_enabled (sr_recording r))),
         pkey ''segmentDuration'' (PStr (ro_segment_duration (sr_recording r))),
         pkey ''retention'' (PStr (ro_retention (sr_recording r)))]),
      pkey ''annotatedStream'' (PDict
        [pkey ''enabled'' (PBool (ao_enabled (sr_annotated r))),
         pkey ''boundingBox'' (PDict [pkey ''enabled'' (PBool (ao_box_enabled (sr_annotated r))),
           pkey ''lineWidth'' (PInt (ao_box_line_width (sr_annotated r)))]),
         pkey ''landmarks'' (PDict [pkey ''enabled'' (PBool (ao_landmarks_enabled (sr_annotated r)))]),
         pkey ''labelFields'' (PList (map PStr (ao_label_fields (sr_annotated r))))])]"

definition safe_snapshot :: "pydict \<Rightarrow> 'a session_request_scheme \<Rightarrow> pydict" where
  "safe_snapshot camera r =
     [pkey ''schemaVersion'' (PInt (sr_schema_version r))] @ camera @
     [pkey ''profile'' (PStr (sr_profile r)),
      pkey ''source'' (PDict [pkey ''type'' (PStr (source_kind (sr_source r)))]),
      pkey ''processing'' (PDict (processing_dump (sr_processing r)))] @ outputs_dump r"

definition create_snapshot :: "create_request \<Rightarrow> pydict" where
  "create_snapshot r =
     safe_snapshot
       [pkey ''cameraId'' (PStr (sr_camera_id r)),
        pkey ''location'' (case sr_location r of None \<Rightarrow> PNone | Some l \<Rightarrow> PDict (location_dump l))] r"

definition reconfigure_snapshot :: "session_request \<Rightarrow> pydict" where
  "reconfigure_snapshot r = safe_snapshot [] r"

section \<open>What does not depend on the source URL\<close>

text \<open>The same request with another address of the same kind of source.\<close>

definition same_but_url :: "'a session_request_scheme \<Rightarrow> 'a session_request_scheme \<Rightarrow> bool" where
  "same_but_url r r' = (source_kind (sr_source r) = source_kind (sr_source r') \<and> r' = r\<lparr>sr_source := sr_source r'\<rparr>)"

lemma same_but_urlD:
  assumes "same_but_url r r'"
  shows "compile profile version digest r' = compile profile version digest r"
    and "safe_snapshot camera r' = safe_snapshot camera r"
proof -
  from assms have k: "source_kind (sr_source r') = source_kind (sr_source r)" by (simp add: same_but_url_def)
  from assms have r': "r' = r\<lparr>sr_source := sr_source r'\<rparr>" by (simp add: same_but_url_def)
  have "canonical_values version (r\<lparr>sr_source := s\<rparr>) = canonical_values version r"
    "safe_snapshot camera (r\<lparr>sr_source := s\<rparr>) = safe_snapshot camera r"
    "compile profile version digest (r\<lparr>sr_source := s\<rparr>) = compile profile version digest r"
    if "source_kind s = source_kind (sr_source r)" for s
    using that by (simp_all add: canonical_values_def safe_snapshot_def outputs_dump_def compile_def)
  from this(2,3) [OF k] show "compile profile version digest r' = compile profile version digest r"
    "safe_snapshot camera r' = safe_snapshot camera r"
    using r' by simp_all
qed

lemma same_but_url_create:
  assumes "same_but_url r r'"
  shows "create_snapshot r' = create_snapshot r" and "location_snapshot r' = location_snapshot r"
    and "sr_camera_id r' = sr_camera_id r"
proof -
  from assms have r': "r' = r\<lparr>sr_source := sr_source r'\<rparr>" by (simp add: same_but_url_def)
  have c: "sr_camera_id r' = sr_camera_id r" "sr_location r' = sr_location r"
    using arg_cong [OF r', of sr_camera_id] arg_cong [OF r', of sr_location] by simp_all
  show "create_snapshot r' = create_snapshot r" "location_snapshot r' = location_snapshot r" "sr_camera_id r' = sr_camera_id r"
    using same_but_urlD(2) [OF assms] c by (simp_all add: create_snapshot_def location_snapshot_def)
qed

end
