(* ===== verification/Leases.thy ===== *)
theory Leases
  imports Prelude
begin

text \<open>
  Leases over database rows, the pattern the video job, live run and live session repositories
  share: a row names its holder, an operation of a worker carries the worker's own credentials,
  and it changes the row only when the two agree. Timestamps are integers (microseconds since the
  epoch); comparing a NULL timestamp is false, as in SQL. Each repository operation is one atomic
  step: the row locks and the transactions of the server serialise them.
\<close>

type_synonym time = int

definition seconds :: "int \<Rightarrow> time" where
  "seconds n = n * 1000000"

definition sql_ge :: "time option \<Rightarrow> time \<Rightarrow> bool" where
  "sql_ge t now = (case t of None \<Rightarrow> False | Some x \<Rightarrow> now \<le> x)"

definition sql_less :: "time option \<Rightarrow> time \<Rightarrow> bool" where
  "sql_less t now = (case t of None \<Rightarrow> False | Some x \<Rightarrow> x < now)"

definition sql_greater :: "time option \<Rightarrow> time \<Rightarrow> bool" where
  "sql_greater t now = (case t of None \<Rightarrow> False | Some x \<Rightarrow> now < x)"

text \<open>A flush that leaves a table in a state its constraints refuse raises IntegrityError.\<close>

definition checked :: "('r list \<Rightarrow> bool) \<Rightarrow> 'r list \<Rightarrow> 'r list result" where
  "checked ok rows = (if ok rows then Inr rows else Inl (OtherError ''IntegrityError''))"

lemma sql_ge_simps [simp]: "sql_ge None n = False" "sql_ge (Some x) n = (n \<le> x)"
  by (simp_all add: sql_ge_def)

lemma sql_less_simps [simp]: "sql_less None n = False" "sql_less (Some x) n = (x < n)"
  by (simp_all add: sql_less_def)

lemma sql_less_not_ge: "sql_less t n \<Longrightarrow> \<not> sql_ge t n"
  by (cases t) auto

lemma sql_ge_mono: "sql_ge t n \<Longrightarrow> m \<le> n \<Longrightarrow> sql_ge t m"
  by (cases t) auto

text \<open>The rows a query with ORDER BY and LIMIT returns.\<close>

definition select_limit ::
  "('r \<Rightarrow> bool) \<Rightarrow> ('r \<Rightarrow> 'o::linorder) \<Rightarrow> nat \<Rightarrow> 'r list \<Rightarrow> 'r list" where
  "select_limit cond m n rows = take n (sort_key m (filter cond rows))"

lemma select_limit_set: "r \<in> set (select_limit cond m n rows) \<Longrightarrow> r \<in> set rows \<and> cond r"
  by (auto simp: select_limit_def dest: in_set_takeD)

lemma row_get_append:
  "row_get key k (xs @ ys) =
     (case row_get key k xs of None \<Rightarrow> row_get key k ys | Some r \<Rightarrow> Some r)"
  unfolding row_get_def by (induction xs) auto

lemma row_get_map:
  assumes "\<And>r. key (f r) = key r"
  shows "row_get key k (map f rows) = map_option f (row_get key k rows)"
  using assms by (induction rows) (auto simp: row_get_def)

lemma count_row_update_same:
  assumes "\<And>r. r \<in> set rows \<Longrightarrow> key r = k \<Longrightarrow> P (f r) \<Longrightarrow> P r"
  shows "length (filter P (row_update key k f rows)) \<le> length (filter P rows)"
  unfolding row_update_def by (rule count_map_le) (use assms in \<open>auto split: if_splits\<close>)

section \<open>The fencing contract\<close>

text \<open>
  \<open>act op k h rows\<close> is operation \<open>op\<close> on row \<open>k\<close> by a worker with credentials \<open>h\<close>. The contract: a
  worker that is not the row's holder is refused and changes nothing; no other row is touched;
  and no operation hands the row to somebody else.
\<close>

locale lease_fence =
  fixes key :: "'r \<Rightarrow> 'k" and holder :: "'r \<Rightarrow> 'h option"
    and act :: "'op \<Rightarrow> 'k \<Rightarrow> 'h \<Rightarrow> 'r list \<Rightarrow> 'r list \<times> bool"
  assumes refused: "map_option holder (row_get key k rows) \<noteq> Some (Some h) \<Longrightarrow>
      act op k h rows = (rows, False)"
    and frame: "k' \<noteq> k \<Longrightarrow> row_get key k' (fst (act op k h rows)) = row_get key k' rows"
    and no_grant: "row_get key k (fst (act op k h rows)) = Some r' \<Longrightarrow>
      \<exists>r. row_get key k rows = Some r \<and> (holder r' = holder r \<or> holder r' = None)"
begin

text \<open>A history of operations by any workers.\<close>

definition run :: "('op \<times> 'k \<times> 'h) list \<Rightarrow> 'r list \<Rightarrow> 'r list" where
  "run ops rows = foldl (\<lambda>rs (op, k, h). fst (act op k h rs)) rows ops"

lemma run_Nil [simp]: "run [] rows = rows"
  by (simp add: run_def)

lemma run_Cons [simp]: "run ((op, k, h) # ops) rows = run ops (fst (act op k h rows))"
  by (simp add: run_def)

lemma lost_step:
  assumes "map_option holder (row_get key k rows) \<noteq> Some (Some h)"
  shows "map_option holder (row_get key k (fst (act op k' h' rows))) \<noteq> Some (Some h)"
proof (cases "k' = k")
  case True
  with assms no_grant [of k op h' rows] show ?thesis
    by (cases "row_get key k (fst (act op k h' rows))") auto
next
  case False
  with assms frame [of k k' op h' rows] show ?thesis by simp
qed

text \<open>A worker that has lost a row stays locked out of it, whatever the others do.\<close>

lemma lost_stays_lost:
  assumes "map_option holder (row_get key k rows) \<noteq> Some (Some h)"
  shows "map_option holder (row_get key k (run ops rows)) \<noteq> Some (Some h)"
  using assms
proof (induction ops arbitrary: rows)
  case (Cons p ops)
  obtain op k' h' where "p = (op, k', h')" by (cases p)
  with Cons.IH [OF lost_step [OF Cons.prems]] show ?case by simp
qed simp

lemma lost_refused:
  assumes "map_option holder (row_get key k rows) \<noteq> Some (Some h)"
  shows "act op k h (run ops rows) = (run ops rows, False)"
  by (rule refused [OF lost_stays_lost [OF assms]])

end

section \<open>Opening the next attempt\<close>

text \<open>
  The newest row of a group, and the rows after a claim has closed it when it was not finished:
  the part the claims of the live repositories have in common.
\<close>

definition latest_row :: "('r \<Rightarrow> string) \<Rightarrow> ('r \<Rightarrow> int) \<Rightarrow> string \<Rightarrow> 'r list \<Rightarrow> 'r option" where
  "latest_row grp num g rows = select_first (\<lambda>r. grp r = g) (\<lambda>r. - num r) rows"

definition close_latest ::
  "('r \<Rightarrow> string) \<Rightarrow> ('r \<Rightarrow> string) \<Rightarrow> ('r \<Rightarrow> int) \<Rightarrow> ('r \<Rightarrow> bool) \<Rightarrow> ('r \<Rightarrow> 'r) \<Rightarrow> string \<Rightarrow>
   'r list \<Rightarrow> 'r \<Rightarrow> 'r"
where
  "close_latest rid grp num done_run expire g rows r =
     (case latest_row grp num g rows of
        None \<Rightarrow> r
      | Some l \<Rightarrow> if \<not> done_run l \<and> rid r = rid l then expire r else r)"

definition next_number :: "('r \<Rightarrow> string) \<Rightarrow> ('r \<Rightarrow> int) \<Rightarrow> string \<Rightarrow> 'r list \<Rightarrow> int" where
  "next_number grp num g rows =
     (case latest_row grp num g rows of None \<Rightarrow> 1 | Some l \<Rightarrow> num l + 1)"

lemma latest_row_Some:
  assumes "latest_row grp num g rows = Some l"
  shows "l \<in> set rows" and "grp l = g" and "\<And>r. r \<in> set rows \<Longrightarrow> grp r = g \<Longrightarrow> num r \<le> num l"
  using select_first_Some [OF assms [unfolded latest_row_def]] by auto

lemma latest_row_None: "latest_row grp num g rows = None \<longleftrightarrow> (\<forall>r \<in> set rows. grp r \<noteq> g)"
  by (auto simp: latest_row_def select_first_None)

lemma next_number_greater: "r \<in> set rows \<Longrightarrow> num r < next_number grp num (grp r) rows"
  using latest_row_Some(3) [of grp num "grp r" rows] latest_row_None [of grp num "grp r" rows]
  by (fastforce simp: next_number_def split: option.splits)

lemma latest_row_unique:
  assumes "distinct (map (\<lambda>r. (grp r, num r)) rows)" and "r \<in> set rows"
    and "\<forall>s \<in> set rows. grp s = grp r \<longrightarrow> num s \<le> num r"
  shows "latest_row grp num (grp r) rows = Some r"
proof -
  obtain l where l: "latest_row grp num (grp r) rows = Some l"
    using assms(2) latest_row_None [of grp num "grp r" rows] by auto
  note lat = latest_row_Some [OF l]
  have "num r = num l" using assms(2,3) lat by (simp add: order_antisym)
  then have "r = l" using assms(1,2) lat(1,2) by (auto simp: distinct_map dest: inj_onD)
  with l show ?thesis by simp
qed

lemma close_latest_key:
  "(\<And>r. key (expire r) = key r) \<Longrightarrow>
     key (close_latest rid grp num done_run expire g rows r) = key r"
  by (auto simp: close_latest_def split: option.splits)

lemma map_close_latest:
  "map (close_latest rid grp num done_run expire g rows) rows =
     (case latest_row grp num g rows of
        None \<Rightarrow> rows
      | Some l \<Rightarrow> if done_run l then rows else row_update rid (rid l) expire rows)"
  by (auto simp: close_latest_def row_update_def map_idI split: option.splits)

lemma close_latest_done:
  "latest_row grp num g rows = Some l \<Longrightarrow> done_run (expire l) \<Longrightarrow>
     done_run (close_latest rid grp num done_run expire g rows l)"
  by (simp add: close_latest_def)

lemma close_latest_leased:
  "(\<And>r. \<not> leased (expire r)) \<Longrightarrow> leased (close_latest rid grp num done_run expire g rows r) \<Longrightarrow>
     close_latest rid grp num done_run expire g rows r = r"
  by (auto simp: close_latest_def split: option.splits if_splits)

lemma close_latest_other:
  assumes "distinct (map rid rows)" and "r \<in> set rows" and "grp r \<noteq> g"
  shows "close_latest rid grp num done_run expire g rows r = r"
proof -
  have "rid r \<noteq> rid l" if "latest_row grp num g rows = Some l" for l
    using assms latest_row_Some(1,2) [OF that] by (auto simp: distinct_map dest: inj_onD)
  then show ?thesis by (auto simp: close_latest_def split: option.splits)
qed

lemma close_latest_law:
  assumes "\<And>r. rid (expire r) = rid r" "\<And>r. grp (expire r) = grp r" "\<And>r. num (expire r) = num r"
    and "\<And>r. \<not> leased (expire r)" and "\<And>r. done_run (expire r)"
    and nums: "distinct (map (\<lambda>r. (grp r, num r)) rows)"
    and n: "leased n" "\<not> done_run n" "rid n \<notin> rid ` set rows" "grp n = g"
    and num: "num n = next_number grp num g rows"
    and rows': "rows' = map (close_latest rid grp num done_run expire g rows) rows @ [n]"
  shows "leased n \<and> \<not> done_run n \<and> rid n \<notin> rid ` set rows \<and>
      (\<forall>r \<in> set rows. grp r = grp n \<longrightarrow> num r < num n) \<and>
      (\<exists>f. rows' = map f rows @ [n] \<and>
        (\<forall>r. rid (f r) = rid r \<and> grp (f r) = grp r \<and> num (f r) = num r \<and>
          (leased (f r) \<longrightarrow> f r = r)) \<and>
        (\<forall>r \<in> set rows. grp r = grp n \<and> (\<forall>s \<in> set rows. grp s = grp n \<longrightarrow> num s \<le> num r) \<longrightarrow>
          done_run (f r)))"
proof -
  let ?f = "close_latest rid grp num done_run expire g rows"
  have "\<forall>r \<in> set rows. grp r = grp n \<longrightarrow> num r < num n"
    using next_number_greater [of _ rows num grp] n(4) num by metis
  moreover have "\<forall>r. rid (?f r) = rid r \<and> grp (?f r) = grp r \<and> num (?f r) = num r \<and>
      (leased (?f r) \<longrightarrow> ?f r = r)"
    using assms(1-4) close_latest_leased [where leased = leased and expire = expire]
    by (simp add: close_latest_key)
  moreover have "done_run (?f r)" if "r \<in> set rows" "grp r = grp n"
    "\<forall>s \<in> set rows. grp s = grp n \<longrightarrow> num s \<le> num r" for r
  proof -
    have "latest_row grp num (grp r) rows = Some r"
      by (rule latest_row_unique [OF nums that(1)]) (use that(2,3) in simp)
    then show ?thesis using that(2) n(4) assms(5) by (simp add: close_latest_done)
  qed
  ultimately show ?thesis using n(1-3) rows' by (intro conjI exI [of _ ?f]) simp_all
qed

section \<open>Numbered attempts under exclusive leases\<close>

text \<open>
  The live repositories keep one row per attempt: attempts belong to a group (a camera, or a
  session generation), are numbered within it, and the newest one may be leased. \<open>claim\<close> opens the
  next attempt, closing an abandoned one; \<open>act\<close> is an operation of a worker on one row. The
  contract says how the two may change the table; the lemmas derive that at most one attempt of
  a group is leased, that it is the newest, and that numbers grow.
\<close>

locale attempt_table =
  fixes rid :: "'r \<Rightarrow> string" and grp :: "'r \<Rightarrow> string" and num :: "'r \<Rightarrow> int"
    and leased :: "'r \<Rightarrow> bool" and done_run :: "'r \<Rightarrow> bool"
    and claim :: "'a \<Rightarrow> 'r list \<Rightarrow> 'r list \<times> 'r option"
    and act :: "'op \<Rightarrow> string \<Rightarrow> 'h \<Rightarrow> 'r list \<Rightarrow> 'r list \<times> bool"
  assumes act_rows: "\<exists>f. fst (act op k h rows) = map f rows \<and>
      (\<forall>r. rid (f r) = rid r \<and> grp (f r) = grp r \<and> num (f r) = num r \<and>
        (leased (f r) \<longrightarrow> leased r \<and> (done_run (f r) \<longrightarrow> done_run r)))"
    and claim_None: "claim a rows = (rows', None) \<Longrightarrow> rows' = rows"
    and claim_Some: "claim a rows = (rows', Some n) \<Longrightarrow>
      distinct (map rid rows) \<Longrightarrow> distinct (map (\<lambda>r. (grp r, num r)) rows) \<Longrightarrow>
      leased n \<and> \<not> done_run n \<and> rid n \<notin> rid ` set rows \<and>
      (\<forall>r \<in> set rows. grp r = grp n \<longrightarrow> num r < num n) \<and>
      (\<exists>f. rows' = map f rows @ [n] \<and>
        (\<forall>r. rid (f r) = rid r \<and> grp (f r) = grp r \<and> num (f r) = num r \<and>
          (leased (f r) \<longrightarrow> f r = r)) \<and>
        (\<forall>r \<in> set rows. grp r = grp n \<and> (\<forall>s \<in> set rows. grp s = grp n \<longrightarrow> num s \<le> num r) \<longrightarrow>
          done_run (f r)))"
begin

definition table_ok :: "'r list \<Rightarrow> bool" where
  "table_ok rows =
     (distinct (map rid rows) \<and> distinct (map (\<lambda>r. (grp r, num r)) rows) \<and>
      (\<forall>r \<in> set rows. leased r \<longrightarrow>
         \<not> done_run r \<and> (\<forall>s \<in> set rows. grp s = grp r \<longrightarrow> num s \<le> num r)))"

lemma table_ok_Nil: "table_ok []"
  by (simp add: table_ok_def)

lemma leased_unique:
  assumes "table_ok rows" and "r \<in> set rows" and "s \<in> set rows" and "leased r" and "leased s"
    and "grp r = grp s"
  shows "r = s"
proof -
  from assms have "num r = num s" unfolding table_ok_def by (metis order_antisym)
  moreover have "inj_on (\<lambda>r. (grp r, num r)) (set rows)"
    using assms(1) by (simp add: table_ok_def distinct_map)
  ultimately show ?thesis using assms(2,3,6) by (auto dest: inj_onD)
qed

lemma table_ok_map:
  assumes "table_ok rows"
    and "\<And>r. rid (f r) = rid r" "\<And>r. grp (f r) = grp r" "\<And>r. num (f r) = num r"
    and "\<And>r. r \<in> set rows \<Longrightarrow> leased (f r) \<Longrightarrow> leased r \<and> (done_run (f r) \<longrightarrow> done_run r)"
  shows "table_ok (map f rows)"
  using assms by (fastforce simp: table_ok_def comp_def)

lemma table_ok_act: "table_ok rows \<Longrightarrow> table_ok (fst (act op k h rows))"
  using act_rows [of op k h rows] by (elim exE conjE) (auto intro!: table_ok_map)

lemma claim_cases:
  assumes "claim a rows = (rows', Some n)" and "table_ok rows"
  obtains f where "rows' = map f rows @ [n]"
    and "\<forall>r. rid (f r) = rid r \<and> grp (f r) = grp r \<and> num (f r) = num r \<and> (leased (f r) \<longrightarrow> f r = r)"
    and "\<forall>r \<in> set rows. grp r = grp n \<and> (\<forall>s \<in> set rows. grp s = grp n \<longrightarrow> num s \<le> num r) \<longrightarrow>
          done_run (f r)"
    and "leased n" and "\<not> done_run n" and "rid n \<notin> rid ` set rows"
    and "\<forall>r \<in> set rows. grp r = grp n \<longrightarrow> num r < num n"
proof -
  from assms(2) have "distinct (map rid rows)" "distinct (map (\<lambda>r. (grp r, num r)) rows)"
    by (simp_all add: table_ok_def)
  from claim_Some [OF assms(1) this] show thesis by (elim conjE exE) (rule that)
qed

lemma claim_closes:
  assumes "table_ok rows" and "claim a rows = (rows', Some n)" and "r \<in> set rows'" and "leased r"
    and "grp r = grp n"
  shows "r = n"
proof (rule ccontr)
  assume "r \<noteq> n"
  from assms(2,1) show False
  proof (rule claim_cases)
    fix f assume f: "rows' = map f rows @ [n]"
      and keep: "\<forall>r. rid (f r) = rid r \<and> grp (f r) = grp r \<and> num (f r) = num r \<and> (leased (f r) \<longrightarrow> f r = r)"
      and closed: "\<forall>r \<in> set rows. grp r = grp n \<and> (\<forall>s \<in> set rows. grp s = grp n \<longrightarrow> num s \<le> num r) \<longrightarrow>
          done_run (f r)"
    from assms(3) f \<open>r \<noteq> n\<close> obtain q where q: "q \<in> set rows" "r = f q" by auto
    with keep assms(4) have "f q = q" by blast
    with q assms(4,5) have lease: "leased q" "grp q = grp n" by auto
    with assms(1) q(1) have "\<not> done_run q" "\<forall>s \<in> set rows. grp s = grp n \<longrightarrow> num s \<le> num q"
      by (simp_all add: table_ok_def)
    with closed q(1) lease(2) \<open>f q = q\<close> show False by metis
  qed
qed

lemma table_ok_snoc:
  assumes "table_ok rows" and "\<not> done_run n" and "rid n \<notin> rid ` set rows"
    and "\<forall>r \<in> set rows. grp r = grp n \<longrightarrow> num r < num n"
    and "\<forall>r \<in> set rows. grp r = grp n \<longrightarrow> \<not> leased r"
  shows "table_ok (rows @ [n])"
  using assms by (auto simp: table_ok_def less_le)

lemma table_ok_claim:
  assumes "table_ok rows" and "claim a rows = (rows', on)"
  shows "table_ok rows'"
proof (cases on)
  case None
  with assms claim_None show ?thesis by blast
next
  case (Some n)
  note eq = assms(2) [unfolded Some]
  from eq assms(1) show ?thesis
  proof (rule claim_cases)
    fix f assume f: "rows' = map f rows @ [n]"
      and keep: "\<forall>r. rid (f r) = rid r \<and> grp (f r) = grp r \<and> num (f r) = num r \<and> (leased (f r) \<longrightarrow> f r = r)"
      and n: "\<not> done_run n" "rid n \<notin> rid ` set rows"
        "\<forall>r \<in> set rows. grp r = grp n \<longrightarrow> num r < num n"
    have "table_ok (map f rows)"
      by (rule table_ok_map [OF assms(1)]) (use keep in \<open>simp_all, metis\<close>)
    moreover have fresh: "rid n \<notin> rid ` set (map f rows)" using keep n(2) by force
    moreover have "\<not> leased r" if "r \<in> set (map f rows)" "grp r = grp n" for r
    proof
      assume "leased r"
      with claim_closes [OF assms(1) eq, of r] that f have "r = n" by simp
      with that(1) fresh show False by blast
    qed
    ultimately show ?thesis
      unfolding f using n keep by (intro table_ok_snoc) auto
  qed
qed

text \<open>A row whose lease is gone for good: no operation and no later claim brings it back.\<close>

definition retired :: "string \<Rightarrow> 'r list \<Rightarrow> bool" where
  "retired k rows = (k \<in> rid ` set rows \<and> (\<forall>r \<in> set rows. rid r = k \<longrightarrow> \<not> leased r))"

lemma retired_act: "retired k rows \<Longrightarrow> retired k (fst (act op k' h rows))"
  using act_rows [of op k' h rows] by (elim exE conjE) (auto simp: retired_def image_image)

lemma retired_claim:
  assumes "table_ok rows" and "claim a rows = (rows', on)" and "retired k rows"
  shows "retired k rows'"
proof (cases on)
  case None
  with assms claim_None show ?thesis by blast
next
  case (Some n)
  from assms(2) [unfolded Some] assms(1) show ?thesis
  proof (rule claim_cases)
    fix f assume f: "rows' = map f rows @ [n]"
      and keep: "\<forall>r. rid (f r) = rid r \<and> grp (f r) = grp r \<and> num (f r) = num r \<and> (leased (f r) \<longrightarrow> f r = r)"
      and n: "rid n \<notin> rid ` set rows"
    have "\<not> leased (f r)" if "r \<in> set rows" "rid r = k" for r
      using assms(3) keep that unfolding retired_def by metis
    with assms(3) n keep show ?thesis by (auto simp: f retired_def image_image)
  qed
qed

lemma claim_retires:
  assumes "table_ok rows" and "claim a rows = (rows', Some n)" and "r \<in> set rows" and "grp r = grp n"
  shows "retired (rid r) rows'"
  using assms(2,1)
proof (rule claim_cases)
  fix f assume f: "rows' = map f rows @ [n]"
    and keep: "\<forall>r. rid (f r) = rid r \<and> grp (f r) = grp r \<and> num (f r) = num r \<and> (leased (f r) \<longrightarrow> f r = r)"
    and n: "rid n \<notin> rid ` set rows"
  have "\<not> leased q" if q: "q \<in> set rows'" "rid q = rid r" for q
  proof
    assume "leased q"
    from q f n assms(3) obtain q0 where q0: "q0 \<in> set rows" "q = f q0" by auto
    with q(2) keep have "rid q0 = rid r" by metis
    with assms(1,3) q0(1) have "q0 = r" by (auto simp: table_ok_def distinct_map dest: inj_onD)
    with q0 keep assms(4) have "grp q = grp n" by metis
    with claim_closes [OF assms(1,2) q(1) \<open>leased q\<close>] have "q = n" .
    with q(2) n assms(3) show False by auto
  qed
  moreover have "rid r \<in> rid ` set rows'" using keep assms(3) by (simp add: f image_image)
  ultimately show ?thesis by (auto simp: retired_def)
qed

end

end
