(* ===== verification/Live_Connectors.thy ===== *)
theory Live_Connectors
  imports Leases Py_Values "HOL-Library.Product_Lexorder" "HOL-Library.List_Lexorder" "HOL-Library.Char_ord"
begin

text \<open>
  Connectors, the sinks of a live session's results: the table \<open>live_connector\<close>, its repository and
  \<open>src/backend/app/services/live_connector_service.py\<close>. The cipher and the canonical JSON text of
  the secrets are parameters. The column \<open>updated_at\<close> and the length limits are left out.
\<close>

text \<open>What the services of the live API raise: an error code with an HTTP status, or something unforeseen.\<close>

datatype service_error = ServiceError string int | Unhandled py_exc

type_synonym 'a service_result = "service_error + 'a"

definition lift_py :: "'a result \<Rightarrow> 'a service_result" where
  "lift_py r = (case r of Inl e \<Rightarrow> Inl (Unhandled e) | Inr x \<Rightarrow> Inr x)"

text \<open>\<open>except IntegrityError\<close>, answered with a conflict.\<close>

definition on_integrity_error :: "string \<Rightarrow> py_exc \<Rightarrow> service_error" where
  "on_integrity_error code e = (if e = OtherError ''IntegrityError'' then ServiceError code 409 else Unhandled e)"

section \<open>The table\<close>

record live_connector =
  cn_id :: string
  cn_type :: string
  cn_name :: string
  cn_safe_config :: pydict
  cn_secret_ciphertext :: "string option"
  cn_enabled :: bool
  cn_created_at :: time

definition connectors_ok :: "live_connector list \<Rightarrow> bool" where
  "connectors_ok cs =
     (distinct (map cn_id cs) \<and> distinct (map cn_name cs)
      \<and> list_all (\<lambda>c. cn_type c \<in> {''webhook'', ''kafka''}) cs)"

definition connector_create ::
  "string \<Rightarrow> string \<Rightarrow> string \<Rightarrow> pydict \<Rightarrow> string option \<Rightarrow> time \<Rightarrow> live_connector list \<Rightarrow>
   (live_connector list \<times> live_connector) result"
where
  "connector_create cid kind name safe secret now cs =
     (let c = \<lparr>cn_id = cid, cn_type = kind, cn_name = name, cn_safe_config = safe,
               cn_secret_ciphertext = secret, cn_enabled = True, cn_created_at = now\<rparr>
      in rbind (checked connectors_ok (cs @ [c])) (\<lambda>cs'. Inr (cs', c)))"

definition connector_get :: "string \<Rightarrow> live_connector list \<Rightarrow> live_connector option" where
  "connector_get cid cs = row_get cn_id cid cs"

definition connector_list :: "live_connector list \<Rightarrow> live_connector list" where
  "connector_list cs = sort_key (\<lambda>c. (cn_created_at c, cn_id c)) cs"

definition connector_disable :: "string \<Rightarrow> live_connector list \<Rightarrow> live_connector list \<times> live_connector option" where
  "connector_disable cid cs =
     (case connector_get cid cs of
        None \<Rightarrow> (cs, None)
      | Some c \<Rightarrow> (row_update cn_id cid (\<lambda>c. c\<lparr>cn_enabled := False\<rparr>) cs, Some (c\<lparr>cn_enabled := False\<rparr>)))"

section \<open>Requests\<close>

record webhook_request =
  wh_name :: string
  wh_url :: string
  wh_token :: "string option"
  wh_event_types :: "string list"
  wh_timeout_seconds :: real

record kafka_security =
  ks_protocol :: string
  ks_sasl_mechanism :: "string option"
  ks_username :: "string option"
  ks_password :: "string option"
  ks_ca_certificate :: "string option"

record kafka_request =
  kf_name :: string
  kf_brokers :: "string list"
  kf_topic :: string
  kf_security :: kafka_security
  kf_acknowledgements :: string
  kf_event_types :: "string list"
  kf_timeout_seconds :: real

datatype connector_request = Webhook webhook_request | Kafka kafka_request

fun connector_kind :: "connector_request \<Rightarrow> string" where
  "connector_kind (Webhook _) = ''webhook''"
| "connector_kind (Kafka _) = ''kafka''"

fun connector_name :: "connector_request \<Rightarrow> string" where
  "connector_name (Webhook r) = wh_name r"
| "connector_name (Kafka r) = kf_name r"

section \<open>The service\<close>

definition opt_text :: "string option \<Rightarrow> pyval" where
  "opt_text s = (case s of None \<Rightarrow> PNone | Some t \<Rightarrow> PStr t)"

text \<open>What may be shown, and what is encrypted.\<close>

fun split_config :: "connector_request \<Rightarrow> (pydict \<times> pydict) service_result" where
  "split_config (Webhook r) =
     Inr ([(PStr ''authType'', PStr (if wh_token r = None then ''none'' else ''bearer'')),
           (PStr ''eventTypes'', PList (map PStr (wh_event_types r))),
           (PStr ''timeoutSeconds'', PFloat (Fin (wh_timeout_seconds r)))],
          [(PStr ''authToken'', opt_text (wh_token r)), (PStr ''url'', PStr (wh_url r))])"
| "split_config (Kafka r) =
     (let s = kf_security r
      in if ks_protocol s \<in> {''saslPlaintext'', ''saslSsl''}
            \<and> (ks_sasl_mechanism s = None \<or> ks_username s = None \<or> ks_password s = None)
         then Inl (ServiceError ''LIVE_CONNECTOR_SPEC_INVALID'' 422)
         else Inr ([(PStr ''acknowledgements'', PStr (kf_acknowledgements r)),
                    (PStr ''eventTypes'', PList (map PStr (kf_event_types r))),
                    (PStr ''saslMechanism'', opt_text (ks_sasl_mechanism s)),
                    (PStr ''securityProtocol'', PStr (ks_protocol s)),
                    (PStr ''timeoutSeconds'', PFloat (Fin (kf_timeout_seconds r))),
                    (PStr ''topic'', PStr (kf_topic r))],
                   [(PStr ''brokers'', PList (map PStr (kf_brokers r))),
                    (PStr ''caCertificate'', opt_text (ks_ca_certificate s)),
                    (PStr ''password'', opt_text (ks_password s)),
                    (PStr ''username'', opt_text (ks_username s))]))"

definition connector_snapshot :: "live_connector \<Rightarrow> pydict" where
  "connector_snapshot c =
     [(PStr ''connector_id'', PStr (cn_id c)), (PStr ''connector_type'', PStr (cn_type c)),
      (PStr ''name'', PStr (cn_name c)), (PStr ''enabled'', PBool (cn_enabled c)),
      (PStr ''safe_config'', PDict (cn_safe_config c)), (PStr ''created_at'', PInt (cn_created_at c))]"

definition encrypt_secrets ::
  "(string \<Rightarrow> string result) \<Rightarrow> (pydict \<Rightarrow> string) \<Rightarrow> pydict \<Rightarrow> string service_result" where
  "encrypt_secrets encrypt dumps secrets =
     (case encrypt (dumps secrets) of
        Inl (ValueError _) \<Rightarrow> Inl (ServiceError ''LIVE_CONNECTOR_CREDENTIAL_INVALID'' 422)
      | Inl e \<Rightarrow> Inl (Unhandled e)
      | Inr c \<Rightarrow> Inr c)"

definition create_connector ::
  "(string \<Rightarrow> string result) option \<Rightarrow> (pydict \<Rightarrow> string) \<Rightarrow> string \<Rightarrow> time \<Rightarrow> connector_request \<Rightarrow>
   live_connector list \<Rightarrow> live_connector list \<times> pydict service_result"
where
  "create_connector cipher dumps cid now req cs =
     (case cipher of
        None \<Rightarrow> (cs, Inl (ServiceError ''LIVE_SECRET_CONFIGURATION_REQUIRED'' 503))
      | Some encrypt \<Rightarrow>
          (let name = py_strip (connector_name req)
           in if name = [] then (cs, Inl (ServiceError ''LIVE_CONNECTOR_SPEC_INVALID'' 422))
              else case split_config req of
                Inl e \<Rightarrow> (cs, Inl e)
              | Inr (safe, secrets) \<Rightarrow>
                  (case encrypt_secrets encrypt dumps secrets of
                     Inl e \<Rightarrow> (cs, Inl e)
                   | Inr c \<Rightarrow>
                       (case connector_create cid (connector_kind req) name safe (Some c) now cs of
                          Inl e \<Rightarrow> (cs, Inl (on_integrity_error ''LIVE_CONNECTOR_CONFLICT'' e))
                        | Inr (cs', row) \<Rightarrow> (cs', Inr (connector_snapshot row))))))"

definition list_connectors :: "live_connector list \<Rightarrow> pydict list" where
  "list_connectors cs = map connector_snapshot (connector_list cs)"

definition get_connector :: "string \<Rightarrow> live_connector list \<Rightarrow> pydict service_result" where
  "get_connector cid cs =
     (case connector_get cid cs of
        None \<Rightarrow> Inl (ServiceError ''LIVE_CONNECTOR_NOT_FOUND'' 404) | Some c \<Rightarrow> Inr (connector_snapshot c))"

definition delete_connector :: "string \<Rightarrow> live_connector list \<Rightarrow> live_connector list \<times> pydict service_result" where
  "delete_connector cid cs =
     (case connector_disable cid cs of
        (cs', None) \<Rightarrow> (cs, Inl (ServiceError ''LIVE_CONNECTOR_NOT_FOUND'' 404))
      | (cs', Some c) \<Rightarrow> (cs', Inr (connector_snapshot c)))"

section \<open>Secrets\<close>

text \<open>The request with its secrets blanked; only their presence is left.\<close>

definition blank :: "string option \<Rightarrow> string option" where
  "blank s = map_option (\<lambda>_. []) s"

fun public_view :: "connector_request \<Rightarrow> connector_request" where
  "public_view (Webhook r) = Webhook (r\<lparr>wh_url := [], wh_token := blank (wh_token r)\<rparr>)"
| "public_view (Kafka r) =
     Kafka (r\<lparr>kf_brokers := [], kf_security := (kf_security r)\<lparr>ks_username := blank (ks_username (kf_security r)),
       ks_password := blank (ks_password (kf_security r)), ks_ca_certificate := None\<rparr>\<rparr>)"

lemma blank_None [simp]: "blank s = None \<longleftrightarrow> s = None"
  by (simp add: blank_def)

lemma split_config_public:
  "(case split_config req of Inl e \<Rightarrow> Inl e | Inr p \<Rightarrow> Inr (fst p)) =
     (case split_config (public_view req) of Inl e \<Rightarrow> Inl e | Inr p \<Rightarrow> Inr (fst p))"
  by (cases req) (simp_all add: Let_def)

lemma public_view_fields [simp]:
  "connector_kind (public_view req) = connector_kind req" "connector_name (public_view req) = connector_name req"
  by (cases req; simp)+

text \<open>
  A connector's secrets reach the database and the answer only through their ciphertext: two
  requests that agree but for the secrets, and whose secrets encrypt alike, are indistinguishable.
\<close>

theorem connector_secrets_confidential:
  assumes "public_view req = public_view req'"
    and "\<And>safe secrets safe' secrets'. split_config req = Inr (safe, secrets) \<Longrightarrow> split_config req' = Inr (safe', secrets') \<Longrightarrow>
      encrypt_secrets encrypt dumps secrets = encrypt_secrets encrypt dumps secrets'"
  shows "create_connector (Some encrypt) dumps cid now req cs = create_connector (Some encrypt) dumps cid now req' cs"
proof -
  have same: "connector_kind req = connector_kind req'" "connector_name req = connector_name req'"
    using assms(1) public_view_fields by metis+
  have "(case split_config req of Inl e \<Rightarrow> Inl e | Inr p \<Rightarrow> Inr (fst p)) =
      (case split_config req' of Inl e \<Rightarrow> Inl e | Inr p \<Rightarrow> Inr (fst p))"
    using split_config_public [of req] split_config_public [of req'] assms(1) by metis
  then consider e where "split_config req = Inl e" "split_config req' = Inl e"
    | safe secrets secrets' where "split_config req = Inr (safe, secrets)" "split_config req' = Inr (safe, secrets')"
    by (cases "split_config req"; cases "split_config req'") auto
  then show ?thesis
  proof cases
    case 1
    with same show ?thesis by (simp add: create_connector_def Let_def)
  next
    case 2
    with assms(2) [OF 2] show ?thesis by (simp add: create_connector_def same Let_def cong: sum.case_cong)
  qed
qed

end
