(* ===== verification/Media_Client.thy ===== *)
theory Media_Client
  imports Py_Values
begin

text \<open>
  The client of the MediaMTX control API,
  \<open>src/backend/app/infrastructure/media/mediamtx_client.py\<close>. The HTTP transport is a parameter: a
  function from a request and the server's state to the next state and either a response or a
  transport error. The client's state adds the list of the requests it has sent.
\<close>

section \<open>Requests and errors\<close>

record http_request =
  rq_method :: string
  rq_path :: string
  rq_json :: "pydict option"
  rq_params :: "(string \<times> int) list"

text \<open>The body is absent when \<open>response.json()\<close> would raise.\<close>

record http_response =
  status_code :: int
  response_json :: "pyval option"

datatype transport_error = TimeoutException | RequestError

type_synonym 's transport = "http_request \<Rightarrow> 's \<Rightarrow> 's \<times> (transport_error + http_response)"

datatype media_exc = MediaMtxError string "int option" | PyExc py_exc

record 's media =
  server :: 's
  sent :: "http_request list"

type_synonym ('s, 'a) media_op = "'s media \<Rightarrow> 's media \<times> (media_exc + 'a)"

definition media_bind :: "('s, 'a) media_op \<Rightarrow> ('a \<Rightarrow> ('s, 'b) media_op) \<Rightarrow> ('s, 'b) media_op" where
  "media_bind m f w = (case m w of (w', Inl e) \<Rightarrow> (w', Inl e) | (w', Inr x) \<Rightarrow> f x w')"

definition media_lift :: "media_exc + 'a \<Rightarrow> ('s, 'a) media_op" where
  "media_lift r w = (w, r)"

definition py_lift :: "'a result \<Rightarrow> ('s, 'a) media_op" where
  "py_lift r w = (w, case r of Inl e \<Rightarrow> Inl (PyExc e) | Inr x \<Rightarrow> Inr x)"

section \<open>Path names\<close>

text \<open>\<open>urllib.parse.quote\<close> with no safe characters, over the UTF-8 bytes of a character.\<close>

definition unreserved :: "char \<Rightarrow> bool" where
  "unreserved c =
     (let n = char_code c
      in 48 \<le> n \<and> n \<le> 57 \<or> 65 \<le> n \<and> n \<le> 90 \<or> 97 \<le> n \<and> n \<le> 122 \<or> n \<in> {45, 46, 95, 126})"

definition hex_upper :: "nat \<Rightarrow> char" where
  "hex_upper d = char_of (if d < 10 then 48 + d else 55 + d)"

definition percent :: "nat \<Rightarrow> string" where
  "percent b = [CHR ''%'', hex_upper (b div 16), hex_upper (b mod 16)]"

definition quote_char :: "char \<Rightarrow> string" where
  "quote_char c =
     (let n = char_code c
      in if unreserved c then [c]
         else if n < 128 then percent n
         else percent (192 + n div 64) @ percent (128 + n mod 64))"

definition quote :: "string \<Rightarrow> string" where
  "quote s = concat (map quote_char s)"

fun join_slash :: "string list \<Rightarrow> string" where
  "join_slash [] = []"
| "join_slash [x] = x"
| "join_slash (x # xs) = x @ ''/'' @ join_slash xs"

definition media_path :: "string \<Rightarrow> string result" where
  "media_path name =
     (let parts = split_on (CHR ''/'') name
      in if list_ex (\<lambda>p. p = [] \<or> p = ''.'' \<or> p = ''..'') parts
         then Inl (ValueError ''INVALID_MEDIAMTX_PATH'')
         else Inr (join_slash (map quote parts)))"

section \<open>Sending\<close>

definition send_request ::
  "'s transport \<Rightarrow> string \<Rightarrow> string \<Rightarrow> pydict option \<Rightarrow> (string \<times> int) list \<Rightarrow> ('s, http_response) media_op"
where
  "send_request http meth path payload params w =
     (let rq = \<lparr>rq_method = meth, rq_path = path, rq_json = payload, rq_params = params\<rparr>;
          w1 = w\<lparr>sent := sent w @ [rq]\<rparr>
      in case http rq (server w) of
           (s, Inl TimeoutException) \<Rightarrow> (w1\<lparr>server := s\<rparr>, Inl (MediaMtxError ''MEDIAMTX_TIMEOUT'' None))
         | (s, Inl RequestError) \<Rightarrow> (w1\<lparr>server := s\<rparr>, Inl (MediaMtxError ''MEDIAMTX_UNAVAILABLE'' None))
         | (s, Inr resp) \<Rightarrow> (w1\<lparr>server := s\<rparr>, Inr resp))"

definition raise_status :: "http_response \<Rightarrow> media_exc + unit" where
  "raise_status resp =
     (if 200 \<le> status_code resp \<and> status_code resp \<le> 299 then Inr ()
      else Inl (MediaMtxError ''MEDIAMTX_HTTP_ERROR'' (Some (status_code resp))))"

definition json_object :: "http_response \<Rightarrow> media_exc + pydict" where
  "json_object resp =
     (case response_json resp of
        Some (PDict d) \<Rightarrow> Inr d
      | _ \<Rightarrow> Inl (MediaMtxError ''MEDIAMTX_INVALID_RESPONSE'' None))"

definition get_optional :: "'s transport \<Rightarrow> string \<Rightarrow> ('s, pydict option) media_op" where
  "get_optional http path =
     media_bind (send_request http ''GET'' path None []) (\<lambda>resp.
       if status_code resp = 404 then media_lift (Inr None)
       else media_lift (rbind (raise_status resp) (\<lambda>_. rbind (json_object resp) (\<lambda>d. Inr (Some d)))))"

definition get_required :: "'s transport \<Rightarrow> string \<Rightarrow> (string \<times> int) list \<Rightarrow> ('s, pydict) media_op" where
  "get_required http path params =
     media_bind (send_request http ''GET'' path None params) (\<lambda>resp.
       media_lift (rbind (raise_status resp) (\<lambda>_. json_object resp)))"

definition write_request ::
  "'s transport \<Rightarrow> string \<Rightarrow> string \<Rightarrow> pydict option \<Rightarrow> bool \<Rightarrow> ('s, unit) media_op" where
  "write_request http meth path payload allow_404 =
     media_bind (send_request http meth path payload []) (\<lambda>resp.
       if allow_404 \<and> status_code resp = 404 then media_lift (Inr ())
       else media_lift (raise_status resp))"

definition get_config_path :: "'s transport \<Rightarrow> string \<Rightarrow> ('s, pydict option) media_op" where
  "get_config_path http name =
     media_bind (py_lift (media_path name)) (\<lambda>p. get_optional http (''v3/config/paths/get/'' @ p))"

definition get_active_path :: "'s transport \<Rightarrow> string \<Rightarrow> ('s, pydict option) media_op" where
  "get_active_path http name =
     media_bind (py_lift (media_path name)) (\<lambda>p. get_optional http (''v3/paths/get/'' @ p))"

definition add_path :: "'s transport \<Rightarrow> string \<Rightarrow> pydict \<Rightarrow> ('s, unit) media_op" where
  "add_path http name config =
     media_bind (py_lift (media_path name)) (\<lambda>p.
       write_request http ''POST'' (''v3/config/paths/add/'' @ p) (Some config) False)"

definition replace_path :: "'s transport \<Rightarrow> string \<Rightarrow> pydict \<Rightarrow> ('s, unit) media_op" where
  "replace_path http name config =
     media_bind (py_lift (media_path name)) (\<lambda>p.
       write_request http ''POST'' (''v3/config/paths/replace/'' @ p) (Some config) False)"

definition delete_path :: "'s transport \<Rightarrow> string \<Rightarrow> ('s, unit) media_op" where
  "delete_path http name =
     media_bind (py_lift (media_path name)) (\<lambda>p.
       write_request http ''DELETE'' (''v3/config/paths/delete/'' @ p) None True)"

section \<open>Listing the configured paths\<close>

definition LIST_PAGE_SIZE :: int where
  "LIST_PAGE_SIZE = 100"

definition MAX_LIST_PAGES :: int where
  "MAX_LIST_PAGES = 10000"

definition dict_of :: "pyval \<Rightarrow> pydict option" where
  "dict_of v = (case v of PDict d \<Rightarrow> Some d | _ \<Rightarrow> None)"

text \<open>The items of a page and its claimed number of pages, when both are acceptable.\<close>

definition list_page_of :: "pydict \<Rightarrow> (pydict list \<times> int) option" where
  "list_page_of payload =
     (case map_of payload (PStr ''items'') of
        Some (PList items) \<Rightarrow>
          if list_all (\<lambda>i. dict_of i \<noteq> None) items then
            (case (case map_of payload (PStr ''pageCount'') of None \<Rightarrow> PInt 1 | Some v \<Rightarrow> v) of
               PInt n \<Rightarrow> if n < 0 \<or> n > MAX_LIST_PAGES then None
                         else Some (map (\<lambda>i. the (dict_of i)) items, n)
             | _ \<Rightarrow> None)
          else None
      | _ \<Rightarrow> None)"

lemma list_page_of_bound: "list_page_of payload = Some (items, n) \<Longrightarrow> 0 \<le> n \<and> n \<le> MAX_LIST_PAGES"
  by (auto simp: list_page_of_def split: option.splits pyval.splits if_splits)

function list_pages :: "'s transport \<Rightarrow> int \<Rightarrow> pydict list \<Rightarrow> ('s, pydict list) media_op" where
  "list_pages http page paths w =
     (case get_required http ''v3/config/paths/list''
             [(''itemsPerPage'', LIST_PAGE_SIZE), (''page'', page)] w of
        (w1, Inl e) \<Rightarrow> (w1, Inl e)
      | (w1, Inr payload) \<Rightarrow>
          (case list_page_of payload of
             None \<Rightarrow> (w1, Inl (MediaMtxError ''MEDIAMTX_INVALID_RESPONSE'' None))
           | Some (items, page_count) \<Rightarrow>
               if page + 1 \<ge> page_count then (w1, Inr (paths @ items))
               else list_pages http (page + 1) (paths @ items) w1))"
  by pat_completeness auto

termination
  by (relation "measure (\<lambda>(http, page, paths, w). nat (MAX_LIST_PAGES - page))")
     (auto dest: list_page_of_bound)

declare list_pages.simps [simp del]

definition list_config_paths :: "'s transport \<Rightarrow> ('s, pydict list) media_op" where
  "list_config_paths http = list_pages http 0 []"

section \<open>What is sent\<close>

text \<open>An operation sends at most some number of requests, all of which satisfy a predicate.\<close>

definition sends :: "nat \<Rightarrow> (http_request \<Rightarrow> bool) \<Rightarrow> ('s, 'a) media_op \<Rightarrow> bool" where
  "sends n P m = (\<forall>w. \<exists>rs. sent (fst (m w)) = sent w @ rs \<and> length rs \<le> n \<and> list_all P rs)"

lemma sendsD: "sends n P m \<Longrightarrow> m w = (w', r) \<Longrightarrow> \<exists>rs. sent w' = sent w @ rs \<and> length rs \<le> n \<and> list_all P rs"
  unfolding sends_def by (metis fst_conv)

lemma sends_lift [simp]: "sends n P (media_lift r)" "sends n P (py_lift q)"
  by (simp_all add: sends_def media_lift_def py_lift_def)

lemma sends_bind:
  assumes "sends n P m" and "\<And>x. sends k P (f x)"
  shows "sends (n + k) P (media_bind m f)"
  unfolding sends_def
proof
  fix w
  obtain w1 r where 1: "m w = (w1, r)" by fastforce
  with assms(1) obtain rs where rs: "sent w1 = sent w @ rs" "length rs \<le> n" "list_all P rs"
    by (metis sendsD)
  show "\<exists>rs. sent (fst (media_bind m f w)) = sent w @ rs \<and> length rs \<le> n + k \<and> list_all P rs"
  proof (cases r)
    case (Inl e)
    with 1 rs show ?thesis by (auto simp: media_bind_def)
  next
    case (Inr x)
    obtain w2 q where 2: "f x w1 = (w2, q)" by fastforce
    with assms(2) obtain qs where "sent w2 = sent w1 @ qs" "length qs \<le> k" "list_all P qs"
      by (metis sendsD)
    with 1 2 rs Inr show ?thesis by (auto simp: media_bind_def)
  qed
qed

lemma sends_mono: "sends n P m \<Longrightarrow> n \<le> k \<Longrightarrow> (\<And>r. P r \<Longrightarrow> Q r) \<Longrightarrow> sends k Q m"
  unfolding sends_def list_all_iff by (meson order_trans)

lemma sends_request:
  "P \<lparr>rq_method = meth, rq_path = path, rq_json = payload, rq_params = params\<rparr> \<Longrightarrow>
     sends 1 P (send_request http meth path payload params)"
  by (auto simp: sends_def send_request_def Let_def split: prod.splits sum.splits transport_error.splits)

lemma sends_if: "sends n P m \<Longrightarrow> sends n P m' \<Longrightarrow> sends n P (if b then m else m')"
  by simp

text \<open>The requests of the four kinds of call.\<close>

lemma sends_then: "sends 1 P m \<Longrightarrow> (\<And>x. sends 0 P (f x)) \<Longrightarrow> sends 1 P (media_bind m f)"
  using sends_bind [of 1 P m 0 f] by simp

lemma sends_path:
  "(\<And>p. media_path name = Inr p \<Longrightarrow> sends 1 P (f p)) \<Longrightarrow> sends 1 P (media_bind (py_lift (media_path name)) f)"
  by (cases "media_path name") (auto simp: sends_def media_bind_def py_lift_def)

lemma sends_get:
  "sends 1 (\<lambda>r. rq_method r = ''GET'') (get_optional http path)"
  "sends 1 (\<lambda>r. rq_method r = ''GET'') (get_required http path params)"
  unfolding get_optional_def get_required_def
  by (rule sends_then [OF sends_request]; simp)+

lemma sends_write:
  "P \<lparr>rq_method = meth, rq_path = path, rq_json = payload, rq_params = []\<rparr> \<Longrightarrow>
     sends 1 P (write_request http meth path payload allow)"
  unfolding write_request_def by (rule sends_then [OF sends_request]) simp_all

text \<open>Only \<open>delete_path\<close> deletes, and only the path it is asked for.\<close>

definition keeps_paths :: "http_request \<Rightarrow> bool" where
  "keeps_paths r = (rq_method r \<noteq> ''DELETE'')"

definition deletes_path :: "string \<Rightarrow> http_request \<Rightarrow> bool" where
  "deletes_path name r =
     (rq_method r = ''DELETE'' \<and> (\<exists>p. media_path name = Inr p \<and> rq_path r = ''v3/config/paths/delete/'' @ p))"

lemma sends_calls:
  "sends 1 keeps_paths (get_config_path http name)"
  "sends 1 keeps_paths (get_active_path http name)"
  "sends 1 keeps_paths (add_path http name config)"
  "sends 1 keeps_paths (replace_path http name config)"
  "sends 1 keeps_paths (get_required http path params)"
proof -
  have get: "sends 1 keeps_paths (get_optional http p)" for p :: string
    by (rule sends_mono [OF sends_get(1)]) (simp_all add: keeps_paths_def)
  show "sends 1 keeps_paths (get_config_path http name)" "sends 1 keeps_paths (get_active_path http name)"
    unfolding get_config_path_def get_active_path_def by (rule sends_path, rule get)+
  show "sends 1 keeps_paths (add_path http name config)"
    unfolding add_path_def by (rule sends_path, rule sends_write) (simp add: keeps_paths_def)
  show "sends 1 keeps_paths (replace_path http name config)"
    unfolding replace_path_def by (rule sends_path, rule sends_write) (simp add: keeps_paths_def)
  show "sends 1 keeps_paths (get_required http path params)"
    by (rule sends_mono [OF sends_get(2)]) (simp_all add: keeps_paths_def)
qed

lemma delete_path_sends: "sends 1 (deletes_path name) (delete_path http name)"
  unfolding delete_path_def by (rule sends_path, rule sends_write) (simp add: deletes_path_def)

section \<open>Listing\<close>

lemma list_pages_sends:
  "list_pages http page paths w = (w', r) \<Longrightarrow>
     \<exists>rs. sent w' = sent w @ rs \<and> list_all keeps_paths rs \<and> int (length rs) \<le> max 1 (MAX_LIST_PAGES - page)"
proof (induction http page paths w rule: list_pages.induct)
  case (1 http page paths w)
  let ?params = "[(''itemsPerPage'', LIST_PAGE_SIZE), (''page'', page)]"
  obtain w1 q where q: "get_required http ''v3/config/paths/list'' ?params w = (w1, q)" by fastforce
  from sendsD [OF sends_calls(5) this] obtain rs where
    rs: "sent w1 = sent w @ rs" "length rs \<le> 1" "list_all keeps_paths rs" by blast
  show ?case
  proof (cases "\<exists>payload items n. q = Inr payload \<and> list_page_of payload = Some (items, n) \<and> page + 1 < n")
    case True
    then obtain payload items n where p: "q = Inr payload" "list_page_of payload = Some (items, n)" "page + 1 < n"
      by blast
    with "1.prems" q have "list_pages http (page + 1) (paths @ items) w1 = (w', r)"
      by (subst (asm) list_pages.simps) simp
    with "1.IH" q p obtain qs where "sent w' = sent w1 @ qs" "list_all keeps_paths qs"
      "int (length qs) \<le> max 1 (MAX_LIST_PAGES - (page + 1))" by fastforce
    with rs p(3) list_page_of_bound [OF p(2)] show ?thesis by (intro exI [of _ "rs @ qs"]) auto
  next
    case False
    with "1.prems" q have "w' = w1"
      by (subst (asm) list_pages.simps) (auto split: sum.splits option.splits if_splits)
    with rs show ?thesis by auto
  qed
qed

end
