(* ===== verification/Live_Sessions.thy ===== *)
theory Live_Sessions
  imports Leases Py_Values "HOL-Library.Product_Lexorder" "HOL-Library.List_Lexorder"
    "HOL-Library.Char_ord"
begin

text \<open>
  Live sessions: the tables \<open>live_session\<close>, \<open>live_session_generation\<close> and \<open>live_session_run\<close> of
  \<open>src/backend/app/infrastructure/database/models.py\<close> and \<open>LiveSessionRepository\<close>. A session has
  numbered generations (one per configuration), a generation has numbered attempts (runs), and
  the newest attempt may be leased to a worker. The columns \<open>updated_at\<close> and the \<open>created_at\<close> of
  runs, which no query reads, and the length limits of the columns are left out.
\<close>

section \<open>Tables\<close>

record live_session =
  ses_id :: string
  ses_camera_external_id :: string
  ses_location_snapshot :: "pydict option"
  ses_desired_state :: string
  ses_current_generation :: int
  ses_created_at :: time
  ses_stopped_at :: "time option"

text \<open>The columns of a generation that its creator supplies and nothing changes later.\<close>

record generation_spec =
  requested_spec :: pydict
  resolved_spec :: pydict
  spec_hash :: string
  profile_id :: string
  profile_version :: int
  source_type :: string
  source_ciphertext :: "string option"
  ingress_path :: string

record live_generation =
  gen_id :: string
  gen_session :: string
  gen_number :: int
  gen_spec :: generation_spec
  gen_desired_state :: string
  gen_runtime_state :: string
  gen_media_state :: string
  gen_created_at :: time
  gen_started_at :: "time option"
  gen_stopped_at :: "time option"
  gen_error_code :: "string option"

record session_run =
  srun_id :: string
  srun_generation_id :: string
  srun_attempt :: int
  srun_state :: string
  srun_worker_id :: "string option"
  srun_lease_token :: "string option"
  srun_lease_expires_at :: "time option"
  srun_started_at :: time
  srun_stopped_at :: "time option"
  srun_error_code :: "string option"

record session_db =
  db_sessions :: "live_session list"
  db_generations :: "live_generation list"
  db_runs :: "session_run list"

definition SESSION_TERMINAL_STATES :: "string list" where
  "SESSION_TERMINAL_STATES = [''STOPPED'', ''FAILED'']"

definition SESSION_NONTERMINAL_STATES :: "string list" where
  "SESSION_NONTERMINAL_STATES = [''STARTING'', ''ACTIVE'', ''RECONNECTING'', ''STOPPING'']"

definition GENERATION_STATES :: "string list" where
  "GENERATION_STATES =
     [''ACCEPTED'', ''WAITING_FOR_SOURCE''] @ SESSION_NONTERMINAL_STATES @ SESSION_TERMINAL_STATES"

definition MEDIA_STATES :: "string list" where
  "MEDIA_STATES = [''provisioning'', ''waiting'', ''ready'', ''failed'']"

definition source_secret_ok :: "generation_spec \<Rightarrow> bool" where
  "source_secret_ok sp =
     (source_type sp = ''whipPush'' \<and> source_ciphertext sp = None
      \<or> source_type sp \<in> {''rtspPull'', ''whepPull''} \<and> source_ciphertext sp \<noteq> None)"

definition generation_constraints :: "live_generation \<Rightarrow> bool" where
  "generation_constraints g =
     (1 \<le> gen_number g \<and> 1 \<le> profile_version (gen_spec g)
      \<and> source_type (gen_spec g) \<in> {''rtspPull'', ''whepPull'', ''whipPush''}
      \<and> source_secret_ok (gen_spec g)
      \<and> gen_desired_state g \<in> {''running'', ''stopped''}
      \<and> gen_runtime_state g \<in> set GENERATION_STATES \<and> gen_media_state g \<in> set MEDIA_STATES)"

definition generations_ok :: "live_generation list \<Rightarrow> bool" where
  "generations_ok gs =
     (list_all generation_constraints gs \<and> distinct (map gen_id gs)
      \<and> distinct (map (\<lambda>g. (gen_session g, gen_number g)) gs)
      \<and> distinct (map (\<lambda>g. ingress_path (gen_spec g)) gs))"

definition sessions_ok :: "live_session list \<Rightarrow> bool" where
  "sessions_ok ss =
     (distinct (map ses_id ss)
      \<and> list_all (\<lambda>s. ses_desired_state s \<in> {''running'', ''stopped''} \<and> 1 \<le> ses_current_generation s) ss)"

definition srun_constraints :: "session_run \<Rightarrow> bool" where
  "srun_constraints r =
     (1 \<le> srun_attempt r \<and> srun_state r \<in> set (SESSION_NONTERMINAL_STATES @ SESSION_TERMINAL_STATES))"

section \<open>Sessions and generations\<close>

definition list_reconcilable :: "session_db \<Rightarrow> live_generation list" where
  "list_reconcilable db =
     sort_key (\<lambda>g. (gen_created_at g, gen_id g))
       (filter (\<lambda>g. gen_desired_state g = ''running'') (db_generations db))"

definition media_row :: "string \<Rightarrow> string option \<Rightarrow> live_generation \<Rightarrow> live_generation" where
  "media_row state code g =
     g\<lparr>gen_media_state := state,
       gen_error_code :=
         (case code of
            Some c \<Rightarrow> Some c
          | None \<Rightarrow> if gen_error_code g = Some ''LIVE_MEDIA_PATH_FAILED'' then None
                    else gen_error_code g)\<rparr>"

definition set_media_state ::
  "string \<Rightarrow> string \<Rightarrow> string option \<Rightarrow> session_db \<Rightarrow> (session_db \<times> bool) result" where
  "set_media_state gid state code db =
     (if state \<notin> set MEDIA_STATES then Inl (ValueError ''INVALID_LIVE_MEDIA_STATE'')
      else Inr (db\<lparr>db_generations := row_update gen_id gid (media_row state code) (db_generations db)\<rparr>,
                row_get gen_id gid (db_generations db) \<noteq> None))"

definition create_session ::
  "string \<Rightarrow> string \<Rightarrow> pydict option \<Rightarrow> time \<Rightarrow> session_db \<Rightarrow> session_db result" where
  "create_session sid camera location now db =
     rbind (checked sessions_ok (db_sessions db @
       [\<lparr>ses_id = sid, ses_camera_external_id = camera, ses_location_snapshot = location,
         ses_desired_state = ''running'', ses_current_generation = 1, ses_created_at = now,
         ses_stopped_at = None\<rparr>]))
       (\<lambda>ss. Inr (db\<lparr>db_sessions := ss\<rparr>))"

text \<open>The generation a reconfiguration replaces is told to stop.\<close>

definition stop_generation :: "live_generation \<Rightarrow> live_generation" where
  "stop_generation g =
     g\<lparr>gen_desired_state := ''stopped'',
       gen_runtime_state := (if gen_runtime_state g \<notin> set SESSION_TERMINAL_STATES then ''STOPPING''
                             else gen_runtime_state g)\<rparr>"

definition new_generation ::
  "string \<Rightarrow> string \<Rightarrow> int \<Rightarrow> generation_spec \<Rightarrow> time \<Rightarrow> live_generation" where
  "new_generation gid sid n sp now =
     \<lparr>gen_id = gid, gen_session = sid, gen_number = n, gen_spec = sp,
      gen_desired_state = ''running'', gen_runtime_state = ''ACCEPTED'',
      gen_media_state = ''provisioning'', gen_created_at = now, gen_started_at = None,
      gen_stopped_at = None, gen_error_code = None\<rparr>"

definition create_generation ::
  "string \<Rightarrow> string \<Rightarrow> int \<Rightarrow> generation_spec \<Rightarrow> time \<Rightarrow> session_db \<Rightarrow> session_db result" where
  "create_generation gid sid n sp now db =
     (case row_get ses_id sid (db_sessions db) of
        None \<Rightarrow> Inl (ValueError ''LIVE_SESSION_NOT_FOUND'')
      | Some parent \<Rightarrow>
          (case latest_row gen_session gen_number sid (db_generations db) of
             None \<Rightarrow>
               if n \<noteq> 1 then Inl (ValueError ''LIVE_GENERATION_CONFLICT'')
               else rbind (checked generations_ok (db_generations db @ [new_generation gid sid n sp now]))
                      (\<lambda>gs. Inr (db\<lparr>db_generations := gs\<rparr>))
           | Some l \<Rightarrow>
               if n \<noteq> ses_current_generation parent + 1 then Inl (ValueError ''LIVE_GENERATION_CONFLICT'')
               else rbind (checked generations_ok
                        (row_update gen_id (gen_id l) stop_generation (db_generations db)
                         @ [new_generation gid sid n sp now]))
                      (\<lambda>gs. Inr (db\<lparr>db_generations := gs,
                         db_sessions := row_update ses_id sid
                           (\<lambda>s. s\<lparr>ses_current_generation := n\<rparr>) (db_sessions db)\<rparr>))))"

definition session_get :: "string \<Rightarrow> session_db \<Rightarrow> live_session option" where
  "session_get sid db = row_get ses_id sid (db_sessions db)"

definition get_current_generation :: "string \<Rightarrow> session_db \<Rightarrow> live_generation option" where
  "get_current_generation sid db =
     (case row_get ses_id sid (db_sessions db) of
        None \<Rightarrow> None
      | Some s \<Rightarrow>
          find (\<lambda>g. gen_session g = sid \<and> gen_number g = ses_current_generation s) (db_generations db))"

definition get_generation :: "string \<Rightarrow> session_db \<Rightarrow> live_generation option" where
  "get_generation gid db = row_get gen_id gid (db_generations db)"

definition session_list :: "session_db \<Rightarrow> live_session list" where
  "session_list db = sort_key (\<lambda>s. (ses_created_at s, ses_id s)) (db_sessions db)"

definition desired_generation :: "string \<Rightarrow> live_generation \<Rightarrow> live_generation" where
  "desired_generation state g =
     g\<lparr>gen_desired_state := state,
       gen_runtime_state :=
         (if state = ''stopped'' \<and> gen_runtime_state g \<notin> set SESSION_TERMINAL_STATES
          then ''STOPPING'' else gen_runtime_state g)\<rparr>"

definition desired_session :: "string \<Rightarrow> time \<Rightarrow> live_session \<Rightarrow> live_session" where
  "desired_session state now s =
     s\<lparr>ses_desired_state := state,
       ses_stopped_at := (if state = ''stopped'' then Some now else None)\<rparr>"

definition set_desired_state ::
  "string \<Rightarrow> string \<Rightarrow> time \<Rightarrow> session_db \<Rightarrow> (session_db \<times> bool) result" where
  "set_desired_state sid state now db =
     (if state \<notin> {''running'', ''stopped''} then Inl (ValueError ''INVALID_LIVE_DESIRED_STATE'')
      else case row_get ses_id sid (db_sessions db) of
        None \<Rightarrow> Inr (db, False)
      | Some _ \<Rightarrow>
          let db1 = db\<lparr>db_sessions := row_update ses_id sid (desired_session state now) (db_sessions db)\<rparr>
          in case get_current_generation sid db1 of
               None \<Rightarrow> Inr (db1, True)
             | Some g \<Rightarrow>
                 Inr (db1\<lparr>db_generations :=
                   row_update gen_id (gen_id g) (desired_generation state) (db_generations db1)\<rparr>, True))"

section \<open>Claiming a generation\<close>

record session_claim =
  sc_run_id :: string
  sc_worker :: string
  sc_token :: string
  sc_now :: time
  sc_lease_seconds :: int

definition srun_finished :: "session_run \<Rightarrow> bool" where
  "srun_finished r = (srun_state r \<in> set SESSION_TERMINAL_STATES)"

definition candidates :: "(string \<Rightarrow> bool) \<Rightarrow> live_generation list \<Rightarrow> live_generation list" where
  "candidates locked gs =
     sort_key (\<lambda>g. (gen_created_at g, gen_id g))
       (filter (\<lambda>g. gen_desired_state g = ''running'' \<and> gen_media_state g = ''ready''
          \<and> \<not> locked (gen_id g)) gs)"

definition busy :: "time \<Rightarrow> session_run list \<Rightarrow> string \<Rightarrow> bool" where
  "busy now rows gid =
     (case latest_row srun_generation_id srun_attempt gid rows of
        None \<Rightarrow> False
      | Some l \<Rightarrow> \<not> srun_finished l \<and> sql_greater (srun_lease_expires_at l) now)"

definition expire_srun :: "time \<Rightarrow> session_run \<Rightarrow> session_run" where
  "expire_srun now r =
     r\<lparr>srun_state := ''FAILED'', srun_error_code := Some ''LIVE_WORKER_LEASE_EXPIRED'',
       srun_stopped_at := Some now, srun_worker_id := None, srun_lease_token := None,
       srun_lease_expires_at := None\<rparr>"

definition new_srun :: "session_claim \<Rightarrow> string \<Rightarrow> int \<Rightarrow> session_run" where
  "new_srun a gid attempt =
     \<lparr>srun_id = sc_run_id a, srun_generation_id = gid, srun_attempt = attempt,
      srun_state = ''STARTING'', srun_worker_id = Some (sc_worker a),
      srun_lease_token = Some (sc_token a),
      srun_lease_expires_at = Some (sc_now a + seconds (sc_lease_seconds a)),
      srun_started_at = sc_now a, srun_stopped_at = None, srun_error_code = None\<rparr>"

definition insert_srun :: "session_run \<Rightarrow> session_run list \<Rightarrow> (session_run list \<times> session_run) result" where
  "insert_srun run rows =
     (if srun_id run \<in> srun_id ` set rows
         \<or> (srun_generation_id run, srun_attempt run)
            \<in> (\<lambda>r. (srun_generation_id r, srun_attempt r)) ` set rows
         \<or> \<not> srun_constraints run
      then Inl (OtherError ''IntegrityError'') else Inr (rows @ [run], run))"

definition open_attempt ::
  "session_claim \<Rightarrow> string \<Rightarrow> session_run list \<Rightarrow> (session_run list \<times> session_run) result" where
  "open_attempt a gid rows =
     (case latest_row srun_generation_id srun_attempt gid rows of
        None \<Rightarrow> insert_srun (new_srun a gid 1) rows
      | Some l \<Rightarrow>
          insert_srun (new_srun a gid (srun_attempt l + 1))
            (if \<not> srun_finished l then row_update srun_id (srun_id l) (expire_srun (sc_now a)) rows
             else rows))"

definition start_generation :: "time \<Rightarrow> live_generation \<Rightarrow> live_generation" where
  "start_generation now g =
     g\<lparr>gen_runtime_state := ''STARTING'',
       gen_started_at := (case gen_started_at g of None \<Rightarrow> Some now | Some t \<Rightarrow> Some t)\<rparr>"

text \<open>The loop skips the candidates whose newest run is leased and opens an attempt for the first
  other one.\<close>

fun claim_loop ::
  "session_claim \<Rightarrow> live_generation list \<Rightarrow> session_db \<Rightarrow> (session_db \<times> session_run option) result" where
  "claim_loop a [] db = Inr (db, None)"
| "claim_loop a (g # gs) db =
     (if busy (sc_now a) (db_runs db) (gen_id g) then claim_loop a gs db
      else rbind (open_attempt a (gen_id g) (db_runs db)) (\<lambda>(rows, run).
        Inr (db\<lparr>db_runs := rows,
               db_generations :=
                 row_update gen_id (gen_id g) (start_generation (sc_now a)) (db_generations db)\<rparr>,
             Some run)))"

definition claim_generation ::
  "(string \<Rightarrow> bool) \<Rightarrow> session_claim \<Rightarrow> session_db \<Rightarrow> (session_db \<times> session_run option) result" where
  "claim_generation locked a db = claim_loop a (candidates locked (db_generations db)) db"

section \<open>Operations of a worker on its run\<close>

text \<open>
  The credentials are the worker, the lease token, the generation and the attempt. The columns
  are compared as SQLAlchemy does: a token that is None is compared with IS NULL.
\<close>

type_synonym session_cred = "string \<times> string option \<times> string \<times> int"

definition owned :: "session_cred \<Rightarrow> time \<Rightarrow> session_run \<Rightarrow> bool" where
  "owned h now r =
     (case h of (worker, token, gid, attempt) \<Rightarrow>
        srun_generation_id r = gid \<and> srun_attempt r = attempt \<and> srun_worker_id r = Some worker
        \<and> srun_lease_token r = token \<and> sql_greater (srun_lease_expires_at r) now)"

definition fenced_srun ::
  "string \<Rightarrow> session_cred \<Rightarrow> time \<Rightarrow> (session_run \<Rightarrow> session_run) \<Rightarrow> session_run list \<Rightarrow>
   session_run list \<times> string option"
where
  "fenced_srun rid h now f rows =
     (case row_get srun_id rid rows of
        None \<Rightarrow> (rows, None)
      | Some r \<Rightarrow>
          if owned h now r then (row_update srun_id rid f rows, Some (srun_generation_id r))
          else (rows, None))"

definition renew_run ::
  "string \<Rightarrow> session_cred \<Rightarrow> time \<Rightarrow> time \<Rightarrow> session_db \<Rightarrow> (session_db \<times> bool) result" where
  "renew_run rid h now expires_at db =
     (case fenced_srun rid h now (\<lambda>r. r\<lparr>srun_lease_expires_at := Some expires_at\<rparr>) (db_runs db) of
        (rows, res) \<Rightarrow> Inr (db\<lparr>db_runs := rows\<rparr>, res \<noteq> None))"

definition update_run_state ::
  "string \<Rightarrow> session_cred \<Rightarrow> time \<Rightarrow> string \<Rightarrow> session_db \<Rightarrow> (session_db \<times> bool) result" where
  "update_run_state rid h now state db =
     (if state \<notin> set SESSION_NONTERMINAL_STATES then Inl (ValueError ''INVALID_LIVE_RUNTIME_STATE'')
      else case fenced_srun rid h now (\<lambda>r. r\<lparr>srun_state := state\<rparr>) (db_runs db) of
        (rows, None) \<Rightarrow> Inr (db, False)
      | (rows, Some gid) \<Rightarrow>
          Inr (db\<lparr>db_runs := rows,
                 db_generations := row_update gen_id gid
                   (\<lambda>g. g\<lparr>gen_runtime_state := state\<rparr>) (db_generations db)\<rparr>, True))"

definition finish_srun :: "time \<Rightarrow> string \<Rightarrow> string option \<Rightarrow> session_run \<Rightarrow> session_run" where
  "finish_srun now state code r =
     r\<lparr>srun_state := state, srun_stopped_at := Some now, srun_error_code := code,
       srun_worker_id := None, srun_lease_token := None, srun_lease_expires_at := None\<rparr>"

definition finish_run ::
  "string \<Rightarrow> session_cred \<Rightarrow> time \<Rightarrow> string \<Rightarrow> string option \<Rightarrow> session_db \<Rightarrow> (session_db \<times> bool) result" where
  "finish_run rid h now state code db =
     (if state \<notin> set SESSION_TERMINAL_STATES then Inl (ValueError ''INVALID_LIVE_TERMINAL_STATE'')
      else case fenced_srun rid h now (finish_srun now state code) (db_runs db) of
        (rows, None) \<Rightarrow> Inr (db, False)
      | (rows, Some gid) \<Rightarrow>
          Inr (db\<lparr>db_runs := rows,
                 db_generations := row_update gen_id gid
                   (\<lambda>g. g\<lparr>gen_runtime_state := state, gen_stopped_at := Some now,
                           gen_error_code := code\<rparr>) (db_generations db)\<rparr>, True))"

text \<open>Any of the three, with its own clock reading.\<close>

datatype srun_op =
    RenewSession time
  | StateSession string
  | FinishSession string "string option"

fun session_update ::
  "srun_op \<times> time \<Rightarrow> string \<Rightarrow> session_cred \<Rightarrow> session_db \<Rightarrow> (session_db \<times> bool) result" where
  "session_update (RenewSession e, now) k h db = renew_run k h now e db"
| "session_update (StateSession st, now) k h db = update_run_state k h now st db"
| "session_update (FinishSession st code, now) k h db = finish_run k h now st code db"

section \<open>The run table under the attempt contract\<close>

fun srun_row :: "srun_op \<Rightarrow> time \<Rightarrow> session_run \<Rightarrow> session_run" where
  "srun_row (RenewSession e) now r = r\<lparr>srun_lease_expires_at := Some e\<rparr>"
| "srun_row (StateSession st) now r = r\<lparr>srun_state := st\<rparr>"
| "srun_row (FinishSession st code) now r = finish_srun now st code r"

fun srun_op_ok :: "srun_op \<Rightarrow> bool" where
  "srun_op_ok (RenewSession e) = True"
| "srun_op_ok (StateSession st) = (st \<in> set SESSION_NONTERMINAL_STATES)"
| "srun_op_ok (FinishSession st code) = (st \<in> set SESSION_TERMINAL_STATES)"

text \<open>What an operation does to the run table; a refused argument changes nothing.\<close>

definition srun_act ::
  "srun_op \<times> time \<Rightarrow> string \<Rightarrow> session_cred \<Rightarrow> session_run list \<Rightarrow> session_run list \<times> bool" where
  "srun_act op k h rows =
     (if srun_op_ok (fst op)
      then (case fenced_srun k h (snd op) (srun_row (fst op) (snd op)) rows of
              (rows', res) \<Rightarrow> (rows', res \<noteq> None))
      else (rows, False))"

definition claim_sruns ::
  "string list \<times> session_claim \<Rightarrow> session_run list \<Rightarrow> session_run list \<times> session_run option" where
  "claim_sruns x rows =
     (case find (\<lambda>gid. \<not> busy (sc_now (snd x)) rows gid) (fst x) of
        None \<Rightarrow> (rows, None)
      | Some gid \<Rightarrow>
          (case open_attempt (snd x) gid rows of Inl _ \<Rightarrow> (rows, None) | Inr (rows', n) \<Rightarrow> (rows', Some n)))"

definition srun_leased :: "session_run \<Rightarrow> bool" where
  "srun_leased r = (srun_worker_id r \<noteq> None)"

lemma srun_row_eta:
  "srun_row (RenewSession e) now = (\<lambda>r. r\<lparr>srun_lease_expires_at := Some e\<rparr>)"
  "srun_row (StateSession st) now = (\<lambda>r. r\<lparr>srun_state := st\<rparr>)"
  "srun_row (FinishSession st code) now = finish_srun now st code"
  by auto

lemma session_update_runs:
  assumes "session_update op k h db = Inr (db', b)"
  shows "(db_runs db', b) = srun_act op k h (db_runs db)"
    and "db_sessions db' = db_sessions db"
    and "\<not> b \<Longrightarrow> db' = db"
proof -
  obtain o1 now where op: "op = (o1, now)" by fastforce
  have refused: "fenced_srun k h now f (db_runs db) = (rows, None) \<Longrightarrow> rows = db_runs db" for f rows
    by (auto simp: fenced_srun_def split: option.splits if_splits)
  show "(db_runs db', b) = srun_act op k h (db_runs db)"
    using assms refused
    by (cases o1)
       (auto simp: op srun_act_def renew_run_def update_run_state_def finish_run_def srun_row_eta
          split: prod.splits option.splits if_splits)
  show "db_sessions db' = db_sessions db"
    using assms
    by (cases o1)
       (auto simp: op renew_run_def update_run_state_def finish_run_def
          split: prod.splits option.splits if_splits)
  show "db' = db" if "\<not> b"
    using assms that refused
    by (cases o1)
       (auto simp: op renew_run_def update_run_state_def finish_run_def
          split: prod.splits option.splits if_splits)
qed

lemma srun_row_keys [simp]:
  "srun_id (srun_row op now r) = srun_id r"
  "srun_generation_id (srun_row op now r) = srun_generation_id r"
  "srun_attempt (srun_row op now r) = srun_attempt r"
  by (cases op; simp add: finish_srun_def)+

lemma srun_states_disjoint: "st \<in> set SESSION_NONTERMINAL_STATES \<Longrightarrow> st \<notin> set SESSION_TERMINAL_STATES"
  by (auto simp: SESSION_NONTERMINAL_STATES_def SESSION_TERMINAL_STATES_def)

lemma srun_row_leased:
  "srun_op_ok op \<Longrightarrow> srun_leased (srun_row op now r) \<Longrightarrow>
     srun_leased r \<and> (srun_finished (srun_row op now r) \<longrightarrow> srun_finished r)"
  by (cases op) (auto simp: srun_leased_def srun_finished_def finish_srun_def srun_states_disjoint)

lemma expire_srun_keys:
  "srun_id (expire_srun now r) = srun_id r"
  "srun_generation_id (expire_srun now r) = srun_generation_id r"
  "srun_attempt (expire_srun now r) = srun_attempt r"
  "\<not> srun_leased (expire_srun now r)" "srun_finished (expire_srun now r)"
  by (simp_all add: expire_srun_def srun_leased_def srun_finished_def SESSION_TERMINAL_STATES_def)

abbreviation closing_srun :: "time \<Rightarrow> string \<Rightarrow> session_run list \<Rightarrow> session_run \<Rightarrow> session_run" where
  "closing_srun now \<equiv>
     close_latest srun_id srun_generation_id srun_attempt srun_finished (expire_srun now)"

lemma open_attempt_Inr:
  assumes "open_attempt a gid rows = Inr (rows', n)"
  shows "rows' = map (closing_srun (sc_now a) gid rows) rows @ [n]"
    and "n = new_srun a gid (next_number srun_generation_id srun_attempt gid rows)"
    and "srun_id n \<notin> srun_id ` set rows" and "1 \<le> srun_attempt n"
proof -
  let ?rows = "map (closing_srun (sc_now a) gid rows) rows"
  have "insert_srun (new_srun a gid (next_number srun_generation_id srun_attempt gid rows)) ?rows
      = Inr (rows', n)"
    using assms
    by (auto simp: open_attempt_def next_number_def map_close_latest split: option.splits if_splits)
  moreover have "srun_id ` set ?rows = srun_id ` set rows"
    by (simp add: image_image close_latest_key expire_srun_keys)
  ultimately show "rows' = ?rows @ [n]"
    "n = new_srun a gid (next_number srun_generation_id srun_attempt gid rows)"
    "srun_id n \<notin> srun_id ` set rows" "1 \<le> srun_attempt n"
    by (auto simp: insert_srun_def srun_constraints_def split: if_splits)
qed

lemma new_srun_fields [simp]:
  "srun_id (new_srun a gid k) = sc_run_id a" "srun_generation_id (new_srun a gid k) = gid"
  "srun_attempt (new_srun a gid k) = k" "srun_leased (new_srun a gid k)"
  "\<not> srun_finished (new_srun a gid k)"
  by (simp_all add: new_srun_def srun_leased_def srun_finished_def SESSION_TERMINAL_STATES_def)

interpretation sattempts: attempt_table srun_id srun_generation_id srun_attempt srun_leased
  srun_finished claim_sruns srun_act
proof
  fix op :: "srun_op \<times> time" and k and h :: session_cred and rows
  let ?f = "\<lambda>r. if srun_id r = k then srun_row (fst op) (snd op) r else r"
  have "fst (srun_act op k h rows) = rows \<or>
      srun_op_ok (fst op) \<and> fst (srun_act op k h rows) = map ?f rows"
    by (auto simp: srun_act_def fenced_srun_def row_update_def split: option.splits)
  then show "\<exists>f. fst (srun_act op k h rows) = map f rows \<and>
      (\<forall>r. srun_id (f r) = srun_id r \<and> srun_generation_id (f r) = srun_generation_id r \<and>
        srun_attempt (f r) = srun_attempt r \<and>
        (srun_leased (f r) \<longrightarrow> srun_leased r \<and> (srun_finished (f r) \<longrightarrow> srun_finished r)))"
  proof
    assume "fst (srun_act op k h rows) = rows"
    then show ?thesis by (intro exI [of _ id]) simp
  next
    assume "srun_op_ok (fst op) \<and> fst (srun_act op k h rows) = map ?f rows"
    then show ?thesis by (intro exI [of _ ?f]) (auto dest: srun_row_leased)
  qed
next
  fix x rows rows'
  assume "claim_sruns x rows = (rows', None)"
  then show "rows' = rows"
    by (auto simp: claim_sruns_def split: option.splits sum.splits)
next
  fix x rows rows' n
  assume claim: "claim_sruns x rows = (rows', Some n)"
    and nums: "distinct (map (\<lambda>r. (srun_generation_id r, srun_attempt r)) rows)"
  then obtain gid where "open_attempt (snd x) gid rows = Inr (rows', n)"
    by (auto simp: claim_sruns_def split: option.splits sum.splits)
  note op = open_attempt_Inr [OF this]
  show "srun_leased n \<and> \<not> srun_finished n \<and> srun_id n \<notin> srun_id ` set rows \<and>
      (\<forall>r \<in> set rows. srun_generation_id r = srun_generation_id n \<longrightarrow> srun_attempt r < srun_attempt n) \<and>
      (\<exists>f. rows' = map f rows @ [n] \<and>
        (\<forall>r. srun_id (f r) = srun_id r \<and> srun_generation_id (f r) = srun_generation_id r \<and>
          srun_attempt (f r) = srun_attempt r \<and> (srun_leased (f r) \<longrightarrow> f r = r)) \<and>
        (\<forall>r \<in> set rows. srun_generation_id r = srun_generation_id n \<and>
            (\<forall>s \<in> set rows. srun_generation_id s = srun_generation_id n \<longrightarrow> srun_attempt s \<le> srun_attempt r) \<longrightarrow>
          srun_finished (f r)))"
    by (rule close_latest_law [where expire = "expire_srun (sc_now (snd x))" and g = gid])
       (use op nums in \<open>simp_all add: expire_srun_keys\<close>)
qed

section \<open>Sessions and their generations\<close>

text \<open>
  The generations of a session are numbered without gaps up to the session's current one, and
  only the current one may be wanted running.
\<close>

definition numbers :: "string \<Rightarrow> live_generation list \<Rightarrow> int set" where
  "numbers sid gs = gen_number ` {g \<in> set gs. gen_session g = sid}"

definition lineage_ok :: "live_session list \<Rightarrow> live_generation list \<Rightarrow> bool" where
  "lineage_ok ss gs =
     (sessions_ok ss \<and> generations_ok gs \<and> (\<forall>g \<in> set gs. gen_session g \<in> ses_id ` set ss)
      \<and> (\<forall>s \<in> set ss.
           (numbers (ses_id s) gs = {} \<and> ses_current_generation s = 1
            \<or> numbers (ses_id s) gs = {1..ses_current_generation s})
           \<and> (\<forall>g \<in> set gs. gen_session g = ses_id s \<and> gen_desired_state g = ''running''
                \<longrightarrow> gen_number g = ses_current_generation s)))"

lemma generation_unique:
  assumes "lineage_ok ss gs" and "g \<in> set gs" and "g' \<in> set gs"
    and "gen_session g = gen_session g'" and "gen_number g = gen_number g'"
  shows "g = g'"
proof (rule inj_onD [of "\<lambda>g. (gen_session g, gen_number g)" "set gs"])
  show "inj_on (\<lambda>g. (gen_session g, gen_number g)) (set gs)"
    using assms(1) by (simp add: lineage_ok_def generations_ok_def distinct_map)
qed (use assms in simp_all)

lemma lineage_ok_map:
  assumes ok: "lineage_ok ss gs"
    and keys: "\<And>g. gen_id (f g) = gen_id g" "\<And>g. gen_session (f g) = gen_session g"
      "\<And>g. gen_number (f g) = gen_number g" "\<And>g. gen_spec (f g) = gen_spec g"
    and con: "\<And>g. g \<in> set gs \<Longrightarrow> generation_constraints g \<Longrightarrow> generation_constraints (f g)"
    and run: "\<And>g s. g \<in> set gs \<Longrightarrow> s \<in> set ss \<Longrightarrow> gen_session g = ses_id s \<Longrightarrow>
      gen_desired_state (f g) = ''running'' \<Longrightarrow>
      gen_desired_state g = ''running'' \<or> gen_number g = ses_current_generation s"
  shows "lineage_ok ss (map f gs)"
proof -
  have "numbers sid (map f gs) = numbers sid gs" for sid
  proof -
    have "{g \<in> set (map f gs). gen_session g = sid} = f ` {g \<in> set gs. gen_session g = sid}"
      using keys(2) by auto
    then show ?thesis by (simp add: numbers_def image_image keys)
  qed
  moreover have "generations_ok (map f gs)"
    using ok con by (auto simp: lineage_ok_def generations_ok_def keys comp_def list_all_iff)
  moreover have "\<forall>g \<in> set (map f gs). gen_session g \<in> ses_id ` set ss"
    using ok by (auto simp: lineage_ok_def keys)
  moreover have "gen_number g = ses_current_generation s"
    if "s \<in> set ss" "g \<in> set (map f gs)" "gen_session g = ses_id s" "gen_desired_state g = ''running''" for s g
  proof -
    from that(2) obtain g0 where g0: "g0 \<in> set gs" "g = f g0" by auto
    with run [of g0 s] that keys(2) have "gen_desired_state g0 = ''running'' \<or> gen_number g0 = ses_current_generation s"
      by simp
    with ok that g0 keys show ?thesis by (auto simp: lineage_ok_def)
  qed
  moreover have "sessions_ok ss" using ok by (simp add: lineage_ok_def)
  moreover have "numbers (ses_id s) gs = {} \<and> ses_current_generation s = 1
      \<or> numbers (ses_id s) gs = {1..ses_current_generation s}" if "s \<in> set ss" for s
    using ok that by (auto simp: lineage_ok_def)
  ultimately show ?thesis unfolding lineage_ok_def by blast
qed

lemma lineage_ok_sessions:
  assumes ok: "lineage_ok ss gs"
    and "\<And>s. ses_id (f s) = ses_id s" "\<And>s. ses_current_generation (f s) = ses_current_generation s"
    and "\<And>s. s \<in> set ss \<Longrightarrow> ses_desired_state (f s) \<in> {''running'', ''stopped''}"
  shows "lineage_ok (map f ss) gs"
  using assms
  by (simp add: lineage_ok_def sessions_ok_def comp_def list_all_iff image_image)

lemma lineage_row_update:
  assumes "lineage_ok ss gs"
    and "\<And>g. gen_id (f g) = gen_id g" "\<And>g. gen_session (f g) = gen_session g"
      "\<And>g. gen_number (f g) = gen_number g" "\<And>g. gen_spec (f g) = gen_spec g"
    and "\<And>g. g \<in> set gs \<Longrightarrow> gen_id g = k \<Longrightarrow> generation_constraints g \<Longrightarrow> generation_constraints (f g)"
    and "\<And>g s. g \<in> set gs \<Longrightarrow> s \<in> set ss \<Longrightarrow> gen_id g = k \<Longrightarrow> gen_session g = ses_id s \<Longrightarrow>
      gen_desired_state (f g) = ''running'' \<Longrightarrow>
      gen_desired_state g = ''running'' \<or> gen_number g = ses_current_generation s"
  shows "lineage_ok ss (row_update gen_id k f gs)"
  unfolding row_update_def
  by (rule lineage_ok_map [OF assms(1)]) (use assms(2-7) in \<open>auto split: if_splits\<close>)

lemma lineage_new_session:
  assumes "lineage_ok ss gs" and "sessions_ok (ss @ [s])" and "ses_current_generation s = 1"
  shows "lineage_ok (ss @ [s]) gs"
proof -
  have fresh: "ses_id s \<notin> ses_id ` set ss" using assms(2) by (auto simp: sessions_ok_def)
  have other: "gen_session g \<noteq> ses_id s" if "g \<in> set gs" for g
    using assms(1) that fresh unfolding lineage_ok_def by metis
  then have "numbers (ses_id s) gs = {}" by (auto simp: numbers_def)
  with assms other show ?thesis by (auto simp: lineage_ok_def)
qed

text \<open>Numbering the next generation: the previous ones must have been stopped.\<close>

lemma numbers_snoc:
  "numbers sid (gs @ [g]) = (if gen_session g = sid then insert (gen_number g) (numbers sid gs)
     else numbers sid gs)"
  by (auto simp: numbers_def)

lemma lineage_append:
  assumes ok: "lineage_ok ss gs" and new: "generations_ok (gs @ [g])"
    and p: "p \<in> set ss" "ses_id p = gen_session g"
    and num: "numbers (gen_session g) gs = {1..gen_number g - 1}"
    and stopped: "\<forall>g' \<in> set gs. gen_session g' = gen_session g \<longrightarrow> gen_desired_state g' \<noteq> ''running''"
  shows "lineage_ok (row_update ses_id (gen_session g) (\<lambda>s. s\<lparr>ses_current_generation := gen_number g\<rparr>) ss)
     (gs @ [g])"
proof -
  let ?f = "\<lambda>s. if ses_id s = gen_session g then s\<lparr>ses_current_generation := gen_number g\<rparr> else s"
  let ?ss = "map ?f ss"
  have pos: "1 \<le> gen_number g" using new by (simp add: generations_ok_def generation_constraints_def)
  have ids: "map ses_id ?ss = map ses_id ss" by simp
  have "sessions_ok ?ss"
  proof -
    from ids ok pos show ?thesis by (auto simp: lineage_ok_def sessions_ok_def list_all_iff simp del: map_map)
  qed
  moreover have "\<forall>g' \<in> set (gs @ [g]). gen_session g' \<in> ses_id ` set ?ss"
  proof -
    have "ses_id ` set ?ss = ses_id ` set ss" using arg_cong [OF ids, of set] by (simp only: set_map)
    moreover have "gen_session g \<in> ses_id ` set ss" using p by (metis image_eqI)
    ultimately show ?thesis using ok by (simp add: lineage_ok_def)
  qed
  moreover have "(numbers (ses_id s) (gs @ [g]) = {} \<and> ses_current_generation s = 1
            \<or> numbers (ses_id s) (gs @ [g]) = {1..ses_current_generation s})
           \<and> (\<forall>g' \<in> set (gs @ [g]). gen_session g' = ses_id s \<and> gen_desired_state g' = ''running''
                \<longrightarrow> gen_number g' = ses_current_generation s)" if "s \<in> set ?ss" for s
  proof (cases "ses_id s = gen_session g")
    case True
    with that have "ses_current_generation s = gen_number g" by (auto split: if_splits)
    moreover have "insert (gen_number g) {1..gen_number g - 1} = {1..gen_number g}" using pos by auto
    ultimately show ?thesis using True num stopped by (auto simp: numbers_snoc)
  next
    case False
    with that have "s \<in> set ss" by (auto split: if_splits)
    with ok False show ?thesis by (simp add: lineage_ok_def numbers_snoc)
  qed
  ultimately show ?thesis using new unfolding lineage_ok_def row_update_def by blast
qed

lemma stop_generation_fields [simp]:
  "gen_id (stop_generation g) = gen_id g" "gen_session (stop_generation g) = gen_session g"
  "gen_number (stop_generation g) = gen_number g" "gen_spec (stop_generation g) = gen_spec g"
  "gen_desired_state (stop_generation g) = ''stopped''"
  by (simp_all add: stop_generation_def)

lemma generation_states:
  "st \<in> set SESSION_NONTERMINAL_STATES \<Longrightarrow> st \<in> set GENERATION_STATES"
  "st \<in> set SESSION_TERMINAL_STATES \<Longrightarrow> st \<in> set GENERATION_STATES"
  "''STOPPING'' \<in> set GENERATION_STATES" "''STARTING'' \<in> set GENERATION_STATES"
  by (auto simp: GENERATION_STATES_def SESSION_NONTERMINAL_STATES_def)

lemma stop_generation_constraints: "generation_constraints g \<Longrightarrow> generation_constraints (stop_generation g)"
  by (simp add: generation_constraints_def stop_generation_def generation_states)

lemma lineage_current:
  assumes "lineage_ok ss gs" and "p \<in> set ss" and "latest_row gen_session gen_number (ses_id p) gs = Some l"
  shows "gen_number l = ses_current_generation p" and "numbers (ses_id p) gs = {1..ses_current_generation p}"
    and "1 \<le> ses_current_generation p"
proof -
  note l = latest_row_Some [OF assms(3)]
  have mem: "gen_number l \<in> numbers (ses_id p) gs" using l by (auto simp: numbers_def)
  with assms(1,2) show all: "numbers (ses_id p) gs = {1..ses_current_generation p}"
    by (auto simp: lineage_ok_def)
  show pos: "1 \<le> ses_current_generation p"
    using assms(1,2) by (auto simp: lineage_ok_def sessions_ok_def list_all_iff)
  then have "ses_current_generation p \<in> numbers (ses_id p) gs" using all by simp
  then have "ses_current_generation p \<le> gen_number l" using l(3) by (auto simp: numbers_def)
  with mem all show "gen_number l = ses_current_generation p" by simp
qed

lemma new_generation_fields [simp]:
  "gen_id (new_generation gid sid n sp now) = gid"
  "gen_session (new_generation gid sid n sp now) = sid"
  "gen_number (new_generation gid sid n sp now) = n"
  "gen_desired_state (new_generation gid sid n sp now) = ''running''"
  by (simp_all add: new_generation_def)

lemma create_generation_ok:
  assumes ok: "lineage_ok (db_sessions db) (db_generations db)"
    and cr: "create_generation gid sid n sp now db = Inr db'"
  shows "lineage_ok (db_sessions db') (db_generations db')"
proof -
  let ?g = "new_generation gid sid n sp now"
  let ?ss = "db_sessions db" and ?gs = "db_generations db"
  from cr obtain p where p: "row_get ses_id sid ?ss = Some p"
    by (auto simp: create_generation_def split: option.splits)
  then have p_in: "p \<in> set ?ss" and p_id: "ses_id p = sid" using row_get_Some [OF p] by auto
  show ?thesis
  proof (cases "latest_row gen_session gen_number sid ?gs")
    case None
    with cr p have n: "n = 1" and new: "generations_ok (?gs @ [?g])"
      and db': "db' = db\<lparr>db_generations := ?gs @ [?g]\<rparr>"
      by (auto simp: create_generation_def checked_def split: if_splits)
    have none: "\<forall>g' \<in> set ?gs. gen_session g' \<noteq> sid" using None by (simp add: latest_row_None)
    then have empty: "numbers sid ?gs = {}" by (auto simp: numbers_def)
    moreover have "numbers sid ?gs = {} \<and> ses_current_generation s = 1
        \<or> numbers sid ?gs = {1..ses_current_generation s} \<and> 1 \<le> ses_current_generation s"
      if "s \<in> set ?ss" "ses_id s = sid" for s
      using ok that by (auto simp: lineage_ok_def sessions_ok_def list_all_iff)
    ultimately have "row_update ses_id sid (\<lambda>s. s\<lparr>ses_current_generation := 1\<rparr>) ?ss = ?ss"
      unfolding row_update_def by (intro map_idI) fastforce
    with lineage_append [OF ok new p_in] p_id n empty none show ?thesis by (simp add: db')
  next
    case (Some l)
    note cur = lineage_current [OF ok p_in, unfolded p_id, OF Some]
    note lat = latest_row_Some [OF Some]
    let ?gs1 = "row_update gen_id (gen_id l) stop_generation ?gs"
    from cr p Some have n: "n = ses_current_generation p + 1" and new: "generations_ok (?gs1 @ [?g])"
      and db': "db' = db\<lparr>db_generations := ?gs1 @ [?g],
         db_sessions := row_update ses_id sid (\<lambda>s. s\<lparr>ses_current_generation := n\<rparr>) ?ss\<rparr>"
      by (auto simp: create_generation_def checked_def split: if_splits)
    have ok1: "lineage_ok ?ss ?gs1"
      by (rule lineage_row_update [OF ok]) (simp_all add: stop_generation_constraints)
    have "stop_generation l \<in> set ?gs1"
      using lat(1) unfolding set_row_update by (intro image_eqI [of _ _ l]) simp_all
    with lat(2) have "latest_row gen_session gen_number sid ?gs1 \<noteq> None"
      by (auto simp: latest_row_None intro!: bexI [of _ "stop_generation l"])
    then obtain l1 where l1: "latest_row gen_session gen_number (ses_id p) ?gs1 = Some l1"
      using p_id by auto
    have "gen_desired_state g1 \<noteq> ''running''" if g1: "g1 \<in> set ?gs1" "gen_session g1 = sid" for g1
    proof
      assume run: "gen_desired_state g1 = ''running''"
      with g1(1) have "g1 \<in> set ?gs" "gen_id g1 \<noteq> gen_id l" by (auto simp: set_row_update)
      moreover from ok this(1) run g1(2) p_in p_id have "gen_number g1 = gen_number l"
        by (auto simp: lineage_ok_def cur(1))
      ultimately have "g1 = l"
        using generation_unique [OF ok _ lat(1)] lat(2) g1(2) by simp
      with \<open>gen_id g1 \<noteq> gen_id l\<close> show False by simp
    qed
    with lineage_append [OF ok1 new p_in] lineage_current(2) [OF ok1 p_in l1] p_id n
    show ?thesis by (simp add: db')
  qed
qed

section \<open>The database as a state machine\<close>

text \<open>
  One committed transaction: any repository operation with any arguments, by any caller. An
  operation that raises is rolled back and is no step.
\<close>

inductive session_step :: "session_db \<Rightarrow> session_db \<Rightarrow> bool" where
  create_session: "create_session sid cam loc now db = Inr db' \<Longrightarrow> session_step db db'"
| create_generation: "create_generation gid sid n sp now db = Inr db' \<Longrightarrow> session_step db db'"
| set_desired_state: "set_desired_state sid st now db = Inr (db', b) \<Longrightarrow> session_step db db'"
| set_media_state: "set_media_state gid st code db = Inr (db', b) \<Longrightarrow> session_step db db'"
| claim_generation: "claim_generation locked a db = Inr (db', n) \<Longrightarrow> session_step db db'"
| session_update: "session_update op k h db = Inr (db', b) \<Longrightarrow> session_step db db'"

definition empty_db :: session_db where
  "empty_db = \<lparr>db_sessions = [], db_generations = [], db_runs = []\<rparr>"

definition session_db_ok :: "session_db \<Rightarrow> bool" where
  "session_db_ok db =
     (lineage_ok (db_sessions db) (db_generations db) \<and> sattempts.table_ok (db_runs db)
      \<and> (\<forall>r \<in> set (db_runs db). 1 \<le> srun_attempt r))"

lemma claim_loop_find:
  "claim_loop a gs db =
     (case find (\<lambda>g. \<not> busy (sc_now a) (db_runs db) (gen_id g)) gs of
        None \<Rightarrow> Inr (db, None)
      | Some g \<Rightarrow> rbind (open_attempt a (gen_id g) (db_runs db)) (\<lambda>(rows, run).
          Inr (db\<lparr>db_runs := rows,
                 db_generations :=
                   row_update gen_id (gen_id g) (start_generation (sc_now a)) (db_generations db)\<rparr>,
               Some run)))"
  by (induction gs) simp_all

lemma find_map_key: "find P (map f xs) = map_option f (find (\<lambda>x. P (f x)) xs)"
  by (induction xs) simp_all

lemma claim_generation_cases:
  assumes "claim_generation locked a db = Inr (db', on)"
  obtains (none) "db' = db" and "on = None"
  | (claimed) g rows n where
      "find (\<lambda>g. \<not> busy (sc_now a) (db_runs db) (gen_id g)) (candidates locked (db_generations db)) = Some g"
    and "open_attempt a (gen_id g) (db_runs db) = Inr (rows, n)"
    and "db' = db\<lparr>db_runs := rows, db_generations :=
           row_update gen_id (gen_id g) (start_generation (sc_now a)) (db_generations db)\<rparr>"
    and "on = Some n"
proof (cases "find (\<lambda>g. \<not> busy (sc_now a) (db_runs db) (gen_id g)) (candidates locked (db_generations db))")
  case None
  with assms none show ?thesis by (simp add: claim_generation_def claim_loop_find)
next
  case (Some g)
  with assms show ?thesis
    by (auto simp: claim_generation_def claim_loop_find rbind_Inr_iff intro: claimed)
qed

lemma claim_generation_runs:
  assumes "claim_generation locked a db = Inr (db', on)"
  shows "claim_sruns (map gen_id (candidates locked (db_generations db)), a) (db_runs db) =
      (db_runs db', on)
    \<or> db' = db \<and> on = None"
  using assms
  by (cases rule: claim_generation_cases) (simp_all add: claim_sruns_def find_map_key)

lemma row_map_lineage:
  assumes "lineage_ok ss gs"
    and "\<And>g. gen_id (f g) = gen_id g" "\<And>g. gen_session (f g) = gen_session g"
      "\<And>g. gen_number (f g) = gen_number g" "\<And>g. gen_spec (f g) = gen_spec g"
      "\<And>g. gen_desired_state (f g) = gen_desired_state g"
    and "\<And>g. generation_constraints g \<Longrightarrow> generation_constraints (f g)"
  shows "lineage_ok ss (row_update gen_id k f gs)"
  by (rule lineage_row_update [OF assms(1)]) (use assms(2-7) in auto)

lemma media_row_fields [simp]:
  "gen_id (media_row st code g) = gen_id g" "gen_session (media_row st code g) = gen_session g"
  "gen_number (media_row st code g) = gen_number g" "gen_spec (media_row st code g) = gen_spec g"
  "gen_desired_state (media_row st code g) = gen_desired_state g"
  "gen_runtime_state (media_row st code g) = gen_runtime_state g"
  "gen_media_state (media_row st code g) = st"
  by (simp_all add: media_row_def)

lemma start_generation_fields [simp]:
  "gen_id (start_generation now g) = gen_id g" "gen_session (start_generation now g) = gen_session g"
  "gen_number (start_generation now g) = gen_number g" "gen_spec (start_generation now g) = gen_spec g"
  "gen_desired_state (start_generation now g) = gen_desired_state g"
  "gen_runtime_state (start_generation now g) = ''STARTING''"
  "gen_media_state (start_generation now g) = gen_media_state g"
  by (simp_all add: start_generation_def)

lemma desired_generation_fields [simp]:
  "gen_id (desired_generation st g) = gen_id g" "gen_session (desired_generation st g) = gen_session g"
  "gen_number (desired_generation st g) = gen_number g" "gen_spec (desired_generation st g) = gen_spec g"
  "gen_desired_state (desired_generation st g) = st"
  by (simp_all add: desired_generation_def)

lemma set_desired_state_ok:
  assumes ok: "lineage_ok (db_sessions db) (db_generations db)"
    and set: "set_desired_state sid st now db = Inr (db', b)"
  shows "lineage_ok (db_sessions db') (db_generations db')" and "db_runs db' = db_runs db"
proof -
  from set have st: "st \<in> {''running'', ''stopped''}"
    by (simp only: set_desired_state_def split: if_splits) auto
  define db1 where
    "db1 = db\<lparr>db_sessions := row_update ses_id sid (desired_session st now) (db_sessions db)\<rparr>"
  have ok1: "lineage_ok (db_sessions db1) (db_generations db1)"
    unfolding db1_def row_update_def
    using ok st
    by simp (intro lineage_ok_sessions, auto simp: desired_session_def lineage_ok_def sessions_ok_def list_all_iff)
  have cases: "db' = db \<or> db' = db1 \<or> (\<exists>g. get_current_generation sid db1 = Some g \<and>
     db' = db1\<lparr>db_generations := row_update gen_id (gen_id g) (desired_generation st) (db_generations db1)\<rparr>)"
    using set st by (simp only: set_desired_state_def db1_def [symmetric] Let_def)
      (auto split: option.splits)
  then show "db_runs db' = db_runs db" by (auto simp: db1_def)
  have con: "generation_constraints g \<Longrightarrow> generation_constraints (desired_generation st g)" for g
    using st by (simp add: generation_constraints_def desired_generation_def generation_states)
  have "lineage_ok (db_sessions db1) (row_update gen_id (gen_id g) (desired_generation st) (db_generations db1))"
    if g: "get_current_generation sid db1 = Some g" for g
  proof -
    from g obtain p where p: "row_get ses_id sid (db_sessions db1) = Some p"
      and gp: "g \<in> set (db_generations db1)" "gen_session g = sid" "gen_number g = ses_current_generation p"
      by (auto simp: get_current_generation_def find_Some_iff split: option.splits)
    have "gen_number g' = ses_current_generation s"
      if "g' \<in> set (db_generations db1)" "s \<in> set (db_sessions db1)" "gen_id g' = gen_id g"
        "gen_session g' = ses_id s" for g' s
    proof -
      have "g' = g" using ok1 that(1,3) gp(1)
        by (auto simp: lineage_ok_def generations_ok_def distinct_map dest: inj_onD)
      moreover have "s = p" using ok1 that(2,4) gp(2) row_get_Some [OF p] calculation
        by (auto simp: lineage_ok_def sessions_ok_def distinct_map dest: inj_onD)
      ultimately show ?thesis using gp(3) by simp
    qed
    then show ?thesis by (intro lineage_row_update [OF ok1]) (simp_all add: con)
  qed
  with cases ok ok1 show "lineage_ok (db_sessions db') (db_generations db')" by auto
qed

lemma session_update_lineage:
  assumes "lineage_ok (db_sessions db) (db_generations db)" and "session_update op k h db = Inr (db', b)"
  shows "lineage_ok (db_sessions db') (db_generations db')"
proof -
  obtain o1 now where op: "op = (o1, now)" by fastforce
  have state: "lineage_ok (db_sessions db) (row_update gen_id gid (\<lambda>g. g\<lparr>gen_runtime_state := st\<rparr>) (db_generations db))"
    if "st \<in> set SESSION_NONTERMINAL_STATES" for st gid
    using that by (intro row_map_lineage [OF assms(1)]) (simp_all add: generation_constraints_def generation_states)
  have stop: "lineage_ok (db_sessions db) (row_update gen_id gid (\<lambda>g. g\<lparr>gen_runtime_state := st,
      gen_stopped_at := t, gen_error_code := code\<rparr>) (db_generations db))"
    if "st \<in> set SESSION_TERMINAL_STATES" for st gid t code
    using that by (intro row_map_lineage [OF assms(1)]) (simp_all add: generation_constraints_def generation_states)
  show ?thesis
    using assms state stop
    by (cases o1)
       (auto simp: op renew_run_def update_run_state_def finish_run_def
          split: prod.splits option.splits if_splits)
qed

lemma positive_attempts_update:
  assumes "\<forall>r \<in> set rows. 1 \<le> srun_attempt r"
  shows "\<forall>r \<in> set (fst (srun_act op k h rows)). 1 \<le> srun_attempt r"
proof -
  from sattempts.act_rows [of op k h rows] obtain f where
    "fst (srun_act op k h rows) = map f rows" "\<And>r. srun_attempt (f r) = srun_attempt r"
    by auto
  with assms show ?thesis by simp
qed

lemma session_step_ok: "session_step db db' \<Longrightarrow> session_db_ok db \<Longrightarrow> session_db_ok db'"
proof (induction rule: session_step.induct)
  case (create_session sid cam loc now db db')
  then show ?case
    by (auto simp: create_session_def checked_def session_db_ok_def intro!: lineage_new_session split: if_splits)
next
  case (create_generation gid sid n sp now db db')
  moreover from create_generation(1) have "db_runs db' = db_runs db"
    by (auto simp: create_generation_def checked_def split: option.splits if_splits)
  ultimately show ?case using create_generation_ok by (auto simp: session_db_ok_def)
next
  case (set_desired_state sid st now db db' b)
  then show ?case using set_desired_state_ok by (auto simp: session_db_ok_def)
next
  case (set_media_state gid st code db db' b)
  then have st: "st \<in> set MEDIA_STATES" and db': "db' =
      db\<lparr>db_generations := row_update gen_id gid (media_row st code) (db_generations db)\<rparr>"
    by (auto simp: set_media_state_def split: if_splits)
  have "lineage_ok (db_sessions db) (row_update gen_id gid (media_row st code) (db_generations db))"
    using set_media_state(2) st
    by (intro row_map_lineage) (simp_all add: session_db_ok_def generation_constraints_def)
  with set_media_state(2) show ?case by (simp add: session_db_ok_def db')
next
  case (claim_generation locked a db db' n)
  have "sattempts.table_ok (db_runs db')"
    using claim_generation_runs [OF claim_generation(1)] claim_generation(2) sattempts.table_ok_claim
    by (auto simp: session_db_ok_def)
  moreover from claim_generation have "\<forall>r \<in> set (db_runs db'). 1 \<le> srun_attempt r"
  proof (cases rule: claim_generation_cases)
    case (claimed g rows m)
    then show ?thesis
      using claim_generation(2) open_attempt_Inr [OF claimed(2)]
      by (auto simp: session_db_ok_def close_latest_key expire_srun_keys)
  qed (simp add: session_db_ok_def)
  moreover from claim_generation have "lineage_ok (db_sessions db') (db_generations db')"
    by (cases rule: claim_generation_cases)
       (auto simp: session_db_ok_def generation_constraints_def generation_states intro!: row_map_lineage)
  ultimately show ?case by (simp add: session_db_ok_def)
next
  case (session_update op k h db db' b)
  have runs: "db_runs db' = fst (srun_act op k h (db_runs db))"
    using session_update_runs(1) [OF session_update(1)] by (metis fst_conv)
  moreover have "sattempts.table_ok (db_runs db')"
    using sattempts.table_ok_act [of "db_runs db" op k h] session_update(2) runs
    by (simp add: session_db_ok_def)
  moreover have "\<forall>r \<in> set (db_runs db'). 1 \<le> srun_attempt r"
    using session_update(2) unfolding runs
    by (intro positive_attempts_update) (simp add: session_db_ok_def)
  ultimately show ?case using session_update_lineage [OF _ session_update(1)] session_update(2) by (simp add: session_db_ok_def)
qed

lemma empty_db_ok: "session_db_ok empty_db"
  by (simp add: session_db_ok_def empty_db_def lineage_ok_def sessions_ok_def generations_ok_def
        sattempts.table_ok_Nil)

lemma session_reachable_ok: "session_step\<^sup>*\<^sup>* empty_db db \<Longrightarrow> session_db_ok db"
  by (induction rule: rtranclp_induct) (auto intro: empty_db_ok session_step_ok)

text \<open>
  C17. Whatever the services and workers do, the generations of a session are numbered 1 to its
  current generation without gaps (or it has none yet), every generation belongs to a session, and
  a generation that is wanted running is its session's current one, so at most one is.
\<close>

theorem session_generations_consecutive:
  assumes "session_step\<^sup>*\<^sup>* empty_db db" and "s \<in> set (db_sessions db)"
  shows "(numbers (ses_id s) (db_generations db) = {} \<and> ses_current_generation s = 1
      \<or> numbers (ses_id s) (db_generations db) = {1..ses_current_generation s})
    \<and> (\<forall>g \<in> set (db_generations db). gen_session g \<in> ses_id ` set (db_sessions db)
        \<and> (gen_session g = ses_id s \<and> gen_desired_state g = ''running'' \<longrightarrow>
             gen_number g = ses_current_generation s \<and>
             (\<forall>g' \<in> set (db_generations db). gen_session g' = ses_id s
                \<and> gen_desired_state g' = ''running'' \<longrightarrow> g' = g)))"
proof -
  have ok: "lineage_ok (db_sessions db) (db_generations db)"
    using session_reachable_ok [OF assms(1)] by (simp add: session_db_ok_def)
  have "g' = g" if "g \<in> set (db_generations db)" "g' \<in> set (db_generations db)"
    "gen_session g = ses_id s" "gen_session g' = ses_id s"
    "gen_number g = ses_current_generation s" "gen_number g' = ses_current_generation s" for g g'
    using generation_unique [OF ok that(2,1)] that(3-6) by simp
  with ok assms(2) show ?thesis by (auto simp: lineage_ok_def)
qed

text \<open>
  C18. At most one run of a generation is leased at any time; it is the one with the highest attempt
  number and not in a terminal state.
\<close>

theorem session_lease_exclusive:
  assumes "session_step\<^sup>*\<^sup>* empty_db db" and "r \<in> set (db_runs db)" and "srun_worker_id r \<noteq> None"
  shows "srun_state r \<notin> set SESSION_TERMINAL_STATES
    \<and> (\<forall>s \<in> set (db_runs db). srun_generation_id s = srun_generation_id r \<longrightarrow>
         srun_attempt s \<le> srun_attempt r \<and> (srun_worker_id s \<noteq> None \<longrightarrow> s = r))"
proof -
  have ok: "sattempts.table_ok (db_runs db)"
    using session_reachable_ok [OF assms(1)] by (simp add: session_db_ok_def)
  have lr: "srun_leased r" using assms(3) by (simp add: srun_leased_def)
  moreover have "s = r" if "s \<in> set (db_runs db)" "srun_generation_id s = srun_generation_id r"
    "srun_worker_id s \<noteq> None" for s
    using sattempts.leased_unique [OF ok that(1) assms(2) _ lr that(2)] that(3)
    by (simp add: srun_leased_def)
  ultimately show ?thesis
    using ok assms(2) by (auto simp: sattempts.table_ok_def srun_finished_def)
qed

lemma candidates_iff:
  "g \<in> set (candidates locked gs) \<longleftrightarrow>
     g \<in> set gs \<and> gen_desired_state g = ''running'' \<and> gen_media_state g = ''ready'' \<and> \<not> locked (gen_id g)"
  by (auto simp: candidates_def)

lemma find_sorted_first:
  assumes "find P (sort_key k xs) = Some x" and "y \<in> set xs" and "k y < k x"
  shows "\<not> P y"
proof -
  from assms(1) obtain i where i: "i < length (sort_key k xs)" "sort_key k xs ! i = x"
    "\<forall>j < i. \<not> P (sort_key k xs ! j)"
    by (auto simp: find_Some_iff)
  from assms(2) obtain j where j: "j < length (sort_key k xs)" "sort_key k xs ! j = y"
    by (metis in_set_conv_nth set_sort)
  have "j < i"
  proof (rule ccontr)
    assume "\<not> j < i"
    then have "map k (sort_key k xs) ! i \<le> map k (sort_key k xs) ! j"
      using j(1) by (intro sorted_nth_mono) simp_all
    with i(1,2) j assms(3) show False by simp
  qed
  with i(3) j(2) show ?thesis by blast
qed

lemma claimed_busy:
  assumes ok: "sattempts.table_ok rows" and free: "\<not> busy now rows gid"
    and r: "r \<in> set rows" "srun_generation_id r = gid"
  shows "srun_worker_id r = None \<or> \<not> sql_greater (srun_lease_expires_at r) now"
proof (cases "srun_leased r")
  case True
  have "latest_row srun_generation_id srun_attempt (srun_generation_id r) rows = Some r"
    by (rule latest_row_unique) (use ok r(1) True in \<open>auto simp: sattempts.table_ok_def\<close>)
  moreover have "\<not> srun_finished r" using ok r(1) True by (auto simp: sattempts.table_ok_def)
  ultimately show ?thesis using free r(2) by (simp add: busy_def)
qed (simp add: srun_leased_def)

text \<open>
  A claim opens an attempt only for a generation that is its session's current one, wanted
  running, with its media ready and not held under a live lease, the oldest such generation that is
  not locked; the new run is the generation's only leased run and has its highest attempt number.
\<close>

theorem claim_generation_correct:
  assumes "session_step\<^sup>*\<^sup>* empty_db db" and "claim_generation locked a db = Inr (db', Some n)"
  shows "\<exists>g \<in> set (db_generations db). \<exists>s \<in> set (db_sessions db).
      gen_session g = ses_id s \<and> gen_number g = ses_current_generation s
      \<and> gen_desired_state g = ''running'' \<and> gen_media_state g = ''ready''
      \<and> n = new_srun a (gen_id g) (srun_attempt n) \<and> n \<in> set (db_runs db')
      \<and> (\<forall>r \<in> set (db_runs db). srun_generation_id r = gen_id g \<longrightarrow> srun_attempt r < srun_attempt n
           \<and> (srun_worker_id r = None \<or> \<not> sql_greater (srun_lease_expires_at r) (sc_now a)))
      \<and> (\<forall>r \<in> set (db_runs db'). srun_generation_id r = gen_id g \<and> srun_worker_id r \<noteq> None \<longrightarrow> r = n)
      \<and> (\<forall>g' \<in> set (candidates locked (db_generations db)).
           (gen_created_at g', gen_id g') < (gen_created_at g, gen_id g) \<longrightarrow>
           busy (sc_now a) (db_runs db) (gen_id g'))"
  using assms(2)
proof (cases rule: claim_generation_cases)
  case (claimed g rows m)
  note ok = session_reachable_ok [OF assms(1), unfolded session_db_ok_def]
  note runs_ok = conjunct1 [OF conjunct2 [OF ok]]
  have m: "m = n" and runs: "db_runs db' = rows" using claimed by simp_all
  note opened = open_attempt_Inr [OF claimed(2)]
  from claimed(1) have free: "\<not> busy (sc_now a) (db_runs db) (gen_id g)"
    and g: "g \<in> set (candidates locked (db_generations db))"
    by (auto simp: find_Some_iff)
  then have g': "g \<in> set (db_generations db)" "gen_desired_state g = ''running''" "gen_media_state g = ''ready''"
    by (simp_all add: candidates_iff)
  with ok obtain s where s: "s \<in> set (db_sessions db)" "gen_session g = ses_id s"
    unfolding lineage_ok_def by (metis imageE)
  with ok g' have cur: "gen_number g = ses_current_generation s" by (auto simp: lineage_ok_def)
  have claim: "claim_sruns (map gen_id (candidates locked (db_generations db)), a) (db_runs db) = (rows, Some n)"
    using claim_generation_runs [OF assms(2)] runs by simp
  have older: "busy (sc_now a) (db_runs db) (gen_id h)"
    if "h \<in> set (candidates locked (db_generations db))"
      "(gen_created_at h, gen_id h) < (gen_created_at g, gen_id g)" for h
    using find_sorted_first [OF claimed(1) [unfolded candidates_def], of h] that
    by (simp add: candidates_def)
  have only: "r = n" if "r \<in> set rows" "srun_generation_id r = gen_id g" "srun_worker_id r \<noteq> None" for r
    using sattempts.claim_closes [OF runs_ok claim that(1)] that(2,3) opened(2) m
    by (simp add: srun_leased_def)
  have newer: "srun_attempt r < srun_attempt n" if "r \<in> set (db_runs db)" "srun_generation_id r = gen_id g" for r
    using next_number_greater [OF that(1), of srun_attempt srun_generation_id] that(2) opened(2) m by simp
  have "n = new_srun a (gen_id g) (srun_attempt n)" "n \<in> set rows" using opened(1,2) m by simp_all
  with g' s cur older only newer claimed_busy [OF runs_ok free] runs show ?thesis
    by (intro bexI [of _ g] bexI [of _ s]) auto
qed simp

text \<open>
  C34. When a running generation with ready media is unlocked and not held under a live lease, a
  claim with a fresh run id succeeds: no generation is left unserved.
\<close>

theorem claim_generation_progress:
  assumes "session_step\<^sup>*\<^sup>* empty_db db"
    and "g \<in> set (candidates locked (db_generations db))"
    and "\<not> busy (sc_now a) (db_runs db) (gen_id g)"
    and "sc_run_id a \<notin> srun_id ` set (db_runs db)"
  shows "\<exists>db' n. claim_generation locked a db = Inr (db', Some n)"
proof -
  let ?cs = "candidates locked (db_generations db)"
  let ?free = "\<lambda>g. \<not> busy (sc_now a) (db_runs db) (gen_id g)"
  from assms(2,3) obtain h where h: "find ?free ?cs = Some h"
    by (cases "find ?free ?cs") (auto simp: find_None_iff)
  let ?num = "next_number srun_generation_id srun_attempt (gen_id h) (db_runs db)"
  let ?rows = "map (closing_srun (sc_now a) (gen_id h) (db_runs db)) (db_runs db)"
  have "1 \<le> ?num"
    using session_reachable_ok [OF assms(1)] latest_row_Some(1)
    unfolding session_db_ok_def by (fastforce simp: next_number_def split: option.splits)
  then have "srun_constraints (new_srun a (gen_id h) ?num)"
    by (simp add: srun_constraints_def) (simp add: new_srun_def SESSION_NONTERMINAL_STATES_def)
  moreover have "srun_id ` set ?rows = srun_id ` set (db_runs db)"
    by (simp add: image_image close_latest_key expire_srun_keys)
  moreover have "(gen_id h, ?num) \<notin> (\<lambda>r. (srun_generation_id r, srun_attempt r)) ` set ?rows"
    by (auto simp: close_latest_key expire_srun_keys
          dest!: next_number_greater [of _ "db_runs db" srun_attempt srun_generation_id])
  ultimately have "insert_srun (new_srun a (gen_id h) ?num) ?rows =
      Inr (?rows @ [new_srun a (gen_id h) ?num], new_srun a (gen_id h) ?num)"
    using assms(4) by (simp add: insert_srun_def)
  moreover have "open_attempt a (gen_id h) (db_runs db) = insert_srun (new_srun a (gen_id h) ?num) ?rows"
    by (auto simp: open_attempt_def next_number_def map_close_latest split: option.splits)
  ultimately show ?thesis using h by (simp add: claim_generation_def claim_loop_find)
qed

lemma retired_refused:
  assumes "sattempts.retired k rows"
  shows "srun_act op k h rows = (rows, False)"
proof -
  from assms obtain r where r: "row_get srun_id k rows = Some r"
    by (cases "row_get srun_id k rows") (auto simp: sattempts.retired_def row_get_None)
  with assms row_get_Some [OF r] have "\<not> owned h (snd op) r"
    by (auto simp: sattempts.retired_def srun_leased_def owned_def split: prod.splits)
  with r show ?thesis by (simp add: srun_act_def fenced_srun_def)
qed

lemma session_step_runs:
  assumes "session_step db db'"
  shows "db_runs db' = db_runs db
    \<or> (\<exists>op k h. db_runs db' = fst (srun_act op k h (db_runs db)))
    \<or> (\<exists>x n. claim_sruns x (db_runs db) = (db_runs db', n))"
  using assms
proof cases
  case (session_update op k h b)
  from session_update_runs(1) [OF this] have "db_runs db' = fst (srun_act op k h (db_runs db))"
    by (metis fst_conv)
  then show ?thesis by blast
next
  case (claim_generation locked a n)
  from claim_generation_runs [OF this] show ?thesis by auto
qed (auto simp: create_session_def create_generation_def set_desired_state_def set_media_state_def
       checked_def Let_def split: option.splits if_splits)

lemma retired_steps:
  assumes "session_step\<^sup>*\<^sup>* db db'" and "session_db_ok db" and "sattempts.retired k (db_runs db)"
  shows "sattempts.retired k (db_runs db')"
proof -
  from assms(1) have "session_db_ok db' \<and> sattempts.retired k (db_runs db')"
  proof (induction rule: rtranclp_induct)
    case base
    with assms(2,3) show ?case by simp
  next
    case (step y z)
    then have ok: "session_db_ok z" using session_step_ok by blast
    have "sattempts.table_ok (db_runs y)" using step(3) by (simp add: session_db_ok_def)
    with session_step_runs [OF step(2)] step(3) have "sattempts.retired k (db_runs z)"
      by (metis sattempts.retired_act sattempts.retired_claim)
    with ok show ?case ..
  qed
  then show ?thesis ..
qed

text \<open>
  Once a claim has opened a new attempt for a generation, every operation on an earlier run of
  that generation is refused and changes nothing, whoever calls it with whatever credentials and
  whatever committed transactions follow the claim.
\<close>

theorem superseded_session_run_fenced:
  assumes "session_step\<^sup>*\<^sup>* empty_db db" and "claim_generation locked a db = Inr (db', Some n)"
    and "r \<in> set (db_runs db)" and "srun_generation_id r = srun_generation_id n"
    and "session_step\<^sup>*\<^sup>* db' db''"
  shows "case session_update op (srun_id r) h db'' of
      Inl e \<Rightarrow> True | Inr (x, changed) \<Rightarrow> x = db'' \<and> \<not> changed"
proof -
  note ok = session_reachable_ok [OF assms(1)]
  then have table: "sattempts.table_ok (db_runs db)" by (simp add: session_db_ok_def)
  have ok': "session_db_ok db'"
    using session_step_ok [OF session_step.claim_generation [OF assms(2)] ok] .
  have "claim_sruns (map gen_id (candidates locked (db_generations db)), a) (db_runs db) = (db_runs db', Some n)"
    using claim_generation_runs [OF assms(2)] by simp
  from sattempts.claim_retires [OF table this assms(3,4)]
  have "sattempts.retired (srun_id r) (db_runs db'')" by (rule retired_steps [OF assms(5) ok'])
  note refused = retired_refused [OF this, of op h]
  have "x = db'' \<and> \<not> b" if "session_update op (srun_id r) h db'' = Inr (x, b)" for x b
    using session_update_runs(1,3) [OF that] refused by simp
  then show ?thesis by (auto split: sum.splits)
qed

section \<open>Witnesses\<close>

definition sample_spec :: "string \<Rightarrow> generation_spec" where
  "sample_spec path =
     \<lparr>requested_spec = [], resolved_spec = [], spec_hash = ''h'', profile_id = ''p'',
      profile_version = 1, source_type = ''whipPush'', source_ciphertext = None, ingress_path = path\<rparr>"

definition sample_session :: live_session where
  "sample_session =
     \<lparr>ses_id = ''s'', ses_camera_external_id = ''cam'', ses_location_snapshot = None,
      ses_desired_state = ''running'', ses_current_generation = 1, ses_created_at = 0,
      ses_stopped_at = None\<rparr>"

definition sample_generation :: live_generation where
  "sample_generation = new_generation ''g1'' ''s'' 1 (sample_spec ''ingress/1'') 1"

definition sample_sclaim :: "string \<Rightarrow> time \<Rightarrow> session_claim" where
  "sample_sclaim i now =
     \<lparr>sc_run_id = i, sc_worker = ''w'', sc_token = ''t'', sc_now = now, sc_lease_seconds = 30\<rparr>"

definition sample_db0 :: session_db where
  "sample_db0 = \<lparr>db_sessions = [sample_session], db_generations = [sample_generation], db_runs = []\<rparr>"

definition sample_ready :: live_generation where
  "sample_ready = media_row ''ready'' None sample_generation"

definition sample_db1 :: session_db where
  "sample_db1 = \<lparr>db_sessions = [sample_session], db_generations = [sample_ready], db_runs = []\<rparr>"

definition sample_srun :: "string \<Rightarrow> int \<Rightarrow> time \<Rightarrow> session_run" where
  "sample_srun i k now = new_srun (sample_sclaim i now) ''g1'' k"

definition sample_db2 :: session_db where
  "sample_db2 = \<lparr>db_sessions = [sample_session], db_generations = [start_generation 2 sample_ready],
     db_runs = [sample_srun ''r1'' 1 2]\<rparr>"

lemma sample_create_session:
  "create_session ''s'' ''cam'' None 0 empty_db =
     Inr \<lparr>db_sessions = [sample_session], db_generations = [], db_runs = []\<rparr>"
  by (simp add: create_session_def checked_def sessions_ok_def empty_db_def sample_session_def)

lemma sample_create_generation:
  "create_generation ''g1'' ''s'' 1 (sample_spec ''ingress/1'') 1
     \<lparr>db_sessions = [sample_session], db_generations = [], db_runs = []\<rparr> = Inr sample_db0"
  by (simp add: create_generation_def checked_def sample_db0_def sample_generation_def sample_session_def
        row_get_def latest_row_def select_first_def generations_ok_def)
     (simp add: generation_constraints_def new_generation_def sample_spec_def GENERATION_STATES_def
        SESSION_NONTERMINAL_STATES_def MEDIA_STATES_def source_secret_ok_def)

lemma sample_set_ready: "set_media_state ''g1'' ''ready'' None sample_db0 = Inr (sample_db1, True)"
  by (simp add: set_media_state_def MEDIA_STATES_def sample_db0_def sample_db1_def sample_ready_def
        row_update_def row_get_def) (simp add: sample_generation_def)

lemma sample_candidates:
  "candidates (\<lambda>_. False) [sample_ready] = [sample_ready]" "gen_id sample_ready = ''g1''"
  "candidates (\<lambda>_. False) [start_generation 2 sample_ready] = [start_generation 2 sample_ready]"
  by (simp_all add: candidates_def sample_ready_def) (simp_all add: sample_generation_def)

lemma sample_claim_generation:
  "claim_generation (\<lambda>_. False) (sample_sclaim ''r1'' 2) sample_db1 =
     Inr (sample_db2, Some (sample_srun ''r1'' 1 2))"
  by (simp add: claim_generation_def sample_db1_def sample_candidates busy_def latest_row_def select_first_def
        open_attempt_def insert_srun_def row_update_def sample_db2_def sample_srun_def)
     (simp add: srun_constraints_def new_srun_def SESSION_NONTERMINAL_STATES_def sample_sclaim_def)

lemma sample_db1_reachable: "session_step\<^sup>*\<^sup>* empty_db sample_db1"
  by (rule rtranclp.rtrancl_into_rtrancl
        [OF rtranclp.rtrancl_into_rtrancl
          [OF r_into_rtranclp [of session_step, OF session_step.create_session [OF sample_create_session]]
            session_step.create_generation [OF sample_create_generation]]
          session_step.set_media_state [OF sample_set_ready]])

lemma sample_db2_reachable: "session_step\<^sup>*\<^sup>* empty_db sample_db2"
  by (rule rtranclp.rtrancl_into_rtrancl [OF sample_db1_reachable
        session_step.claim_generation [OF sample_claim_generation]])

lemma sample_reclaim:
  "claim_generation (\<lambda>_. False) (sample_sclaim ''r2'' 90000000) sample_db2 =
     Inr (sample_db2\<lparr>db_generations := [start_generation 90000000 (start_generation 2 sample_ready)],
        db_runs := [expire_srun 90000000 (sample_srun ''r1'' 1 2), sample_srun ''r2'' 2 90000000]\<rparr>,
      Some (sample_srun ''r2'' 2 90000000))"
proof -
  have latest: "latest_row srun_generation_id srun_attempt ''g1'' [sample_srun ''r1'' 1 2] = Some (sample_srun ''r1'' 1 2)"
    by (simp add: latest_row_def select_first_def sample_srun_def)
  have free: "\<not> busy (sc_now (sample_sclaim ''r2'' 90000000)) [sample_srun ''r1'' 1 2] ''g1''"
    by (simp add: busy_def latest) (simp add: sample_srun_def sample_sclaim_def new_srun_def sql_greater_def seconds_def)
  have op: "open_attempt (sample_sclaim ''r2'' 90000000) ''g1'' [sample_srun ''r1'' 1 2] =
      Inr ([expire_srun 90000000 (sample_srun ''r1'' 1 2), sample_srun ''r2'' 2 90000000],
           sample_srun ''r2'' 2 90000000)"
    by (simp add: open_attempt_def latest insert_srun_def row_update_def)
       (simp add: sample_srun_def expire_srun_def new_srun_def sample_sclaim_def srun_finished_def
          srun_constraints_def SESSION_NONTERMINAL_STATES_def SESSION_TERMINAL_STATES_def)
  have t: "sc_now (sample_sclaim ''r2'' 90000000) = 90000000" by (simp add: sample_sclaim_def)
  show ?thesis
    using free op
    by (simp add: claim_generation_def sample_db2_def sample_candidates row_update_def t)
qed

theorem session_generations_consecutive_witness:
  "numbers (ses_id sample_session) (db_generations sample_db1) = {} \<and> ses_current_generation sample_session = 1
    \<or> numbers (ses_id sample_session) (db_generations sample_db1) = {1..ses_current_generation sample_session}"
  using session_generations_consecutive [OF sample_db1_reachable, of sample_session]
  by (simp add: sample_db1_def)

theorem session_lease_exclusive_witness:
  "srun_state (sample_srun ''r1'' 1 2) \<notin> set SESSION_TERMINAL_STATES"
proof -
  have "srun_worker_id (sample_srun ''r1'' 1 2) \<noteq> None" by (simp add: sample_srun_def new_srun_def)
  from session_lease_exclusive [OF sample_db2_reachable _ this] show ?thesis by (simp add: sample_db2_def)
qed

theorem claim_generation_correct_witness:
  "\<exists>g \<in> set (db_generations sample_db2). gen_desired_state g = ''running'' \<and> gen_media_state g = ''ready''
    \<and> sample_srun ''r2'' 2 90000000 = new_srun (sample_sclaim ''r2'' 90000000) (gen_id g)
        (srun_attempt (sample_srun ''r2'' 2 90000000))"
  using claim_generation_correct [OF sample_db2_reachable sample_reclaim]
  by (elim bexE conjE) (intro bexI conjI)

theorem claim_generation_progress_witness:
  "\<exists>db' n. claim_generation (\<lambda>_. False) (sample_sclaim ''r1'' 2) sample_db1 = Inr (db', Some n)"
  by (rule claim_generation_progress [OF sample_db1_reachable, of sample_ready])
     (simp_all add: sample_db1_def sample_candidates busy_def latest_row_def select_first_def)

theorem superseded_session_run_fenced_witness:
  "case session_update (RenewSession 99, 5) (srun_id (sample_srun ''r1'' 1 2)) (''w'', Some ''t'', ''g1'', 1)
      (sample_db2\<lparr>db_generations := [start_generation 90000000 (start_generation 2 sample_ready)],
        db_runs := [expire_srun 90000000 (sample_srun ''r1'' 1 2), sample_srun ''r2'' 2 90000000]\<rparr>) of
     Inl e \<Rightarrow> True
   | Inr (x, changed) \<Rightarrow>
       x = sample_db2\<lparr>db_generations := [start_generation 90000000 (start_generation 2 sample_ready)],
        db_runs := [expire_srun 90000000 (sample_srun ''r1'' 1 2), sample_srun ''r2'' 2 90000000]\<rparr>
       \<and> \<not> changed"
  by (rule superseded_session_run_fenced [OF sample_db2_reachable sample_reclaim _ _ rtranclp.rtrancl_refl])
     (simp_all add: sample_db2_def sample_srun_def)

end
