(* ===== verification/Media_Reconciliation.thy ===== *)
theory Media_Reconciliation
  imports Media_Client Live_Sessions
begin

text \<open>
  Keeping the media server's paths in step with the wanted generations:
  \<open>ingress_config\<close> of \<open>src/backend/app/infrastructure/media/mediamtx_client.py\<close> and
  \<open>src/backend/app/services/mediamtx_reconciliation_service.py\<close>. The secret cipher and the HTTP
  transport are parameters. The source iterates over a set of stale names; \<open>order\<close> is the order
  it happens to take. The service's lock makes a pass one step.
\<close>

section \<open>Path configurations\<close>

definition starts_with :: "string list \<Rightarrow> string \<Rightarrow> bool" where
  "starts_with ps s = list_ex (\<lambda>p. take (length p) s = p) ps"

definition RTSP_SCHEMES :: "string list" where
  "RTSP_SCHEMES = [''rtsp://'', ''rtsps://'']"

definition WHEP_SCHEMES :: "string list" where
  "WHEP_SCHEMES = [''whep://'', ''wheps://'']"

definition ingress_config :: "string \<Rightarrow> string option \<Rightarrow> pydict result" where
  "ingress_config kind source_url =
     (if kind = ''whipPush'' then Inr [(PStr ''source'', PStr ''publisher'')]
      else if kind = ''rtspPull'' then
        (case source_url of
           Some u \<Rightarrow> if starts_with RTSP_SCHEMES (py_lower u)
                     then Inr [(PStr ''source'', PStr u), (PStr ''rtspTransport'', PStr ''tcp'')]
                     else Inl (ValueError ''LIVE_SOURCE_CREDENTIAL_INVALID'')
         | None \<Rightarrow> Inl (ValueError ''LIVE_SOURCE_CREDENTIAL_INVALID''))
      else if kind = ''whepPull'' then
        (case source_url of
           Some u \<Rightarrow> if starts_with WHEP_SCHEMES (py_lower u) then Inr [(PStr ''source'', PStr u)]
                     else Inl (ValueError ''LIVE_SOURCE_CREDENTIAL_INVALID'')
         | None \<Rightarrow> Inl (ValueError ''LIVE_SOURCE_CREDENTIAL_INVALID''))
      else Inl (ValueError ''LIVE_SOURCE_TYPE_UNSUPPORTED''))"

definition get_or_none :: "pydict \<Rightarrow> string \<Rightarrow> pyval" where
  "get_or_none d k = (case map_of d (PStr k) of None \<Rightarrow> PNone | Some v \<Rightarrow> v)"

text \<open>A source that is present but not a string has no \<open>startswith\<close>.\<close>

definition normalized :: "pydict \<Rightarrow> pydict result" where
  "normalized config =
     (case (case map_of config (PStr ''source'') of None \<Rightarrow> PStr [] | Some v \<Rightarrow> v) of
        PStr s \<Rightarrow>
          Inr ((PStr ''source'', get_or_none config ''source'') #
            (if starts_with RTSP_SCHEMES s
             then [(PStr ''rtspTransport'', get_or_none config ''rtspTransport'')] else []))
      | _ \<Rightarrow> Inl (OtherError ''AttributeError''))"

definition source_url_of :: "(string \<Rightarrow> string result) option \<Rightarrow> string option \<Rightarrow> string option result" where
  "source_url_of cipher ciphertext =
     (case ciphertext of
        None \<Rightarrow> Inr None
      | Some c \<Rightarrow>
          (case cipher of
             None \<Rightarrow> Inl (ValueError ''LIVE_SECRET_CONFIGURATION_REQUIRED'')
           | Some decrypt \<Rightarrow> rbind (decrypt c) (\<lambda>u. Inr (Some u))))"

section \<open>One pass\<close>

record reconciliation_result =
  rr_added :: nat
  rr_replaced :: nat
  rr_deleted :: nat
  rr_ready :: nat
  rr_waiting :: nat
  rr_failed :: nat

definition no_result :: reconciliation_result where
  "no_result = \<lparr>rr_added = 0, rr_replaced = 0, rr_deleted = 0, rr_ready = 0, rr_waiting = 0, rr_failed = 0\<rparr>"

type_synonym stale = "(string \<times> time) list"

record 's pass =
  ps_media :: "'s media"
  ps_db :: session_db
  ps_counts :: reconciliation_result

definition media_step :: "('s, 'a) media_op \<Rightarrow> 's pass \<Rightarrow> 's pass \<times> (media_exc + 'a)" where
  "media_step m ps = (case m (ps_media ps) of (w, r) \<Rightarrow> (ps\<lparr>ps_media := w\<rparr>, r))"

definition count :: "(reconciliation_result \<Rightarrow> reconciliation_result) \<Rightarrow> 's pass \<Rightarrow> 's pass" where
  "count f ps = ps\<lparr>ps_counts := f (ps_counts ps)\<rparr>"

text \<open>Create or correct the path; the count is taken once the call has succeeded.\<close>

definition provision_path ::
  "'s transport \<Rightarrow> string \<Rightarrow> pydict \<Rightarrow> 's pass \<Rightarrow> 's pass \<times> (media_exc + unit)" where
  "provision_path http name desired ps =
     (case media_step (get_config_path http name) ps of
        (ps1, Inl e) \<Rightarrow> (ps1, Inl e)
      | (ps1, Inr None) \<Rightarrow>
          (case media_step (add_path http name desired) ps1 of
             (ps2, Inl e) \<Rightarrow> (ps2, Inl e)
           | (ps2, Inr _) \<Rightarrow> (count (\<lambda>c. c\<lparr>rr_added := rr_added c + 1\<rparr>) ps2, Inr ()))
      | (ps1, Inr (Some current)) \<Rightarrow>
          (case normalized current of
             Inl e \<Rightarrow> (ps1, Inl (PyExc e))
           | Inr values \<Rightarrow>
               if values = desired then (ps1, Inr ())
               else (case media_step (replace_path http name desired) ps1 of
                       (ps2, Inl e) \<Rightarrow> (ps2, Inl e)
                     | (ps2, Inr _) \<Rightarrow> (count (\<lambda>c. c\<lparr>rr_replaced := rr_replaced c + 1\<rparr>) ps2, Inr ()))))"

definition online_state :: "pydict option \<Rightarrow> string" where
  "online_state active =
     (case active of
        Some d \<Rightarrow> if map_of d (PStr ''online'') = Some (PBool True) then ''ready'' else ''waiting''
      | None \<Rightarrow> ''waiting'')"

text \<open>The body of the \<open>try\<close>: it ends with the observed state of the path.\<close>

definition observe_generation ::
  "'s transport \<Rightarrow> (string \<Rightarrow> string result) option \<Rightarrow> live_generation \<Rightarrow> 's pass \<Rightarrow>
   's pass \<times> (media_exc + string)"
where
  "observe_generation http cipher g ps =
     (let name = ingress_path (gen_spec g)
      in case rbind (source_url_of cipher (source_ciphertext (gen_spec g)))
                (ingress_config (source_type (gen_spec g))) of
           Inl e \<Rightarrow> (ps, Inl (PyExc e))
         | Inr desired \<Rightarrow>
             (case provision_path http name desired ps of
                (ps1, Inl e) \<Rightarrow> (ps1, Inl e)
              | (ps1, Inr _) \<Rightarrow>
                  (case media_step (get_active_path http name) ps1 of
                     (ps2, Inl e) \<Rightarrow> (ps2, Inl e)
                   | (ps2, Inr active) \<Rightarrow> (ps2, Inr (online_state active)))))"

definition caught :: "media_exc \<Rightarrow> bool" where
  "caught e = (case e of MediaMtxError _ _ \<Rightarrow> True | PyExc (ValueError _) \<Rightarrow> True | _ \<Rightarrow> False)"

definition mark_state :: "string \<Rightarrow> string \<Rightarrow> string option \<Rightarrow> 's pass \<Rightarrow> 's pass" where
  "mark_state gid state code ps =
     (case set_media_state gid state code (ps_db ps) of
        Inr (db, _) \<Rightarrow> ps\<lparr>ps_db := db\<rparr> | Inl _ \<Rightarrow> ps)"

definition count_state :: "string \<Rightarrow> reconciliation_result \<Rightarrow> reconciliation_result" where
  "count_state state c =
     (if state = ''ready'' then c\<lparr>rr_ready := rr_ready c + 1\<rparr>
      else if state = ''waiting'' then c\<lparr>rr_waiting := rr_waiting c + 1\<rparr>
      else c\<lparr>rr_failed := rr_failed c + 1\<rparr>)"

definition reconcile_generation ::
  "'s transport \<Rightarrow> (string \<Rightarrow> string result) option \<Rightarrow> live_generation \<Rightarrow> 's pass \<Rightarrow>
   's pass \<times> (media_exc + unit)"
where
  "reconcile_generation http cipher g ps =
     (case observe_generation http cipher g ps of
        (ps1, Inr state) \<Rightarrow> (mark_state (gen_id g) state None (count (count_state state) ps1), Inr ())
      | (ps1, Inl e) \<Rightarrow>
          if caught e
          then (mark_state (gen_id g) ''failed'' (Some ''LIVE_MEDIA_PATH_FAILED'')
                  (count (count_state ''failed'') ps1), Inr ())
          else (ps1, Inl e))"

fun reconcile_generations ::
  "'s transport \<Rightarrow> (string \<Rightarrow> string result) option \<Rightarrow> live_generation list \<Rightarrow> 's pass \<Rightarrow>
   's pass \<times> (media_exc + unit)"
where
  "reconcile_generations http cipher [] ps = (ps, Inr ())"
| "reconcile_generations http cipher (g # gs) ps =
     (case reconcile_generation http cipher g ps of
        (ps1, Inl e) \<Rightarrow> (ps1, Inl e)
      | (ps1, Inr _) \<Rightarrow> reconcile_generations http cipher gs ps1)"

text \<open>The names of the configured paths that the service owns.\<close>

definition owned_names :: "string \<Rightarrow> pydict list \<Rightarrow> string list" where
  "owned_names prefix configured =
     concat (map (\<lambda>d. case map_of d (PStr ''name'') of
        Some (PStr n) \<Rightarrow> if starts_with [prefix] n then [n] else [] | _ \<Rightarrow> []) configured)"

fun remove_stale ::
  "'s transport \<Rightarrow> time \<Rightarrow> time \<Rightarrow> string list \<Rightarrow> stale \<Rightarrow> 's pass \<Rightarrow> stale \<times> 's pass \<times> (media_exc + unit)"
where
  "remove_stale http now grace [] seen ps = (seen, ps, Inr ())"
| "remove_stale http now grace (name # names) seen ps =
     (let first_seen = (case map_of seen name of None \<Rightarrow> now | Some t \<Rightarrow> t);
          seen1 = (if map_of seen name = None then dict_put name now seen else seen)
      in if now - first_seen \<ge> grace
         then (case media_step (delete_path http name) ps of
                 (ps1, Inl e) \<Rightarrow> (seen1, ps1, Inl e)
               | (ps1, Inr _) \<Rightarrow>
                   remove_stale http now grace names (dict_del name seen1)
                     (count (\<lambda>c. c\<lparr>rr_deleted := rr_deleted c + 1\<rparr>) ps1))
         else remove_stale http now grace names seen1 ps)"

record 's reconciler_state =
  rs_media :: "'s media"
  rs_db :: session_db
  rs_stale :: stale

text \<open>
  An exception that leaves the block abandons the transaction: the media states are lost, what the
  server was told is not. Only \<open>list_config_paths\<close> is guarded on its own.
\<close>

definition reconcile_once ::
  "'s transport \<Rightarrow> (string \<Rightarrow> string result) option \<Rightarrow> string \<Rightarrow> time \<Rightarrow> (string set \<Rightarrow> string list) \<Rightarrow> time \<Rightarrow>
   's reconciler_state \<Rightarrow> 's reconciler_state \<times> (media_exc + reconciliation_result)"
where
  "reconcile_once http cipher prefix grace order now st =
     (let gens = list_reconcilable (rs_db st);
          desired = (\<lambda>g. ingress_path (gen_spec g)) ` set gens
      in case reconcile_generations http cipher gens
                \<lparr>ps_media = rs_media st, ps_db = rs_db st, ps_counts = no_result\<rparr> of
           (ps, Inl e) \<Rightarrow> (st\<lparr>rs_media := ps_media ps\<rparr>, Inl e)
         | (ps, Inr _) \<Rightarrow>
             (case media_step (list_config_paths http) ps of
                (ps1, Inl (MediaMtxError c s)) \<Rightarrow>
                  (st\<lparr>rs_media := ps_media ps1, rs_db := ps_db ps1\<rparr>, Inr (ps_counts ps1))
              | (ps1, Inl e) \<Rightarrow> (st\<lparr>rs_media := ps_media ps1\<rparr>, Inl e)
              | (ps1, Inr configured) \<Rightarrow>
                  (let names = set (owned_names prefix configured)
                   in case remove_stale http now grace (order (names - desired)) (rs_stale st) ps1 of
                        (seen, ps2, Inl e) \<Rightarrow>
                          (st\<lparr>rs_media := ps_media ps2, rs_stale := seen\<rparr>, Inl e)
                      | (seen, ps2, Inr _) \<Rightarrow>
                          (st\<lparr>rs_media := ps_media ps2, rs_db := ps_db ps2,
                              rs_stale := filter (\<lambda>p. fst p \<notin> desired \<and> fst p \<in> names) seen\<rparr>,
                           Inr (ps_counts ps2)))))"

section \<open>What a pass sends and changes\<close>

text \<open>A part of a pass that deletes nothing.\<close>

definition quiet :: "'s media \<Rightarrow> 's media \<Rightarrow> bool" where
  "quiet w w' = (\<exists>rs. sent w' = sent w @ rs \<and> list_all keeps_paths rs)"

lemma quiet_refl [simp]: "quiet w w"
  by (simp add: quiet_def)

lemma quiet_trans: "quiet w w1 \<Longrightarrow> quiet w1 w2 \<Longrightarrow> quiet w w2"
  unfolding quiet_def by (metis append_assoc list_all_append)

lemma media_step_keeps:
  assumes "media_step m ps = (ps', r)"
  shows "ps_db ps' = ps_db ps" and "ps_counts ps' = ps_counts ps"
  using assms by (auto simp: media_step_def split: prod.splits)

lemma media_step_quiet: "sends n keeps_paths m \<Longrightarrow> media_step m ps = (ps', r) \<Longrightarrow> quiet (ps_media ps) (ps_media ps')"
  by (auto simp: media_step_def quiet_def split: prod.splits dest: sendsD)

lemmas quiet_steps = media_step_quiet [OF sends_calls(1)] media_step_quiet [OF sends_calls(2)]
  media_step_quiet [OF sends_calls(3)] media_step_quiet [OF sends_calls(4)]

text \<open>How many generations a result accounts for.\<close>

definition settled :: "reconciliation_result \<Rightarrow> nat" where
  "settled c = rr_ready c + rr_waiting c + rr_failed c"

lemma count_fields [simp]: "ps_db (count f ps) = ps_db ps" "ps_media (count f ps) = ps_media ps"
  "ps_counts (count f ps) = f (ps_counts ps)"
  by (simp_all add: count_def)

lemma settled_simps [simp]: "settled (count_state s c) = settled c + 1"
  "settled (c\<lparr>rr_added := n\<rparr>) = settled c" "settled (c\<lparr>rr_replaced := n\<rparr>) = settled c"
  "settled (c\<lparr>rr_deleted := n\<rparr>) = settled c"
  by (simp_all add: settled_def count_state_def)

lemma provision_path_keeps:
  assumes "provision_path http name desired ps = (ps', r)"
  shows "quiet (ps_media ps) (ps_media ps') \<and> ps_db ps' = ps_db ps
    \<and> settled (ps_counts ps') = settled (ps_counts ps)"
proof -
  obtain ps1 q where 1: "media_step (get_config_path http name) ps = (ps1, q)" by fastforce
  obtain ps2 q2 where 2: "media_step (add_path http name desired) ps1 = (ps2, q2)" by fastforce
  obtain ps3 q3 where 3: "media_step (replace_path http name desired) ps1 = (ps3, q3)" by fastforce
  note q = quiet_steps(1) [OF 1] quiet_steps(3) [OF 2] quiet_steps(4) [OF 3]
  note k = media_step_keeps [OF 1] media_step_keeps [OF 2] media_step_keeps [OF 3]
  from assms 1 2 3 q k show ?thesis
    by (auto simp: provision_path_def intro: quiet_trans split: sum.splits option.splits if_splits)
qed

lemma observe_generation_keeps:
  assumes "observe_generation http cipher g ps = (ps', r)"
  shows "quiet (ps_media ps) (ps_media ps') \<and> ps_db ps' = ps_db ps
    \<and> settled (ps_counts ps') = settled (ps_counts ps)"
proof (cases "rbind (source_url_of cipher (source_ciphertext (gen_spec g))) (ingress_config (source_type (gen_spec g)))")
  case (Inl e)
  with assms show ?thesis by (auto simp: observe_generation_def)
next
  case (Inr desired)
  obtain ps1 q where 1: "provision_path http (ingress_path (gen_spec g)) desired ps = (ps1, q)" by fastforce
  obtain ps2 q2 where 2: "media_step (get_active_path http (ingress_path (gen_spec g))) ps1 = (ps2, q2)" by fastforce
  from assms Inr 1 2 provision_path_keeps [OF 1] quiet_steps(2) [OF 2] media_step_keeps [OF 2] show ?thesis
    by (auto simp: observe_generation_def intro: quiet_trans split: sum.splits)
qed

definition observed_state :: "string \<Rightarrow> bool" where
  "observed_state s = (s \<in> {''ready'', ''waiting'', ''failed''})"

lemma observe_generation_state:
  "observe_generation http cipher g ps = (ps', Inr state) \<Longrightarrow> observed_state state"
  by (auto simp: observe_generation_def Let_def online_state_def observed_state_def
      split: sum.splits prod.splits option.splits if_splits)

text \<open>A generation without what a pass writes.\<close>

definition media_erased :: "live_generation \<Rightarrow> live_generation" where
  "media_erased g = g\<lparr>gen_media_state := [], gen_error_code := None\<rparr>"

lemma media_erased_row [simp]: "media_erased (media_row s c g) = media_erased g"
  by (simp add: media_erased_def media_row_def)

lemma media_erased_id [simp]: "gen_id (media_erased g) = gen_id g"
  by (simp add: media_erased_def)

text \<open>
  The effect on the tables of writing observed states for the generations \<open>gids\<close>, by steps of the
  repository.
\<close>

definition state_written :: "string set \<Rightarrow> live_generation \<Rightarrow> live_generation \<Rightarrow> bool" where
  "state_written gids g g' =
     (media_erased g' = media_erased g
      \<and> (if gen_id g \<in> gids then observed_state (gen_media_state g') else g' = g))"

definition states_written :: "string set \<Rightarrow> session_db \<Rightarrow> session_db \<Rightarrow> bool" where
  "states_written gids db db' =
     (session_step\<^sup>*\<^sup>* db db' \<and> db_sessions db' = db_sessions db \<and> db_runs db' = db_runs db
      \<and> list_all2 (state_written gids) (db_generations db) (db_generations db'))"

lemma states_written_refl [simp]: "states_written {} db db"
  by (simp add: states_written_def state_written_def list_all2_refl)

lemma state_written_trans: "state_written A g g1 \<Longrightarrow> state_written B g1 g2 \<Longrightarrow> state_written (A \<union> B) g g2"
  unfolding state_written_def using media_erased_id by (metis UnE UnI1 UnI2)

lemma states_written_trans:
  "states_written A db db1 \<Longrightarrow> states_written B db1 db2 \<Longrightarrow> states_written (A \<union> B) db db2"
  unfolding states_written_def
  by (auto intro: rtranclp_trans list_all2_trans [where ?P1.0 = "state_written A" and ?P2.0 = "state_written B", OF state_written_trans])

lemma mark_state_written:
  assumes "observed_state state"
  shows "states_written {gid} (ps_db ps) (ps_db (mark_state gid state code ps))"
proof -
  have valid: "state \<in> set MEDIA_STATES" using assms by (auto simp: observed_state_def MEDIA_STATES_def)
  have "gen_media_state (media_row state code g) = state" for g by (simp add: media_row_def)
  with assms have "state_written {gid} g (if gen_id g = gid then media_row state code g else g)" for g
    by (simp add: state_written_def)
  then have "list_all2 (state_written {gid}) gs (row_update gen_id gid (media_row state code) gs)" for gs
    by (simp add: row_update_def list.rel_map list_all2_refl)
  moreover have "session_step\<^sup>*\<^sup>* (ps_db ps) (ps_db (mark_state gid state code ps))"
    by (auto simp: mark_state_def split: sum.splits intro: session_step.set_media_state)
  ultimately show ?thesis using valid by (simp add: mark_state_def set_media_state_def states_written_def)
qed

lemma mark_state_keeps [simp]:
  "ps_media (mark_state gid state code ps) = ps_media ps" "ps_counts (mark_state gid state code ps) = ps_counts ps"
  by (auto simp: mark_state_def split: sum.splits)

lemma reconcile_generation_effect:
  assumes "reconcile_generation http cipher g ps = (ps', r)"
  shows "quiet (ps_media ps) (ps_media ps')"
    and "r = Inr u \<Longrightarrow> states_written {gen_id g} (ps_db ps) (ps_db ps')
      \<and> settled (ps_counts ps') = settled (ps_counts ps) + 1"
proof -
  obtain ps1 q where 1: "observe_generation http cipher g ps = (ps1, q)" by fastforce
  note keeps = observe_generation_keeps [OF 1]
  have failed: "observed_state ''failed''" by (simp add: observed_state_def)
  show "quiet (ps_media ps) (ps_media ps')"
    using assms 1 keeps by (auto simp: reconcile_generation_def split: sum.splits if_splits)
  show "states_written {gen_id g} (ps_db ps) (ps_db ps') \<and> settled (ps_counts ps') = settled (ps_counts ps) + 1"
    if "r = Inr u"
  proof (cases q)
    case (Inl e)
    with assms 1 that have "ps' = mark_state (gen_id g) ''failed'' (Some ''LIVE_MEDIA_PATH_FAILED'')
        (count (count_state ''failed'') ps1)"
      by (auto simp: reconcile_generation_def split: if_splits)
    with keeps mark_state_written [OF failed, of "gen_id g" "count (count_state ''failed'') ps1"] show ?thesis by simp
  next
    case (Inr state)
    with 1 have "observed_state state" by (simp add: observe_generation_state)
    moreover from assms 1 Inr have "ps' = mark_state (gen_id g) state None (count (count_state state) ps1)"
      by (simp add: reconcile_generation_def)
    ultimately show ?thesis
      using keeps mark_state_written [of state "gen_id g" "count (count_state state) ps1" None] by simp
  qed
qed

lemma reconcile_generations_effect:
  assumes "reconcile_generations http cipher gs ps = (ps', r)"
  shows "quiet (ps_media ps) (ps_media ps')
    \<and> (r = Inr () \<longrightarrow> states_written (gen_id ` set gs) (ps_db ps) (ps_db ps')
        \<and> settled (ps_counts ps') = settled (ps_counts ps) + length gs)"
  using assms
proof (induction gs arbitrary: ps)
  case Nil
  then show ?case by auto
next
  case (Cons g gs)
  obtain ps1 q where 1: "reconcile_generation http cipher g ps = (ps1, q)" by fastforce
  note eff = reconcile_generation_effect [OF 1]
  show ?case
  proof (cases q)
    case (Inl e)
    with Cons.prems 1 eff(1) show ?thesis by auto
  next
    case (Inr u)
    with Cons.prems 1 have "reconcile_generations http cipher gs ps1 = (ps', r)" by simp
    from Cons.IH [OF this] eff(1) eff(2) [OF Inr] show ?thesis
      using states_written_trans [of "{gen_id g}" "ps_db ps" "ps_db ps1"] by (auto intro: quiet_trans)
  qed
qed

lemma list_config_paths_quiet: "media_step (list_config_paths http) ps = (ps', r) \<Longrightarrow> quiet (ps_media ps) (ps_media ps')"
  using list_pages_sends [of http 0 "[]"]
  by (fastforce simp: media_step_def list_config_paths_def quiet_def split: prod.splits)

text \<open>
  Listing the configured paths always comes to an end: whatever the server claims about the
  number of its pages, the client sends at most ten thousand requests, none of which changes a path.
\<close>

theorem list_config_paths_bounded:
  assumes "list_config_paths http w = (w', r)"
  shows "\<exists>rs. sent w' = sent w @ rs \<and> int (length rs) \<le> MAX_LIST_PAGES \<and> list_all keeps_paths rs"
  using list_pages_sends [OF assms [unfolded list_config_paths_def]] by (simp add: MAX_LIST_PAGES_def) metis

section \<open>Removing stale paths\<close>

definition overdue :: "time \<Rightarrow> time \<Rightarrow> stale \<Rightarrow> string \<Rightarrow> bool" where
  "overdue now grace seen name =
     (grace \<le> 0 \<or> (\<exists>t. map_of seen name = Some t \<and> grace \<le> now - t))"

lemma remove_stale_effect:
  assumes "remove_stale http now grace names seen ps = (seen', ps', r)"
    and "\<And>n t. map_of seen n = Some t \<Longrightarrow> map_of seen0 n = Some t \<or> t = now"
  shows "(\<exists>rs. sent (ps_media ps') = sent (ps_media ps) @ rs \<and>
      (\<forall>q\<in>set rs. \<exists>name\<in>set names. deletes_path name q \<and> overdue now grace seen0 name))
    \<and> ps_db ps' = ps_db ps \<and> settled (ps_counts ps') = settled (ps_counts ps)"
  using assms
proof (induction names arbitrary: seen ps)
  case Nil
  then show ?case by auto
next
  case (Cons name names)
  let ?first = "case map_of seen name of None \<Rightarrow> now | Some t \<Rightarrow> t"
  let ?seen1 = "if map_of seen name = None then dict_put name now seen else seen"
  have seen1: "map_of seen0 n = Some t \<or> t = now" if "map_of ?seen1 n = Some t" for n t
    using that Cons.prems(2) [of n t] by (auto split: if_splits)
  show ?case
  proof (cases "now - ?first \<ge> grace")
    case True
    have due: "overdue now grace seen0 name"
      using True Cons.prems(2) [of name] by (auto simp: overdue_def split: option.splits)
    obtain ps1 q where 1: "media_step (delete_path http name) ps = (ps1, q)" by fastforce
    from 1 obtain rs where rs: "sent (ps_media ps1) = sent (ps_media ps) @ rs" "list_all (deletes_path name) rs"
      by (auto simp: media_step_def split: prod.splits dest: sendsD [OF delete_path_sends])
    note k = media_step_keeps [OF 1]
    show ?thesis
    proof (cases q)
      case (Inl e)
      with Cons.prems(1) True 1 have "ps' = ps1" by (simp add: Let_def)
      with rs k due show ?thesis by (auto simp: list_all_iff)
    next
      case (Inr u)
      let ?ps2 = "count (\<lambda>c. c\<lparr>rr_deleted := rr_deleted c + 1\<rparr>) ps1"
      have "remove_stale http now grace names (dict_del name ?seen1) ?ps2 = (seen', ps', r)"
        using Cons.prems(1) True 1 Inr by (simp add: Let_def)
      moreover have "map_of seen0 n = Some t \<or> t = now" if "map_of (dict_del name ?seen1) n = Some t" for n t
        using that seen1 [of n t] by (auto simp: map_of_dict_del split: if_splits)
      ultimately obtain rs' where "sent (ps_media ps') = sent (ps_media ?ps2) @ rs'"
        "\<forall>q\<in>set rs'. \<exists>name\<in>set names. deletes_path name q \<and> overdue now grace seen0 name"
        "ps_db ps' = ps_db ?ps2" "settled (ps_counts ps') = settled (ps_counts ?ps2)"
        using Cons.IH [of "dict_del name ?seen1" ?ps2] by blast
      with rs k due show ?thesis by (intro conjI exI [of _ "rs @ rs'"]) (auto simp: list_all_iff)
    qed
  next
    case False
    with Cons.prems(1) have "remove_stale http now grace names ?seen1 ps = (seen', ps', r)" by (simp add: Let_def)
    from Cons.IH [OF this seen1] show ?thesis by auto
  qed
qed

text \<open>The three ways a pass can go.\<close>

definition desired_paths :: "session_db \<Rightarrow> string set" where
  "desired_paths db = (\<lambda>g. ingress_path (gen_spec g)) ` set (list_reconcilable db)"

lemma reconcile_once_cases:
  assumes "reconcile_once http cipher prefix grace order now st = (st', r)"
  obtains (raised) e where "r = Inl e" and "rs_db st' = rs_db st" and "quiet (rs_media st) (rs_media st')"
      and "rs_stale st' = rs_stale st"
  | (unlisted) c where "quiet (rs_media st) (rs_media st')" and "rs_stale st' = rs_stale st" and "r = Inr c"
      and "states_written (gen_id ` set (list_reconcilable (rs_db st))) (rs_db st) (rs_db st')"
      and "settled c = length (list_reconcilable (rs_db st))" and "\<exists>w w1 e. list_config_paths http w = (w1, Inl e)"
  | (listed) ps configured seen ps2 q where "quiet (rs_media st) (ps_media ps)"
      and "states_written (gen_id ` set (list_reconcilable (rs_db st))) (rs_db st) (ps_db ps)"
      and "settled (ps_counts ps) = length (list_reconcilable (rs_db st))"
      and "remove_stale http now grace (order (set (owned_names prefix configured) - desired_paths (rs_db st)))
             (rs_stale st) ps = (seen, ps2, q)"
      and "rs_media st' = ps_media ps2"
      and "case q of Inl e \<Rightarrow> r = Inl e \<and> rs_db st' = rs_db st \<and> rs_stale st' = seen
           | Inr _ \<Rightarrow> r = Inr (ps_counts ps2) \<and> rs_db st' = ps_db ps2
               \<and> rs_stale st' = filter (\<lambda>p. fst p \<notin> desired_paths (rs_db st) \<and> fst p \<in> set (owned_names prefix configured)) seen"
      and "\<exists>w w1. list_config_paths http w = (w1, Inr configured)"
proof -
  let ?gens = "list_reconcilable (rs_db st)"
  obtain ps q where g: "reconcile_generations http cipher ?gens
      \<lparr>ps_media = rs_media st, ps_db = rs_db st, ps_counts = no_result\<rparr> = (ps, q)" by fastforce
  note eff = reconcile_generations_effect [OF g, simplified]
  have zero: "settled no_result = 0" by (simp add: settled_def no_result_def)
  obtain ps1 l where l: "media_step (list_config_paths http) ps = (ps1, l)" by fastforce
  note lq = list_config_paths_quiet [OF l] media_step_keeps [OF l]
  show ?thesis
  proof (cases q)
    case (Inl e)
    with assms g have "st' = st\<lparr>rs_media := ps_media ps\<rparr>" "r = Inl e"
      by (simp_all add: reconcile_once_def Let_def)
    with eff raised show ?thesis by simp
  next
    case q: (Inr u)
    note written = eff [unfolded q, simplified, unfolded zero]
    show ?thesis
    proof (cases l)
      case (Inl e)
      show ?thesis
      proof (cases e)
        case (MediaMtxError c s)
        with assms g q l Inl have "st' = st\<lparr>rs_media := ps_media ps1, rs_db := ps_db ps1\<rparr>" "r = Inr (ps_counts ps1)"
          by (simp_all add: reconcile_once_def Let_def)
        moreover have "\<exists>w w1 e. list_config_paths http w = (w1, Inl e)"
          using l Inl by (auto simp: media_step_def split: prod.splits)
        moreover have "quiet (rs_media st) (ps_media ps1)" using written lq(1) by (blast intro: quiet_trans)
        ultimately show ?thesis using written lq(2,3) unlisted [of "ps_counts ps1"] by simp
      next
        case (PyExc x)
        with assms g q l Inl have "st' = st\<lparr>rs_media := ps_media ps1\<rparr>" "r = Inl e"
          by (simp_all add: reconcile_once_def Let_def)
        moreover have "quiet (rs_media st) (ps_media ps1)" using written lq(1) by (blast intro: quiet_trans)
        ultimately show ?thesis using raised by simp
      qed
    next
      case (Inr configured)
      obtain seen ps2 x where x: "remove_stale http now grace
          (order (set (owned_names prefix configured) - desired_paths (rs_db st))) (rs_stale st) ps1 = (seen, ps2, x)"
        by (metis prod_cases3)
      have "\<exists>w w1. list_config_paths http w = (w1, Inr configured)"
        using l Inr by (auto simp: media_step_def split: prod.splits)
      moreover have "quiet (rs_media st) (ps_media ps1)" using written lq(1) by (blast intro: quiet_trans)
      moreover have "rs_media st' = ps_media ps2 \<and> (case x of Inl e \<Rightarrow> r = Inl e \<and> rs_db st' = rs_db st \<and> rs_stale st' = seen
           | Inr _ \<Rightarrow> r = Inr (ps_counts ps2) \<and> rs_db st' = ps_db ps2
               \<and> rs_stale st' = filter (\<lambda>p. fst p \<notin> desired_paths (rs_db st) \<and> fst p \<in> set (owned_names prefix configured)) seen)"
        using assms g q l Inr x by (cases x) (auto simp: reconcile_once_def Let_def desired_paths_def)
      ultimately show ?thesis using listed [OF _ _ _ x] written lq(2,3) by simp
    qed
  qed
qed

section \<open>Correctness of a pass\<close>

text \<open>
  C25. A pass only ever deletes paths that are its own and that nobody wants: every DELETE it sends
  names a path under the owned prefix that no wanted generation uses and that, unless the grace
  period is zero, an earlier pass already found unwanted at least the grace period ago.
\<close>

theorem reconcile_deletes_only_stale:
  assumes "reconcile_once http cipher prefix grace order now st = (st', r)"
    and "\<And>names. finite names \<Longrightarrow> set (order names) = names"
  shows "\<exists>rs. sent (rs_media st') = sent (rs_media st) @ rs \<and>
    (\<forall>q\<in>set rs. rq_method q = ''DELETE'' \<longrightarrow>
       (\<exists>name. deletes_path name q \<and> starts_with [prefix] name \<and> name \<notin> desired_paths (rs_db st)
          \<and> overdue now grace (rs_stale st) name))"
  using assms(1)
proof (cases rule: reconcile_once_cases)
  case raised
  then show ?thesis by (auto simp: quiet_def list_all_iff keeps_paths_def)
next
  case unlisted
  then show ?thesis by (auto simp: quiet_def list_all_iff keeps_paths_def)
next
  case (listed ps configured seen ps2 q)
  let ?names = "order (set (owned_names prefix configured) - desired_paths (rs_db st))"
  from listed(1) obtain rs1 where rs1: "sent (ps_media ps) = sent (rs_media st) @ rs1" "list_all keeps_paths rs1"
    by (auto simp: quiet_def)
  from remove_stale_effect [OF listed(4), of "rs_stale st"] obtain rs2 where
    rs2: "sent (ps_media ps2) = sent (ps_media ps) @ rs2"
      "\<forall>q\<in>set rs2. \<exists>name\<in>set ?names. deletes_path name q \<and> overdue now grace (rs_stale st) name" by blast
  have owned: "starts_with [prefix] name" if "name \<in> set (owned_names prefix configured)" for name
    using that by (auto simp: owned_names_def split: option.splits pyval.splits if_splits)
  have "set ?names = set (owned_names prefix configured) - desired_paths (rs_db st)"
    using assms(2) by simp
  with rs2(2) owned have "\<exists>name. deletes_path name q \<and> starts_with [prefix] name \<and> name \<notin> desired_paths (rs_db st)
      \<and> overdue now grace (rs_stale st) name" if "q \<in> set rs2" for q
    using that by (metis DiffE)
  with rs1 rs2(1) listed(5) show ?thesis
    by (intro exI [of _ "rs1 @ rs2"]) (auto simp: list_all_iff keeps_paths_def)
qed


text \<open>
  One path that cannot be deleted blocks everything: while the server refuses to delete an
  overdue path of the service, no pass records any media state, and the path stays overdue. A new
  generation is then never seen to be ready.
\<close>

theorem failed_delete_discards_states:
  assumes "\<And>q s. rq_method q = ''DELETE'' \<Longrightarrow> \<exists>s' resp. http q s = (s', Inr resp) \<and> status_code resp = 500"
    and "\<And>w. \<exists>w' configured. list_config_paths http w = (w', Inr configured) \<and> stuck \<in> set (owned_names prefix configured)"
    and "\<And>names. finite names \<Longrightarrow> set (order names) = names"
    and "stuck \<notin> desired_paths (rs_db st)" and "map_of (rs_stale st) stuck = Some t" and "grace \<le> now - t"
    and "reconcile_once http cipher prefix grace order now st = (st', r)"
  shows "rs_db st' = rs_db st \<and> map_of (rs_stale st') stuck = Some t \<and> (\<exists>e. r = Inl e)"
proof -
  have refused: "\<exists>e. snd (delete_path http name w) = Inl e" for name w
  proof (cases "media_path name")
    case (Inl e)
    then show ?thesis by (simp add: delete_path_def media_bind_def py_lift_def)
  next
    case (Inr p)
    let ?q = "\<lparr>rq_method = ''DELETE'', rq_path = ''v3/config/paths/delete/'' @ p, rq_json = None, rq_params = []\<rparr>"
    from assms(1) [of ?q "server w"] obtain s' resp where "http ?q (server w) = (s', Inr resp)" "status_code resp = 500"
      by auto
    with Inr show ?thesis
      by (simp add: delete_path_def media_bind_def py_lift_def write_request_def send_request_def Let_def
          media_lift_def raise_status_def)
  qed
  have stops: "(\<exists>e. q = Inl e) \<and> map_of seen' stuck = Some t"
    if "remove_stale http now grace names seen ps = (seen', ps', q)" "stuck \<in> set names" "map_of seen stuck = Some t"
    for names seen seen' and ps ps' :: "'a pass" and q
    using that
  proof (induction names arbitrary: seen)
    case (Cons name names)
    obtain ps1 x where 1: "media_step (delete_path http name) ps = (ps1, x)" by fastforce
    with refused [of name "ps_media ps"] obtain e where x: "x = Inl e" by (auto simp: media_step_def split: prod.splits)
    from Cons 1 x assms(6) show ?case
      by (cases "name = stuck") (auto simp: Let_def split: if_splits)
  qed simp
  from assms(7) show ?thesis
  proof (cases rule: reconcile_once_cases)
    case raised
    with assms(5) show ?thesis by simp
  next
    case (unlisted c)
    with assms(2) show ?thesis by (metis Pair_inject sum.distinct(1))
  next
    case (listed ps configured seen ps2 q)
    have "stuck \<in> set (owned_names prefix configured)" using listed(7) assms(2) by (metis Pair_inject sum.inject(2))
    with stops [OF listed(4)] assms(3,4,5) have "(\<exists>e. q = Inl e) \<and> map_of seen stuck = Some t" by simp
    with listed(6) show ?thesis by auto
  qed
qed

text \<open>
  A path that already has the wanted configuration is left alone, with one exception: an RTSP
  source whose scheme is not written in lower case. \<open>ingress_config\<close> accepts it, but \<open>_normalized\<close>
  does not recognise it, so what the server reports never equals what is wanted and every pass
  replaces the path.
\<close>

theorem configured_path_left_alone:
  assumes "ingress_config kind source_url = Inr desired"
    and "media_step (get_config_path http name) ps = (ps1, Inr (Some desired))"
  shows "provision_path http name desired ps =
    (if kind = ''rtspPull'' \<and> \<not> starts_with RTSP_SCHEMES (the source_url)
     then (case media_step (replace_path http name desired) ps1 of
             (ps2, Inl e) \<Rightarrow> (ps2, Inl e)
           | (ps2, Inr _) \<Rightarrow> (count (\<lambda>c. c\<lparr>rr_replaced := rr_replaced c + 1\<rparr>) ps2, Inr ()))
     else (ps1, Inr ()))"
proof -
  have whep: "\<not> starts_with RTSP_SCHEMES u" if "starts_with WHEP_SCHEMES (py_lower u)" for u
    using that by (cases u) (auto simp: starts_with_def RTSP_SCHEMES_def WHEP_SCHEMES_def py_lower_def
        py_lower_char_def char_code_def)
  have publisher: "\<not> starts_with RTSP_SCHEMES ''publisher''" by (simp add: starts_with_def RTSP_SCHEMES_def)
  have "normalized desired = Inr (if kind = ''rtspPull'' \<and> \<not> starts_with RTSP_SCHEMES (the source_url)
      then [(PStr ''source'', PStr (the source_url))] else desired)"
    using assms(1) whep publisher
    by (auto simp: ingress_config_def normalized_def get_or_none_def split: if_splits option.splits)
  moreover have "desired \<noteq> [(PStr ''source'', PStr (the source_url))]" if "kind = ''rtspPull''"
    using assms(1) that by (auto simp: ingress_config_def split: if_splits option.splits)
  ultimately show ?thesis
    using assms(2) by (cases "kind = ''rtspPull'' \<and> \<not> starts_with RTSP_SCHEMES (the source_url)")
      (auto simp: provision_path_def)
qed

section \<open>Witnesses\<close>

definition sample_http :: "unit transport" where
  "sample_http q s =
     (s, Inr \<lparr>status_code = (if rq_method q = ''DELETE'' then 500 else 200),
              response_json = Some (PDict
                [(PStr ''items'', PList [PDict [(PStr ''name'', PStr ''ingress/old'')]]),
                 (PStr ''source'', PStr ''publisher''), (PStr ''online'', PBool True)])\<rparr>)"

definition sample_reconciler :: "stale \<Rightarrow> unit reconciler_state" where
  "sample_reconciler seen = \<lparr>rs_media = \<lparr>server = (), sent = []\<rparr>, rs_db = sample_db0, rs_stale = seen\<rparr>"

abbreviation sample_pass ::
  "stale \<Rightarrow> unit reconciler_state \<times> (media_exc + reconciliation_result)" where
  "sample_pass seen \<equiv> reconcile_once sample_http None ''ingress/'' 30 sorted_list_of_set 100 (sample_reconciler seen)"

lemma sample_listing:
  "list_config_paths sample_http w =
     (w\<lparr>sent := sent w @ [\<lparr>rq_method = ''GET'', rq_path = ''v3/config/paths/list'', rq_json = None,
        rq_params = [(''itemsPerPage'', LIST_PAGE_SIZE), (''page'', 0)]\<rparr>]\<rparr>, Inr [[(PStr ''name'', PStr ''ingress/old'')]])"
  by (simp add: list_config_paths_def list_pages.simps get_required_def media_bind_def media_lift_def raise_status_def
      json_object_def list_page_of_def dict_of_def MAX_LIST_PAGES_def send_request_def sample_http_def Let_def)

lemma sample_order: "finite names \<Longrightarrow> set (sorted_list_of_set names) = (names :: string set)"
  by simp

lemma sample_generations: "list_reconcilable sample_db0 = [sample_generation]"
  by (simp add: list_reconcilable_def sample_db0_def sample_generation_def new_generation_def)

lemma sample_paths: "media_path ''ingress/1'' = Inr ''ingress/1''" "media_path ''ingress/old'' = Inr ''ingress/old''"
  by code_simp+

lemma sample_starts: "\<not> starts_with RTSP_SCHEMES ''publisher''" "starts_with [''ingress/''] ''ingress/old''"
  by (simp_all add: starts_with_def RTSP_SCHEMES_def)

lemma sample_owned: "owned_names ''ingress/'' [[(PStr ''name'', PStr ''ingress/old'')]] = [''ingress/old'']"
  by (simp add: owned_names_def sample_starts)

lemmas sample_media_defs = get_config_path_def get_active_path_def delete_path_def get_optional_def write_request_def
  media_bind_def py_lift_def media_lift_def send_request_def sample_http_def raise_status_def json_object_def
  sample_paths

lemmas sample_pass_defs = reconcile_once_def sample_reconciler_def sample_generations reconcile_generation_def
  observe_generation_def source_url_of_def ingress_config_def provision_path_def media_step_def normalized_def
  get_or_none_def online_state_def mark_state_def set_media_state_def MEDIA_STATES_def sample_owned count_def
  sample_listing sample_starts sample_generation_def new_generation_def sample_spec_def Let_def

lemma sample_pass_result: "\<exists>st' c. sample_pass [] = (st', Inr c)"
  by (simp add: sample_pass_defs sample_media_defs)

lemma sample_pass_deletes: "\<exists>q\<in>set (sent (rs_media (fst (sample_pass [(''ingress/old'', 1)])))). rq_method q = ''DELETE''"
  by (simp add: sample_pass_defs sample_media_defs)

theorem list_config_paths_bounded_witness:
  "int (length (sent (fst (list_config_paths sample_http \<lparr>server = (), sent = []\<rparr>)))) \<le> MAX_LIST_PAGES"
  using list_config_paths_bounded [OF surjective_pairing, of sample_http "\<lparr>server = (), sent = []\<rparr>"] by auto

theorem reconcile_deletes_only_stale_witness:
  "\<exists>q name. q \<in> set (sent (rs_media (fst (sample_pass [(''ingress/old'', 1)])))) \<and> deletes_path name q
     \<and> name \<notin> desired_paths sample_db0 \<and> overdue 100 30 [(''ingress/old'', 1)] name"
proof -
  let ?st = "sample_reconciler [(''ingress/old'', 1)]"
  have st: "sent (rs_media ?st) = []" "rs_db ?st = sample_db0" "rs_stale ?st = [(''ingress/old'', 1)]"
    by (simp_all add: sample_reconciler_def)
  from reconcile_deletes_only_stale [OF surjective_pairing sample_order,
      of sample_http None "''ingress/''" 30 100 ?st]
  obtain rs where "sent (rs_media (fst (sample_pass [(''ingress/old'', 1)]))) = rs"
    "\<forall>q\<in>set rs. rq_method q = ''DELETE'' \<longrightarrow> (\<exists>name. deletes_path name q \<and> starts_with [''ingress/''] name
       \<and> name \<notin> desired_paths sample_db0 \<and> overdue 100 30 [(''ingress/old'', 1)] name)"
    unfolding st by auto
  with sample_pass_deletes show ?thesis by metis
qed


theorem failed_delete_discards_states_witness:
  "rs_db (fst (sample_pass [(''ingress/old'', 1)])) = sample_db0
   \<and> map_of (rs_stale (fst (sample_pass [(''ingress/old'', 1)]))) ''ingress/old'' = Some 1"
proof -
  let ?st = "sample_reconciler [(''ingress/old'', 1)]"
  have "rs_db (fst (sample_pass [(''ingress/old'', 1)])) = rs_db ?st
      \<and> map_of (rs_stale (fst (sample_pass [(''ingress/old'', 1)]))) ''ingress/old'' = Some 1
      \<and> (\<exists>e. snd (sample_pass [(''ingress/old'', 1)]) = Inl e)"
  proof (rule failed_delete_discards_states [OF _ _ sample_order])
    show "\<exists>s' resp. sample_http q s = (s', Inr resp) \<and> status_code resp = 500" if "rq_method q = ''DELETE''" for q s
      using that by (simp add: sample_http_def)
    show "\<exists>w' configured. list_config_paths sample_http w = (w', Inr configured) \<and>
        ''ingress/old'' \<in> set (owned_names ''ingress/'' configured)" for w
      by (simp add: sample_listing owned_names_def starts_with_def)
    show "''ingress/old'' \<notin> desired_paths (rs_db ?st)"
      by (simp add: desired_paths_def sample_reconciler_def sample_generations)
         (simp add: sample_generation_def new_generation_def sample_spec_def)
    show "map_of (rs_stale ?st) ''ingress/old'' = Some 1" by (simp add: sample_reconciler_def)
  qed simp_all
  then show ?thesis by (simp add: sample_reconciler_def)
qed

definition loud_camera :: "unit transport" where
  "loud_camera q s =
     (s, Inr \<lparr>status_code = 200, response_json = Some (PDict
        [(PStr ''source'', PStr ''RTSP://c''), (PStr ''rtspTransport'', PStr ''tcp'')])\<rparr>)"

theorem configured_path_left_alone_witness:
  "rr_replaced (ps_counts (fst (provision_path loud_camera ''ingress/1''
     [(PStr ''source'', PStr ''RTSP://c''), (PStr ''rtspTransport'', PStr ''tcp'')]
     \<lparr>ps_media = \<lparr>server = (), sent = []\<rparr>, ps_db = sample_db0, ps_counts = no_result\<rparr>))) = 1"
proof -
  let ?d = "[(PStr ''source'', PStr ''RTSP://c''), (PStr ''rtspTransport'', PStr ''tcp'')]"
  let ?ps = "\<lparr>ps_media = \<lparr>server = (), sent = []\<rparr>, ps_db = sample_db0, ps_counts = no_result\<rparr>"
  have config: "ingress_config ''rtspPull'' (Some ''RTSP://c'') = Inr ?d" by code_simp
  have loud: "\<not> starts_with RTSP_SCHEMES ''RTSP://c''" by code_simp
  have "\<exists>ps1. media_step (get_config_path loud_camera ''ingress/1'') ?ps = (ps1, Inr (Some ?d)) \<and> ps_counts ps1 = no_result"
    by (simp add: media_step_def get_config_path_def get_optional_def media_bind_def py_lift_def media_lift_def sample_paths
        send_request_def loud_camera_def raise_status_def json_object_def Let_def)
  then obtain ps1 where ps1: "media_step (get_config_path loud_camera ''ingress/1'') ?ps = (ps1, Inr (Some ?d))"
    "ps_counts ps1 = no_result" by blast
  from configured_path_left_alone [OF config ps1(1)] loud ps1(2) show ?thesis
    by (simp add: media_step_def replace_path_def write_request_def media_bind_def py_lift_def media_lift_def sample_paths
        send_request_def loud_camera_def raise_status_def Let_def no_result_def count_def)
qed

end
