(* ===== verification/Session_Service.thy ===== *)
theory Session_Service
  imports Session_Compiler Live_Connectors Media_Reconciliation
begin

text \<open>
  The service behind the live session API, \<open>src/backend/app/services/live_session_service.py\<close>. Each
  operation compiles or reads, commits one transaction, lets the reconciler run and answers with a
  snapshot. The reconciler is an interface (\<open>reconciler\<close>), interpreted on the media server's; the
  cipher, the digest, fresh ids and the clock are parameters.
\<close>

section \<open>Configuration and transactions\<close>

record session_config =
  cf_profile_id :: string
  cf_profile_version :: int
  cf_digest :: "pydict \<Rightarrow> string"
  cf_encrypt :: "(string \<Rightarrow> string result) option"
  cf_whip_origin :: string

definition COMPILE_CODES :: "string list" where
  "COMPILE_CODES = [''LIVE_PROFILE_NOT_FOUND'', ''LIVE_JSON_SINK_REQUIRED'', ''LIVE_SESSION_SPEC_INVALID'']"

definition compile_request :: "session_config \<Rightarrow> 'a session_request_scheme \<Rightarrow> resolved_spec service_result" where
  "compile_request cfg r =
     (case compile (cf_profile_id cfg) (cf_profile_version cfg) (cf_digest cfg) r of
        Inl (ValueError code) \<Rightarrow>
          Inl (ServiceError (if code \<in> set COMPILE_CODES then code else ''LIVE_SESSION_SPEC_INVALID'') 422)
      | Inl e \<Rightarrow> Inl (Unhandled e)
      | Inr v \<Rightarrow> Inr v)"

definition encrypt_source :: "session_config \<Rightarrow> 'a session_request_scheme \<Rightarrow> string option service_result" where
  "encrypt_source cfg r =
     (case source_url (sr_source r) of
        None \<Rightarrow> Inr None
      | Some u \<Rightarrow>
          (case cf_encrypt cfg of
             None \<Rightarrow> Inl (ServiceError ''LIVE_SECRET_CONFIGURATION_REQUIRED'' 503)
           | Some encrypt \<Rightarrow>
               (case encrypt u of
                  Inl (ValueError _) \<Rightarrow> Inl (ServiceError ''LIVE_SOURCE_CREDENTIAL_INVALID'' 422)
                | Inl e \<Rightarrow> Inl (Unhandled e)
                | Inr c \<Rightarrow> Inr (Some c))))"

definition validate_connectors :: "live_connector list \<Rightarrow> resolved_spec \<Rightarrow> unit service_result" where
  "validate_connectors cs v =
     (let refs = jo_connector_refs (rv_json v)
      in if \<not> distinct refs then Inl (ServiceError ''LIVE_SESSION_SPEC_INVALID'' 422)
         else if list_all (\<lambda>i. case connector_get i cs of None \<Rightarrow> False | Some c \<Rightarrow> cn_enabled c) refs then Inr ()
         else Inl (ServiceError ''LIVE_CONNECTOR_NOT_FOUND'' 404))"

definition generation_spec_of :: "pydict \<Rightarrow> resolved_spec \<Rightarrow> string option \<Rightarrow> string \<Rightarrow> generation_spec" where
  "generation_spec_of snapshot v ciphertext path =
     \<lparr>requested_spec = snapshot, resolved_spec = resolved_dict v, spec_hash = rv_spec_hash v,
      profile_id = rv_profile_id v, profile_version = rv_profile_version v, source_type = rv_source_type v,
      source_ciphertext = ciphertext, ingress_path = path\<rparr>"

text \<open>The ids and the time one call draws.\<close>

record fresh =
  fr_session :: string
  fr_generation :: string
  fr_path :: string
  fr_now :: time

definition create_tx ::
  "fresh \<Rightarrow> create_request \<Rightarrow> resolved_spec \<Rightarrow> string option \<Rightarrow> live_connector list \<Rightarrow> session_db \<Rightarrow>
   session_db service_result"
where
  "create_tx fr r v c cs db =
     rbind (validate_connectors cs v) (\<lambda>_.
       case rbind (create_session (fr_session fr) (sr_camera_id r) (location_snapshot r) (fr_now fr) db)
              (create_generation (fr_generation fr) (fr_session fr) 1
                (generation_spec_of (create_snapshot r) v c (''ingress/'' @ fr_path fr)) (fr_now fr)) of
         Inl e \<Rightarrow> Inl (on_integrity_error ''LIVE_GENERATION_CONFLICT'' e)
       | Inr db' \<Rightarrow> Inr db')"

definition session_not_found :: service_error where
  "session_not_found = ServiceError ''LIVE_SESSION_NOT_FOUND'' 404"

text \<open>
  A reconfiguration first reads the session without a lock and only then enters the statement
  that takes it; the two halves are separate so that another transaction can come between them.
\<close>

definition reconfigure_check :: "string \<Rightarrow> session_db \<Rightarrow> int service_result" where
  "reconfigure_check sid db =
     (case session_get sid db of
        None \<Rightarrow> Inl session_not_found
      | Some parent \<Rightarrow>
          if ses_desired_state parent \<noteq> ''running'' then Inl (ServiceError ''LIVE_SESSION_SPEC_INVALID'' 409)
          else Inr (ses_current_generation parent + 1))"

definition reconfigure_tx ::
  "fresh \<Rightarrow> string \<Rightarrow> int \<Rightarrow> session_request \<Rightarrow> resolved_spec \<Rightarrow> string option \<Rightarrow> live_connector list \<Rightarrow>
   session_db \<Rightarrow> session_db service_result"
where
  "reconfigure_tx fr sid n r v c cs db =
     rbind (validate_connectors cs v) (\<lambda>_.
       case create_generation (fr_generation fr) sid n
              (generation_spec_of (reconfigure_snapshot r) v c (''ingress/'' @ fr_path fr)) (fr_now fr) db of
         Inl (ValueError _) \<Rightarrow> Inl (ServiceError ''LIVE_GENERATION_CONFLICT'' 409)
       | Inl e \<Rightarrow> Inl (on_integrity_error ''LIVE_GENERATION_CONFLICT'' e)
       | Inr db' \<Rightarrow> Inr db')"

definition stop_tx :: "string \<Rightarrow> time \<Rightarrow> session_db \<Rightarrow> session_db service_result" where
  "stop_tx sid now db =
     (case set_desired_state sid ''stopped'' now db of
        Inl e \<Rightarrow> Inl (Unhandled e)
      | Inr (db', found) \<Rightarrow> if found then Inr db' else Inl session_not_found)"

section \<open>Snapshots\<close>

definition RUNTIME_STATES_SHOWN :: "string list" where
  "RUNTIME_STATES_SHOWN = [''STARTING'', ''ACTIVE'', ''RECONNECTING'', ''STOPPING'', ''STOPPED'', ''FAILED'']"

definition public_state :: "live_generation \<Rightarrow> string" where
  "public_state g =
     (if gen_runtime_state g \<in> set RUNTIME_STATES_SHOWN then gen_runtime_state g
      else if gen_desired_state g = ''stopped'' then ''STOPPING''
      else if gen_media_state g = ''failed'' then ''FAILED''
      else if gen_media_state g = ''ready'' then ''STARTING''
      else if gen_media_state g = ''waiting'' then ''WAITING_FOR_SOURCE''
      else ''ACCEPTED'')"

definition output_state :: "bool \<Rightarrow> string \<Rightarrow> string" where
  "output_state enabled state =
     (if \<not> enabled then ''disabled''
      else if state = ''WAITING_FOR_SOURCE'' then ''waitingForSource''
      else if state \<in> {''STOPPING'', ''STOPPED'', ''FAILED''} then ''unavailable''
      else ''pending'')"

fun py_truth :: "pyval \<Rightarrow> bool" where
  "py_truth PNone = False"
| "py_truth (PBool b) = b"
| "py_truth (PInt i) = (i \<noteq> 0)"
| "py_truth (PFloat x) = (x \<noteq> Fin 0)"
| "py_truth (PStr s) = (s \<noteq> [])"
| "py_truth (PBytes b) = (b \<noteq> [])"
| "py_truth (PList xs) = (xs \<noteq> [])"
| "py_truth (PDict d) = (d \<noteq> [])"

text \<open>\<open>bool(resolved_spec.get(part, {}).get("enabled", False))\<close>\<close>

definition part_enabled :: "pydict \<Rightarrow> string \<Rightarrow> bool result" where
  "part_enabled spec part =
     (case map_of spec (PStr part) of
        None \<Rightarrow> Inr False
      | Some (PDict d) \<Rightarrow> Inr (case map_of d (PStr ''enabled'') of None \<Rightarrow> False | Some v \<Rightarrow> py_truth v)
      | Some _ \<Rightarrow> Inl (OtherError ''AttributeError''))"

definition strip_slashes :: "string \<Rightarrow> string" where
  "strip_slashes s = rev (dropWhile (\<lambda>c. c = CHR ''/'') (rev s))"

record session_snapshot =
  sn_session_id :: string
  sn_generation :: int
  sn_state :: string
  sn_camera_id :: string
  sn_location :: "pydict option"
  sn_profile :: "string \<times> int"
  sn_source_type :: string
  sn_publish_url :: "string option"
  sn_links :: "string list"
  sn_recording :: string
  sn_annotated_stream :: string

definition session_link :: "string \<Rightarrow> string \<Rightarrow> string" where
  "session_link sid what = ''/api/v1/live/sessions/'' @ sid @ ''/'' @ what"

definition snapshot_of :: "session_config \<Rightarrow> live_session \<Rightarrow> live_generation \<Rightarrow> bool \<Rightarrow> session_snapshot result" where
  "snapshot_of cfg parent g publish =
     (let state = public_state g; sp = gen_spec g
      in rbind (part_enabled (resolved_spec sp) ''recording'') (\<lambda>recording.
         rbind (part_enabled (resolved_spec sp) ''annotated_stream'') (\<lambda>annotated.
           Inr \<lparr>sn_session_id = ses_id parent, sn_generation = gen_number g, sn_state = state,
                sn_camera_id = ses_camera_external_id parent, sn_location = ses_location_snapshot parent,
                sn_profile = (profile_id sp, profile_version sp), sn_source_type = source_type sp,
                sn_publish_url =
                  (if publish \<and> source_type sp = ''whipPush''
                   then Some (strip_slashes (cf_whip_origin cfg) @ ''/'' @ ingress_path sp @ ''/whip'') else None),
                sn_links = map (session_link (ses_id parent)) [''frames'', ''appearances'', ''recordings''],
                sn_recording = output_state recording state,
                sn_annotated_stream = output_state annotated state\<rparr>)))"

definition load_snapshot :: "session_config \<Rightarrow> string \<Rightarrow> bool \<Rightarrow> session_db \<Rightarrow> session_snapshot service_result" where
  "load_snapshot cfg sid publish db =
     (case (session_get sid db, get_current_generation sid db) of
        (Some parent, Some g) \<Rightarrow> lift_py (snapshot_of cfg parent g publish)
      | _ \<Rightarrow> Inl session_not_found)"

definition list_snapshots :: "session_config \<Rightarrow> session_db \<Rightarrow> session_snapshot list service_result" where
  "list_snapshots cfg db =
     lift_py (mapM (\<lambda>(p, g). snapshot_of cfg p g False)
       (concat (map (\<lambda>p. case get_current_generation (ses_id p) db of None \<Rightarrow> [] | Some g \<Rightarrow> [(p, g)])
          (session_list db))))"

section \<open>Operations\<close>

type_synonym 'm reconcile = "'m \<Rightarrow> session_db \<Rightarrow> 'm \<times> session_db \<times> unit service_result"

record 'm service_world =
  sw_media :: 'm
  sw_db :: session_db
  sw_connectors :: "live_connector list"

definition after_commit ::
  "'m reconcile \<Rightarrow> session_config \<Rightarrow> string \<Rightarrow> bool \<Rightarrow> 'm service_world \<Rightarrow> session_db \<Rightarrow>
   'm service_world \<times> session_snapshot service_result"
where
  "after_commit reconcile cfg sid publish w db =
     (case reconcile (sw_media w) db of
        (m, db', r) \<Rightarrow>
          (w\<lparr>sw_media := m, sw_db := db'\<rparr>, rbind r (\<lambda>_. load_snapshot cfg sid publish db')))"

definition session_create ::
  "'m reconcile \<Rightarrow> session_config \<Rightarrow> fresh \<Rightarrow> create_request \<Rightarrow> 'm service_world \<Rightarrow>
   'm service_world \<times> session_snapshot service_result"
where
  "session_create reconcile cfg fr r w =
     (case rbind (compile_request cfg r) (\<lambda>v. rbind (encrypt_source cfg r) (\<lambda>c.
              create_tx fr r v c (sw_connectors w) (sw_db w))) of
        Inl e \<Rightarrow> (w, Inl e)
      | Inr db \<Rightarrow> after_commit reconcile cfg (fr_session fr) True w db)"

definition session_reconfigure ::
  "'m reconcile \<Rightarrow> session_config \<Rightarrow> fresh \<Rightarrow> string \<Rightarrow> session_request \<Rightarrow> 'm service_world \<Rightarrow>
   'm service_world \<times> session_snapshot service_result"
where
  "session_reconfigure reconcile cfg fr sid r w =
     (case rbind (compile_request cfg r) (\<lambda>v. rbind (encrypt_source cfg r) (\<lambda>c.
              rbind (reconfigure_check sid (sw_db w)) (\<lambda>n.
                reconfigure_tx fr sid n r v c (sw_connectors w) (sw_db w)))) of
        Inl e \<Rightarrow> (w, Inl e)
      | Inr db \<Rightarrow> after_commit reconcile cfg sid True w db)"

definition session_stop ::
  "'m reconcile \<Rightarrow> session_config \<Rightarrow> string \<Rightarrow> time \<Rightarrow> 'm service_world \<Rightarrow>
   'm service_world \<times> session_snapshot service_result"
where
  "session_stop reconcile cfg sid now w =
     (case stop_tx sid now (sw_db w) of
        Inl e \<Rightarrow> (w, Inl e)
      | Inr db \<Rightarrow> after_commit reconcile cfg sid False w db)"

text \<open>The reconciler of the media server: a failing server is tolerated.\<close>

definition reconcile_safely ::
  "'s transport \<Rightarrow> (string \<Rightarrow> string result) option \<Rightarrow> string \<Rightarrow> time \<Rightarrow> (string set \<Rightarrow> string list) \<Rightarrow> time \<Rightarrow>
   ('s media \<times> stale) reconcile"
where
  "reconcile_safely http cipher prefix grace order now m db =
     (case reconcile_once http cipher prefix grace order now
             \<lparr>rs_media = fst m, rs_db = db, rs_stale = snd m\<rparr> of
        (st, r) \<Rightarrow> ((rs_media st, rs_stale st), rs_db st,
          case r of Inl (MediaMtxError _ _) \<Rightarrow> Inr () | Inl (PyExc e) \<Rightarrow> Inl (Unhandled e) | Inr _ \<Rightarrow> Inr ()))"

section \<open>The source URL\<close>


section \<open>Only wanted sessions run\<close>

text \<open>A generation that is wanted running belongs to a session that is.\<close>

definition wanted_only :: "session_db \<Rightarrow> bool" where
  "wanted_only db =
     (\<forall>g\<in>set (db_generations db). gen_desired_state g = ''running'' \<longrightarrow>
        (\<exists>s\<in>set (db_sessions db). ses_id s = gen_session g \<and> ses_desired_state s = ''running''))"

text \<open>A step that changes neither the sessions nor what is wanted of a generation.\<close>

definition keeps_wishes :: "session_db \<Rightarrow> session_db \<Rightarrow> bool" where
  "keeps_wishes db db' =
     (db_sessions db' = db_sessions db
      \<and> (\<forall>g'\<in>set (db_generations db'). \<exists>g\<in>set (db_generations db).
           gen_session g = gen_session g' \<and> gen_desired_state g = gen_desired_state g'))"

lemma wanted_keeps: "keeps_wishes db db' \<Longrightarrow> wanted_only db \<Longrightarrow> wanted_only db'"
  unfolding keeps_wishes_def wanted_only_def by metis

lemma keeps_wishes_refl [simp]: "keeps_wishes db db"
  by (auto simp: keeps_wishes_def)

lemma keeps_wishes_rows:
  assumes "\<And>g. gen_session (f g) = gen_session g \<and> gen_desired_state (f g) = gen_desired_state g"
  shows "keeps_wishes db (db\<lparr>db_generations := row_update gen_id k f (db_generations db)\<rparr>)"
    and "keeps_wishes db (db\<lparr>db_runs := rows, db_generations := row_update gen_id k f (db_generations db)\<rparr>)"
  using assms by (auto simp: keeps_wishes_def row_update_def)

lemma worker_keeps_wishes:
  "set_media_state gid st code db = Inr (db', b) \<Longrightarrow> keeps_wishes db db'"
  "claim_generation locked a db = Inr (db', n) \<Longrightarrow> keeps_wishes db db'"
  "session_update op k h db = Inr (db', b) \<Longrightarrow> keeps_wishes db db'"
proof -
  show "set_media_state gid st code db = Inr (db', b) \<Longrightarrow> keeps_wishes db db'"
    by (auto simp: set_media_state_def split: if_splits intro!: keeps_wishes_rows)
  show "claim_generation locked a db = Inr (db', n) \<Longrightarrow> keeps_wishes db db'"
    by (erule claim_generation_cases) (auto intro!: keeps_wishes_rows)
  obtain o1 now where op: "op = (o1, now)" by fastforce
  show "session_update op k h db = Inr (db', b) \<Longrightarrow> keeps_wishes db db'"
    by (cases o1) (auto simp: op renew_run_def update_run_state_def finish_run_def
        split: prod.splits option.splits if_splits intro!: keeps_wishes_rows, simp_all add: keeps_wishes_def, blast+)
qed

lemma create_generation_wanted:
  assumes "wanted_only db" and "session_get sid db = Some p" and "ses_desired_state p = ''running''"
    and "create_generation gid sid n sp now db = Inr db'"
  shows "wanted_only db'"
proof -
  have p: "p \<in> set (db_sessions db)" "ses_id p = sid" using row_get_Some [OF assms(2) [unfolded session_get_def]] by simp_all
  have stop: "wanted_only (db\<lparr>db_generations := row_update gen_id k stop_generation (db_generations db)\<rparr>)" for k
    using assms(1) by (auto simp: wanted_only_def row_update_def)
  have add: "wanted_only (db1\<lparr>db_generations := db_generations db1 @ [new_generation gid sid n sp now]\<rparr>)"
    if "wanted_only db1" "db_sessions db1 = db_sessions db" for db1
    using that assms(3) p by (auto simp: wanted_only_def)
  have number: "wanted_only (db1\<lparr>db_sessions := row_update ses_id sid (\<lambda>s. s\<lparr>ses_current_generation := n\<rparr>) (db_sessions db1)\<rparr>)"
    if "wanted_only db1" for db1
    unfolding wanted_only_def
  proof clarsimp
    fix g assume "g \<in> set (db_generations db1)" "gen_desired_state g = ''running''"
    with that obtain s where s: "s \<in> set (db_sessions db1)" "ses_id s = gen_session g" "ses_desired_state s = ''running''"
      by (auto simp: wanted_only_def)
    then show "\<exists>s\<in>set (row_update ses_id sid (\<lambda>s. s\<lparr>ses_current_generation := n\<rparr>) (db_sessions db1)).
        ses_id s = gen_session g \<and> ses_desired_state s = ''running''"
      by (intro bexI [of _ "if ses_id s = sid then s\<lparr>ses_current_generation := n\<rparr> else s"]) (auto simp: row_update_def)
  qed
  show ?thesis
  proof (cases "latest_row gen_session gen_number sid (db_generations db)")
    case None
    with assms(2,4) have "db' = db\<lparr>db_generations := db_generations db @ [new_generation gid sid n sp now]\<rparr>"
      by (auto simp: create_generation_def session_get_def checked_def split: if_splits)
    with add [OF assms(1)] show ?thesis by simp
  next
    case (Some l)
    let ?db1 = "db\<lparr>db_generations := row_update gen_id (gen_id l) stop_generation (db_generations db)\<rparr>"
    let ?db2 = "?db1\<lparr>db_generations := db_generations ?db1 @ [new_generation gid sid n sp now]\<rparr>"
    from Some assms(2,4) have "db' = ?db2\<lparr>db_sessions := row_update ses_id sid (\<lambda>s. s\<lparr>ses_current_generation := n\<rparr>) (db_sessions ?db2)\<rparr>"
      by (auto simp: create_generation_def session_get_def checked_def split: if_splits)
    with number [OF add [OF stop]] show ?thesis by simp
  qed
qed

lemma stop_wanted:
  assumes "session_db_ok db" and "wanted_only db" and "stop_tx sid now db = Inr db'"
  shows "wanted_only db'"
proof -
  let ?db1 = "db\<lparr>db_sessions := row_update ses_id sid (desired_session ''stopped'' now) (db_sessions db)\<rparr>"
  from assms(3) obtain p where p: "row_get ses_id sid (db_sessions db) = Some p"
    by (auto simp: stop_tx_def set_desired_state_def split: option.splits if_splits)
  have lin: "lineage_ok (db_sessions db) (db_generations db)" using assms(1) by (simp add: session_db_ok_def)
  have other: "\<exists>s\<in>set (db_sessions ?db1). ses_id s = gen_session g \<and> ses_desired_state s = ''running''"
    if "g \<in> set (db_generations db)" "gen_desired_state g = ''running''" "gen_session g \<noteq> sid" for g
  proof -
    from assms(2) that obtain s where s: "s \<in> set (db_sessions db)" "ses_id s = gen_session g"
      "ses_desired_state s = ''running''" by (auto simp: wanted_only_def)
    with that(3) show ?thesis by (auto simp: row_update_def intro!: bexI [OF _ s(1)])
  qed
  have current: "row_get ses_id sid (db_sessions ?db1) = Some (desired_session ''stopped'' now p)"
    using p row_get_Some [OF p] by (simp add: row_update_def row_get_map desired_session_def)
  show ?thesis
  proof (cases "get_current_generation sid ?db1")
    case None
    have "gen_session g \<noteq> sid" if "g \<in> set (db_generations db)" "gen_desired_state g = ''running''" for g
    proof
      assume "gen_session g = sid"
      then have "gen_number g = ses_current_generation p"
        using lin that row_get_Some [OF p] by (auto simp: lineage_ok_def)
      with None current that \<open>gen_session g = sid\<close> show False
        by (auto simp: get_current_generation_def find_None_iff desired_session_def)
    qed
    moreover have "db' = ?db1"
      using assms(3) p None by (simp add: stop_tx_def set_desired_state_def Let_def)
    ultimately show ?thesis using other by (auto simp: wanted_only_def)
  next
    case (Some h)
    have h: "h \<in> set (db_generations db)" "gen_session h = sid" "gen_number h = ses_current_generation p"
      using Some current by (auto simp: get_current_generation_def find_Some_iff desired_session_def in_set_conv_nth)
    have only: "g = h" if "g \<in> set (db_generations db)" "gen_desired_state g = ''running''" "gen_session g = sid" for g
    proof -
      have "gen_number g = ses_current_generation p"
        using lin that row_get_Some [OF p] by (auto simp: lineage_ok_def)
      with generation_unique [OF lin that(1) h(1)] that(3) h(2,3) show ?thesis by simp
    qed
    have db': "db' = ?db1\<lparr>db_generations := row_update gen_id (gen_id h) (desired_generation ''stopped'') (db_generations db)\<rparr>"
      using assms(3) p Some by (simp add: stop_tx_def set_desired_state_def Let_def)
    show ?thesis
      unfolding wanted_only_def
    proof (intro ballI impI)
      fix g' assume g': "g' \<in> set (db_generations db')" "gen_desired_state g' = ''running''"
      then obtain g where g: "g \<in> set (db_generations db)" "gen_id g \<noteq> gen_id h" "g' = g"
        by (auto simp: db' row_update_def split: if_splits)
      with only g'(2) have "gen_session g \<noteq> sid" by blast
      with other g g'(2) show "\<exists>s\<in>set (db_sessions db'). ses_id s = gen_session g' \<and> ses_desired_state s = ''running''"
        by (simp add: db')
    qed
  qed
qed

section \<open>The reconciler's contract\<close>

text \<open>
  What the service relies on: whatever happens to the media server, the reconciler only takes
  repository steps and leaves the sessions and every wish alone.
\<close>

locale reconciler =
  fixes reconcile :: "time \<Rightarrow> 'm reconcile"
  assumes reconcile_steps: "reconcile t m db = (m', db', r) \<Longrightarrow> session_step\<^sup>*\<^sup>* db db'"
    and reconcile_wishes: "reconcile t m db = (m', db', r) \<Longrightarrow> keeps_wishes db db'"

text \<open>What the service and the workers do, one operation after the other.\<close>

inductive service_step :: "(time \<Rightarrow> 'm reconcile) \<Rightarrow> 'm service_world \<Rightarrow> 'm service_world \<Rightarrow> bool"
  for reconcile where
  create: "session_create (reconcile t) cfg fr r w = (w', res) \<Longrightarrow> service_step reconcile w w'"
| reconfigure: "session_reconfigure (reconcile t) cfg fr sid rq w = (w', res) \<Longrightarrow> service_step reconcile w w'"
| stop: "session_stop (reconcile t) cfg sid now w = (w', res) \<Longrightarrow> service_step reconcile w w'"
| reconciled: "reconcile t (sw_media w) (sw_db w) = (m, db, res') \<Longrightarrow>
    service_step reconcile w (w\<lparr>sw_media := m, sw_db := db\<rparr>)"
| claim: "claim_generation locked a (sw_db w) = Inr (db, n) \<Longrightarrow> service_step reconcile w (w\<lparr>sw_db := db\<rparr>)"
| update: "session_update op k h (sw_db w) = Inr (db, b) \<Longrightarrow> service_step reconcile w (w\<lparr>sw_db := db\<rparr>)"
| connectors: "service_step reconcile w (w\<lparr>sw_connectors := cs\<rparr>)"

definition empty_world :: "'m \<Rightarrow> 'm service_world" where
  "empty_world m = \<lparr>sw_media = m, sw_db = empty_db, sw_connectors = []\<rparr>"

definition service_ok :: "session_db \<Rightarrow> bool" where
  "service_ok db = (session_db_ok db \<and> wanted_only db)"

lemma session_steps_ok: "session_step\<^sup>*\<^sup>* db db' \<Longrightarrow> session_db_ok db \<Longrightarrow> session_db_ok db'"
  by (induction rule: rtranclp_induct) (auto intro: session_step_ok)

lemma create_tx_ok:
  assumes "service_ok db" and "create_tx fr r v c cs db = Inr db'"
  shows "service_ok db'"
proof -
  let ?sp = "generation_spec_of (create_snapshot r) v c (''ingress/'' @ fr_path fr)"
  from assms(2) obtain db1 where 1: "create_session (fr_session fr) (sr_camera_id r) (location_snapshot r) (fr_now fr) db = Inr db1"
    and 2: "create_generation (fr_generation fr) (fr_session fr) 1 ?sp (fr_now fr) db1 = Inr db'"
    by (auto simp: create_tx_def rbind_Inr_iff split: sum.splits)
  from 1 obtain s where db1: "db1 = db\<lparr>db_sessions := db_sessions db @ [s]\<rparr>" and s: "ses_id s = fr_session fr"
    "ses_desired_state s = ''running''" and new: "sessions_ok (db_sessions db @ [s])"
    by (auto simp: create_session_def checked_def split: if_splits)
  have "row_get ses_id (fr_session fr) (db_sessions db) = None"
    using new s(1) unfolding sessions_ok_def row_get_def find_None_iff by force
  then have "session_get (fr_session fr) db1 = Some s"
    using s(1) by (simp add: session_get_def db1 row_get_append) (simp add: row_get_def)
  moreover have "wanted_only db1" using assms(1) by (auto simp: service_ok_def wanted_only_def db1)
  ultimately have "wanted_only db'" using create_generation_wanted [OF _ _ s(2) 2] by blast
  moreover have "session_db_ok db'"
    using assms(1) session_step_ok [OF session_step.create_session [OF 1]] session_step_ok [OF session_step.create_generation [OF 2]]
    by (simp add: service_ok_def)
  ultimately show ?thesis by (simp add: service_ok_def)
qed

lemma reconfigure_tx_ok:
  assumes "service_ok db" and "reconfigure_check sid db = Inr n" and "reconfigure_tx fr sid n r v c cs db = Inr db'"
  shows "service_ok db'"
proof -
  let ?sp = "generation_spec_of (reconfigure_snapshot r) v c (''ingress/'' @ fr_path fr)"
  from assms(3) have g: "create_generation (fr_generation fr) sid n ?sp (fr_now fr) db = Inr db'"
    by (auto simp: reconfigure_tx_def rbind_Inr_iff split: sum.splits py_exc.splits)
  from assms(2) obtain p where p: "session_get sid db = Some p" "ses_desired_state p = ''running''"
    by (auto simp: reconfigure_check_def split: option.splits if_splits)
  have "session_db_ok db'"
    using assms(1) session_step_ok [OF session_step.create_generation [OF g]] by (simp add: service_ok_def)
  moreover have "wanted_only db'"
    using create_generation_wanted [OF _ p g] assms(1) by (simp add: service_ok_def)
  ultimately show ?thesis by (simp add: service_ok_def)
qed

lemma stop_tx_ok:
  assumes "service_ok db" and "stop_tx sid now db = Inr db'"
  shows "service_ok db'"
proof -
  from assms(2) have "set_desired_state sid ''stopped'' now db = Inr (db', True)"
    by (auto simp: stop_tx_def split: sum.splits if_splits)
  from session_step_ok [OF session_step.set_desired_state [OF this]] stop_wanted [OF _ _ assms(2)] assms(1)
  show ?thesis by (simp add: service_ok_def)
qed

context reconciler
begin

lemma reconcile_ok: "reconcile t m db = (m', db', r) \<Longrightarrow> service_ok db \<Longrightarrow> service_ok db'"
  unfolding service_ok_def using session_steps_ok reconcile_steps wanted_keeps reconcile_wishes by blast

lemma after_commit_ok: "service_ok db \<Longrightarrow> after_commit (reconcile t) cfg sid publish w db = (w', res) \<Longrightarrow> service_ok (sw_db w')"
  by (auto simp: after_commit_def split: prod.splits intro: reconcile_ok)

lemma service_step_ok: "service_step reconcile w w' \<Longrightarrow> service_ok (sw_db w) \<Longrightarrow> service_ok (sw_db w')"
proof (induction rule: service_step.induct)
  case (create t cfg fr r w w' res)
  let ?tx = "rbind (compile_request cfg r) (\<lambda>v. rbind (encrypt_source cfg r) (\<lambda>c.
      create_tx fr r v c (sw_connectors w) (sw_db w)))"
  show ?case
  proof (cases ?tx)
    case (Inl e)
    with create show ?thesis by (simp add: session_create_def)
  next
    case (Inr db)
    then obtain v c where "create_tx fr r v c (sw_connectors w) (sw_db w) = Inr db" by (auto simp: rbind_Inr_iff)
    from create_tx_ok [OF create(2) this] Inr create(1) show ?thesis by (simp add: session_create_def after_commit_ok)
  qed
next
  case (reconfigure t cfg fr sid rq w w' res)
  let ?tx = "rbind (compile_request cfg rq) (\<lambda>v. rbind (encrypt_source cfg rq) (\<lambda>c.
      rbind (reconfigure_check sid (sw_db w)) (\<lambda>n. reconfigure_tx fr sid n rq v c (sw_connectors w) (sw_db w))))"
  show ?case
  proof (cases ?tx)
    case (Inl e)
    with reconfigure show ?thesis by (simp add: session_reconfigure_def)
  next
    case (Inr db)
    then obtain v c n where "reconfigure_check sid (sw_db w) = Inr n"
      "reconfigure_tx fr sid n rq v c (sw_connectors w) (sw_db w) = Inr db" by (auto simp: rbind_Inr_iff)
    from reconfigure_tx_ok [OF reconfigure(2) this] Inr reconfigure(1) show ?thesis
      by (simp add: session_reconfigure_def after_commit_ok)
  qed
next
  case (stop t cfg sid now w w' res)
  show ?case
  proof (cases "stop_tx sid now (sw_db w)")
    case (Inl e)
    with stop show ?thesis by (simp add: session_stop_def)
  next
    case (Inr db)
    from stop_tx_ok [OF stop(2) this] Inr stop(1) show ?thesis by (simp add: session_stop_def after_commit_ok)
  qed
next
  case (reconciled t w m db res')
  then show ?case by (simp add: reconcile_ok)
next
  case (claim locked a w db n)
  from wanted_keeps [OF worker_keeps_wishes(2) [OF claim(1)]] session_step_ok [OF session_step.claim_generation [OF claim(1)]] claim(2)
  show ?case by (simp add: service_ok_def)
next
  case (update op k h w db b)
  from wanted_keeps [OF worker_keeps_wishes(3) [OF update(1)]] session_step_ok [OF session_step.session_update [OF update(1)]] update(2)
  show ?case by (simp add: service_ok_def)
qed simp

lemma service_run_ok: "(service_step reconcile)\<^sup>*\<^sup>* (empty_world m) w \<Longrightarrow> service_ok (sw_db w)"
proof (induction rule: rtranclp_induct)
  case base
  then show ?case by (simp add: empty_world_def service_ok_def empty_db_ok) (simp add: wanted_only_def empty_db_def)
qed (rule service_step_ok)

end

lemma states_written_wishes: "states_written gids db db' \<Longrightarrow> keeps_wishes db db'"
proof -
  assume w: "states_written gids db db'"
  have e: "gen_session g' = gen_session g \<and> gen_desired_state g' = gen_desired_state g"
    if "media_erased g' = media_erased g" for g g'
    using arg_cong [OF that, of gen_session] arg_cong [OF that, of gen_desired_state] by (simp add: media_erased_def)
  have "\<exists>g\<in>set (db_generations db). gen_session g = gen_session g' \<and> gen_desired_state g = gen_desired_state g'"
    if "g' \<in> set (db_generations db')" for g'
  proof -
    from w that obtain g where "g \<in> set (db_generations db)" "media_erased g' = media_erased g"
      unfolding states_written_def by (metis in_set_conv_nth list_all2_conv_all_nth state_written_def)
    with e [of g' g] show ?thesis by metis
  qed
  with w show ?thesis by (simp add: keeps_wishes_def states_written_def)
qed

lemma reconcile_once_db:
  assumes "reconcile_once http cipher prefix grace order now st = (st', r)"
  shows "\<exists>gids. states_written gids (rs_db st) (rs_db st')"
  using assms
proof (cases rule: reconcile_once_cases)
  case raised
  then show ?thesis by (metis states_written_refl)
next
  case (listed ps configured seen ps2 q)
  from remove_stale_effect [OF listed(4), of "rs_stale st"] have "ps_db ps2 = ps_db ps" by simp
  with listed(2,6) show ?thesis by (cases q) (auto, metis states_written_refl)
qed blast

interpretation mediamtx: reconciler "\<lambda>t. reconcile_safely http cipher prefix grace order t"
  for http :: "'s transport" and cipher prefix grace order
proof
  fix t m db m' db' r
  assume "reconcile_safely http cipher prefix grace order t m db = (m', db', r)"
  then obtain st' q where "reconcile_once http cipher prefix grace order t
      \<lparr>rs_media = fst m, rs_db = db, rs_stale = snd m\<rparr> = (st', q)" "db' = rs_db st'"
    by (auto simp: reconcile_safely_def split: prod.splits)
  with reconcile_once_db obtain gids where "states_written gids db db'" by fastforce
  then show "session_step\<^sup>*\<^sup>* db db'" "keeps_wishes db db'"
    by (simp_all add: states_written_def [THEN iffD1, THEN conjunct1] states_written_wishes)
qed


text \<open>
  C40. When a stop comes between the two halves of a reconfiguration, the session is stopped and
  running at once: the check that the session is wanted is made before the row is locked and not
  repeated, so the new generation is created wanted running under a session that is stopped. A
  worker will then claim it.
\<close>

theorem reconfigure_revives_stopped_session:
  assumes "session_db_ok db" and "reconfigure_check sid db = Inr n" and "stop_tx sid now db = Inr db1"
    and "reconfigure_tx fr sid n r v c cs db1 = Inr db2"
  shows "\<exists>s\<in>set (db_sessions db2). \<exists>g\<in>set (db_generations db2).
    ses_id s = sid \<and> ses_desired_state s = ''stopped'' \<and> gen_session g = sid
    \<and> gen_desired_state g = ''running'' \<and> gen_number g = ses_current_generation s"
proof -
  let ?g = "new_generation (fr_generation fr) sid n
    (generation_spec_of (reconfigure_snapshot r) v c (''ingress/'' @ fr_path fr)) (fr_now fr)"
  from assms(2) obtain p where p: "row_get ses_id sid (db_sessions db) = Some p" "n = ses_current_generation p + 1"
    by (auto simp: reconfigure_check_def session_get_def split: option.splits if_splits)
  have stopped: "db_sessions db1 = row_update ses_id sid (desired_session ''stopped'' now) (db_sessions db)"
    using assms(3) p(1) by (auto simp: stop_tx_def set_desired_state_def Let_def split: option.splits)
  have p1: "row_get ses_id sid (db_sessions db1) = Some (desired_session ''stopped'' now p)"
    using p(1) row_get_Some [OF p(1)] by (simp add: stopped row_update_def row_get_map desired_session_def)
  have g: "create_generation (fr_generation fr) sid n
      (generation_spec_of (reconfigure_snapshot r) v c (''ingress/'' @ fr_path fr)) (fr_now fr) db1 = Inr db2"
    using assms(4) by (auto simp: reconfigure_tx_def rbind_Inr_iff split: sum.splits py_exc.splits)
  have pos: "1 \<le> ses_current_generation p"
    using assms(1) row_get_Some [OF p(1)] by (auto simp: session_db_ok_def lineage_ok_def sessions_ok_def list_all_iff)
  with g p1 p(2) have db2: "?g \<in> set (db_generations db2)"
    "db_sessions db2 = row_update ses_id sid (\<lambda>s. s\<lparr>ses_current_generation := n\<rparr>) (db_sessions db1)"
    by (auto simp: create_generation_def checked_def split: option.splits if_splits)
  let ?s = "(desired_session ''stopped'' now p)\<lparr>ses_current_generation := n\<rparr>"
  have "?s \<in> set (db_sessions db2)" "ses_id ?s = sid"
    using row_get_Some [OF p1] by (auto simp: db2(2) set_row_update intro: image_eqI [of _ _ "desired_session ''stopped'' now p"])
  then show ?thesis using db2(1) by (intro bexI [of _ ?s] bexI [of _ ?g]) (simp_all add: desired_session_def)
qed

section \<open>Witnesses\<close>

definition sample_create :: "live_source \<Rightarrow> create_request" where
  "sample_create source =
     \<lparr>sr_schema_version = 1, sr_profile = ''p'', sr_source = source,
      sr_processing = \<lparr>lp_mode = ''recognize'', lp_sampling_mode = ''everyNFrames'', lp_sampling_value = 1,
        lp_detector_threshold = 1 / 2, lp_recognition_threshold = 1 / 2, lp_anonymous_threshold = 1 / 2,
        lp_top2_margin = 0, lp_minimum_identity_evidence = 3, lp_track_gap_ms = 1500, lp_persistent_anonymous = False\<rparr>,
      sr_source_policy = \<lparr>sp_latency_ms = 100, sp_frame_timeout_ms = 5000, sp_reconnect_interval_ms = 2000,
        sp_reconnect_attempts = -1\<rparr>,
      sr_json = \<lparr>jo_connector_refs = [], jo_persist_frames = True, jo_frame_retention = ''24h'', jo_appearance_summary = False\<rparr>,
      sr_recording = \<lparr>ro_enabled = False, ro_segment_duration = ''15m'', ro_retention = ''7d''\<rparr>,
      sr_annotated = \<lparr>ao_enabled = False, ao_box_enabled = True, ao_box_line_width = 3, ao_landmarks_enabled = False,
        ao_label_fields = []\<rparr>,
      sr_camera_id = ''cam'', sr_location = None\<rparr>"

definition sample_config :: session_config where
  "sample_config = \<lparr>cf_profile_id = ''p'', cf_profile_version = 1, cf_digest = (\<lambda>_. ''h''),
     cf_encrypt = Some (\<lambda>_. Inr ''c''), cf_whip_origin = ''https://m/''\<rparr>"

definition sample_fresh :: fresh where
  "sample_fresh = \<lparr>fr_session = ''s'', fr_generation = ''g1'', fr_path = ''1'', fr_now = 1\<rparr>"

abbreviation sample_reconcile :: "time \<Rightarrow> (unit media \<times> stale) reconcile" where
  "sample_reconcile \<equiv> (\<lambda>t. reconcile_safely sample_http None ''ingress/'' 30 sorted_list_of_set t)"

abbreviation sample_start :: "(unit media \<times> stale) service_world" where
  "sample_start \<equiv> empty_world (\<lparr>server = (), sent = []\<rparr>, [])"


definition sample_resolved :: resolved_spec where
  "sample_resolved = \<lparr>rv_schema_version = 1, rv_profile_id = ''p'', rv_profile_version = 1, rv_source_type = ''whipPush'',
     rv_processing = sr_processing (sample_create WhipPush), rv_source_policy = sr_source_policy (sample_create WhipPush),
     rv_json = sr_json (sample_create WhipPush), rv_recording = sr_recording (sample_create WhipPush),
     rv_annotated = sr_annotated (sample_create WhipPush), rv_spec_hash = ''h''\<rparr>"

lemma sample_db0_ok: "session_db_ok sample_db0"
proof -
  have "session_step\<^sup>*\<^sup>* empty_db sample_db0"
    using session_step.create_session [OF sample_create_session] session_step.create_generation [OF sample_create_generation]
    by (meson converse_rtranclp_into_rtranclp rtranclp.rtrancl_refl)
  then show ?thesis by (rule session_reachable_ok)
qed

theorem reconfigure_revives_stopped_session_witness:
  "\<exists>db1 db2 r. stop_tx ''s'' 5 sample_db0 = Inr db1
    \<and> reconfigure_tx (sample_fresh\<lparr>fr_generation := ''g2'', fr_path := ''2''\<rparr>) ''s'' 2 r sample_resolved None [] db1 = Inr db2
    \<and> (\<exists>s\<in>set (db_sessions db2). \<exists>g\<in>set (db_generations db2). ses_id s = ''s'' \<and> ses_desired_state s = ''stopped''
        \<and> gen_session g = ''s'' \<and> gen_desired_state g = ''running'')"
proof -
  let ?fr = "sample_fresh\<lparr>fr_generation := ''g2'', fr_path := ''2''\<rparr>"
  have check: "reconfigure_check ''s'' sample_db0 = Inr 2"
    by (simp add: reconfigure_check_def session_get_def row_get_def sample_db0_def sample_session_def)
  have "\<exists>db1 db2. stop_tx ''s'' 5 sample_db0 = Inr db1 \<and> reconfigure_tx ?fr ''s'' 2 r sample_resolved None [] db1 = Inr db2"
    for r
    by (simp add: stop_tx_def set_desired_state_def row_get_def sample_db0_def sample_session_def get_current_generation_def
        row_update_def desired_session_def sample_generation_def new_generation_def desired_generation_def
        reconfigure_tx_def validate_connectors_def sample_resolved_def sample_create_def create_generation_def
        latest_row_def select_first_def checked_def generations_ok_def generation_constraints_def stop_generation_def
        generation_spec_of_def sample_fresh_def sample_spec_def source_secret_ok_def GENERATION_STATES_def
        SESSION_NONTERMINAL_STATES_def SESSION_TERMINAL_STATES_def MEDIA_STATES_def)
  then obtain db1 db2 and r :: session_request where tx: "stop_tx ''s'' 5 sample_db0 = Inr db1"
    "reconfigure_tx ?fr ''s'' 2 r sample_resolved None [] db1 = Inr db2" by blast
  from reconfigure_revives_stopped_session [OF sample_db0_ok check tx] tx show ?thesis by metis
qed

text \<open>A session is created, its path comes online, and a worker claims it.\<close>

definition created_generation :: live_generation where
  "created_generation = new_generation ''g1'' ''s'' 1
     (generation_spec_of (create_snapshot (sample_create WhipPush)) sample_resolved None ''ingress/1'') 1"

definition created_db :: "live_generation \<Rightarrow> session_db" where
  "created_db g = \<lparr>db_sessions = [sample_session\<lparr>ses_created_at := 1\<rparr>], db_generations = [g], db_runs = []\<rparr>"

lemma created_generation_fields:
  "gen_id created_generation = ''g1''" "ingress_path (gen_spec created_generation) = ''ingress/1''"
  "source_type (gen_spec created_generation) = ''whipPush''" "source_ciphertext (gen_spec created_generation) = None"
  "gen_desired_state created_generation = ''running''"
  by (simp_all add: created_generation_def new_generation_def generation_spec_of_def sample_resolved_def)

lemma sample_created:
  "create_tx sample_fresh (sample_create WhipPush) sample_resolved None [] empty_db = Inr (created_db created_generation)"
proof -
  have "generation_constraints created_generation"
    by (simp add: created_generation_def new_generation_def generation_constraints_def generation_spec_of_def
        sample_resolved_def source_secret_ok_def GENERATION_STATES_def MEDIA_STATES_def)
  then show ?thesis
    by (simp add: create_tx_def validate_connectors_def create_session_def create_generation_def checked_def sessions_ok_def
        row_get_def latest_row_def select_first_def generations_ok_def empty_db_def created_db_def sample_session_def
        sample_fresh_def created_generation_def [symmetric])
       (simp add: sample_resolved_def sample_create_def location_snapshot_def)
qed

lemma sample_provisioned:
  "\<exists>m. sample_reconcile 100 (\<lparr>server = (), sent = []\<rparr>, []) (created_db created_generation)
     = (m, created_db (media_row ''ready'' None created_generation), Inr ())"
proof -
  have "list_reconcilable (created_db created_generation) = [created_generation]"
    by (simp add: list_reconcilable_def created_db_def created_generation_fields)
  then show ?thesis
    by (simp add: reconcile_safely_def reconcile_once_def reconcile_generation_def observe_generation_def source_url_of_def
        ingress_config_def provision_path_def media_step_def normalized_def get_or_none_def online_state_def mark_state_def
        set_media_state_def MEDIA_STATES_def sample_owned count_def sample_listing sample_starts created_generation_fields Let_def
        sample_media_defs)
       (simp add: created_db_def row_update_def created_generation_fields)
qed

lemma sample_served:
  "\<exists>w. service_step sample_reconcile sample_start w \<and> sw_db w = created_db (media_row ''ready'' None created_generation)"
proof -
  obtain m where m: "sample_reconcile 100 (\<lparr>server = (), sent = []\<rparr>, []) (created_db created_generation)
     = (m, created_db (media_row ''ready'' None created_generation), Inr ())" using sample_provisioned by blast
  let ?w = "sample_start\<lparr>sw_media := m, sw_db := created_db (media_row ''ready'' None created_generation)\<rparr>"
  have "compile_request sample_config (sample_create WhipPush) = Inr sample_resolved"
    by (simp add: compile_request_def compile_def sample_config_def sample_resolved_def) (simp add: sample_create_def)
  moreover have "encrypt_source sample_config (sample_create WhipPush) = Inr None"
    by (simp add: encrypt_source_def sample_create_def)
  ultimately have "session_create (sample_reconcile 100) sample_config sample_fresh (sample_create WhipPush) sample_start
      = (?w, load_snapshot sample_config ''s'' True (created_db (media_row ''ready'' None created_generation)))"
    using m sample_created by (simp add: session_create_def after_commit_def empty_world_def) (simp add: sample_fresh_def)
  from service_step.create [where reconcile = sample_reconcile and t = 100, OF this] show ?thesis by fastforce
qed


end
