(* ===== verification/Live_Messages.thy ===== *)
theory Live_Messages
  imports Py_Values
begin

text \<open>
  The messages of the duplex protocol between the Python supervisor and the native live worker
  (\<open>src/backend/app/infrastructure/live/protocol.py\<close>): one record per dataclass, the union
  \<open>live_message\<close>, the field tables, and the encoder. MessagePack is a parameter: \<open>packb\<close> stands
  for \<open>msgpack.packb(_, use_bin_type=True)\<close>.
\<close>

section \<open>Constants\<close>

definition PROTOCOL_VERSION :: int where "PROTOCOL_VERSION = 2"
definition HEADER_SIZE :: nat where "HEADER_SIZE = 4"
definition MAX_FRAME_BYTES :: nat where "MAX_FRAME_BYTES = 4 * 1024 * 1024"
definition MAX_ALIGNED_JPEG_BYTES :: nat where "MAX_ALIGNED_JPEG_BYTES = 512 * 1024"
definition MAX_OBSERVATIONS :: nat where "MAX_OBSERVATIONS = 10"

definition NATIVE_OPERATIONS :: "string list" where
  "NATIVE_OPERATIONS =
     [''source_connect'', ''first_frame'', ''reconnect'', ''graph_rebuild'',
      ''inference_window'', ''output_start'', ''output_stop'', ''teardown'']"

definition NATIVE_ATTRIBUTE_KEYS :: "string list" where
  "NATIVE_ATTRIBUTE_KEYS =
     [''attempt'', ''reason'', ''state'', ''outcome'', ''batch_size'', ''object_count'']"

section \<open>Messages\<close>

record protocol_header =
  protocol_version :: int
  message_type :: string
  hd_session_id :: string
  hd_camera_id :: string
  hd_run_id :: string
  hd_generation :: int
  hd_runtime_attempt :: int
  hd_sequence :: int
  hd_traceparent :: string
  hd_tracestate :: "string option"

record start_command =
  sc_header :: protocol_header
  sc_uri :: string
  sc_gpu_id :: int
  sc_pgie_config_path :: string
  sc_preprocess_config_path :: string
  sc_sgie_config_path :: string
  sc_tracker_config_path :: string
  sc_output_mount_path :: string
  sc_output_udp_port :: int
  sc_output_rtsp_port :: int
  sc_profile_version :: int
  sc_analytics_mode :: string
  sc_sample_every_n :: int
  sc_detector_threshold :: real
  sc_recognition_threshold :: real
  sc_top2_margin :: real
  sc_track_gap_ns :: int
  sc_latency_ms :: int
  sc_reconnect_interval_seconds :: int
  sc_reconnect_attempts :: int
  sc_frame_timeout_ns :: int
  sc_recording_enabled :: bool
  sc_annotated_enabled :: bool

record identity_assignment =
  ia_header :: protocol_header
  ia_tracker_id :: int
  assignment_revision :: int
  ia_identity_epoch :: int
  ia_identity_state :: string
  ia_display_name :: "string option"
  ia_face_id :: "string option"
  ia_match_score :: "real option"
  ia_recognition_threshold :: "real option"
  ia_reference_embedding :: "real list option"
  ia_decision_sequence :: int

record stop_command =
  stop_header :: protocol_header
  stop_reason :: string
  shutdown_deadline_ns :: int

record hello_event =
  hello_header :: protocol_header
  build_id :: string
  gstreamer_version :: string
  deepstream_version :: string

record state_event =
  state_header :: protocol_header
  state_state :: string
  state_reason :: "string option"

record output_ready_event =
  or_header :: protocol_header
  or_mount_path :: string
  or_codec :: string
  or_caps :: string

record live_observation =
  timestamp_ns :: int
  obs_bbox :: "real list"
  obs_detector_confidence :: real
  obs_landmarks :: "real list"
  landmark_confidences :: "real list"
  quality_score :: real
  reject_mask :: int
  obs_embedding :: "real list"

record track_evidence_event =
  te_header :: protocol_header
  te_tracker_id :: int
  te_evidence_revision :: int
  te_first_seen_ns :: int
  te_last_seen_ns :: int
  te_observations :: "live_observation list"
  representative_aligned_jpeg :: bytes

record track_expired_event =
  tx_header :: protocol_header
  tx_tracker_id :: int
  tx_evidence_revision :: int
  tx_first_seen_ns :: int
  tx_last_seen_ns :: int
  tx_reason :: string

record metrics_event =
  me_header :: protocol_header
  counters :: "(string \<times> int) list"
  gauges :: "(string \<times> real) list"

record failed_event =
  fe_header :: protocol_header
  fe_error_code :: string
  fe_message :: string

record stopped_event =
  se_header :: protocol_header
  decoded_frames :: int
  emitted_evidence :: int
  dropped_events :: int
  clean_shutdown :: bool
  se_reason :: string

datatype attribute_value = AStr string | AInt int | AFloat real

record native_operation_event =
  no_header :: protocol_header
  operation :: string
  started_monotonic_ns :: int
  ended_monotonic_ns :: int
  no_status :: string
  no_error_code :: "string option"
  attributes :: "(string \<times> attribute_value) list"

datatype live_message =
    StartCommand start_command
  | IdentityAssignment identity_assignment
  | StopCommand stop_command
  | HelloEvent hello_event
  | StateEvent state_event
  | OutputReadyEvent output_ready_event
  | TrackEvidenceEvent track_evidence_event
  | TrackExpiredEvent track_expired_event
  | MetricsEvent metrics_event
  | FailedEvent failed_event
  | StoppedEvent stopped_event
  | NativeOperationEvent native_operation_event

fun header_of :: "live_message \<Rightarrow> protocol_header" where
  "header_of (StartCommand m) = sc_header m"
| "header_of (IdentityAssignment m) = ia_header m"
| "header_of (StopCommand m) = stop_header m"
| "header_of (HelloEvent m) = hello_header m"
| "header_of (StateEvent m) = state_header m"
| "header_of (OutputReadyEvent m) = or_header m"
| "header_of (TrackEvidenceEvent m) = te_header m"
| "header_of (TrackExpiredEvent m) = tx_header m"
| "header_of (MetricsEvent m) = me_header m"
| "header_of (FailedEvent m) = fe_header m"
| "header_of (StoppedEvent m) = se_header m"
| "header_of (NativeOperationEvent m) = no_header m"

section \<open>Field tables\<close>

definition HEADER_FIELDS :: "string list" where
  "HEADER_FIELDS =
     [''protocol_version'', ''message_type'', ''session_id'', ''camera_id'', ''run_id'',
      ''generation'', ''runtime_attempt'', ''sequence'', ''traceparent'', ''tracestate'']"

definition START_FIELDS :: "string list" where
  "START_FIELDS =
     [''uri'', ''gpu_id'', ''pgie_config_path'', ''preprocess_config_path'',
      ''sgie_config_path'', ''tracker_config_path'', ''output_mount_path'',
      ''output_udp_port'', ''output_rtsp_port'', ''profile_version'', ''analytics_mode'',
      ''sample_every_n'', ''detector_threshold'', ''recognition_threshold'', ''top2_margin'',
      ''track_gap_ns'', ''latency_ms'', ''reconnect_interval_seconds'',
      ''reconnect_attempts'', ''frame_timeout_ns'', ''recording_enabled'',
      ''annotated_enabled'']"

definition IDENTITY_ASSIGNMENT_FIELDS :: "string list" where
  "IDENTITY_ASSIGNMENT_FIELDS =
     [''tracker_id'', ''assignment_revision'', ''identity_epoch'', ''identity_state'',
      ''display_name'', ''face_id'', ''match_score'', ''recognition_threshold'',
      ''reference_embedding'', ''decision_sequence'']"

definition MESSAGE_FIELDS :: "(string \<times> string list) list" where
  "MESSAGE_FIELDS =
     [(''start'', START_FIELDS),
      (''identity_assignment'', IDENTITY_ASSIGNMENT_FIELDS),
      (''stop'', [''reason'', ''shutdown_deadline_ns'']),
      (''hello'', [''build_id'', ''gstreamer_version'', ''deepstream_version'']),
      (''state'', [''state'', ''reason'']),
      (''output_ready'', [''mount_path'', ''codec'', ''caps'']),
      (''track_evidence'',
        [''tracker_id'', ''evidence_revision'', ''first_seen_ns'', ''last_seen_ns'',
         ''observations'', ''representative_aligned_jpeg'']),
      (''track_expired'',
        [''tracker_id'', ''evidence_revision'', ''first_seen_ns'', ''last_seen_ns'',
         ''reason'']),
      (''metrics'', [''counters'', ''gauges'']),
      (''failed'', [''error_code'', ''message'']),
      (''stopped'',
        [''decoded_frames'', ''emitted_evidence'', ''dropped_events'', ''clean_shutdown'',
         ''reason'']),
      (''native_operation'',
        [''operation'', ''started_monotonic_ns'', ''ended_monotonic_ns'', ''status'',
         ''error_code'', ''attributes''])]"

definition OBSERVATION_FIELDS :: "string list" where
  "OBSERVATION_FIELDS =
     [''timestamp_ns'', ''bbox'', ''detector_confidence'', ''landmarks'',
      ''landmark_confidences'', ''quality_score'', ''reject_mask'', ''embedding'']"

section \<open>Encoding\<close>

fun opt_value :: "('a \<Rightarrow> pyval) \<Rightarrow> 'a option \<Rightarrow> pyval" where
  "opt_value f None = PNone"
| "opt_value f (Some x) = f x"

definition PReal :: "real \<Rightarrow> pyval" where
  "PReal r = PFloat (Fin r)"

definition floats :: "real list \<Rightarrow> pyval" where
  "floats xs = PList (map PReal xs)"

fun attribute_to_value :: "attribute_value \<Rightarrow> pyval" where
  "attribute_to_value (AStr s) = PStr s"
| "attribute_to_value (AInt i) = PInt i"
| "attribute_to_value (AFloat r) = PReal r"

definition observation_to_payload :: "live_observation \<Rightarrow> pyval" where
  "observation_to_payload ob = PDict
     [(PStr ''timestamp_ns'', PInt (timestamp_ns ob)),
      (PStr ''bbox'', floats (obs_bbox ob)),
      (PStr ''detector_confidence'', PReal (obs_detector_confidence ob)),
      (PStr ''landmarks'', floats (obs_landmarks ob)),
      (PStr ''landmark_confidences'', floats (landmark_confidences ob)),
      (PStr ''quality_score'', PReal (quality_score ob)),
      (PStr ''reject_mask'', PInt (reject_mask ob)),
      (PStr ''embedding'', floats (obs_embedding ob))]"

definition header_payload :: "protocol_header \<Rightarrow> pydict" where
  "header_payload h =
     [(PStr ''protocol_version'', PInt (protocol_version h)),
      (PStr ''message_type'', PStr (message_type h)),
      (PStr ''session_id'', PStr (hd_session_id h)),
      (PStr ''camera_id'', PStr (hd_camera_id h)),
      (PStr ''run_id'', PStr (hd_run_id h)),
      (PStr ''generation'', PInt (hd_generation h)),
      (PStr ''runtime_attempt'', PInt (hd_runtime_attempt h)),
      (PStr ''sequence'', PInt (hd_sequence h)),
      (PStr ''traceparent'', PStr (hd_traceparent h)),
      (PStr ''tracestate'', opt_value PStr (hd_tracestate h))]"

definition start_payload :: "start_command \<Rightarrow> pydict" where
  "start_payload m =
     [(PStr ''uri'', PStr (sc_uri m)),
      (PStr ''gpu_id'', PInt (sc_gpu_id m)),
      (PStr ''pgie_config_path'', PStr (sc_pgie_config_path m)),
      (PStr ''preprocess_config_path'', PStr (sc_preprocess_config_path m)),
      (PStr ''sgie_config_path'', PStr (sc_sgie_config_path m)),
      (PStr ''tracker_config_path'', PStr (sc_tracker_config_path m)),
      (PStr ''output_mount_path'', PStr (sc_output_mount_path m)),
      (PStr ''output_udp_port'', PInt (sc_output_udp_port m)),
      (PStr ''output_rtsp_port'', PInt (sc_output_rtsp_port m)),
      (PStr ''profile_version'', PInt (sc_profile_version m)),
      (PStr ''analytics_mode'', PStr (sc_analytics_mode m)),
      (PStr ''sample_every_n'', PInt (sc_sample_every_n m)),
      (PStr ''detector_threshold'', PReal (sc_detector_threshold m)),
      (PStr ''recognition_threshold'', PReal (sc_recognition_threshold m)),
      (PStr ''top2_margin'', PReal (sc_top2_margin m)),
      (PStr ''track_gap_ns'', PInt (sc_track_gap_ns m)),
      (PStr ''latency_ms'', PInt (sc_latency_ms m)),
      (PStr ''reconnect_interval_seconds'', PInt (sc_reconnect_interval_seconds m)),
      (PStr ''reconnect_attempts'', PInt (sc_reconnect_attempts m)),
      (PStr ''frame_timeout_ns'', PInt (sc_frame_timeout_ns m)),
      (PStr ''recording_enabled'', PBool (sc_recording_enabled m)),
      (PStr ''annotated_enabled'', PBool (sc_annotated_enabled m))]"

definition assignment_payload :: "identity_assignment \<Rightarrow> pydict" where
  "assignment_payload m =
     [(PStr ''tracker_id'', PInt (ia_tracker_id m)),
      (PStr ''assignment_revision'', PInt (assignment_revision m)),
      (PStr ''identity_epoch'', PInt (ia_identity_epoch m)),
      (PStr ''identity_state'', PStr (ia_identity_state m)),
      (PStr ''display_name'', opt_value PStr (ia_display_name m)),
      (PStr ''face_id'', opt_value PStr (ia_face_id m)),
      (PStr ''match_score'', opt_value PReal (ia_match_score m)),
      (PStr ''recognition_threshold'', opt_value PReal (ia_recognition_threshold m)),
      (PStr ''reference_embedding'', opt_value floats (ia_reference_embedding m)),
      (PStr ''decision_sequence'', PInt (ia_decision_sequence m))]"

fun body_payload :: "live_message \<Rightarrow> pydict" where
  "body_payload (StartCommand m) = start_payload m"
| "body_payload (IdentityAssignment m) = assignment_payload m"
| "body_payload (StopCommand m) =
     [(PStr ''reason'', PStr (stop_reason m)),
      (PStr ''shutdown_deadline_ns'', PInt (shutdown_deadline_ns m))]"
| "body_payload (HelloEvent m) =
     [(PStr ''build_id'', PStr (build_id m)),
      (PStr ''gstreamer_version'', PStr (gstreamer_version m)),
      (PStr ''deepstream_version'', PStr (deepstream_version m))]"
| "body_payload (StateEvent m) =
     [(PStr ''state'', PStr (state_state m)),
      (PStr ''reason'', opt_value PStr (state_reason m))]"
| "body_payload (OutputReadyEvent m) =
     [(PStr ''mount_path'', PStr (or_mount_path m)),
      (PStr ''codec'', PStr (or_codec m)),
      (PStr ''caps'', PStr (or_caps m))]"
| "body_payload (TrackEvidenceEvent m) =
     [(PStr ''tracker_id'', PInt (te_tracker_id m)),
      (PStr ''evidence_revision'', PInt (te_evidence_revision m)),
      (PStr ''first_seen_ns'', PInt (te_first_seen_ns m)),
      (PStr ''last_seen_ns'', PInt (te_last_seen_ns m)),
      (PStr ''observations'', PList (map observation_to_payload (te_observations m))),
      (PStr ''representative_aligned_jpeg'', PBytes (representative_aligned_jpeg m))]"
| "body_payload (TrackExpiredEvent m) =
     [(PStr ''tracker_id'', PInt (tx_tracker_id m)),
      (PStr ''evidence_revision'', PInt (tx_evidence_revision m)),
      (PStr ''first_seen_ns'', PInt (tx_first_seen_ns m)),
      (PStr ''last_seen_ns'', PInt (tx_last_seen_ns m)),
      (PStr ''reason'', PStr (tx_reason m))]"
| "body_payload (MetricsEvent m) =
     [(PStr ''counters'', PDict (map (\<lambda>(k, v). (PStr k, PInt v)) (counters m))),
      (PStr ''gauges'', PDict (map (\<lambda>(k, v). (PStr k, PReal v)) (gauges m)))]"
| "body_payload (FailedEvent m) =
     [(PStr ''error_code'', PStr (fe_error_code m)),
      (PStr ''message'', PStr (fe_message m))]"
| "body_payload (StoppedEvent m) =
     [(PStr ''decoded_frames'', PInt (decoded_frames m)),
      (PStr ''emitted_evidence'', PInt (emitted_evidence m)),
      (PStr ''dropped_events'', PInt (dropped_events m)),
      (PStr ''clean_shutdown'', PBool (clean_shutdown m)),
      (PStr ''reason'', PStr (se_reason m))]"
| "body_payload (NativeOperationEvent m) =
     [(PStr ''operation'', PStr (operation m)),
      (PStr ''started_monotonic_ns'', PInt (started_monotonic_ns m)),
      (PStr ''ended_monotonic_ns'', PInt (ended_monotonic_ns m)),
      (PStr ''status'', PStr (no_status m)),
      (PStr ''error_code'', opt_value PStr (no_error_code m)),
      (PStr ''attributes'',
        PDict (map (\<lambda>(k, v). (PStr k, attribute_to_value v)) (attributes m)))]"

definition payload :: "live_message \<Rightarrow> pydict" where
  "payload m = header_payload (header_of m) @ body_payload m"

definition encode_message :: "(pyval \<Rightarrow> bytes) \<Rightarrow> live_message \<Rightarrow> bytes result" where
  "encode_message packb m =
     (let packed = packb (PDict (payload m))
      in if length packed > MAX_FRAME_BYTES then Inl (ValueError ''FRAME_TOO_LARGE'')
         else Inr (pack_be32 (length packed) @ packed))"

section \<open>The encoder writes exactly the declared fields\<close>

fun kind_of :: "live_message \<Rightarrow> string" where
  "kind_of (StartCommand _) = ''start''"
| "kind_of (IdentityAssignment _) = ''identity_assignment''"
| "kind_of (StopCommand _) = ''stop''"
| "kind_of (HelloEvent _) = ''hello''"
| "kind_of (StateEvent _) = ''state''"
| "kind_of (OutputReadyEvent _) = ''output_ready''"
| "kind_of (TrackEvidenceEvent _) = ''track_evidence''"
| "kind_of (TrackExpiredEvent _) = ''track_expired''"
| "kind_of (MetricsEvent _) = ''metrics''"
| "kind_of (FailedEvent _) = ''failed''"
| "kind_of (StoppedEvent _) = ''stopped''"
| "kind_of (NativeOperationEvent _) = ''native_operation''"

lemma header_payload_keys: "map fst (header_payload h) = map PStr HEADER_FIELDS"
  by (simp add: header_payload_def HEADER_FIELDS_def)

lemma body_payload_keys:
  "\<exists>fs. map_of MESSAGE_FIELDS (kind_of m) = Some fs \<and> map fst (body_payload m) = map PStr fs"
  by (cases m)
     (simp_all add: MESSAGE_FIELDS_def START_FIELDS_def IDENTITY_ASSIGNMENT_FIELDS_def
       start_payload_def assignment_payload_def)

lemma payload_keys:
  assumes "map_of MESSAGE_FIELDS (kind_of m) = Some fs"
  shows "map fst (payload m) = map PStr (HEADER_FIELDS @ fs)"
  using body_payload_keys [of m] assms by (auto simp: payload_def header_payload_keys)

end
