(* ===== verification/Vectors.thy ===== *)
theory Vectors
  imports Prelude
begin

text \<open>
  Embedding vectors as lists of reals: norms, normalisation, dot products and centroids, as the
  tracking and live identity services compute them. Rounding is not modelled.
\<close>

definition sum_squares :: "real list \<Rightarrow> real" where
  "sum_squares xs = sum_list (map (\<lambda>x. x * x) xs)"

definition vnorm :: "real list \<Rightarrow> real" where
  "vnorm xs = sqrt (sum_squares xs)"

definition dot :: "real list \<Rightarrow> real list \<Rightarrow> real" where
  "dot xs ys = sum_list (map2 (\<lambda>x y. x * y) xs ys)"

definition scale :: "real \<Rightarrow> real list \<Rightarrow> real list" where
  "scale n xs = map (\<lambda>x. x / n) xs"

lemma sum_squares_nonneg: "0 \<le> sum_squares xs"
  unfolding sum_squares_def by (rule sum_list_nonneg) auto

lemma sum_squares_zero: "sum_squares xs = 0 \<longleftrightarrow> (\<forall>x \<in> set xs. x = 0)"
  unfolding sum_squares_def by (subst sum_list_nonneg_eq_0_iff) auto

lemma sum_squares_scale: "sum_squares (scale n xs) = sum_squares xs / (n * n)"
  by (induction xs) (simp_all add: sum_squares_def scale_def add_divide_distrib)

lemma length_scale [simp]: "length (scale n xs) = length xs"
  by (simp add: scale_def)

lemma vnorm_nonneg [simp]: "0 \<le> vnorm xs"
  by (simp add: vnorm_def sum_squares_nonneg)

lemma vnorm_zero: "vnorm xs = 0 \<longleftrightarrow> (\<forall>x \<in> set xs. x = 0)"
  by (simp add: vnorm_def sum_squares_zero)

lemma vnorm_square: "vnorm xs * vnorm xs = sum_squares xs"
  by (simp add: vnorm_def sum_squares_nonneg)

text \<open>Dividing a non-zero vector by its norm gives a unit vector.\<close>

lemma vnorm_normalized: "vnorm xs \<noteq> 0 \<Longrightarrow> vnorm (scale (vnorm xs) xs) = 1"
proof -
  assume n: "vnorm xs \<noteq> 0"
  have "sum_squares (scale (vnorm xs) xs) = 1"
    using n by (simp add: sum_squares_scale vnorm_square) (simp add: vnorm_def)
  then show ?thesis by (simp add: vnorm_def)
qed

text \<open>The Cauchy-Schwarz inequality, so that the cosine of two unit vectors lies in \<open>[-1, 1]\<close>.\<close>

lemma sum_squares_diff:
  assumes "length xs = length ys"
  shows "sum_squares (map2 (\<lambda>x y. t * x - y) xs ys) =
    t * t * sum_squares xs - 2 * t * dot xs ys + sum_squares ys"
  using assms
  by (induction xs ys rule: list_induct2)
     (simp_all add: sum_squares_def dot_def algebra_simps)

lemma dot_zero: "\<forall>x \<in> set xs. x = 0 \<Longrightarrow> dot xs ys = 0"
proof (induction xs arbitrary: ys)
  case (Cons x xs)
  then show ?case by (cases ys) (simp_all add: dot_def)
qed (simp add: dot_def)

lemma dot_square_le:
  assumes "length xs = length ys"
  shows "dot xs ys * dot xs ys \<le> sum_squares xs * sum_squares ys"
proof (cases "sum_squares xs = 0")
  case True
  then have "\<forall>x \<in> set xs. x = 0" by (simp add: sum_squares_zero)
  then have "dot xs ys = 0" by (rule dot_zero)
  with True show ?thesis by simp
next
  case False
  then have pos: "0 < sum_squares xs" using sum_squares_nonneg [of xs] by simp
  define t where "t = dot xs ys / sum_squares xs"
  have "0 \<le> t * t * sum_squares xs - 2 * t * dot xs ys + sum_squares ys"
    using sum_squares_nonneg [of "map2 (\<lambda>x y. t * x - y) xs ys"] sum_squares_diff [OF assms, of t]
    by simp
  also have "\<dots> = sum_squares ys - dot xs ys * dot xs ys / sum_squares xs"
    using pos by (simp add: t_def field_simps)
  finally show ?thesis using pos by (simp add: field_simps)
qed

lemma dot_unit_bounds:
  assumes "length xs = length ys" and "vnorm xs \<le> 1" and "vnorm ys \<le> 1"
  shows "-1 \<le> dot xs ys" and "dot xs ys \<le> 1"
proof -
  have "sum_squares xs \<le> 1" "sum_squares ys \<le> 1"
    using assms(2,3) by (simp_all add: vnorm_def)
  then have "sum_squares xs * sum_squares ys \<le> 1 * 1"
    by (intro mult_mono) (simp_all add: sum_squares_nonneg)
  with dot_square_le [OF assms(1)] have "(dot xs ys)\<^sup>2 \<le> 1\<^sup>2" by (simp add: power2_eq_square)
  then have "\<bar>dot xs ys\<bar> \<le> 1" by (metis abs_le_square_iff abs_one power_one)
  then show "-1 \<le> dot xs ys" and "dot xs ys \<le> 1" by simp_all
qed

end
