(* ===== verification/Live_Decode.thy ===== *)
theory Live_Decode
  imports Live_Messages Vectors
begin

text \<open>
  The decoder of the live protocol (\<open>src/backend/app/infrastructure/live/protocol.py\<close>): the
  field validators, the header, one decoder per message type in the order of the checks in
  \<open>_decode_payload\<close>, the frame decoder and the per-run decode context. MessagePack is a
  parameter: \<open>unpackb\<close> stands for \<open>msgpack.unpackb(_, raw=False)\<close>, with \<open>None\<close> for the exceptions
  the caller turns into INVALID_MESSAGEPACK.
\<close>

section \<open>Trace context\<close>

definition all_hex :: "string \<Rightarrow> bool" where
  "all_hex s = list_all lower_hex s"

definition traceparent_matches :: "string \<Rightarrow> bool" where
  "traceparent_matches s =
     (length s = 55 \<and> take 3 s = ''00-'' \<and> all_hex (take 32 (drop 3 s)) \<and>
      s ! 35 = CHR ''-'' \<and> all_hex (take 16 (drop 36 s)) \<and>
      s ! 52 = CHR ''-'' \<and> all_hex (drop 53 s))"

definition tracestate_member_ok :: "string \<Rightarrow> bool" where
  "tracestate_member_ok w =
     (w \<noteq> [] \<and> CHR ''='' \<in> set w \<and> w = py_strip w \<and>
      list_all (\<lambda>c. 32 \<le> char_code c \<and> char_code c \<le> 126) w)"

definition validate_trace_context :: "string \<Rightarrow> string option \<Rightarrow> unit result" where
  "validate_trace_context traceparent tracestate =
     (if \<not> traceparent_matches traceparent
         \<or> take 32 (drop 3 traceparent) = replicate 32 (CHR ''0'')
         \<or> take 16 (drop 36 traceparent) = replicate 16 (CHR ''0'')
      then Inl (ValueError ''INVALID_TRACE_CONTEXT'')
      else case tracestate of
        None \<Rightarrow> Inr ()
      | Some ts \<Rightarrow>
          if list_ex (\<lambda>c. char_code c > 127) ts then Inl (ValueError ''INVALID_TRACE_CONTEXT'')
          else let members = split_on (CHR '','') ts
               in if length ts > 512 \<or> length members > 32 \<or> members = []
                  then Inl (ValueError ''INVALID_TRACE_CONTEXT'')
                  else if list_ex (\<lambda>w. \<not> tracestate_member_ok w) members
                  then Inl (ValueError ''INVALID_TRACE_CONTEXT'')
                  else Inr ())"

section \<open>Field validators\<close>

definition integer :: "pyval \<Rightarrow> int \<Rightarrow> int result" where
  "integer v minimum =
     (case v of
        PInt i \<Rightarrow> if i < minimum then Inl (ValueError ''INVALID_INTEGER'') else Inr i
      | _ \<Rightarrow> Inl (ValueError ''INVALID_INTEGER''))"

definition finite_float :: "pyval \<Rightarrow> real result" where
  "finite_float v =
     (case v of
        PInt i \<Rightarrow> float_of_int i
      | PFloat (Fin r) \<Rightarrow> Inr r
      | _ \<Rightarrow> Inl (ValueError ''NON_FINITE_VALUE''))"

definition uuid :: "pyval \<Rightarrow> string result" where
  "uuid v =
     (case v of
        PStr s \<Rightarrow>
          if canonical_uuid (py_lower s) then Inr (py_lower s)
          else Inl (ValueError ''INVALID_UUID'')
      | _ \<Rightarrow> Inl (ValueError ''INVALID_UUID''))"

definition string_value :: "pyval \<Rightarrow> string result" where
  "string_value v = (case v of PStr s \<Rightarrow> Inr s | _ \<Rightarrow> Inl (ValueError ''INVALID_PAYLOAD''))"

definition optional_string :: "pyval \<Rightarrow> string option result" where
  "optional_string v =
     (if v = PNone then Inr None else rbind (string_value v) (\<lambda>s. Inr (Some s)))"

definition optional_finite :: "pyval \<Rightarrow> real option result" where
  "optional_finite v =
     (if v = PNone then Inr None else rbind (finite_float v) (\<lambda>r. Inr (Some r)))"

definition boolean :: "pyval \<Rightarrow> bool result" where
  "boolean v = (case v of PBool b \<Rightarrow> Inr b | _ \<Rightarrow> Inl (ValueError ''INVALID_PAYLOAD''))"

text \<open>\<open>field f payload name\<close> is the source's \<open>f(payload["name"])\<close>.\<close>

definition field :: "(pyval \<Rightarrow> 'a result) \<Rightarrow> pydict \<Rightarrow> string \<Rightarrow> 'a result" where
  "field f d k = rbind (getitem d k) f"

abbreviation int_field :: "pydict \<Rightarrow> string \<Rightarrow> int \<Rightarrow> int result" where
  "int_field d k minimum \<equiv> field (\<lambda>v. integer v minimum) d k"

definition norm_ok :: "real list \<Rightarrow> bool" where
  "norm_ok xs = (0.99 \<le> sqrt (sum_squares xs) \<and> sqrt (sum_squares xs) \<le> 1.01)"

text \<open>The test without the square root, which evaluates on rationals.\<close>

lemma norm_ok_code [code]:
  "norm_ok xs = (9801 / 10000 \<le> sum_squares xs \<and> sum_squares xs \<le> 10201 / 10000)"
proof -
  have "sqrt (9801 / 10000) = 0.99" "sqrt (10201 / 10000) = 1.01"
    by (rule real_sqrt_unique; simp add: power2_eq_square)+
  then show ?thesis
    unfolding norm_ok_def by (metis real_sqrt_le_iff)
qed

definition embedding :: "pyval \<Rightarrow> real list result" where
  "embedding v =
     (case v of
        PList vs \<Rightarrow>
          rbind (mapM finite_float vs) (\<lambda>e.
            if length e \<noteq> 512 then Inl (ValueError ''INVALID_EMBEDDING'')
            else if \<not> norm_ok e then Inl (ValueError ''INVALID_EMBEDDING_NORM'')
            else Inr e)
      | _ \<Rightarrow> Inl (ValueError ''INVALID_EMBEDDING''))"

text \<open>\<open>tuple(_finite(value) for value in v)\<close> over any iterable.\<close>

definition finite_tuple :: "pyval \<Rightarrow> real list result" where
  "finite_tuple v = rbind (py_iter v) (mapM finite_float)"

definition sized_tuple :: "nat \<Rightarrow> string \<Rightarrow> pyval \<Rightarrow> real list result" where
  "sized_tuple n code v =
     rbind (finite_tuple v) (\<lambda>xs. if length xs \<noteq> n then Inl (ValueError code) else Inr xs)"

section \<open>Header and observations\<close>

definition header :: "pydict \<Rightarrow> protocol_header result" where
  "header p =
     rbind (int_field p ''protocol_version'' 1) (\<lambda>version.
     rbind (ensure (version = PROTOCOL_VERSION) (ValueError ''UNSUPPORTED_PROTOCOL_VERSION'')) (\<lambda>_.
     rbind (field string_value p ''message_type'') (\<lambda>mt.
     rbind (ensure (mt \<in> fst ` set MESSAGE_FIELDS) (ValueError ''UNKNOWN_MESSAGE_TYPE'')) (\<lambda>_.
     rbind (field string_value p ''traceparent'') (\<lambda>traceparent.
     rbind (field optional_string p ''tracestate'') (\<lambda>tracestate.
     rbind (validate_trace_context traceparent tracestate) (\<lambda>_.
     rbind (field uuid p ''session_id'') (\<lambda>session_id.
     rbind (field uuid p ''camera_id'') (\<lambda>camera_id.
     rbind (field uuid p ''run_id'') (\<lambda>run_id.
     rbind (int_field p ''generation'' 1) (\<lambda>generation.
     rbind (int_field p ''runtime_attempt'' 1) (\<lambda>runtime_attempt.
     rbind (int_field p ''sequence'' 0) (\<lambda>sequence.
       Inr \<lparr>protocol_version = version, message_type = mt, hd_session_id = session_id,
            hd_camera_id = camera_id, hd_run_id = run_id, hd_generation = generation,
            hd_runtime_attempt = runtime_attempt, hd_sequence = sequence,
            hd_traceparent = traceparent, hd_tracestate = tracestate\<rparr>)))))))))))))"

definition observation :: "pyval \<Rightarrow> live_observation result" where
  "observation v =
     (case v of
        PDict p \<Rightarrow>
          if missing_fields OBSERVATION_FIELDS p \<noteq> [] then Inl (ValueError ''MISSING_FIELD'')
          else if unknown_fields OBSERVATION_FIELDS p \<noteq> [] then Inl (ValueError ''UNKNOWN_FIELD'')
          else
            rbind (field (sized_tuple 4 ''INVALID_PAYLOAD'') p ''bbox'') (\<lambda>bbox.
            rbind (field (sized_tuple 10 ''INVALID_LANDMARKS'') p ''landmarks'') (\<lambda>landmarks.
            rbind (field (sized_tuple 5 ''INVALID_LANDMARKS'') p ''landmark_confidences'')
              (\<lambda>confidences.
            rbind (field embedding p ''embedding'') (\<lambda>emb.
            rbind (int_field p ''timestamp_ns'' 0) (\<lambda>ts.
            rbind (field finite_float p ''detector_confidence'') (\<lambda>dc.
            rbind (field finite_float p ''quality_score'') (\<lambda>q.
            rbind (int_field p ''reject_mask'' 0) (\<lambda>mask.
              Inr \<lparr>timestamp_ns = ts, obs_bbox = bbox, obs_detector_confidence = dc,
                   obs_landmarks = landmarks, landmark_confidences = confidences,
                   quality_score = q, reject_mask = mask, obs_embedding = emb\<rparr>))))))))
      | _ \<Rightarrow> Inl (ValueError ''INVALID_PAYLOAD''))"

section \<open>Message decoders\<close>

definition ANALYTICS_MODES :: "string list" where
  "ANALYTICS_MODES = [''detect'', ''detectTrack'', ''recognize'']"

definition RUNTIME_STATES :: "string list" where
  "RUNTIME_STATES =
     [''STARTING'', ''ACTIVE'', ''RECONNECTING'', ''STOPPING'', ''STOPPED'', ''FAILED'']"

definition in_unit :: "real \<Rightarrow> bool" where
  "in_unit r = (0 \<le> r \<and> r \<le> 1)"

definition decode_start :: "protocol_header \<Rightarrow> pydict \<Rightarrow> live_message result" where
  "decode_start h p =
     rbind (int_field p ''reconnect_attempts'' (-1)) (\<lambda>reconnect_attempts.
     rbind (field string_value p ''analytics_mode'') (\<lambda>mode.
     rbind (ensure (mode \<in> set ANALYTICS_MODES) (ValueError ''INVALID_PAYLOAD'')) (\<lambda>_.
     rbind (field finite_float p ''detector_threshold'') (\<lambda>dt.
     rbind (field finite_float p ''recognition_threshold'') (\<lambda>rt.
     rbind (field finite_float p ''top2_margin'') (\<lambda>margin.
     rbind (ensure (in_unit dt \<and> in_unit rt \<and> in_unit margin) (ValueError ''INVALID_PAYLOAD'')) (\<lambda>_.
     rbind (field boolean p ''recording_enabled'') (\<lambda>recording.
     rbind (field boolean p ''annotated_enabled'') (\<lambda>annotated.
     rbind (field string_value p ''uri'') (\<lambda>uri.
     rbind (int_field p ''gpu_id'' 0) (\<lambda>gpu.
     rbind (field string_value p ''pgie_config_path'') (\<lambda>pgie.
     rbind (field string_value p ''preprocess_config_path'') (\<lambda>pre.
     rbind (field string_value p ''sgie_config_path'') (\<lambda>sgie.
     rbind (field string_value p ''tracker_config_path'') (\<lambda>tracker.
     rbind (field string_value p ''output_mount_path'') (\<lambda>mount.
     rbind (int_field p ''output_udp_port'' 1) (\<lambda>udp.
     rbind (int_field p ''output_rtsp_port'' 1) (\<lambda>rtsp.
     rbind (int_field p ''profile_version'' 1) (\<lambda>profile.
     rbind (int_field p ''sample_every_n'' 1) (\<lambda>every.
     rbind (int_field p ''track_gap_ns'' 1) (\<lambda>gap.
     rbind (int_field p ''latency_ms'' 0) (\<lambda>latency.
     rbind (int_field p ''reconnect_interval_seconds'' 0) (\<lambda>interval.
     rbind (int_field p ''frame_timeout_ns'' 1) (\<lambda>timeout.
       Inr (StartCommand
         \<lparr>sc_header = h, sc_uri = uri, sc_gpu_id = gpu, sc_pgie_config_path = pgie,
          sc_preprocess_config_path = pre, sc_sgie_config_path = sgie,
          sc_tracker_config_path = tracker, sc_output_mount_path = mount,
          sc_output_udp_port = udp, sc_output_rtsp_port = rtsp, sc_profile_version = profile,
          sc_analytics_mode = mode, sc_sample_every_n = every, sc_detector_threshold = dt,
          sc_recognition_threshold = rt, sc_top2_margin = margin, sc_track_gap_ns = gap,
          sc_latency_ms = latency, sc_reconnect_interval_seconds = interval,
          sc_reconnect_attempts = reconnect_attempts, sc_frame_timeout_ns = timeout,
          sc_recording_enabled = recording, sc_annotated_enabled = annotated\<rparr>)))))))))))))))))))))))))"

definition decode_identity_assignment :: "protocol_header \<Rightarrow> pydict \<Rightarrow> live_message result" where
  "decode_identity_assignment h p =
     rbind (field string_value p ''identity_state'') (\<lambda>state.
     rbind (ensure (state \<in> {''known'', ''unknown''}) (ValueError ''INVALID_PAYLOAD'')) (\<lambda>_.
     rbind (field optional_string p ''face_id'') (\<lambda>raw_face.
     rbind (case raw_face of None \<Rightarrow> Inr None
            | Some s \<Rightarrow> rbind (uuid (PStr s)) (\<lambda>u. Inr (Some u))) (\<lambda>face_id.
     rbind (field optional_finite p ''match_score'') (\<lambda>score.
     rbind (field optional_finite p ''recognition_threshold'') (\<lambda>threshold.
     rbind (field optional_string p ''display_name'') (\<lambda>name.
     rbind (getitem p ''reference_embedding'') (\<lambda>ref.
     rbind (if state = ''known'' then
              if name = None \<or> face_id = None \<or> score = None \<or> threshold = None \<or> ref = PNone
              then Inl (ValueError ''INVALID_IDENTITY_ASSIGNMENT'')
              else rbind (embedding ref) (\<lambda>e. Inr (Some e))
            else
              if name \<noteq> None \<or> face_id \<noteq> None \<or> score \<noteq> None \<or> threshold \<noteq> None \<or> ref \<noteq> PNone
              then Inl (ValueError ''INVALID_IDENTITY_ASSIGNMENT'')
              else Inr None) (\<lambda>reference.
     rbind (int_field p ''tracker_id'' 0) (\<lambda>tracker.
     rbind (int_field p ''assignment_revision'' 1) (\<lambda>revision.
     rbind (int_field p ''identity_epoch'' 1) (\<lambda>epoch.
     rbind (int_field p ''decision_sequence'' 0) (\<lambda>dseq.
       Inr (IdentityAssignment
         \<lparr>ia_header = h, ia_tracker_id = tracker, assignment_revision = revision,
          ia_identity_epoch = epoch, ia_identity_state = state, ia_display_name = name,
          ia_face_id = face_id, ia_match_score = score, ia_recognition_threshold = threshold,
          ia_reference_embedding = reference, ia_decision_sequence = dseq\<rparr>))))))))))))))"

definition decode_stop :: "protocol_header \<Rightarrow> pydict \<Rightarrow> live_message result" where
  "decode_stop h p =
     rbind (field string_value p ''reason'') (\<lambda>reason.
     rbind (int_field p ''shutdown_deadline_ns'' 1) (\<lambda>deadline.
       Inr (StopCommand
         \<lparr>stop_header = h, stop_reason = reason, shutdown_deadline_ns = deadline\<rparr>)))"

definition decode_hello :: "protocol_header \<Rightarrow> pydict \<Rightarrow> live_message result" where
  "decode_hello h p =
     rbind (field string_value p ''build_id'') (\<lambda>b.
     rbind (field string_value p ''gstreamer_version'') (\<lambda>g.
     rbind (field string_value p ''deepstream_version'') (\<lambda>d.
       Inr (HelloEvent
         \<lparr>hello_header = h, build_id = b, gstreamer_version = g, deepstream_version = d\<rparr>))))"

definition decode_state :: "protocol_header \<Rightarrow> pydict \<Rightarrow> live_message result" where
  "decode_state h p =
     rbind (field string_value p ''state'') (\<lambda>s.
     rbind (ensure (s \<in> set RUNTIME_STATES) (ValueError ''INVALID_PAYLOAD'')) (\<lambda>_.
     rbind (field optional_string p ''reason'') (\<lambda>reason.
       Inr (StateEvent \<lparr>state_header = h, state_state = s, state_reason = reason\<rparr>))))"

definition decode_output_ready :: "protocol_header \<Rightarrow> pydict \<Rightarrow> live_message result" where
  "decode_output_ready h p =
     rbind (field string_value p ''mount_path'') (\<lambda>m.
     rbind (field string_value p ''codec'') (\<lambda>c.
     rbind (field string_value p ''caps'') (\<lambda>caps.
       Inr (OutputReadyEvent
         \<lparr>or_header = h, or_mount_path = m, or_codec = c, or_caps = caps\<rparr>))))"

definition decode_track_evidence :: "protocol_header \<Rightarrow> pydict \<Rightarrow> live_message result" where
  "decode_track_evidence h p =
     rbind (getitem p ''observations'') (\<lambda>raw.
     rbind (case raw of PList vs \<Rightarrow> Inr vs | _ \<Rightarrow> Inl (ValueError ''INVALID_PAYLOAD'')) (\<lambda>vs.
     rbind (mapM observation vs) (\<lambda>obs.
     rbind (ensure (length obs \<le> MAX_OBSERVATIONS) (ValueError ''INVALID_PAYLOAD'')) (\<lambda>_.
     rbind (getitem p ''representative_aligned_jpeg'') (\<lambda>rawj.
     rbind (case rawj of PBytes bs \<Rightarrow> Inr bs | _ \<Rightarrow> Inl (ValueError ''INVALID_PAYLOAD'')) (\<lambda>jpeg.
     rbind (ensure (length jpeg \<le> MAX_ALIGNED_JPEG_BYTES) (ValueError ''SNAPSHOT_TOO_LARGE'')) (\<lambda>_.
     rbind (int_field p ''tracker_id'' 0) (\<lambda>tracker.
     rbind (int_field p ''evidence_revision'' 1) (\<lambda>revision.
     rbind (int_field p ''first_seen_ns'' 0) (\<lambda>first.
     rbind (int_field p ''last_seen_ns'' 0) (\<lambda>last.
       Inr (TrackEvidenceEvent
         \<lparr>te_header = h, te_tracker_id = tracker, te_evidence_revision = revision,
          te_first_seen_ns = first, te_last_seen_ns = last, te_observations = obs,
          representative_aligned_jpeg = jpeg\<rparr>))))))))))))"

definition decode_track_expired :: "protocol_header \<Rightarrow> pydict \<Rightarrow> live_message result" where
  "decode_track_expired h p =
     rbind (int_field p ''tracker_id'' 0) (\<lambda>tracker.
     rbind (int_field p ''evidence_revision'' 1) (\<lambda>revision.
     rbind (int_field p ''first_seen_ns'' 0) (\<lambda>first.
     rbind (int_field p ''last_seen_ns'' 0) (\<lambda>last.
     rbind (field string_value p ''reason'') (\<lambda>reason.
       Inr (TrackExpiredEvent
         \<lparr>tx_header = h, tx_tracker_id = tracker, tx_evidence_revision = revision,
          tx_first_seen_ns = first, tx_last_seen_ns = last, tx_reason = reason\<rparr>))))))"

definition item_of :: "(pyval \<Rightarrow> 'a result) \<Rightarrow> pyval \<times> pyval \<Rightarrow> (string \<times> 'a) result" where
  "item_of f kv = rbind (string_value (fst kv)) (\<lambda>k. rbind (f (snd kv)) (\<lambda>v. Inr (k, v)))"

definition decode_metrics :: "protocol_header \<Rightarrow> pydict \<Rightarrow> live_message result" where
  "decode_metrics h p =
     rbind (getitem p ''counters'') (\<lambda>c.
     rbind (getitem p ''gauges'') (\<lambda>g.
       case (c, g) of
         (PDict cs, PDict gs) \<Rightarrow>
           rbind (mapM (item_of (\<lambda>v. integer v 0)) cs) (\<lambda>cs'.
           rbind (mapM (item_of finite_float) gs) (\<lambda>gs'.
             Inr (MetricsEvent \<lparr>me_header = h, counters = cs', gauges = gs'\<rparr>)))
       | _ \<Rightarrow> Inl (ValueError ''INVALID_PAYLOAD'')))"

definition decode_failed :: "protocol_header \<Rightarrow> pydict \<Rightarrow> live_message result" where
  "decode_failed h p =
     rbind (field string_value p ''error_code'') (\<lambda>code.
     rbind (field string_value p ''message'') (\<lambda>msg.
       Inr (FailedEvent \<lparr>fe_header = h, fe_error_code = code, fe_message = msg\<rparr>)))"

definition decode_stopped :: "protocol_header \<Rightarrow> pydict \<Rightarrow> live_message result" where
  "decode_stopped h p =
     rbind (field boolean p ''clean_shutdown'') (\<lambda>clean.
     rbind (int_field p ''decoded_frames'' 0) (\<lambda>d.
     rbind (int_field p ''emitted_evidence'' 0) (\<lambda>e.
     rbind (int_field p ''dropped_events'' 0) (\<lambda>dr.
     rbind (field string_value p ''reason'') (\<lambda>reason.
       Inr (StoppedEvent
         \<lparr>se_header = h, decoded_frames = d, emitted_evidence = e, dropped_events = dr,
          clean_shutdown = clean, se_reason = reason\<rparr>))))))"

text \<open>The patterns \<open>^[A-Z][A-Z0-9_]{0,63}$\<close> and \<open>^[a-z][a-z0-9_]{0,63}$\<close>, matched in full.\<close>

definition upper_letter :: "char \<Rightarrow> bool" where
  "upper_letter c = (65 \<le> char_code c \<and> char_code c \<le> 90)"

definition lower_letter :: "char \<Rightarrow> bool" where
  "lower_letter c = (97 \<le> char_code c \<and> char_code c \<le> 122)"

definition digit_or_underscore :: "char \<Rightarrow> bool" where
  "digit_or_underscore c = ((48 \<le> char_code c \<and> char_code c \<le> 57) \<or> c = CHR ''_'')"

definition code_pattern :: "(char \<Rightarrow> bool) \<Rightarrow> string \<Rightarrow> bool" where
  "code_pattern letter s =
     (case s of
        [] \<Rightarrow> False
      | c # cs \<Rightarrow> letter c \<and> length cs \<le> 63 \<and> list_all (\<lambda>d. letter d \<or> digit_or_underscore d) cs)"

definition attribute_item :: "pyval \<times> pyval \<Rightarrow> (string \<times> attribute_value) result" where
  "attribute_item kv =
     (case fst kv of
        PStr k \<Rightarrow>
          if k \<notin> set NATIVE_ATTRIBUTE_KEYS then Inl (ValueError ''INVALID_NATIVE_OPERATION'')
          else (case snd kv of
                  PStr s \<Rightarrow>
                    if code_pattern lower_letter s then Inr (k, AStr s)
                    else Inl (ValueError ''INVALID_NATIVE_OPERATION'')
                | PInt i \<Rightarrow> Inr (k, AInt i)
                | PFloat f \<Rightarrow> rbind (finite_float (PFloat f)) (\<lambda>r. Inr (k, AFloat r))
                | _ \<Rightarrow> Inl (ValueError ''INVALID_NATIVE_OPERATION''))
      | _ \<Rightarrow> Inl (ValueError ''INVALID_NATIVE_OPERATION''))"

definition decode_native_operation :: "protocol_header \<Rightarrow> pydict \<Rightarrow> live_message result" where
  "decode_native_operation h p =
     rbind (field string_value p ''operation'') (\<lambda>op.
     rbind (field string_value p ''status'') (\<lambda>status.
     rbind (field optional_string p ''error_code'') (\<lambda>code.
     rbind (int_field p ''started_monotonic_ns'' 0) (\<lambda>started.
     rbind (int_field p ''ended_monotonic_ns'' 0) (\<lambda>ended.
     rbind (getitem p ''attributes'') (\<lambda>raw.
     rbind (case raw of
              PDict items \<Rightarrow>
                if op \<notin> set NATIVE_OPERATIONS
                   \<or> status \<notin> {''ok'', ''error''}
                   \<or> ended < started
                   \<or> (status = ''error'' \<and> code = None)
                   \<or> (status = ''ok'' \<and> code \<noteq> None)
                   \<or> (case code of None \<Rightarrow> False | Some c \<Rightarrow> \<not> code_pattern upper_letter c)
                   \<or> length items > 16
                then Inl (ValueError ''INVALID_NATIVE_OPERATION'')
                else Inr items
            | _ \<Rightarrow> Inl (ValueError ''INVALID_NATIVE_OPERATION'')) (\<lambda>items.
     rbind (mapM attribute_item items) (\<lambda>attrs.
       Inr (NativeOperationEvent
         \<lparr>no_header = h, operation = op, started_monotonic_ns = started,
          ended_monotonic_ns = ended, no_status = status, no_error_code = code,
          attributes = attrs\<rparr>)))))))))"

definition decode_body :: "protocol_header \<Rightarrow> pydict \<Rightarrow> live_message result" where
  "decode_body h p =
     (let mt = message_type h
      in if mt = ''start'' then decode_start h p
         else if mt = ''identity_assignment'' then decode_identity_assignment h p
         else if mt = ''stop'' then decode_stop h p
         else if mt = ''hello'' then decode_hello h p
         else if mt = ''state'' then decode_state h p
         else if mt = ''output_ready'' then decode_output_ready h p
         else if mt = ''track_evidence'' then decode_track_evidence h p
         else if mt = ''track_expired'' then decode_track_expired h p
         else if mt = ''metrics'' then decode_metrics h p
         else if mt = ''failed'' then decode_failed h p
         else if mt = ''stopped'' then decode_stopped h p
         else decode_native_operation h p)"

definition decode_payload :: "pydict \<Rightarrow> live_message result" where
  "decode_payload p =
     (if missing_fields HEADER_FIELDS p \<noteq> [] then Inl (ValueError ''MISSING_FIELD'')
      else rbind (header p) (\<lambda>h.
        case map_of MESSAGE_FIELDS (message_type h) of
          None \<Rightarrow> Inl KeyError
        | Some fs \<Rightarrow>
            if missing_fields (HEADER_FIELDS @ fs) p \<noteq> [] then Inl (ValueError ''MISSING_FIELD'')
            else if unknown_fields (HEADER_FIELDS @ fs) p \<noteq> []
            then Inl (ValueError ''UNKNOWN_FIELD'')
            else decode_body h p))"

definition is_str :: "pyval \<Rightarrow> bool" where
  "is_str v = (case v of PStr _ \<Rightarrow> True | _ \<Rightarrow> False)"

definition decode_message :: "(bytes \<Rightarrow> pyval option) \<Rightarrow> bytes \<Rightarrow> live_message result" where
  "decode_message unpackb frame =
     (if length frame < HEADER_SIZE then Inl (ValueError ''TRUNCATED_FRAME'')
      else let payload_size = unpack_be32 (take HEADER_SIZE frame)
      in if payload_size > MAX_FRAME_BYTES then Inl (ValueError ''FRAME_TOO_LARGE'')
         else if length frame \<noteq> HEADER_SIZE + payload_size
         then Inl (ValueError ''TRUNCATED_FRAME'')
         else case unpackb (drop HEADER_SIZE frame) of
           None \<Rightarrow> Inl (ValueError ''INVALID_MESSAGEPACK'')
         | Some (PDict p) \<Rightarrow>
             if \<not> list_all (\<lambda>kv. is_str (fst kv)) p then Inl (ValueError ''INVALID_PAYLOAD'')
             else (case decode_payload p of
                     Inl KeyError \<Rightarrow> Inl (ValueError ''MISSING_FIELD'')
                   | Inl TypeError \<Rightarrow> Inl (ValueError ''INVALID_PAYLOAD'')
                   | r \<Rightarrow> r)
         | Some _ \<Rightarrow> Inl (ValueError ''INVALID_PAYLOAD''))"

end
