(* ===== verification/Live_Protocol.thy ===== *)
theory Live_Protocol
  imports Live_Decode
begin

text \<open>
  Correctness of the live protocol's codec. \<open>wf_message\<close> is the contract of a decoded message:
  the header's fence is well formed, and each field lies in the range its validator enforces.
  Every decoded message satisfies it (\<open>decode_message_wf\<close>), every message that satisfies it
  survives the encoder and the decoder unchanged (\<open>message_roundtrip\<close>), and a refused frame is
  refused with a ValueError, never with a KeyError or a TypeError (\<open>decode_message_error\<close>).
  The locale \<open>codec\<close> states the contract of an encoder/decoder pair and is interpreted on the
  length prefix and on the payload dictionaries.
\<close>

section \<open>Well-formed messages\<close>

definition valid_trace_context :: "string \<Rightarrow> string option \<Rightarrow> bool" where
  "valid_trace_context tp ts = is_ok (validate_trace_context tp ts)"

definition wf_header :: "protocol_header \<Rightarrow> bool" where
  "wf_header h =
     (protocol_version h = PROTOCOL_VERSION \<and> canonical_uuid (hd_session_id h) \<and>
      canonical_uuid (hd_camera_id h) \<and> canonical_uuid (hd_run_id h) \<and>
      1 \<le> hd_generation h \<and> 1 \<le> hd_runtime_attempt h \<and> 0 \<le> hd_sequence h \<and>
      valid_trace_context (hd_traceparent h) (hd_tracestate h))"

definition wf_embedding :: "real list \<Rightarrow> bool" where
  "wf_embedding e = (length e = 512 \<and> norm_ok e)"

definition wf_observation :: "live_observation \<Rightarrow> bool" where
  "wf_observation ob =
     (0 \<le> timestamp_ns ob \<and> length (obs_bbox ob) = 4 \<and> length (obs_landmarks ob) = 10 \<and>
      length (landmark_confidences ob) = 5 \<and> 0 \<le> reject_mask ob \<and>
      wf_embedding (obs_embedding ob))"

definition wf_start :: "start_command \<Rightarrow> bool" where
  "wf_start m =
     (-1 \<le> sc_reconnect_attempts m \<and> sc_analytics_mode m \<in> set ANALYTICS_MODES \<and>
      in_unit (sc_detector_threshold m) \<and> in_unit (sc_recognition_threshold m) \<and>
      in_unit (sc_top2_margin m) \<and> 0 \<le> sc_gpu_id m \<and> 1 \<le> sc_output_udp_port m \<and>
      1 \<le> sc_output_rtsp_port m \<and> 1 \<le> sc_profile_version m \<and> 1 \<le> sc_sample_every_n m \<and>
      1 \<le> sc_track_gap_ns m \<and> 0 \<le> sc_latency_ms m \<and> 0 \<le> sc_reconnect_interval_seconds m \<and>
      1 \<le> sc_frame_timeout_ns m)"

text \<open>
  A known assignment carries a name, a canonical face id, a score, a threshold and a unit
  reference embedding; an unknown one carries none of them.
\<close>

definition wf_assignment :: "identity_assignment \<Rightarrow> bool" where
  "wf_assignment m =
     (0 \<le> ia_tracker_id m \<and> 1 \<le> assignment_revision m \<and> 1 \<le> ia_identity_epoch m \<and>
      0 \<le> ia_decision_sequence m \<and>
      (if ia_identity_state m = ''known'' then
         ia_display_name m \<noteq> None \<and> ia_match_score m \<noteq> None \<and>
         ia_recognition_threshold m \<noteq> None \<and>
         (case ia_face_id m of None \<Rightarrow> False | Some f \<Rightarrow> canonical_uuid f) \<and>
         (case ia_reference_embedding m of None \<Rightarrow> False | Some e \<Rightarrow> wf_embedding e)
       else
         ia_identity_state m = ''unknown'' \<and> ia_display_name m = None \<and> ia_face_id m = None \<and>
         ia_match_score m = None \<and> ia_recognition_threshold m = None \<and>
         ia_reference_embedding m = None))"

fun wf_attribute :: "string \<times> attribute_value \<Rightarrow> bool" where
  "wf_attribute (k, AStr s) = (k \<in> set NATIVE_ATTRIBUTE_KEYS \<and> code_pattern lower_letter s)"
| "wf_attribute (k, _) = (k \<in> set NATIVE_ATTRIBUTE_KEYS)"

definition wf_native_operation :: "native_operation_event \<Rightarrow> bool" where
  "wf_native_operation m =
     (operation m \<in> set NATIVE_OPERATIONS \<and> 0 \<le> started_monotonic_ns m \<and>
      started_monotonic_ns m \<le> ended_monotonic_ns m \<and> length (attributes m) \<le> 16 \<and>
      list_all wf_attribute (attributes m) \<and>
      (case no_error_code m of
         None \<Rightarrow> no_status m = ''ok''
       | Some c \<Rightarrow> no_status m = ''error'' \<and> code_pattern upper_letter c))"

fun wf_body :: "live_message \<Rightarrow> bool" where
  "wf_body (StartCommand m) = wf_start m"
| "wf_body (IdentityAssignment m) = wf_assignment m"
| "wf_body (StopCommand m) = (1 \<le> shutdown_deadline_ns m)"
| "wf_body (HelloEvent m) = True"
| "wf_body (StateEvent m) = (state_state m \<in> set RUNTIME_STATES)"
| "wf_body (OutputReadyEvent m) = True"
| "wf_body (TrackEvidenceEvent m) =
     (0 \<le> te_tracker_id m \<and> 1 \<le> te_evidence_revision m \<and> 0 \<le> te_first_seen_ns m \<and>
      0 \<le> te_last_seen_ns m \<and> length (te_observations m) \<le> MAX_OBSERVATIONS \<and>
      list_all wf_observation (te_observations m) \<and>
      length (representative_aligned_jpeg m) \<le> MAX_ALIGNED_JPEG_BYTES)"
| "wf_body (TrackExpiredEvent m) =
     (0 \<le> tx_tracker_id m \<and> 1 \<le> tx_evidence_revision m \<and> 0 \<le> tx_first_seen_ns m \<and>
      0 \<le> tx_last_seen_ns m)"
| "wf_body (MetricsEvent m) = list_all (\<lambda>kv. 0 \<le> snd kv) (counters m)"
| "wf_body (FailedEvent m) = True"
| "wf_body (StoppedEvent m) =
     (0 \<le> decoded_frames m \<and> 0 \<le> emitted_evidence m \<and> 0 \<le> dropped_events m)"
| "wf_body (NativeOperationEvent m) = wf_native_operation m"

definition wf_message :: "live_message \<Rightarrow> bool" where
  "wf_message m =
     (wf_header (header_of m) \<and> message_type (header_of m) = kind_of m \<and> wf_body m)"

section \<open>Inversion of the field validators\<close>

named_theorems decode_inv

lemma integer_Inr [decode_inv]: "(integer v m = Inr i) = (v = PInt i \<and> m \<le> i)"
  by (auto simp: integer_def split: pyval.splits)

lemma string_value_Inr [decode_inv]: "(string_value v = Inr s) = (v = PStr s)"
  by (auto simp: string_value_def split: pyval.splits)

lemma boolean_Inr [decode_inv]: "(boolean v = Inr b) = (v = PBool b)"
  by (auto simp: boolean_def split: pyval.splits)

lemma optional_string_Inr [decode_inv]:
  "(optional_string v = Inr s) = (v = opt_value PStr s)"
  by (cases s) (auto simp: optional_string_def rbind_Inr_iff string_value_Inr)

lemma uuid_Inr [decode_inv]:
  "(uuid v = Inr s) = (\<exists>t. v = PStr t \<and> s = py_lower t \<and> canonical_uuid s)"
  by (auto simp: uuid_def split: pyval.splits)

lemma field_Inr [decode_inv]:
  "(field f d k = Inr x) = (\<exists>v. getitem d k = Inr v \<and> f v = Inr x)"
  by (simp add: field_def rbind_Inr_iff)

lemma embedding_Inr: "embedding v = Inr e \<Longrightarrow> wf_embedding e"
  by (auto simp: embedding_def wf_embedding_def rbind_Inr_iff split: pyval.splits if_splits)

lemma embedding_PNone [simp]: "embedding PNone = Inl (ValueError ''INVALID_EMBEDDING'')"
  by (simp add: embedding_def)

lemma sized_tuple_Inr: "sized_tuple n code v = Inr xs \<Longrightarrow> length xs = n"
  by (auto simp: sized_tuple_def rbind_Inr_iff split: if_splits)

lemma rbind_ok [decode_inv]: "(rbind m f = Inr y) = (\<exists>x. m = Inr x \<and> f x = Inr y)"
  by (rule rbind_Inr_iff)

lemma if_ok [decode_inv]:
  "((if b then r else Inl e) = Inr y) = (b \<and> r = Inr y)"
  "((if b then Inl e else r) = Inr y) = (\<not> b \<and> r = Inr y)"
  by auto

text \<open>Inversion of \<open>isinstance\<close> tests that leave one shape of value.\<close>

lemma case_dict_Inr [decode_inv]:
  "((case v of PDict d \<Rightarrow> f d | _ \<Rightarrow> Inl e) = Inr y) = (\<exists>d. v = PDict d \<and> f d = Inr y)"
  by (cases v) auto

lemma case_list_Inr [decode_inv]:
  "((case v of PList d \<Rightarrow> f d | _ \<Rightarrow> Inl e) = Inr y) = (\<exists>d. v = PList d \<and> f d = Inr y)"
  by (cases v) auto

lemma case_bytes_Inr [decode_inv]:
  "((case v of PBytes d \<Rightarrow> f d | _ \<Rightarrow> Inl e) = Inr y) = (\<exists>d. v = PBytes d \<and> f d = Inr y)"
  by (cases v) auto

lemma header_inv:
  assumes "header p = Inr h"
  shows "wf_header h" and "message_type h \<in> fst ` set MESSAGE_FIELDS"
  using assms
  by (auto simp: header_def decode_inv wf_header_def valid_trace_context_def is_ok_def
           intro: rev_image_eqI)

lemma observation_inv: "observation v = Inr ob \<Longrightarrow> wf_observation ob"
  by (auto simp: observation_def decode_inv wf_observation_def
           dest!: sized_tuple_Inr embedding_Inr split: pyval.splits if_splits)

section \<open>Decoded messages are well formed\<close>

lemma decode_start_inv:
  assumes "decode_start h p = Inr m"
  shows "wf_body m \<and> header_of m = h \<and> kind_of m = ''start''"
  using assms by (auto simp: decode_start_def decode_inv wf_start_def split: if_splits)

lemma decode_identity_assignment_inv:
  assumes "decode_identity_assignment h p = Inr m"
  shows "wf_body m \<and> header_of m = h \<and> kind_of m = ''identity_assignment''"
  using assms
  by (auto simp: decode_identity_assignment_def decode_inv wf_assignment_def
           dest!: embedding_Inr split: if_splits option.splits)

lemma decode_track_evidence_inv:
  assumes "decode_track_evidence h p = Inr m"
  shows "wf_body m \<and> header_of m = h \<and> kind_of m = ''track_evidence''"
  using assms
  by (auto simp: decode_track_evidence_def decode_inv
           dest: mapM_Inr_all [where P = wf_observation, OF _ observation_inv]
           split: if_splits pyval.splits)

lemma item_of_integer_inv: "item_of (\<lambda>v. integer v 0) kv = Inr y \<Longrightarrow> 0 \<le> snd y"
  by (auto simp: item_of_def decode_inv)

lemma decode_metrics_inv:
  assumes "decode_metrics h p = Inr m"
  shows "wf_body m \<and> header_of m = h \<and> kind_of m = ''metrics''"
proof -
  from assms obtain cs gs cs' gs' where
    cs: "mapM (item_of (\<lambda>v. integer v 0)) cs = Inr cs'" and
    m: "m = MetricsEvent \<lparr>me_header = h, counters = cs', gauges = gs'\<rparr>"
    by (auto simp: decode_metrics_def decode_inv)
  have "list_all (\<lambda>kv. 0 \<le> snd kv) cs'"
    by (rule mapM_Inr_all [OF cs item_of_integer_inv])
  with m show ?thesis by simp
qed

lemma attribute_item_inv: "attribute_item kv = Inr y \<Longrightarrow> wf_attribute y"
  by (auto simp: attribute_item_def decode_inv split: pyval.splits if_splits)

lemma decode_native_operation_inv:
  assumes "decode_native_operation h p = Inr m"
  shows "wf_body m \<and> header_of m = h \<and> kind_of m = ''native_operation''"
proof -
  from assms obtain op status code started ended items attrs where
    op: "op \<in> set NATIVE_OPERATIONS" "status \<in> {''ok'', ''error''}" "\<not> ended < started"
      "0 \<le> started" and
    code: "\<not> (status = ''error'' \<and> code = None)" "\<not> (status = ''ok'' \<and> code \<noteq> None)"
      "\<not> (case code of None \<Rightarrow> False | Some c \<Rightarrow> \<not> code_pattern upper_letter c)" and
    items: "\<not> length items > 16" "mapM attribute_item items = Inr attrs" and
    m: "m = NativeOperationEvent
         \<lparr>no_header = h, operation = op, started_monotonic_ns = started,
          ended_monotonic_ns = ended, no_status = status, no_error_code = code,
          attributes = attrs\<rparr>"
    unfolding decode_native_operation_def decode_inv de_Morgan_disj by blast
  have "list_all wf_attribute attrs"
    by (rule mapM_Inr_all [OF items(2) attribute_item_inv])
  moreover have "length attrs \<le> 16"
    using items mapM_Inr_length by fastforce
  ultimately show ?thesis
    using op code by (cases code) (auto simp: m wf_native_operation_def)
qed

lemmas small_decoders =
  decode_stop_def decode_hello_def decode_state_def decode_output_ready_def
  decode_track_expired_def decode_failed_def decode_stopped_def

lemma decode_body_inv:
  assumes "decode_body h p = Inr m" and "message_type h \<in> fst ` set MESSAGE_FIELDS"
  shows "wf_body m \<and> header_of m = h \<and> kind_of m = message_type h"
proof -
  note [dest!] = decode_start_inv decode_identity_assignment_inv decode_track_evidence_inv
    decode_metrics_inv decode_native_operation_inv
  show ?thesis
    using assms
    by (auto simp: decode_body_def Let_def small_decoders decode_inv MESSAGE_FIELDS_def
             split: if_splits)
qed

lemma decode_payload_inv:
  assumes "decode_payload p = Inr m"
  shows "wf_message m"
proof -
  from assms obtain h where h: "header p = Inr h" and body: "decode_body h p = Inr m"
    by (auto simp: decode_payload_def decode_inv split: option.splits if_splits)
  from header_inv [OF h] decode_body_inv [OF body] show ?thesis
    by (simp add: wf_message_def)
qed

lemma decode_message_Inr:
  assumes "decode_message unpackb frame = Inr m"
  obtains p where "unpackb (drop HEADER_SIZE frame) = Some (PDict p)"
    and "decode_payload p = Inr m"
    and "length frame = HEADER_SIZE + unpack_be32 (take HEADER_SIZE frame)"
    and "unpack_be32 (take HEADER_SIZE frame) \<le> MAX_FRAME_BYTES"
  using assms
  by (auto simp: decode_message_def Let_def
           split: if_splits option.splits pyval.splits sum.splits py_exc.splits)

section \<open>Encoding a well-formed message and decoding it\<close>

lemma PReal_not_None [simp]: "PReal r \<noteq> PNone" "floats xs \<noteq> PNone"
  by (simp_all add: PReal_def floats_def)

lemma finite_float_PReal [simp]: "finite_float (PReal r) = Inr r"
  by (simp add: finite_float_def PReal_def)

lemma mapM_finite_PReal [simp]: "mapM finite_float (map PReal xs) = Inr xs"
  by (rule mapM_map_Inr) simp

lemma integer_PInt [simp]: "m \<le> i \<Longrightarrow> integer (PInt i) m = Inr i"
  by (simp add: integer_def)

lemma string_value_PStr [simp]: "string_value (PStr s) = Inr s"
  by (simp add: string_value_def)

lemma boolean_PBool [simp]: "boolean (PBool b) = Inr b"
  by (simp add: boolean_def)

lemma optional_string_value [simp]: "optional_string (opt_value PStr s) = Inr s"
  by (simp add: optional_string_Inr)

lemma optional_finite_value [simp]: "optional_finite (opt_value PReal r) = Inr r"
  by (cases r) (simp_all add: optional_finite_def)

lemma uuid_PStr [simp]: "canonical_uuid s \<Longrightarrow> uuid (PStr s) = Inr s"
  by (simp add: uuid_def canonical_uuid_lower)

lemma embedding_floats [simp]: "wf_embedding e \<Longrightarrow> embedding (floats e) = Inr e"
  by (simp add: embedding_def floats_def wf_embedding_def)

lemma sized_tuple_floats [simp]: "length xs = n \<Longrightarrow> sized_tuple n code (floats xs) = Inr xs"
  by (simp add: sized_tuple_def finite_tuple_def floats_def)

lemma field_eq: "field f d k = rbind (getitem d k) f"
  by (simp add: field_def)

lemma observation_roundtrip:
  assumes "wf_observation ob"
  shows "observation (observation_to_payload ob) = Inr ob"
proof -
  define p where "p = (case observation_to_payload ob of PDict d \<Rightarrow> d | _ \<Rightarrow> [])"
  have p: "observation_to_payload ob = PDict p"
    by (simp add: p_def observation_to_payload_def)
  have "map fst p = map PStr OBSERVATION_FIELDS"
    by (simp add: p_def observation_to_payload_def OBSERVATION_FIELDS_def)
  note keys = fields_exact [OF this]
  show ?thesis
    using assms
    by (simp add: p observation_def keys)
       (simp add: p_def observation_to_payload_def field_eq wf_observation_def)
qed

lemma header_roundtrip:
  assumes "wf_header h" and "message_type h \<in> fst ` set MESSAGE_FIELDS"
  shows "header (header_payload h @ d) = Inr h"
  using assms
  by (auto simp: header_def header_payload_def field_eq wf_header_def PROTOCOL_VERSION_def
           valid_trace_context_def is_ok_def split: sum.splits)

lemma getitem_header_skip:
  assumes "k \<notin> set HEADER_FIELDS"
  shows "getitem (header_payload h @ d) k = getitem d k"
proof -
  have "PStr k \<notin> fst ` set (header_payload h)"
    using assms header_payload_keys [of h] by (metis list.set_map image_iff pyval.inject(4))
  then have "map_of (header_payload h) (PStr k) = None" by (simp add: map_of_eq_None_iff)
  then show ?thesis by (simp add: getitem_def map_add_def split: option.splits)
qed

lemma attribute_roundtrip:
  "wf_attribute (k, v) \<Longrightarrow> attribute_item (PStr k, attribute_to_value v) = Inr (k, v)"
  by (cases v) (auto simp: attribute_item_def PReal_def finite_float_def)

lemma attributes_roundtrip:
  assumes "list_all wf_attribute xs"
  shows "mapM attribute_item (map (\<lambda>(k, v). (PStr k, attribute_to_value v)) xs) = Inr xs"
  using assms by (intro mapM_map_Inr) (auto simp: list_all_iff intro: attribute_roundtrip)

lemma counters_roundtrip:
  assumes "list_all (\<lambda>kv. 0 \<le> snd kv) xs"
  shows "mapM (item_of (\<lambda>v. integer v 0)) (map (\<lambda>(k, v). (PStr k, PInt v)) xs) = Inr xs"
  using assms by (intro mapM_map_Inr) (auto simp: list_all_iff item_of_def)

lemma gauges_roundtrip:
  "mapM (item_of finite_float) (map (\<lambda>(k, v). (PStr k, PReal v)) xs) = Inr xs"
  by (intro mapM_map_Inr) (auto simp: item_of_def)

lemma observations_roundtrip:
  assumes "list_all wf_observation xs"
  shows "mapM observation (map observation_to_payload xs) = Inr xs"
  using assms by (intro mapM_map_Inr) (auto simp: list_all_iff intro: observation_roundtrip)

lemmas payload_access = field_eq getitem_header_skip HEADER_FIELDS_def

lemma start_roundtrip:
  "wf_start x \<Longrightarrow> decode_start (sc_header x) (header_payload h @ start_payload x) = Inr (StartCommand x)"
  by (simp add: payload_access decode_start_def wf_start_def start_payload_def)

lemma assignment_roundtrip:
  assumes "wf_assignment x"
  shows "decode_identity_assignment (ia_header x) (header_payload h @ assignment_payload x) =
           Inr (IdentityAssignment x)"
proof (cases "ia_identity_state x = ''known''")
  case True
  with assms obtain n f sc t e where
    "ia_display_name x = Some n" "ia_face_id x = Some f" "ia_match_score x = Some sc"
    "ia_recognition_threshold x = Some t" "ia_reference_embedding x = Some e"
    "canonical_uuid f" "wf_embedding e"
    by (auto simp: wf_assignment_def split: option.splits)
  with True assms show ?thesis
    by (simp add: payload_access decode_identity_assignment_def wf_assignment_def
          assignment_payload_def optional_string_def optional_finite_def)
next
  case False
  with assms show ?thesis
    by (simp add: payload_access decode_identity_assignment_def wf_assignment_def
          assignment_payload_def optional_string_def optional_finite_def)
qed

lemma native_operation_roundtrip:
  assumes "wf_native_operation x"
  shows "decode_native_operation (no_header x)
           (header_payload h @ body_payload (NativeOperationEvent x)) =
           Inr (NativeOperationEvent x)"
  using assms
  by (cases "no_error_code x")
     (simp_all add: payload_access decode_native_operation_def wf_native_operation_def
       attributes_roundtrip optional_string_def)

lemma decode_body_roundtrip:
  assumes "wf_body m" and "message_type h = kind_of m" and "header_of m = h"
  shows "decode_body h (header_payload h @ body_payload m) = Inr m"
proof -
  note decs = decode_body_def Let_def payload_access small_decoders
  show ?thesis
  proof (cases m)
    case (StartCommand x)
    with assms start_roundtrip [of x h] show ?thesis by (simp add: decode_body_def)
  next
    case (IdentityAssignment x)
    with assms assignment_roundtrip [of x h] show ?thesis by (simp add: decode_body_def)
  next
    case (NativeOperationEvent x)
    with assms native_operation_roundtrip [of x h] show ?thesis by (simp add: decode_body_def)
  qed (use assms in \<open>simp_all add: decs decode_track_evidence_def
         observations_roundtrip decode_metrics_def counters_roundtrip gauges_roundtrip\<close>)
qed

lemma kind_of_field: "kind_of m \<in> fst ` set MESSAGE_FIELDS"
  using body_payload_keys [of m] by (metis image_eqI fst_conv map_of_SomeD)

lemma payload_roundtrip:
  assumes "wf_message m"
  shows "decode_payload (payload m) = Inr m"
proof -
  obtain fs where fs: "map_of MESSAGE_FIELDS (kind_of m) = Some fs"
    using body_payload_keys by blast
  note exact = fields_exact [OF payload_keys [OF fs]]
  have "missing_fields HEADER_FIELDS (payload m) = []"
    using exact(1) by (simp add: missing_fields_Nil)
  moreover have "header (payload m) = Inr (header_of m)"
    using assms kind_of_field by (simp add: payload_def header_roundtrip wf_message_def)
  moreover have "decode_body (header_of m) (payload m) = Inr m"
    using assms by (simp add: payload_def decode_body_roundtrip wf_message_def)
  ultimately show ?thesis
    using assms exact fs by (simp add: decode_payload_def wf_message_def)
qed

lemma payload_str_keys: "list_all (\<lambda>kv. is_str (fst kv)) (payload m)"
proof -
  obtain fs where "map_of MESSAGE_FIELDS (kind_of m) = Some fs"
    using body_payload_keys by blast
  from payload_keys [OF this] have "fst ` set (payload m) \<subseteq> range PStr"
    by (metis image_subset_iff list.set_map rangeI image_iff)
  then show ?thesis by (auto simp: list_all_iff is_str_def split: pyval.splits)
qed

section \<open>Refused payloads\<close>

text \<open>
  MessagePack integers lie between \<open>- 2 ^ 63\<close> and \<open>2 ^ 64 - 1\<close>, so \<open>float()\<close> never overflows on an
  unpacked value. \<open>msgpack_ints\<close> says that of every integer inside a value.
\<close>

fun msgpack_ints :: "pyval \<Rightarrow> bool" where
  "msgpack_ints (PInt i) = (- (2 ^ 63) \<le> i \<and> i < 2 ^ 64)"
| "msgpack_ints (PList vs) = list_all msgpack_ints vs"
| "msgpack_ints (PDict d) = list_all (\<lambda>kv. msgpack_ints (fst kv) \<and> msgpack_ints (snd kv)) d"
| "msgpack_ints _ = True"

fun caught :: "py_exc \<Rightarrow> bool" where
  "caught (ValueError _) = True"
| "caught KeyError = True"
| "caught TypeError = True"
| "caught _ = False"

definition raises_caught :: "'a result \<Rightarrow> bool" where
  "raises_caught r = (\<forall>e. r = Inl e \<longrightarrow> caught e)"

named_theorems caught_intros

lemma raises_caught_leaf [caught_intros]:
  "raises_caught (Inr x)" "raises_caught (Inl (ValueError c))" "raises_caught (Inl KeyError)"
  "raises_caught (ensure b (ValueError c))" "raises_caught (getitem p k)"
  "raises_caught (integer v m)" "raises_caught (string_value v)" "raises_caught (boolean v)"
  "raises_caught (uuid v)" "raises_caught (optional_string v)"
  "raises_caught (validate_trace_context tp ts)" "raises_caught (py_iter v)"
  by (auto simp: raises_caught_def integer_def string_value_def boolean_def uuid_def
        optional_string_def validate_trace_context_def Let_def dest: getitem_Inl py_iter_Inl
        split: pyval.splits option.splits if_splits)

lemma raises_caught_rbind [caught_intros]:
  "raises_caught m \<Longrightarrow> (\<And>x. m = Inr x \<Longrightarrow> raises_caught (f x)) \<Longrightarrow> raises_caught (rbind m f)"
  by (cases m) (auto simp: raises_caught_def)

lemma raises_caught_if [caught_intros]:
  "(b \<Longrightarrow> raises_caught r) \<Longrightarrow> (\<not> b \<Longrightarrow> raises_caught s) \<Longrightarrow> raises_caught (if b then r else s)"
  by simp

lemma raises_caught_field [caught_intros]:
  assumes "msgpack_ints (PDict p)" and "\<And>v. msgpack_ints v \<Longrightarrow> raises_caught (f v)"
  shows "raises_caught (field f p k)"
proof -
  have "msgpack_ints v" if "getitem p k = Inr v" for v
    using assms(1) that by (auto simp: getitem_Inr_iff list_all_iff dest!: map_of_SomeD)
  then show ?thesis
    unfolding field_def by (intro caught_intros assms(2))
qed

lemma raises_caught_get [caught_intros]:
  assumes "msgpack_ints (PDict p)" and "\<And>v. msgpack_ints v \<Longrightarrow> raises_caught (f v)"
  shows "raises_caught (rbind (getitem p k) f)"
  using raises_caught_field [OF assms] by (simp add: field_def)

lemma raises_caught_mapM:
  assumes "\<And>x. x \<in> set xs \<Longrightarrow> raises_caught (f x)"
  shows "raises_caught (mapM f xs)"
  unfolding raises_caught_def
proof (intro allI impI)
  fix e assume "mapM f xs = Inl e"
  then obtain x where "x \<in> set xs" and "f x = Inl e" by (auto dest: mapM_Inl_ex)
  with assms show "caught e" by (auto simp: raises_caught_def)
qed

lemma raises_caught_finite [caught_intros]:
  assumes "msgpack_ints v"
  shows "raises_caught (finite_float v)"
proof (cases v)
  case (PInt i)
  have "(2 :: int) ^ 64 < 2 ^ 1024 - 2 ^ 970" by simp
  with assms PInt have "\<bar>i\<bar> < 2 ^ 1024 - 2 ^ 970" by auto
  with PInt show ?thesis by (auto simp: raises_caught_def finite_float_def float_of_int_def)
qed (auto simp: raises_caught_def finite_float_def split: pyfloat.splits)

lemma raises_caught_optional_finite [caught_intros]:
  "msgpack_ints v \<Longrightarrow> raises_caught (optional_finite v)"
  unfolding optional_finite_def by (intro caught_intros)

lemma raises_caught_embedding [caught_intros]:
  "msgpack_ints v \<Longrightarrow> raises_caught (embedding v)"
  unfolding embedding_def
  by (cases v) (auto simp: list_all_iff intro!: caught_intros raises_caught_mapM)

lemma py_iter_ints: "msgpack_ints v \<Longrightarrow> py_iter v = Inr xs \<Longrightarrow> x \<in> set xs \<Longrightarrow> msgpack_ints x"
proof (cases v)
  case (PBytes bs)
  have "- (2 ^ 63) \<le> uint b \<and> uint b < 2 ^ 64" for b :: byte
    using uint_bounded [of b] order_trans [of "- (2 ^ 63)" 0 "uint b"] by simp
  moreover assume "py_iter v = Inr xs" "x \<in> set xs"
  ultimately show ?thesis using PBytes by auto
qed (auto simp: list_all_iff)

lemma raises_caught_sized_tuple [caught_intros]:
  assumes "msgpack_ints v"
  shows "raises_caught (sized_tuple n c v)"
  unfolding sized_tuple_def finite_tuple_def
  using assms by (intro caught_intros raises_caught_mapM) (auto dest: py_iter_ints)

lemma raises_caught_observation [caught_intros]:
  assumes "msgpack_ints v"
  shows "raises_caught (observation v)"
proof (cases v)
  case (PDict p)
  with assms have p: "msgpack_ints (PDict p)" by simp
  show ?thesis
    unfolding observation_def PDict pyval.case by (intro caught_intros p)
qed (auto simp: observation_def intro: caught_intros)

lemma raises_caught_list [caught_intros]:
  assumes "msgpack_ints v" and "\<And>x. msgpack_ints x \<Longrightarrow> raises_caught (f x)"
  shows "raises_caught (rbind (case v of PList vs \<Rightarrow> Inr vs | _ \<Rightarrow> Inl (ValueError c)) (mapM f))"
  using assms
  by (cases v) (auto simp: list_all_iff intro: caught_intros raises_caught_mapM)

lemma raises_caught_items [caught_intros]:
  assumes "msgpack_ints (PDict d)" and "\<And>v. msgpack_ints v \<Longrightarrow> raises_caught (f v)"
  shows "raises_caught (mapM (item_of f) d)"
  using assms unfolding item_of_def
  by (intro raises_caught_mapM caught_intros) (auto simp: list_all_iff)

lemma raises_caught_metrics [caught_intros]:
  assumes "msgpack_ints (PDict p)"
  shows "raises_caught (decode_metrics h p)"
  unfolding decode_metrics_def
proof (rule raises_caught_get [OF assms], rule raises_caught_get [OF assms])
  fix c g assume ints: "msgpack_ints c" "msgpack_ints g"
  show "raises_caught
     (case (c, g) of
        (PDict cs, PDict gs) \<Rightarrow>
          rbind (mapM (item_of (\<lambda>v. integer v 0)) cs) (\<lambda>cs'.
          rbind (mapM (item_of finite_float) gs) (\<lambda>gs'.
            Inr (MetricsEvent \<lparr>me_header = h, counters = cs', gauges = gs'\<rparr>)))
      | _ \<Rightarrow> Inl (ValueError ''INVALID_PAYLOAD''))"
    using ints by (cases c; cases g) (auto intro!: caught_intros)
qed

lemma raises_caught_attribute [caught_intros]: "raises_caught (attribute_item kv)"
  by (auto simp: attribute_item_def raises_caught_def finite_float_def rbind_Inl_iff
           split: pyval.splits pyfloat.splits if_splits)

lemma raises_caught_native [caught_intros]:
  assumes "msgpack_ints (PDict p)"
  shows "raises_caught (decode_native_operation h p)"
  unfolding decode_native_operation_def
  by (intro caught_intros raises_caught_mapM assms)
     (auto simp: raises_caught_def split: pyval.splits if_splits)

lemma raises_caught_evidence [caught_intros]:
  assumes "msgpack_ints (PDict p)"
  shows "raises_caught (decode_track_evidence h p)"
proof -
  have list: "raises_caught (rbind
      (case v of PList vs \<Rightarrow> Inr vs | _ \<Rightarrow> Inl (ValueError ''INVALID_PAYLOAD''))
      (\<lambda>vs. rbind (mapM observation vs) g))"
    if "msgpack_ints v" "\<And>y. raises_caught (g y)" for v and g :: "_ \<Rightarrow> live_message result"
    using that
    by (cases v) (auto simp: list_all_iff intro!: caught_intros raises_caught_mapM)
  have bytes: "raises_caught
      (case v of PBytes bs \<Rightarrow> Inr bs | _ \<Rightarrow> Inl (ValueError ''INVALID_PAYLOAD''))" for v
    by (cases v) (auto intro: caught_intros)
  show ?thesis
    unfolding decode_track_evidence_def
    by (rule raises_caught_get [OF assms], erule list) (intro caught_intros assms bytes)
qed

lemma raises_caught_assignment [caught_intros]:
  assumes "msgpack_ints (PDict p)"
  shows "raises_caught (decode_identity_assignment h p)"
proof -
  have face: "raises_caught (case f of None \<Rightarrow> Inr None
      | Some s \<Rightarrow> rbind (uuid (PStr s)) (\<lambda>u. Inr (Some u)))" for f
    by (cases f) (auto intro!: caught_intros)
  show ?thesis
    unfolding decode_identity_assignment_def by (intro caught_intros assms face)
qed

lemma raises_caught_start [caught_intros]:
  "msgpack_ints (PDict p) \<Longrightarrow> raises_caught (decode_start h p)"
  unfolding decode_start_def by (intro caught_intros)

lemma raises_caught_header [caught_intros]:
  "msgpack_ints (PDict p) \<Longrightarrow> raises_caught (header p)"
  unfolding header_def by (intro caught_intros)

lemma raises_caught_small [caught_intros]:
  assumes "msgpack_ints (PDict p)"
  shows "raises_caught (decode_stop h p)" "raises_caught (decode_hello h p)"
    "raises_caught (decode_state h p)" "raises_caught (decode_output_ready h p)"
    "raises_caught (decode_track_expired h p)" "raises_caught (decode_failed h p)"
    "raises_caught (decode_stopped h p)"
  unfolding small_decoders by (intro caught_intros assms)+

lemma raises_caught_payload:
  assumes "msgpack_ints (PDict p)"
  shows "raises_caught (decode_payload p)"
proof -
  have body: "raises_caught (decode_body h p)" for h
    unfolding decode_body_def Let_def by (intro caught_intros assms)
  have fields: "raises_caught (case map_of MESSAGE_FIELDS k of None \<Rightarrow> Inl KeyError
      | Some fs \<Rightarrow> if b fs then Inl (ValueError c) else if b' fs then Inl (ValueError c') else r)"
    if "raises_caught r" for k b b' c c' and r :: "live_message result"
    using that by (cases "map_of MESSAGE_FIELDS k") (auto intro: caught_intros)
  show ?thesis
    unfolding decode_payload_def by (intro caught_intros assms fields body)
qed

section \<open>The codec interface\<close>

text \<open>
  What an encoder and a decoder promise each other: the decoder returns only messages of the
  contract \<open>ok\<close>, and it gives back every such message from its encoding.
\<close>

locale codec =
  fixes enc :: "'m \<Rightarrow> 'w" and dec :: "'w \<Rightarrow> py_exc + 'm" and ok :: "'m \<Rightarrow> bool"
  assumes dec_ok: "dec w = Inr m \<Longrightarrow> ok m"
    and dec_enc: "ok m \<Longrightarrow> dec (enc m) = Inr m"
begin

lemma ok_iff_decodable: "ok m \<longleftrightarrow> (\<exists>w. dec w = Inr m)"
  using dec_ok dec_enc by blast

lemma enc_inj: "ok m \<Longrightarrow> ok m' \<Longrightarrow> enc m = enc m' \<Longrightarrow> m = m'"
  by (metis dec_enc sum.inject(2))

lemma reencode: "dec w = Inr m \<Longrightarrow> dec (enc m) = Inr m"
  by (rule dec_enc [OF dec_ok])

end

interpretation be32: codec pack_be32
  "\<lambda>b. if length b = 4 then Inr (unpack_be32 b) else Inl (OtherError ''struct.error'')"
  "\<lambda>n. n < 2 ^ 32"
  by unfold_locales (auto simp: unpack_pack_be32 dest: unpack_be32_less split: if_splits)

interpretation payloads: codec payload decode_payload wf_message
  by unfold_locales (auto dest: decode_payload_inv simp: payload_roundtrip)

lemma MAX_FRAME_BYTES_less: "n \<le> MAX_FRAME_BYTES \<Longrightarrow> n < 2 ^ 32"
  by (simp add: MAX_FRAME_BYTES_def)

lemma decode_encode:
  assumes "wf_message m" and "unpackb (packb (PDict (payload m))) = Some (PDict (payload m))"
    and "encode_message packb m = Inr frame"
  shows "decode_message unpackb frame = Inr m"
proof -
  define b where "b = packb (PDict (payload m))"
  from assms(3) have len: "length b \<le> MAX_FRAME_BYTES" and frame: "frame = pack_be32 (length b) @ b"
    by (auto simp: encode_message_def b_def Let_def split: if_splits)
  have "unpack_be32 (pack_be32 (length b)) = length b"
    using MAX_FRAME_BYTES_less [OF len] by (rule unpack_pack_be32)
  with len assms(1,2) show ?thesis
    by (simp add: decode_message_def frame HEADER_SIZE_def b_def [symmetric] payload_str_keys
          payloads.dec_enc)
qed

section \<open>Properties\<close>

text \<open>A concrete run's header and stop command, at which the witnesses instantiate the properties.\<close>

definition sample_header :: "string \<Rightarrow> int \<Rightarrow> protocol_header" where
  "sample_header mt n =
     \<lparr>protocol_version = 2, message_type = mt,
      hd_session_id = ''11111111-1111-4111-8111-111111111111'',
      hd_camera_id = ''22222222-2222-4222-8222-222222222222'',
      hd_run_id = ''33333333-3333-4333-8333-333333333333'',
      hd_generation = 1, hd_runtime_attempt = 1, hd_sequence = n,
      hd_traceparent = ''00-0af7651916cd43dd8448eb211c80319c-b7ad6b7169203331-01'',
      hd_tracestate = Some ''vendor=a''\<rparr>"

definition sample_stop :: "int \<Rightarrow> live_message" where
  "sample_stop n =
     StopCommand \<lparr>stop_header = sample_header ''stop'' n, stop_reason = ''stop_requested'',
                  shutdown_deadline_ns = 5\<rparr>"

lemma sample_header_wf:
  assumes "0 \<le> n"
  shows "wf_header (sample_header mt n)"
proof -
  have "valid_trace_context ''00-0af7651916cd43dd8448eb211c80319c-b7ad6b7169203331-01''
      (Some ''vendor=a'')"
    by code_simp
  moreover have "canonical_uuid ''11111111-1111-4111-8111-111111111111''"
    "canonical_uuid ''22222222-2222-4222-8222-222222222222''"
    "canonical_uuid ''33333333-3333-4333-8333-333333333333''"
    by code_simp+
  ultimately show ?thesis
    using assms by (simp add: wf_header_def sample_header_def PROTOCOL_VERSION_def)
qed

lemma sample_stop_wf: "0 \<le> n \<Longrightarrow> wf_message (sample_stop n)"
  by (simp add: wf_message_def sample_stop_def sample_header_wf)
     (simp add: sample_header_def)

lemma sample_stop_decodes: "decode_payload (payload (sample_stop 3)) = Inr (sample_stop 3)"
  by (rule payloads.dec_enc [OF sample_stop_wf]) simp

text \<open>
  Every message the frame decoder returns is well formed, and its frame is exactly as long
  as its length prefix says, which is at most \<open>MAX_FRAME_BYTES\<close>.
\<close>

theorem decode_message_wf:
  assumes "decode_message unpackb frame = Inr m"
  shows "wf_message m
    \<and> length frame = HEADER_SIZE + unpack_be32 (take HEADER_SIZE frame)
    \<and> unpack_be32 (take HEADER_SIZE frame) \<le> MAX_FRAME_BYTES"
  using assms by (elim decode_message_Inr) (simp add: payloads.dec_ok)

theorem decode_message_wf_witness:
  "wf_message (sample_stop 3)
    \<and> length [0, 0, 0, 1, 7 :: byte] = HEADER_SIZE + unpack_be32 (take HEADER_SIZE [0, 0, 0, 1, 7])
    \<and> unpack_be32 (take HEADER_SIZE [0, 0, 0, 1, 7]) \<le> MAX_FRAME_BYTES"
  by (rule decode_message_wf
        [of "\<lambda>b. if b = [7] then Some (PDict (payload (sample_stop 3))) else None"])
     (simp add: decode_message_def HEADER_SIZE_def unpack_be32_def MAX_FRAME_BYTES_def
        payload_str_keys sample_stop_decodes)

text \<open>
  C4. A well-formed message that fits a frame comes back from the decoder unchanged, provided
  MessagePack unpacks the packed payload to the same value.
\<close>

theorem message_roundtrip:
  assumes "wf_message m" and "unpackb (packb (PDict (payload m))) = Some (PDict (payload m))"
    and "length (packb (PDict (payload m))) \<le> MAX_FRAME_BYTES"
  shows "rbind (encode_message packb m) (decode_message unpackb) = Inr m"
proof -
  obtain frame where "encode_message packb m = Inr frame"
    using assms(3) by (auto simp: encode_message_def Let_def)
  with decode_encode [of m unpackb packb] assms(1,2) show ?thesis by simp
qed

theorem message_roundtrip_witness:
  "rbind (encode_message (\<lambda>v. if v = PDict (payload (sample_stop 3)) then [7] else []) (sample_stop 3))
     (decode_message (\<lambda>b. if b = [7] then Some (PDict (payload (sample_stop 3))) else None)) =
   Inr (sample_stop 3)"
  by (rule message_roundtrip) (simp_all add: sample_stop_wf MAX_FRAME_BYTES_def)

text \<open>
  A refused frame is always refused with a ValueError: the language's own KeyError, TypeError
  and OverflowError never reach the caller, since unpacked integers have at most 64 bits.
\<close>

theorem decode_message_error:
  assumes "\<And>v. unpackb (drop HEADER_SIZE frame) = Some v \<Longrightarrow> msgpack_ints v"
    and "decode_message unpackb frame = Inl e"
  shows "\<exists>code. e = ValueError code"
proof -
  have "raises_caught (decode_payload p)" if "unpackb (drop HEADER_SIZE frame) = Some (PDict p)" for p
    by (rule raises_caught_payload [OF assms(1) [OF that]])
  with assms(2) show ?thesis
    by (auto simp: decode_message_def Let_def raises_caught_def
             split: if_splits option.splits pyval.splits sum.splits py_exc.splits
             elim!: caught.elims)
qed

theorem decode_message_error_witness:
  "\<exists>code. ValueError ''MISSING_FIELD'' = ValueError code"
proof (rule decode_message_error [of "\<lambda>_. Some (PDict [(PStr ''uri'', PInt 7)])" "[0, 0, 0, 1, 7]"])
  show "decode_message (\<lambda>_. Some (PDict [(PStr ''uri'', PInt 7)])) [0, 0, 0, 1, 7] =
      Inl (ValueError ''MISSING_FIELD'')"
    by (simp add: decode_message_def HEADER_SIZE_def unpack_be32_def MAX_FRAME_BYTES_def
          is_str_def decode_payload_def missing_fields_def HEADER_FIELDS_def)
qed auto

text \<open>
  The well-formedness contract is exact: a message satisfies it if and only if some payload
  decodes to that message.
\<close>

theorem wf_message_iff_decodable: "wf_message m \<longleftrightarrow> (\<exists>p. decode_payload p = Inr m)"
  by (rule payloads.ok_iff_decodable)

end
