(* ===== verification/Live_Stream.thy ===== *)
theory Live_Stream
  imports Live_Protocol
begin

text \<open>
  The supervisor's side of the event pipe: \<open>DecodeContext\<close> of
  \<open>src/backend/app/infrastructure/live/protocol.py\<close>, which fences a stream to one run, and
  \<open>NativeLiveRunner._read_events\<close> of \<open>src/backend/app/infrastructure/live/native_runner.py\<close>, which
  cuts the worker's standard output into frames. The stream is the list of bytes the worker
  writes before it closes the pipe; the event handler is a parameter that updates a state of its
  own and may raise. The loop is total: every iteration consumes at least the four bytes of a
  length prefix.
\<close>

section \<open>DecodeContext\<close>

record decode_context =
  dc_session_id :: string
  dc_camera_id :: string
  dc_run_id :: string
  dc_generation :: int
  dc_runtime_attempt :: int
  assignment_revisions :: "int \<rightharpoonup> int"

definition decode_context_init ::
  "string \<Rightarrow> string \<Rightarrow> string \<Rightarrow> int \<Rightarrow> int \<Rightarrow> decode_context result" where
  "decode_context_init session_id camera_id run_id generation runtime_attempt =
     rbind (uuid (PStr session_id)) (\<lambda>s.
     rbind (uuid (PStr camera_id)) (\<lambda>c.
     rbind (uuid (PStr run_id)) (\<lambda>r.
     rbind (integer (PInt generation) 1) (\<lambda>g.
     rbind (integer (PInt runtime_attempt) 1) (\<lambda>a.
       Inr \<lparr>dc_session_id = s, dc_camera_id = c, dc_run_id = r, dc_generation = g,
            dc_runtime_attempt = a, assignment_revisions = Map.empty\<rparr>)))))"

definition previous_revision :: "decode_context \<Rightarrow> int \<Rightarrow> int" where
  "previous_revision ctx tracker =
     (case assignment_revisions ctx tracker of None \<Rightarrow> 0 | Some r \<Rightarrow> r)"

definition accept_message ::
  "decode_context \<Rightarrow> live_message \<Rightarrow> (decode_context \<times> live_message) result" where
  "accept_message ctx m =
     (let h = header_of m
      in if hd_session_id h \<noteq> dc_session_id ctx then Inl (ValueError ''WRONG_SESSION_ID'')
         else if hd_camera_id h \<noteq> dc_camera_id ctx then Inl (ValueError ''WRONG_CAMERA_ID'')
         else if hd_run_id h \<noteq> dc_run_id ctx then Inl (ValueError ''WRONG_RUN_ID'')
         else if hd_generation h \<noteq> dc_generation ctx then Inl (ValueError ''WRONG_GENERATION'')
         else if hd_runtime_attempt h \<noteq> dc_runtime_attempt ctx
         then Inl (ValueError ''WRONG_RUNTIME_ATTEMPT'')
         else case m of
           IdentityAssignment a \<Rightarrow>
             if assignment_revision a \<le> previous_revision ctx (ia_tracker_id a)
             then Inl (ValueError ''STALE_ASSIGNMENT_REVISION'')
             else Inr (ctx\<lparr>assignment_revisions :=
                    (assignment_revisions ctx)(ia_tracker_id a \<mapsto> assignment_revision a)\<rparr>, m)
         | _ \<Rightarrow> Inr (ctx, m))"

definition context_decode ::
  "(bytes \<Rightarrow> pyval option) \<Rightarrow> decode_context \<Rightarrow> bytes \<Rightarrow> (decode_context \<times> live_message) result"
where
  "context_decode unpackb ctx frame = rbind (decode_message unpackb frame) (accept_message ctx)"

section \<open>The event loop\<close>

function read_loop ::
  "(bytes \<Rightarrow> pyval option) \<Rightarrow> ('s \<Rightarrow> live_message \<Rightarrow> 's \<times> unit result) \<Rightarrow> decode_context \<Rightarrow> int \<Rightarrow>
   stopped_event option \<Rightarrow> 's \<Rightarrow> bytes \<Rightarrow> 's \<times> stopped_event option result"
where
  "read_loop unpackb on_event ctx prev stopped s stdout =
     (if length stdout < HEADER_SIZE then
        (s, if stdout = [] then Inr stopped else Inl (ValueError ''TRUNCATED_FRAME''))
      else let frame_size = unpack_be32 (take HEADER_SIZE stdout) in
        if frame_size > MAX_FRAME_BYTES then (s, Inl (ValueError ''FRAME_TOO_LARGE''))
        else if length (drop HEADER_SIZE stdout) < frame_size
        then (s, Inl (ValueError ''TRUNCATED_FRAME''))
        else case context_decode unpackb ctx (take (HEADER_SIZE + frame_size) stdout) of
          Inl e \<Rightarrow> (s, Inl e)
        | Inr (ctx', event) \<Rightarrow>
            if hd_sequence (header_of event) \<le> prev
            then (s, Inl (ValueError ''OUT_OF_ORDER_SEQUENCE''))
            else case on_event s event of
              (s', Inl e) \<Rightarrow> (s', Inl e)
            | (s', Inr _) \<Rightarrow>
                read_loop unpackb on_event ctx' (hd_sequence (header_of event))
                  (case event of StoppedEvent e \<Rightarrow> Some e | _ \<Rightarrow> stopped) s'
                  (drop (HEADER_SIZE + frame_size) stdout))"
  by pat_completeness auto

termination
  by (relation "measure (\<lambda>(_, _, _, _, _, _, stdout). length stdout)")
     (auto simp: HEADER_SIZE_def)

declare read_loop.simps [simp del]

definition read_events ::
  "(bytes \<Rightarrow> pyval option) \<Rightarrow> ('s \<Rightarrow> live_message \<Rightarrow> 's \<times> unit result) \<Rightarrow> protocol_header \<Rightarrow> 's \<Rightarrow>
   bytes \<Rightarrow> 's \<times> stopped_event option result"
where
  "read_events unpackb on_event h s stdout =
     (case decode_context_init (hd_session_id h) (hd_camera_id h) (hd_run_id h)
             (hd_generation h) (hd_runtime_attempt h) of
        Inl e \<Rightarrow> (s, Inl e)
      | Inr ctx \<Rightarrow> read_loop unpackb on_event ctx (-1) None s stdout)"

section \<open>What the context accepts\<close>

text \<open>
  \<open>same_run ctx h\<close>: the header carries the context's fence. \<open>admits m m'\<close>: the order two messages
  of one stream stand in; sequence numbers increase, and so do the revisions of assignments to
  one tracker.
\<close>

definition same_run :: "decode_context \<Rightarrow> protocol_header \<Rightarrow> bool" where
  "same_run ctx h =
     (hd_session_id h = dc_session_id ctx \<and> hd_camera_id h = dc_camera_id ctx \<and>
      hd_run_id h = dc_run_id ctx \<and> hd_generation h = dc_generation ctx \<and>
      hd_runtime_attempt h = dc_runtime_attempt ctx)"

fun revision_of :: "live_message \<Rightarrow> (int \<times> int) option" where
  "revision_of (IdentityAssignment a) = Some (ia_tracker_id a, assignment_revision a)"
| "revision_of _ = None"

definition admits :: "live_message \<Rightarrow> live_message \<Rightarrow> bool" where
  "admits m m' =
     (hd_sequence (header_of m) < hd_sequence (header_of m') \<and>
      (case (revision_of m, revision_of m') of
         (Some (t, r), Some (t', r')) \<Rightarrow> t = t' \<longrightarrow> r < r'
       | _ \<Rightarrow> True))"

definition revision_le :: "decode_context \<Rightarrow> live_message \<Rightarrow> bool" where
  "revision_le ctx m =
     (case revision_of m of None \<Rightarrow> True | Some (t, r) \<Rightarrow> r \<le> previous_revision ctx t)"

lemma accept_message_Inr:
  "accept_message ctx m = Inr (ctx', m') \<longleftrightarrow>
     m' = m \<and> same_run ctx (header_of m) \<and>
     (case revision_of m of
        None \<Rightarrow> ctx' = ctx
      | Some (t, r) \<Rightarrow> previous_revision ctx t < r \<and>
          ctx' = ctx\<lparr>assignment_revisions := (assignment_revisions ctx)(t \<mapsto> r)\<rparr>)"
  by (cases m) (auto simp: accept_message_def same_run_def Let_def)

lemma same_run_accept:
  "accept_message ctx m = Inr (ctx', m') \<Longrightarrow> same_run ctx' = same_run ctx"
  by (auto simp: accept_message_Inr same_run_def fun_eq_iff split: option.splits)

lemma revision_le_accept:
  assumes "accept_message ctx m = Inr (ctx', m')"
  shows "revision_le ctx' m" and "revision_le ctx x \<Longrightarrow> revision_le ctx' x"
    and "revision_le ctx x \<Longrightarrow> hd_sequence (header_of x) < hd_sequence (header_of m) \<Longrightarrow> admits x m"
  using assms
  by (auto simp: accept_message_Inr revision_le_def previous_revision_def admits_def
           split: option.splits if_splits)

lemma decode_context_init_wf:
  assumes "wf_header h"
  obtains ctx where
    "decode_context_init (hd_session_id h) (hd_camera_id h) (hd_run_id h)
       (hd_generation h) (hd_runtime_attempt h) = Inr ctx"
    and "same_run ctx h" and "assignment_revisions ctx = Map.empty"
proof -
  define ctx where "ctx = \<lparr>dc_session_id = hd_session_id h, dc_camera_id = hd_camera_id h,
    dc_run_id = hd_run_id h, dc_generation = hd_generation h,
    dc_runtime_attempt = hd_runtime_attempt h, assignment_revisions = Map.empty\<rparr>"
  show thesis
    by (rule that [of ctx])
       (use assms in \<open>simp_all add: ctx_def decode_context_init_def wf_header_def same_run_def\<close>)
qed

lemma decode_context_init_same_run:
  assumes "decode_context_init (hd_session_id h) (hd_camera_id h) (hd_run_id h)
       (hd_generation h) (hd_runtime_attempt h) = Inr ctx"
  shows "dc_session_id ctx = py_lower (hd_session_id h)"
    and "dc_camera_id ctx = py_lower (hd_camera_id h)"
    and "dc_run_id ctx = py_lower (hd_run_id h)"
    and "dc_generation ctx = hd_generation h"
    and "dc_runtime_attempt ctx = hd_runtime_attempt h"
    and "assignment_revisions ctx = Map.empty"
  using assms by (auto simp: decode_context_init_def decode_inv)

section \<open>One frame at a time\<close>

definition whole_frame :: "bytes \<Rightarrow> bool" where
  "whole_frame f =
     (length f = HEADER_SIZE + unpack_be32 (take HEADER_SIZE f) \<and>
      unpack_be32 (take HEADER_SIZE f) \<le> MAX_FRAME_BYTES)"

definition next_stopped :: "stopped_event option \<Rightarrow> live_message \<Rightarrow> stopped_event option" where
  "next_stopped stopped m = (case m of StoppedEvent e \<Rightarrow> Some e | _ \<Rightarrow> stopped)"

lemma encode_whole_frame:
  assumes "encode_message packb m = Inr f"
  shows "whole_frame f"
proof -
  define b where "b = packb (PDict (payload m))"
  from assms have b: "length b \<le> MAX_FRAME_BYTES" and f: "f = pack_be32 (length b) @ b"
    by (auto simp: encode_message_def b_def Let_def split: if_splits)
  have "unpack_be32 (pack_be32 (length b)) = length b"
    by (rule unpack_pack_be32 [OF MAX_FRAME_BYTES_less [OF b]])
  with b show ?thesis
    by (simp add: whole_frame_def HEADER_SIZE_def f)
qed

lemma decode_whole_frame: "decode_message unpackb f = Inr m \<Longrightarrow> whole_frame f"
  by (auto simp: whole_frame_def elim!: decode_message_Inr)

lemma read_loop_frame:
  assumes "whole_frame f"
  shows "read_loop unpackb on_event ctx prev stopped s (f @ rest) =
    (case context_decode unpackb ctx f of
       Inl e \<Rightarrow> (s, Inl e)
     | Inr (ctx', event) \<Rightarrow>
         if hd_sequence (header_of event) \<le> prev
         then (s, Inl (ValueError ''OUT_OF_ORDER_SEQUENCE''))
         else case on_event s event of
           (s', Inl e) \<Rightarrow> (s', Inl e)
         | (s', Inr _) \<Rightarrow>
             read_loop unpackb on_event ctx' (hd_sequence (header_of event))
               (next_stopped stopped event) s' rest)"
proof -
  define stdout where "stdout = f @ rest"
  define n where "n = unpack_be32 (take HEADER_SIZE stdout)"
  have "n = unpack_be32 (take HEADER_SIZE f)"
    using assms by (simp add: n_def stdout_def whole_frame_def)
  with assms have facts: "take (HEADER_SIZE + n) stdout = f" "drop (HEADER_SIZE + n) stdout = rest"
    "\<not> length stdout < HEADER_SIZE" "\<not> length (drop HEADER_SIZE stdout) < n"
    "\<not> MAX_FRAME_BYTES < n"
    by (simp_all add: whole_frame_def stdout_def)
  show ?thesis
    unfolding stdout_def [symmetric] read_loop.simps [of _ _ _ _ _ _ stdout] Let_def
      n_def [symmetric] facts next_stopped_def [symmetric]
    by (simp only: facts if_False)
qed

lemma read_loop_Nil: "read_loop unpackb on_event ctx prev stopped s [] = (s, Inr stopped)"
  by (subst read_loop.simps) (simp add: HEADER_SIZE_def)

text \<open>Every input is empty, ends the loop with an error, or begins with a whole frame.\<close>

lemma stdout_cases:
  obtains (empty) "stdout = []"
  | (cut) e where "stdout \<noteq> []" and
      "\<And>(on_event :: 's \<Rightarrow> _) ctx prev stopped s.
         read_loop unpackb on_event ctx prev stopped s stdout = (s, Inl e)"
  | (frame) f rest where "stdout = f @ rest" and "whole_frame f"
proof -
  let ?n = "unpack_be32 (take HEADER_SIZE stdout)"
  consider "stdout = []" | "stdout \<noteq> []" "length stdout < HEADER_SIZE"
    | "\<not> length stdout < HEADER_SIZE" "?n > MAX_FRAME_BYTES"
    | "\<not> length stdout < HEADER_SIZE" "?n \<le> MAX_FRAME_BYTES" "length stdout < HEADER_SIZE + ?n"
    | "?n \<le> MAX_FRAME_BYTES" "HEADER_SIZE + ?n \<le> length stdout"
    by linarith
  then show thesis
  proof cases
    case 1
    then show thesis by (rule empty)
  next
    case 2
    then show thesis
      by (intro cut [of "ValueError ''TRUNCATED_FRAME''"]) (simp_all add: read_loop.simps)
  next
    case 3
    then show thesis
      by (intro cut [of "ValueError ''FRAME_TOO_LARGE''"])
         (auto simp: read_loop.simps Let_def HEADER_SIZE_def)
  next
    case 4
    then have "length (drop HEADER_SIZE stdout) < ?n" by simp
    with 4 show thesis
      by (intro cut [of "ValueError ''TRUNCATED_FRAME''"])
         (auto simp: read_loop.simps Let_def HEADER_SIZE_def)
  next
    case 5
    then have "whole_frame (take (HEADER_SIZE + ?n) stdout)"
      by (simp add: whole_frame_def min_def)
    then show thesis
      by (rule frame [OF append_take_drop_id [symmetric]])
  qed
qed

section \<open>A stream of encoded events\<close>

text \<open>What the stream round trip needs of one message: it is well formed and survives MessagePack.\<close>

definition sendable ::
  "(pyval \<Rightarrow> bytes) \<Rightarrow> (bytes \<Rightarrow> pyval option) \<Rightarrow> live_message \<Rightarrow> bool" where
  "sendable packb unpackb m =
     (wf_message m \<and> unpackb (packb (PDict (payload m))) = Some (PDict (payload m)))"

definition newer :: "decode_context \<Rightarrow> live_message \<Rightarrow> bool" where
  "newer ctx m =
     (case revision_of m of None \<Rightarrow> True | Some (t, r) \<Rightarrow> previous_revision ctx t < r)"

lemma newer_kept:
  assumes "accept_message ctx m = Inr (ctx', m)" and "admits m x" and "newer ctx x"
  shows "newer ctx' x"
  using assms
  by (cases "revision_of m"; cases "revision_of x")
     (auto simp: accept_message_Inr newer_def admits_def previous_revision_def)

lemma newer_accept:
  assumes "newer ctx m" and "same_run ctx (header_of m)"
  obtains ctx' where "accept_message ctx m = Inr (ctx', m)"
    and "\<And>x. admits m x \<Longrightarrow> newer ctx x \<Longrightarrow> newer ctx' x"
proof -
  obtain ctx' where "accept_message ctx m = Inr (ctx', m)"
    using assms by (cases "revision_of m") (auto simp: accept_message_Inr newer_def)
  with newer_kept that show thesis by blast
qed

lemma read_loop_stream:
  assumes "mapM (encode_message packb) ms = Inr fs"
    and "list_all (sendable packb unpackb) ms"
    and "list_all (\<lambda>m. same_run ctx (header_of m) \<and> prev < hd_sequence (header_of m) \<and> newer ctx m) ms"
    and "sorted_wrt admits ms"
  shows "read_loop unpackb (\<lambda>s m. (g s m, Inr ())) ctx prev stopped s (concat fs) =
           (foldl g s ms, Inr (foldl next_stopped stopped ms))"
  using assms
proof (induction ms arbitrary: fs ctx prev stopped s)
  case Nil
  then show ?case by (simp add: read_loop_Nil)
next
  case (Cons m ms)
  from Cons.prems(1) obtain f fs' where f: "encode_message packb m = Inr f"
    and fs': "mapM (encode_message packb) ms = Inr fs'" and fs: "fs = f # fs'"
    by (auto simp: rbind_Inr_iff)
  from Cons.prems(2) f have dec: "decode_message unpackb f = Inr m"
    by (auto simp: sendable_def intro: decode_encode)
  from Cons.prems(3) obtain ctx' where acc: "accept_message ctx m = Inr (ctx', m)"
    and keep: "\<And>x. admits m x \<Longrightarrow> newer ctx x \<Longrightarrow> newer ctx' x"
    by (auto elim: newer_accept)
  have "list_all (\<lambda>x. same_run ctx' (header_of x) \<and> hd_sequence (header_of m) < hd_sequence (header_of x)
      \<and> newer ctx' x) ms"
    using Cons.prems(3,4) same_run_accept [OF acc] keep
    by (auto simp: list_all_iff) (auto simp: admits_def)
  with Cons.prems(2,4) have "read_loop unpackb (\<lambda>s m. (g s m, Inr ())) ctx' (hd_sequence (header_of m))
      (next_stopped stopped m) (g s m) (concat fs') =
        (foldl g (g s m) ms, Inr (foldl next_stopped (next_stopped stopped m) ms))"
    by (intro Cons.IH [OF fs']) simp_all
  moreover have "context_decode unpackb ctx f = Inr (ctx', m)"
    by (simp add: context_decode_def dec acc)
  ultimately show ?case
    using Cons.prems(3) by (simp add: fs read_loop_frame [OF encode_whole_frame [OF f]])
qed

section \<open>What reaches the handler\<close>

text \<open>A handler that also records, in order, every event it is called with.\<close>

definition logged ::
  "('s \<Rightarrow> live_message \<Rightarrow> 's \<times> unit result) \<Rightarrow>
   's \<times> live_message list \<Rightarrow> live_message \<Rightarrow> ('s \<times> live_message list) \<times> unit result" where
  "logged on_event sl m =
     (case on_event (fst sl) m of (s', r) \<Rightarrow> ((s', snd sl @ [m]), r))"

definition log_ok :: "decode_context \<Rightarrow> int \<Rightarrow> live_message list \<Rightarrow> bool" where
  "log_ok ctx prev l =
     (sorted_wrt admits l \<and>
      list_all (\<lambda>m. wf_message m \<and> same_run ctx (header_of m) \<and> revision_le ctx m \<and>
        hd_sequence (header_of m) \<le> prev) l)"

lemma log_ok_step:
  assumes "log_ok ctx prev l" and "accept_message ctx m = Inr (ctx', m)" and "wf_message m"
    and "prev < hd_sequence (header_of m)"
  shows "log_ok ctx' (hd_sequence (header_of m)) (l @ [m])"
proof -
  have "admits x m" if "x \<in> set l" for x
    using revision_le_accept(3) [OF assms(2)] assms(1,4) that
    by (fastforce simp: log_ok_def list_all_iff)
  then show ?thesis
    using assms revision_le_accept(1,2) [OF assms(2)]
    by (force simp: log_ok_def sorted_wrt_append list_all_iff same_run_accept accept_message_Inr)
qed

definition consumed :: "(bytes \<Rightarrow> pyval option) \<Rightarrow> bytes \<Rightarrow> live_message list \<Rightarrow> bool" where
  "consumed unpackb stdout ms =
     (\<exists>fs. stdout = concat fs \<and> list_all2 (\<lambda>f m. decode_message unpackb f = Inr m) fs ms)"

lemma consumed_Cons:
  assumes "decode_message unpackb f = Inr m" and "consumed unpackb rest ms"
  shows "consumed unpackb (f @ rest) (m # ms)"
proof -
  from assms(2) obtain fs where "rest = concat fs"
    and "list_all2 (\<lambda>f m. decode_message unpackb f = Inr m) fs ms"
    by (auto simp: consumed_def)
  with assms(1) show ?thesis
    unfolding consumed_def by (intro exI [of _ "f # fs"]) simp
qed

text \<open>The three ways a frame ends: refused, refused by the handler, or handled.\<close>

lemma read_frame_cases:
  assumes "whole_frame f"
    and "read_loop unpackb on_event ctx prev stopped s (f @ rest) = (s', r)"
  obtains (refused) e where "s' = s" and "r = Inl e"
  | (handled) ctx' m s1 r1 where "decode_message unpackb f = Inr m" and "wf_message m"
      and "accept_message ctx m = Inr (ctx', m)" and "prev < hd_sequence (header_of m)"
      and "on_event s m = (s1, r1)"
      and "(s', r) = (case r1 of Inl e \<Rightarrow> (s1, Inl e)
             | Inr _ \<Rightarrow> read_loop unpackb on_event ctx' (hd_sequence (header_of m))
                 (next_stopped stopped m) s1 rest)"
proof (cases "context_decode unpackb ctx f")
  case (Inl e)
  with assms refused [of e] show thesis by (simp add: read_loop_frame)
next
  case (Inr p)
  then obtain ctx' m where dec: "decode_message unpackb f = Inr m"
    and acc: "accept_message ctx m = Inr (ctx', m)" and p: "p = (ctx', m)"
    by (cases p) (auto simp: context_decode_def rbind_Inr_iff accept_message_Inr)
  from dec have wf: "wf_message m" by (auto elim: decode_message_Inr dest: payloads.dec_ok)
  obtain s1 r1 where h: "on_event s m = (s1, r1)" by fastforce
  show thesis
  proof (cases "hd_sequence (header_of m) \<le> prev")
    case True
    with assms Inr p refused [of "ValueError ''OUT_OF_ORDER_SEQUENCE''"] show thesis
      by (simp add: read_loop_frame)
  next
    case False
    with assms Inr p h show thesis
      by (intro handled [OF dec wf acc _ h]) (auto simp: read_loop_frame split: sum.splits)
  qed
qed

lemma read_loop_log:
  assumes "log_ok ctx prev l"
    and "read_loop unpackb (logged on_event) ctx prev stopped (s, l) stdout = ((s', l'), r)"
  shows "\<exists>new ctx' prev'. l' = l @ new \<and> log_ok ctx' prev' l' \<and> same_run ctx' = same_run ctx \<and>
           (is_ok r \<longrightarrow> consumed unpackb stdout new)"
  using assms
proof (induction "length stdout" arbitrary: stdout ctx prev stopped s l rule: less_induct)
  case less
  show ?case
  proof (cases rule: stdout_cases [where stdout = stdout and unpackb = unpackb
                                   and 's = "'a \<times> live_message list"])
    case empty
    with less.prems show ?thesis by (auto simp: read_loop_Nil consumed_def intro: exI [of _ "[]"])
  next
    case (cut e)
    with less.prems show ?thesis by (auto simp: is_ok_def)
  next
    case (frame f rest)
    from frame(2) less.prems(2) [unfolded frame(1)] show ?thesis
    proof (cases rule: read_frame_cases)
      case (refused e)
      with less.prems(1) show ?thesis by (auto simp: is_ok_def)
    next
      case (handled ctx' m sl r1)
      have ok: "log_ok ctx' (hd_sequence (header_of m)) (l @ [m])"
        using less.prems(1) handled by (intro log_ok_step)
      note same = same_run_accept [OF handled(3)]
      obtain s1 where sl: "sl = (s1, l @ [m])"
        using handled(5) by (auto simp: logged_def split: prod.splits)
      show ?thesis
      proof (cases r1)
        case (Inl e)
        with handled(6) sl ok same show ?thesis
          by (intro exI [of _ "[m]"] exI [of _ ctx'] exI [of _ "hd_sequence (header_of m)"])
             (simp add: is_ok_def)
      next
        case (Inr u)
        have "length rest < length stdout"
          using frame by (auto simp: whole_frame_def HEADER_SIZE_def)
        from less.hyps [OF this ok] handled(6) Inr sl obtain new c2 p2 where
          "l' = (l @ [m]) @ new" "log_ok c2 p2 l'" "same_run c2 = same_run ctx'"
          "is_ok r \<longrightarrow> consumed unpackb rest new"
          by (metis sum.case(2))
        then show ?thesis
          using consumed_Cons [OF handled(1)] frame(1) same
          by (intro exI [of _ "m # new"] exI [of _ c2] exI [of _ p2]) auto
      qed
    qed
  qed
qed

section \<open>Properties\<close>

lemma log_ok_Nil [simp]: "log_ok ctx prev []"
  by (simp add: log_ok_def)

lemma read_events_log:
  assumes "wf_header h"
    and "read_events unpackb (logged on_event) h (s, []) stdout = ((s', l), r)"
  obtains ctx prev where "log_ok ctx prev l" and "same_run ctx h"
    and "is_ok r \<Longrightarrow> consumed unpackb stdout l"
proof -
  from assms(1) obtain ctx where init: "decode_context_init (hd_session_id h) (hd_camera_id h)
      (hd_run_id h) (hd_generation h) (hd_runtime_attempt h) = Inr ctx" and run: "same_run ctx h"
    by (rule decode_context_init_wf)
  with assms(2) have "read_loop unpackb (logged on_event) ctx (-1) None (s, []) stdout = ((s', l), r)"
    by (simp add: read_events_def)
  from read_loop_log [OF log_ok_Nil this] run that show thesis by auto
qed

text \<open>
  C23. Whatever bytes the worker writes and however the handler behaves, the handler only ever
  sees well-formed events that carry the start command's session, camera, run, generation and
  attempt; their sequence numbers strictly increase, and so do the revisions of the assignments
  to one tracker. When the loop returns normally, the events are the decoding of all the bytes.
\<close>

theorem read_events_delivers:
  assumes "wf_header h"
    and "read_events unpackb (logged on_event) h (s, []) stdout = ((s', events), r)"
  shows "sorted_wrt admits events
    \<and> list_all (\<lambda>m. wf_message m
        \<and> hd_session_id (header_of m) = hd_session_id h
        \<and> hd_camera_id (header_of m) = hd_camera_id h
        \<and> hd_run_id (header_of m) = hd_run_id h
        \<and> hd_generation (header_of m) = hd_generation h
        \<and> hd_runtime_attempt (header_of m) = hd_runtime_attempt h) events
    \<and> (is_ok r \<longrightarrow> (\<exists>frames. stdout = concat frames \<and>
          list_all2 (\<lambda>f m. decode_message unpackb f = Inr m) frames events))"
proof -
  from assms obtain ctx prev where "log_ok ctx prev events" "same_run ctx h"
    and "is_ok r \<longrightarrow> consumed unpackb stdout events"
    by (rule read_events_log) blast
  then show ?thesis by (auto simp: log_ok_def list_all_iff same_run_def consumed_def)
qed

definition sample_unpack :: "bytes \<Rightarrow> pyval option" where
  "sample_unpack b =
     (if b = [7] then Some (PDict (payload (sample_stop 3)))
      else if b = [8] then Some (PDict (payload (sample_stop 4))) else None)"

definition sample_pack :: "pyval \<Rightarrow> bytes" where
  "sample_pack v = (if v = PDict (payload (sample_stop 3)) then [7] else [8])"

lemma sample_payload_inj: "payload (sample_stop 3) \<noteq> payload (sample_stop 4)"
  using payloads.enc_inj [of "sample_stop 3" "sample_stop 4"]
  by (auto simp: sample_stop_wf) (simp add: sample_stop_def sample_header_def)

lemma sample_codec:
  "sample_unpack (sample_pack (PDict (payload (sample_stop 3)))) = Some (PDict (payload (sample_stop 3)))"
  "sample_unpack (sample_pack (PDict (payload (sample_stop 4)))) = Some (PDict (payload (sample_stop 4)))"
  using sample_payload_inj by (simp_all add: sample_unpack_def sample_pack_def)

lemma sample_frames:
  "encode_message sample_pack (sample_stop 3) = Inr [0, 0, 0, 1, 7]"
  "encode_message sample_pack (sample_stop 4) = Inr [0, 0, 0, 1, 8]"
  using sample_payload_inj
  by (simp_all add: encode_message_def sample_pack_def MAX_FRAME_BYTES_def pack_be32_def)

lemma sample_stop_run:
  "same_run ctx (sample_header mt 0) \<Longrightarrow> same_run ctx (header_of (sample_stop n))"
  by (simp add: same_run_def sample_stop_def sample_header_def)

text \<open>
  The stream round trip: when the worker writes the encodings of well-formed events of this
  run, in the order the protocol admits, the loop calls the handler with exactly these events in
  this order and returns the last stopped event.
\<close>

theorem read_events_stream:
  assumes "wf_header h"
    and "mapM (encode_message packb) events = Inr frames"
    and "list_all (sendable packb unpackb) events"
    and "list_all (\<lambda>m. hd_session_id (header_of m) = hd_session_id h
        \<and> hd_camera_id (header_of m) = hd_camera_id h
        \<and> hd_run_id (header_of m) = hd_run_id h
        \<and> hd_generation (header_of m) = hd_generation h
        \<and> hd_runtime_attempt (header_of m) = hd_runtime_attempt h) events"
    and "sorted_wrt admits events"
  shows "read_events unpackb (\<lambda>s m. (g s m, Inr ())) h s (concat frames) =
           (foldl g s events, Inr (foldl next_stopped None events))"
proof -
  from assms(1) obtain ctx where init: "decode_context_init (hd_session_id h) (hd_camera_id h)
      (hd_run_id h) (hd_generation h) (hd_runtime_attempt h) = Inr ctx" and run: "same_run ctx h"
      and empty: "assignment_revisions ctx = Map.empty"
    by (rule decode_context_init_wf)
  have "newer ctx m" if "wf_message m" for m
    using that
    by (cases m) (auto simp: newer_def previous_revision_def empty wf_message_def wf_assignment_def)
  moreover have "-1 < hd_sequence (header_of m)" if "wf_message m" for m
    using that by (auto simp: wf_message_def wf_header_def)
  ultimately have "list_all (\<lambda>m. same_run ctx (header_of m) \<and> -1 < hd_sequence (header_of m)
      \<and> newer ctx m) events"
    using assms(3,4) run by (auto simp: list_all_iff sendable_def same_run_def)
  with init show ?thesis
    by (simp add: read_events_def read_loop_stream [OF assms(2,3) _ assms(5)])
qed

theorem read_events_stream_witness:
  "read_events sample_unpack (\<lambda>s m. (s + hd_sequence (header_of m), Inr ())) (sample_header ''start'' 0) 0
     (concat [[0, 0, 0, 1, 7], [0, 0, 0, 1, 8]]) =
   (foldl (\<lambda>s m. s + hd_sequence (header_of m)) 0 [sample_stop 3, sample_stop 4],
    Inr (foldl next_stopped None [sample_stop 3, sample_stop 4]))"
proof (rule read_events_stream [where packb = sample_pack])
  show "mapM (encode_message sample_pack) [sample_stop 3, sample_stop 4] =
      Inr [[0, 0, 0, 1, 7], [0, 0, 0, 1, 8]]"
    by (simp add: sample_frames)
  show "list_all (sendable sample_pack sample_unpack) [sample_stop 3, sample_stop 4]"
    by (simp add: sendable_def sample_codec sample_stop_wf)
qed (simp_all add: sample_header_wf sample_stop_def admits_def,
     simp_all add: sample_header_def)

lemma sample_read:
  "read_events sample_unpack (logged (\<lambda>s m. (s, Inr ()))) (sample_header ''start'' 0)
      ((), []) [0, 0, 0, 1, 7] = (((), [sample_stop 3]), Inr None)"
proof -
  have "wf_header (sample_header ''start'' 0)" by (simp add: sample_header_wf)
  then obtain ctx where init: "decode_context_init (hd_session_id (sample_header ''start'' 0))
      (hd_camera_id (sample_header ''start'' 0)) (hd_run_id (sample_header ''start'' 0))
      (hd_generation (sample_header ''start'' 0)) (hd_runtime_attempt (sample_header ''start'' 0)) = Inr ctx"
      and run: "same_run ctx (sample_header ''start'' 0)"
    by (rule decode_context_init_wf)
  have "decode_message sample_unpack [0, 0, 0, 1, 7] = Inr (sample_stop 3)"
    by (rule decode_encode [where packb = sample_pack])
       (simp_all add: sample_stop_wf sample_codec sample_frames)
  moreover have "whole_frame [0, 0, 0, 1, 7]" by (rule encode_whole_frame [OF sample_frames(1)])
  moreover have "accept_message ctx (sample_stop 3) = Inr (ctx, sample_stop 3)"
    using sample_stop_run [OF run] by (simp add: accept_message_Inr) (simp add: sample_stop_def)
  ultimately have "read_loop sample_unpack (logged (\<lambda>s m. (s, Inr ()))) ctx (-1) None ((), [])
      ([0, 0, 0, 1, 7] @ []) = (((), [sample_stop 3]), Inr None)"
    by (simp only: read_loop_frame context_decode_def rbind.simps sum.case prod.case)
       (simp add: logged_def read_loop_Nil sample_stop_def sample_header_def next_stopped_def)
  with init show ?thesis by (simp add: read_events_def)
qed

theorem read_events_delivers_witness:
  "sorted_wrt admits [sample_stop 3] \<and> list_all wf_message [sample_stop 3]
    \<and> (\<exists>frames. [0, 0, 0, 1, 7] = concat frames \<and>
          list_all2 (\<lambda>f m. decode_message sample_unpack f = Inr m) frames [sample_stop 3])"
proof -
  have "wf_header (sample_header ''start'' 0)" by (simp add: sample_header_wf)
  from read_events_delivers [OF this sample_read] show ?thesis
    by (simp add: is_ok_def)
qed

end
