(* ===== verification/Processes.thy ===== *)
theory Processes
  imports Py_Values Leases
begin

text \<open>
  The process records of \<open>src/backend/app/infrastructure/database/models.py\<close> and the repository
  that creates and settles them
  (\<open>src/backend/app/infrastructure/database/repositories/process_repository.py\<close>). The server's
  \<open>now()\<close> is a parameter.
\<close>

record process_record =
  pr_process_id :: string
  pr_process_type :: string
  pr_status :: string
  pr_face_count :: int
  pr_error_code :: "string option"
  pr_details :: pydict
  pr_created_at :: time
  pr_completed_at :: "time option"

definition PROCESS_TYPES :: "string list" where
  "PROCESS_TYPES = [''recognize'', ''enroll'', ''update'', ''delete'', ''video_recognize'']"

definition PROCESS_STATUSES :: "string list" where
  "PROCESS_STATUSES = [''started'', ''completed'', ''failed'', ''cancelled'']"

text \<open>The table's check constraints, and the settled shape the repository maintains.\<close>

definition process_ok :: "process_record \<Rightarrow> bool" where
  "process_ok p =
     (pr_process_type p \<in> set PROCESS_TYPES \<and> pr_status p \<in> set PROCESS_STATUSES \<and>
      (pr_status p \<noteq> ''started'' \<longrightarrow> pr_completed_at p \<noteq> None))"

type_synonym processes = "process_record list"

definition process_create ::
  "string \<Rightarrow> string \<Rightarrow> string \<Rightarrow> int \<Rightarrow> string option \<Rightarrow> pydict \<Rightarrow> time \<Rightarrow> processes \<Rightarrow>
   processes result"
where
  "process_create pid ptype status n code details now ps =
     (if pid \<in> pr_process_id ` set ps \<or> ptype \<notin> set PROCESS_TYPES
         \<or> status \<notin> set PROCESS_STATUSES
      then Inl (OtherError ''IntegrityError'')
      else Inr (ps @ [\<lparr>pr_process_id = pid, pr_process_type = ptype, pr_status = status,
                      pr_face_count = n, pr_error_code = code, pr_details = details,
                      pr_created_at = now, pr_completed_at = None\<rparr>]))"

definition process_complete :: "string \<Rightarrow> int \<Rightarrow> pydict \<Rightarrow> time \<Rightarrow> processes \<Rightarrow> processes" where
  "process_complete pid n details now =
     row_update pr_process_id pid
       (\<lambda>p. p\<lparr>pr_status := ''completed'', pr_face_count := n, pr_details := details,
              pr_completed_at := Some now\<rparr>)"

definition process_fail :: "string \<Rightarrow> string \<Rightarrow> time \<Rightarrow> processes \<Rightarrow> processes" where
  "process_fail pid code now =
     row_update pr_process_id pid
       (\<lambda>p. p\<lparr>pr_status := ''failed'', pr_error_code := Some code, pr_completed_at := Some now\<rparr>)"

definition process_cancel :: "string \<Rightarrow> time \<Rightarrow> processes \<Rightarrow> processes" where
  "process_cancel pid now =
     row_update pr_process_id pid
       (\<lambda>p. p\<lparr>pr_status := ''cancelled'', pr_completed_at := Some now\<rparr>)"

lemma process_ops_ok:
  assumes "list_all process_ok ps"
  shows "list_all process_ok (process_complete pid n d now ps)"
    and "list_all process_ok (process_fail pid code now ps)"
    and "list_all process_ok (process_cancel pid now ps)"
    and "process_create pid ptype ''started'' m c d now ps = Inr ps' \<Longrightarrow> list_all process_ok ps'"
  using assms
  by (auto simp: list_all_iff process_complete_def process_fail_def process_cancel_def
        process_create_def set_row_update process_ok_def PROCESS_STATUSES_def split: if_splits)

lemma process_get:
  "row_get pr_process_id k (process_complete pid n d now ps) =
     (if k = pid then map_option (\<lambda>p. p\<lparr>pr_status := ''completed'', pr_face_count := n,
        pr_details := d, pr_completed_at := Some now\<rparr>) (row_get pr_process_id k ps)
      else row_get pr_process_id k ps)"
  "row_get pr_process_id k (process_fail pid code now ps) =
     (if k = pid then map_option (\<lambda>p. p\<lparr>pr_status := ''failed'', pr_error_code := Some code,
        pr_completed_at := Some now\<rparr>) (row_get pr_process_id k ps)
      else row_get pr_process_id k ps)"
  "row_get pr_process_id k (process_cancel pid now ps) =
     (if k = pid then map_option (\<lambda>p. p\<lparr>pr_status := ''cancelled'',
        pr_completed_at := Some now\<rparr>) (row_get pr_process_id k ps)
      else row_get pr_process_id k ps)"
  by (auto simp: process_complete_def process_fail_def process_cancel_def
        row_get_update_same row_get_update_other)

end
