(* ===== verification/Live_Runs.thy ===== *)
theory Live_Runs
  imports Processes "HOL-Library.Product_Lexorder" "HOL-Library.List_Lexorder" "HOL-Library.Char_ord"
begin

text \<open>
  Cameras and their runs: the \<open>live_camera\<close> and \<open>live_camera_run\<close> tables of
  \<open>src/backend/app/infrastructure/database/models.py\<close> with their constraints and partial unique
  indexes, \<open>LiveCameraRepository\<close> and \<open>LiveRunRepository\<close>. New ids, the generated trace context and
  the server's clock are parameters; a violated constraint is an IntegrityError and leaves the
  table as it was.
\<close>

section \<open>Cameras\<close>

record live_camera =
  camera_id :: string
  camera_name :: string
  uri_ciphertext :: string
  uri_fingerprint :: string
  desired_state :: string
  desired_traceparent :: "string option"
  desired_tracestate :: "string option"
  is_active :: bool
  camera_created_at :: time
  camera_updated_at :: time
  deleted_at :: "time option"

type_synonym cameras = "live_camera list"

text \<open>The check constraint, the primary key and the three partial unique indexes.\<close>

definition cameras_ok :: "cameras \<Rightarrow> bool" where
  "cameras_ok cs =
     (let kept = filter (\<lambda>c. deleted_at c = None) cs
      in distinct (map camera_id cs) \<and>
         list_all (\<lambda>c. desired_state c \<in> {''stopped'', ''running''}) cs \<and>
         distinct (map camera_name kept) \<and> distinct (map uri_fingerprint kept) \<and>
         length (filter (\<lambda>c. desired_state c = ''running'') kept) \<le> 1)"

definition camera_create ::
  "string \<Rightarrow> string \<Rightarrow> string \<Rightarrow> string \<Rightarrow> time \<Rightarrow> cameras \<Rightarrow> cameras result" where
  "camera_create cid name ciphertext fingerprint now cs =
     checked cameras_ok (cs @
       [\<lparr>camera_id = cid, camera_name = name, uri_ciphertext = ciphertext,
         uri_fingerprint = fingerprint, desired_state = ''stopped'', desired_traceparent = None,
         desired_tracestate = None, is_active = True, camera_created_at = now,
         camera_updated_at = now, deleted_at = None\<rparr>])"

definition camera_get :: "string \<Rightarrow> cameras \<Rightarrow> live_camera option" where
  "camera_get cid cs =
     find (\<lambda>c. camera_id c = cid \<and> is_active c \<and> deleted_at c = None) cs"

definition list_active :: "cameras \<Rightarrow> live_camera list" where
  "list_active cs =
     sort_key (\<lambda>c. (camera_created_at c, camera_id c))
       (filter (\<lambda>c. is_active c \<and> deleted_at c = None) cs)"

text \<open>An unchanged row is not written, so its \<open>updated_at\<close> stays.\<close>

definition touch :: "time \<Rightarrow> (live_camera \<Rightarrow> live_camera) \<Rightarrow> live_camera \<Rightarrow> live_camera" where
  "touch now f c = (if f c = c then c else (f c)\<lparr>camera_updated_at := now\<rparr>)"

definition set_desired ::
  "string \<Rightarrow> string \<Rightarrow> string option \<Rightarrow> string option \<Rightarrow> time \<Rightarrow> cameras \<Rightarrow>
   (cameras \<times> bool) result"
where
  "set_desired cid state traceparent tracestate now cs =
     (if state \<notin> {''stopped'', ''running''} then Inl (ValueError ''INVALID_LIVE_DESIRED_STATE'')
      else case camera_get cid cs of
        None \<Rightarrow> Inr (cs, False)
      | Some _ \<Rightarrow>
          rbind (checked cameras_ok (row_update camera_id cid
            (touch now (\<lambda>c. c\<lparr>desired_state := state,
               desired_traceparent := (if state = ''running'' then traceparent else None),
               desired_tracestate := (if state = ''running'' then tracestate else None)\<rparr>)) cs))
            (\<lambda>cs'. Inr (cs', True)))"

definition delete_row :: "time \<Rightarrow> live_camera \<Rightarrow> live_camera" where
  "delete_row deletion c =
     c\<lparr>desired_state := ''stopped'', desired_traceparent := None, desired_tracestate := None,
       is_active := False, deleted_at := Some deletion\<rparr>"

definition soft_delete :: "string \<Rightarrow> time \<Rightarrow> time \<Rightarrow> cameras \<Rightarrow> (cameras \<times> bool) result" where
  "soft_delete cid deletion now cs =
     (case camera_get cid cs of
        None \<Rightarrow> Inr (cs, False)
      | Some _ \<Rightarrow>
          rbind (checked cameras_ok (row_update camera_id cid (touch now (delete_row deletion)) cs))
            (\<lambda>cs'. Inr (cs', True)))"

section \<open>Runs\<close>

record live_camera_run =
  run_id :: string
  run_camera_id :: string
  run_generation :: int
  run_state :: string
  run_worker_id :: "string option"
  run_lease_token :: "string option"
  run_lease_expires_at :: "time option"
  run_started_at :: time
  run_traceparent :: string
  run_tracestate :: "string option"
  first_frame_at :: "time option"
  last_frame_at :: "time option"
  run_stopped_at :: "time option"
  reconnect_count :: int
  output_path :: "string option"
  run_error_code :: "string option"
  sanitized_error :: "string option"
  run_metrics :: pydict

type_synonym runs = "live_camera_run list"

definition RUN_STATES :: "string list" where
  "RUN_STATES =
     [''STARTING'', ''ACTIVE'', ''RECONNECTING'', ''STOPPING'', ''STOPPED'', ''FAILED'']"

definition TERMINAL_STATES :: "string list" where
  "TERMINAL_STATES = [''STOPPED'', ''FAILED'']"

definition run_constraints :: "live_camera_run \<Rightarrow> bool" where
  "run_constraints r =
     (0 < run_generation r \<and> 0 \<le> reconnect_count r \<and> run_state r \<in> set RUN_STATES)"

definition finished :: "live_camera_run \<Rightarrow> bool" where
  "finished r = (run_state r \<in> set TERMINAL_STATES)"

definition latest_for_camera :: "string \<Rightarrow> runs \<Rightarrow> live_camera_run option" where
  "latest_for_camera cid rs = latest_row run_camera_id run_generation cid rs"

definition wanted_camera ::
  "(string \<Rightarrow> bool) \<Rightarrow> string option \<Rightarrow> cameras \<Rightarrow> live_camera option" where
  "wanted_camera locked cid cs =
     select_first
       (\<lambda>c. desired_state c = ''running'' \<and> is_active c \<and> deleted_at c = None
          \<and> (case cid of None \<Rightarrow> True | Some i \<Rightarrow> camera_id c = i) \<and> \<not> locked (camera_id c))
       (\<lambda>c. (camera_updated_at c, camera_id c)) cs"

definition expire_run :: "time \<Rightarrow> live_camera_run \<Rightarrow> live_camera_run" where
  "expire_run now r =
     r\<lparr>run_state := ''FAILED'', run_stopped_at := Some now,
       run_error_code := Some ''LIVE_WORKER_LEASE_EXPIRED'', run_worker_id := None,
       run_lease_token := None, run_lease_expires_at := None\<rparr>"

definition new_run ::
  "string \<Rightarrow> live_camera \<Rightarrow> int \<Rightarrow> string \<Rightarrow> string \<Rightarrow> time \<Rightarrow> int \<Rightarrow> string \<Rightarrow> live_camera_run" where
  "new_run rid c gen wid token now lease_seconds fresh =
     \<lparr>run_id = rid, run_camera_id = camera_id c, run_generation = gen, run_state = ''STARTING'',
      run_worker_id = Some wid, run_lease_token = Some token,
      run_lease_expires_at = Some (now + seconds lease_seconds), run_started_at = now,
      run_traceparent = (case desired_traceparent c of
          Some tp \<Rightarrow> if tp = '''' then fresh else tp | None \<Rightarrow> fresh),
      run_tracestate = desired_tracestate c, first_frame_at = None, last_frame_at = None,
      run_stopped_at = None, reconnect_count = 0, output_path = None, run_error_code = None,
      sanitized_error = None, run_metrics = []\<rparr>"

record run_claim =
  cl_camera :: "string option"
  cl_run_id :: string
  cl_worker :: string
  cl_token :: string
  cl_now :: time
  cl_lease_seconds :: int
  cl_traceparent :: string

definition insert_run ::
  "live_camera_run \<Rightarrow> runs \<Rightarrow> (runs \<times> live_camera_run option) result" where
  "insert_run run rs =
     (if run_id run \<in> run_id ` set rs
         \<or> (run_camera_id run, run_generation run) \<in> (\<lambda>r. (run_camera_id r, run_generation r)) ` set rs
         \<or> \<not> run_constraints run
      then Inl (OtherError ''IntegrityError'') else Inr (rs @ [run], Some run))"

definition claim_run ::
  "(string \<Rightarrow> bool) \<Rightarrow> cameras \<Rightarrow> run_claim \<Rightarrow> runs \<Rightarrow> (runs \<times> live_camera_run option) result" where
  "claim_run locked cs a rs =
     (case wanted_camera locked (cl_camera a) cs of
        None \<Rightarrow> Inr (rs, None)
      | Some c \<Rightarrow>
          let run = (\<lambda>gen. new_run (cl_run_id a) c gen (cl_worker a) (cl_token a) (cl_now a)
                       (cl_lease_seconds a) (cl_traceparent a))
          in case latest_for_camera (camera_id c) rs of
               None \<Rightarrow> insert_run (run 1) rs
             | Some l \<Rightarrow>
                 if \<not> finished l then
                   if sql_greater (run_lease_expires_at l) (cl_now a) then Inr (rs, None)
                   else insert_run (run (run_generation l + 1))
                          (row_update run_id (run_id l) (expire_run (cl_now a)) rs)
                 else insert_run (run (run_generation l + 1)) rs)"

definition fenced_update ::
  "string \<Rightarrow> string \<times> string \<Rightarrow> time \<Rightarrow> (live_camera_run \<Rightarrow> live_camera_run) \<Rightarrow> runs \<Rightarrow>
   (runs \<times> bool) result"
where
  "fenced_update rid h now f rs =
     (case row_get run_id rid rs of
        None \<Rightarrow> Inr (rs, False)
      | Some r \<Rightarrow>
          if run_worker_id r = Some (fst h) \<and> run_lease_token r = Some (snd h)
             \<and> sql_greater (run_lease_expires_at r) now
          then if run_constraints (f r) then Inr (row_update run_id rid f rs, True)
               else Inl (OtherError ''IntegrityError'')
          else Inr (rs, False))"

definition renew :: "string \<Rightarrow> string \<times> string \<Rightarrow> time \<Rightarrow> time \<Rightarrow> runs \<Rightarrow> (runs \<times> bool) result" where
  "renew rid h now expires_at =
     fenced_update rid h now (\<lambda>r. r\<lparr>run_lease_expires_at := Some expires_at\<rparr>)"

record state_update =
  su_runtime_state :: string
  su_first_frame_at :: "time option"
  su_last_frame_at :: "time option"
  su_reconnect_count :: "int option"
  su_output_path :: "string option"
  su_error_code :: "string option"
  su_sanitized_error :: "string option"

definition if_some :: "'a option \<Rightarrow> 'a option \<Rightarrow> 'a option" where
  "if_some new old = (case new of None \<Rightarrow> old | Some x \<Rightarrow> Some x)"

definition apply_state :: "state_update \<Rightarrow> live_camera_run \<Rightarrow> live_camera_run" where
  "apply_state u r =
     r\<lparr>run_state := su_runtime_state u,
       first_frame_at := if_some (su_first_frame_at u) (first_frame_at r),
       last_frame_at := if_some (su_last_frame_at u) (last_frame_at r),
       reconnect_count := (case su_reconnect_count u of None \<Rightarrow> reconnect_count r | Some n \<Rightarrow> n),
       output_path := if_some (su_output_path u) (output_path r),
       run_error_code := if_some (su_error_code u) (run_error_code r),
       sanitized_error := if_some (su_sanitized_error u) (sanitized_error r)\<rparr>"

definition update_state ::
  "string \<Rightarrow> string \<times> string \<Rightarrow> time \<Rightarrow> state_update \<Rightarrow> runs \<Rightarrow> (runs \<times> bool) result" where
  "update_state rid h now u = fenced_update rid h now (apply_state u)"

definition update_metrics ::
  "string \<Rightarrow> string \<times> string \<Rightarrow> time \<Rightarrow> pydict \<Rightarrow> runs \<Rightarrow> (runs \<times> bool) result" where
  "update_metrics rid h now m = fenced_update rid h now (\<lambda>r. r\<lparr>run_metrics := m\<rparr>)"

definition finish_row ::
  "time \<Rightarrow> string \<Rightarrow> string option \<Rightarrow> string option \<Rightarrow> live_camera_run \<Rightarrow> live_camera_run" where
  "finish_row now state code err r =
     r\<lparr>run_state := state, run_stopped_at := Some now, run_error_code := code,
       sanitized_error := err, run_worker_id := None, run_lease_token := None,
       run_lease_expires_at := None\<rparr>"

definition finish ::
  "string \<Rightarrow> string \<times> string \<Rightarrow> time \<Rightarrow> string \<Rightarrow> string option \<Rightarrow> string option \<Rightarrow> runs \<Rightarrow>
   (runs \<times> bool) result"
where
  "finish rid h now state code err rs =
     (if state \<notin> set TERMINAL_STATES then Inl (ValueError ''INVALID_LIVE_TERMINAL_STATE'')
      else fenced_update rid h now (finish_row now state code err) rs)"

section \<open>Operations of a worker\<close>

datatype run_op =
    RenewRun time
  | StateRun state_update
  | MetricsRun pydict
  | FinishRun string "string option" "string option"

fun run_row :: "run_op \<Rightarrow> time \<Rightarrow> live_camera_run \<Rightarrow> live_camera_run" where
  "run_row (RenewRun e) now r = r\<lparr>run_lease_expires_at := Some e\<rparr>"
| "run_row (StateRun u) now r = apply_state u r"
| "run_row (MetricsRun m) now r = r\<lparr>run_metrics := m\<rparr>"
| "run_row (FinishRun st code err) now r = finish_row now st code err r"

text \<open>
  What the supervisor asks for: a state event that reports STOPPED or FAILED never reaches
  \<open>update_state\<close> (\<open>on_event\<close> of \<open>process_one_camera\<close> returns first).
\<close>

fun run_op_ok :: "run_op \<Rightarrow> bool" where
  "run_op_ok (StateRun u) = (su_runtime_state u \<notin> set TERMINAL_STATES)"
| "run_op_ok _ = True"

fun run_update ::
  "run_op \<times> time \<Rightarrow> string \<Rightarrow> string \<times> string \<Rightarrow> runs \<Rightarrow> (runs \<times> bool) result" where
  "run_update (RenewRun e, now) k h rs = renew k h now e rs"
| "run_update (StateRun u, now) k h rs =
     (if run_op_ok (StateRun u) then update_state k h now u rs else Inr (rs, False))"
| "run_update (MetricsRun m, now) k h rs = update_metrics k h now m rs"
| "run_update (FinishRun st code err, now) k h rs = finish k h now st code err rs"

text \<open>A raised exception rolls the transaction back.\<close>

definition run_act :: "run_op \<times> time \<Rightarrow> string \<Rightarrow> string \<times> string \<Rightarrow> runs \<Rightarrow> runs \<times> bool" where
  "run_act op k h rs = (case run_update op k h rs of Inl _ \<Rightarrow> (rs, False) | Inr p \<Rightarrow> p)"

definition claim_act ::
  "(string \<Rightarrow> bool) \<times> cameras \<times> run_claim \<Rightarrow> runs \<Rightarrow> runs \<times> live_camera_run option" where
  "claim_act a rs =
     (case a of (locked, cs, c) \<Rightarrow>
        (case claim_run locked cs c rs of Inl _ \<Rightarrow> (rs, None) | Inr p \<Rightarrow> p))"

definition run_holder :: "live_camera_run \<Rightarrow> (string \<times> string) option" where
  "run_holder r =
     (case (run_worker_id r, run_lease_token r) of (Some w, Some t) \<Rightarrow> Some (w, t) | _ \<Rightarrow> None)"

definition held :: "string \<times> string \<Rightarrow> time \<Rightarrow> live_camera_run \<Rightarrow> bool" where
  "held h now r = (run_holder r = Some h \<and> sql_greater (run_lease_expires_at r) now)"

lemma held_iff:
  "held h now r \<longleftrightarrow>
     run_worker_id r = Some (fst h) \<and> run_lease_token r = Some (snd h)
     \<and> sql_greater (run_lease_expires_at r) now"
  by (cases h) (auto simp: held_def run_holder_def split: option.splits)

lemma run_act_cases:
  obtains (refused) "run_act (op, now) k h rs = (rs, False)"
  | (updated) r where "run_act (op, now) k h rs = (row_update run_id k (run_row op now) rs, True)"
      and "row_get run_id k rs = Some r" and "held h now r" and "run_op_ok op"
      and "\<And>st code err. op = FinishRun st code err \<Longrightarrow> st \<in> set TERMINAL_STATES"
      and "run_constraints (run_row op now r)"
proof -
  have "run_row (RenewRun e) now = (\<lambda>r. r\<lparr>run_lease_expires_at := Some e\<rparr>)"
    "run_row (StateRun u) now = apply_state u" "run_row (MetricsRun m) now = (\<lambda>r. r\<lparr>run_metrics := m\<rparr>)"
    "run_row (FinishRun st code err) now = finish_row now st code err" for e u m st code err
    by auto
  then have "run_act (op, now) k h rs = (rs, False) \<or>
     (\<exists>r. run_act (op, now) k h rs = (row_update run_id k (run_row op now) rs, True)
      \<and> row_get run_id k rs = Some r \<and> held h now r \<and> run_op_ok op
      \<and> (\<forall>st code err. op = FinishRun st code err \<longrightarrow> st \<in> set TERMINAL_STATES)
      \<and> run_constraints (run_row op now r))"
    by (cases op)
       (auto simp: run_act_def renew_def update_state_def update_metrics_def finish_def
          fenced_update_def held_iff split: option.splits)
  then show thesis using that by blast
qed

lemma run_row_keys [simp]:
  "run_id (run_row op now r) = run_id r" "run_camera_id (run_row op now r) = run_camera_id r"
  "run_generation (run_row op now r) = run_generation r"
  by (cases op; simp add: apply_state_def finish_row_def)+

lemma run_row_holder: "run_holder (run_row op now r) = run_holder r \<or> run_holder (run_row op now r) = None"
  by (cases op) (auto simp: apply_state_def finish_row_def run_holder_def)

interpretation run_fence: lease_fence run_id run_holder run_act
proof
  fix k rows and h :: "string \<times> string" and op :: "run_op \<times> time"
  obtain o1 now where op: "op = (o1, now)" by fastforce
  show "run_act op k h rows = (rows, False)"
    if "map_option run_holder (row_get run_id k rows) \<noteq> Some (Some h)"
    unfolding op using that
    by (cases rule: run_act_cases [of o1 now k h rows]) (auto simp: held_def)
  show "row_get run_id k' (fst (run_act op k h rows)) = row_get run_id k' rows" if "k' \<noteq> k" for k'
    unfolding op using that
    by (cases rule: run_act_cases [of o1 now k h rows]) (auto simp: row_get_update_other)
  show "\<exists>r. row_get run_id k rows = Some r \<and> (run_holder r' = run_holder r \<or> run_holder r' = None)"
    if "row_get run_id k (fst (run_act op k h rows)) = Some r'" for r'
    using that unfolding op
  proof (cases rule: run_act_cases [of o1 now k h rows])
    case (updated r)
    with that op have "r' = run_row o1 now r" by (simp add: row_get_update_same)
    with updated(2) run_row_holder [of o1 now r] show ?thesis by simp
  qed auto
qed

definition leased_run :: "live_camera_run \<Rightarrow> bool" where
  "leased_run r = (run_worker_id r \<noteq> None)"

lemma expire_run_id: "run_id (expire_run now r) = run_id r"
  by (simp add: expire_run_def)

lemma run_row_leased:
  assumes "run_op_ok op"
  shows "leased_run (run_row op now r) \<longrightarrow>
    leased_run r \<and> (finished (run_row op now r) \<longrightarrow> finished r)"
  using assms
  by (cases op) (simp_all add: leased_run_def finished_def apply_state_def finish_row_def)

text \<open>What a claim does to the earlier runs of the camera: an unfinished latest run is closed.\<close>

abbreviation closing :: "time \<Rightarrow> string \<Rightarrow> runs \<Rightarrow> live_camera_run \<Rightarrow> live_camera_run" where
  "closing now \<equiv>
     close_latest run_id run_camera_id run_generation finished (expire_run now)"

lemma expire_run_keys:
  "run_camera_id (expire_run now r) = run_camera_id r"
  "run_generation (expire_run now r) = run_generation r"
  "\<not> leased_run (expire_run now r)" "finished (expire_run now r)"
  by (simp_all add: expire_run_def leased_run_def finished_def TERMINAL_STATES_def)

lemmas closing_keys =
  close_latest_key [where key = run_id, OF expire_run_id]
  close_latest_key [where key = run_camera_id, OF expire_run_keys(1)]
  close_latest_key [where key = run_generation, OF expire_run_keys(2)]
  close_latest_leased [where leased = leased_run, OF expire_run_keys(3)]

lemma claim_act_Some:
  assumes "claim_act (locked, cs, a) rs = (rs', Some n)"
  obtains c where "wanted_camera locked (cl_camera a) cs = Some c"
    and "rs' = map (closing (cl_now a) (camera_id c) rs) rs @ [n]"
    and "n = new_run (cl_run_id a) c (next_number run_camera_id run_generation (camera_id c) rs)
               (cl_worker a) (cl_token a) (cl_now a) (cl_lease_seconds a) (cl_traceparent a)"
    and "run_id n \<notin> run_id ` set rs"
    and "\<And>l. latest_for_camera (camera_id c) rs = Some l \<Longrightarrow> finished l \<or>
           \<not> sql_greater (run_lease_expires_at l) (cl_now a)"
proof -
  from assms obtain c where c: "wanted_camera locked (cl_camera a) cs = Some c"
    by (auto simp: claim_act_def claim_run_def split: option.splits sum.splits)
  define run where "run gen = new_run (cl_run_id a) c gen (cl_worker a) (cl_token a) (cl_now a)
      (cl_lease_seconds a) (cl_traceparent a)" for gen
  define gen where "gen = next_number run_camera_id run_generation (camera_id c) rs"
  define rs0 where "rs0 = map (closing (cl_now a) (camera_id c) rs) rs"
  from assms c have ins: "insert_run (run gen) rs0 = Inr (rs', Some n)"
    by (auto simp: claim_act_def claim_run_def run_def gen_def next_number_def rs0_def
          map_close_latest latest_for_camera_def split: sum.splits option.splits if_splits)
  have live: "finished l \<or> \<not> sql_greater (run_lease_expires_at l) (cl_now a)"
    if "latest_for_camera (camera_id c) rs = Some l" for l
    using assms c that by (auto simp: claim_act_def claim_run_def split: if_splits)
  have "run_id ` set rs0 = run_id ` set rs" by (simp add: rs0_def closing_keys image_image)
  with ins have "rs' = rs0 @ [n]" "n = run gen" "run_id n \<notin> run_id ` set rs"
    by (auto simp: insert_run_def split: if_splits)
  with live show thesis
    by (intro that [OF c]) (auto simp: rs0_def run_def gen_def)
qed

lemma new_run_fields:
  "run_camera_id (new_run i c g w t now n fresh) = camera_id c"
  "run_generation (new_run i c g w t now n fresh) = g"
  "run_holder (new_run i c g w t now n fresh) = Some (w, t)"
  "run_lease_expires_at (new_run i c g w t now n fresh) = Some (now + seconds n)"
  "run_state (new_run i c g w t now n fresh) = ''STARTING''"
  "leased_run (new_run i c g w t now n fresh)" "\<not> finished (new_run i c g w t now n fresh)"
  by (simp_all add: new_run_def run_holder_def leased_run_def finished_def TERMINAL_STATES_def)

interpretation attempts: attempt_table run_id run_camera_id run_generation leased_run finished
  claim_act run_act
proof
  fix op :: "run_op \<times> time" and k and h :: "string \<times> string" and rows
  obtain o1 now where op: "op = (o1, now)" by fastforce
  show "\<exists>f. fst (run_act op k h rows) = map f rows \<and>
      (\<forall>r. run_id (f r) = run_id r \<and> run_camera_id (f r) = run_camera_id r \<and>
        run_generation (f r) = run_generation r \<and>
        (leased_run (f r) \<longrightarrow> leased_run r \<and> (finished (f r) \<longrightarrow> finished r)))"
  proof (cases rule: run_act_cases [of o1 now k h rows])
    case refused
    then show ?thesis by (intro exI [of _ id]) (simp add: op)
  next
    case (updated r)
    with op run_row_leased [OF updated(4)] show ?thesis
      by (intro exI [of _ "\<lambda>r. if run_id r = k then run_row o1 now r else r"])
         (simp add: row_update_def)
  qed
next
  fix a rows rows'
  assume "claim_act a rows = (rows', None)"
  then show "rows' = rows"
    by (auto simp: claim_act_def claim_run_def insert_run_def Let_def
          split: prod.splits sum.splits option.splits if_splits)
next
  fix x rows rows' n
  assume claim: "claim_act x rows = (rows', Some n)"
    and nums: "distinct (map (\<lambda>r. (run_camera_id r, run_generation r)) rows)"
  obtain locked cs a where x: "x = (locked, cs, a)" by (cases x)
  from claim [unfolded x] show "leased_run n \<and> \<not> finished n \<and> run_id n \<notin> run_id ` set rows \<and>
      (\<forall>r \<in> set rows. run_camera_id r = run_camera_id n \<longrightarrow> run_generation r < run_generation n) \<and>
      (\<exists>f. rows' = map f rows @ [n] \<and>
        (\<forall>r. run_id (f r) = run_id r \<and> run_camera_id (f r) = run_camera_id r \<and>
          run_generation (f r) = run_generation r \<and> (leased_run (f r) \<longrightarrow> f r = r)) \<and>
        (\<forall>r \<in> set rows. run_camera_id r = run_camera_id n \<and>
            (\<forall>s \<in> set rows. run_camera_id s = run_camera_id n \<longrightarrow> run_generation s \<le> run_generation r) \<longrightarrow>
          finished (f r)))"
  proof (rule claim_act_Some)
    fix c
    assume rows': "rows' = map (closing (cl_now a) (camera_id c) rows) rows @ [n]"
      and n: "n = new_run (cl_run_id a) c (next_number run_camera_id run_generation (camera_id c) rows)
               (cl_worker a) (cl_token a) (cl_now a) (cl_lease_seconds a) (cl_traceparent a)"
      and fresh: "run_id n \<notin> run_id ` set rows"
    show ?thesis
      by (rule close_latest_law [where expire = "expire_run (cl_now a)" and g = "camera_id c"])
         (use fresh nums rows' in \<open>simp_all add: expire_run_id expire_run_keys n new_run_fields\<close>)
  qed
qed

section \<open>The runs as a state machine\<close>

text \<open>
  One step: a worker claims a camera with a run id that no row has (UUIDs are fresh), or a worker
  acts on its run. Cameras change freely between claims.
\<close>

inductive run_step :: "runs \<Rightarrow> runs \<Rightarrow> bool" where
  claim: "claim_act (locked, cs, a) rs = (rs', n) \<Longrightarrow> run_step rs rs'"
| act: "run_act op k h rs = (rs', b) \<Longrightarrow> run_step rs rs'"

lemma run_step_ok: "run_step rs rs' \<Longrightarrow> attempts.table_ok rs \<Longrightarrow> attempts.table_ok rs'"
proof (induction rule: run_step.induct)
  case (claim locked cs a rs rs' n)
  then show ?case by (blast intro: attempts.table_ok_claim)
next
  case (act op k h rs rs' b)
  then show ?case using attempts.table_ok_act [of rs op k h] by simp
qed

lemma runs_reachable_ok: "run_step\<^sup>*\<^sup>* [] rs \<Longrightarrow> attempts.table_ok rs"
  by (induction rule: rtranclp_induct) (auto intro: attempts.table_ok_Nil run_step_ok)

text \<open>
  C16. At most one run of a camera is leased at any time, and it is the run with the highest
  generation and not in a terminal state.
\<close>

theorem camera_lease_exclusive:
  assumes "run_step\<^sup>*\<^sup>* [] rs" and "r \<in> set rs" and "run_worker_id r \<noteq> None"
  shows "run_state r \<notin> set TERMINAL_STATES
    \<and> (\<forall>s \<in> set rs. run_camera_id s = run_camera_id r \<longrightarrow>
         run_generation s \<le> run_generation r \<and> (run_worker_id s \<noteq> None \<longrightarrow> s = r))"
proof -
  note ok = runs_reachable_ok [OF assms(1)]
  have lr: "leased_run r" using assms(3) by (simp add: leased_run_def)
  moreover have "s = r" if "s \<in> set rs" "run_camera_id s = run_camera_id r" "run_worker_id s \<noteq> None" for s
    using attempts.leased_unique [OF ok that(1) assms(2) _ lr that(2)] that(3)
    by (simp add: leased_run_def)
  moreover have "\<not> finished r"
    "\<forall>s \<in> set rs. run_camera_id s = run_camera_id r \<longrightarrow> run_generation s \<le> run_generation r"
    using ok assms(2) lr by (auto simp: attempts.table_ok_def)
  ultimately show ?thesis by (auto simp: finished_def)
qed

text \<open>
  A claim opens a new generation only for an active camera that is meant to run, only when the
  previous run has ended or lost its lease; the new run has a higher generation than every other
  run of the camera, the previous run is left without a lease in a terminal state, and all other
  runs are unchanged.
\<close>

theorem claim_run_correct:
  assumes "run_step\<^sup>*\<^sup>* [] rs" and "claim_run locked cs a rs = Inr (rs', Some n)"
  shows "\<exists>c \<in> set cs. desired_state c = ''running'' \<and> is_active c \<and> deleted_at c = None
      \<and> run_camera_id n = camera_id c \<and> run_holder n = Some (cl_worker a, cl_token a)
      \<and> run_lease_expires_at n = Some (cl_now a + seconds (cl_lease_seconds a))
      \<and> row_get run_id (run_id n) rs' = Some n \<and> run_state n = ''STARTING''
      \<and> (\<forall>r \<in> set rs. run_camera_id r = camera_id c \<longrightarrow> run_generation r < run_generation n
           \<and> (finished r \<or> \<not> sql_greater (run_lease_expires_at r) (cl_now a) \<or> run_worker_id r = None))
      \<and> (\<forall>r \<in> set rs'. run_camera_id r = camera_id c \<and> run_worker_id r \<noteq> None \<longrightarrow> r = n)
      \<and> (\<forall>r \<in> set rs. run_camera_id r \<noteq> camera_id c \<longrightarrow> r \<in> set rs')"
proof -
  note ok = runs_reachable_ok [OF assms(1)]
  have claim: "claim_act (locked, cs, a) rs = (rs', Some n)" using assms(2) by (simp add: claim_act_def)
  from claim show ?thesis
  proof (rule claim_act_Some)
    fix c
    assume c: "wanted_camera locked (cl_camera a) cs = Some c"
      and rs': "rs' = map (closing (cl_now a) (camera_id c) rs) rs @ [n]"
      and n: "n = new_run (cl_run_id a) c (next_number run_camera_id run_generation (camera_id c) rs)
               (cl_worker a) (cl_token a) (cl_now a) (cl_lease_seconds a) (cl_traceparent a)"
      and fresh: "run_id n \<notin> run_id ` set rs"
      and live: "\<And>l. latest_for_camera (camera_id c) rs = Some l \<Longrightarrow> finished l \<or>
           \<not> sql_greater (run_lease_expires_at l) (cl_now a)"
    have newer: "run_generation r < run_generation n" if "r \<in> set rs" "run_camera_id r = camera_id c" for r
      using next_number_greater [of r rs run_generation run_camera_id] that by (simp add: n new_run_fields)
    note wanted = select_first_Some(1,2) [OF c [unfolded wanted_camera_def]]
    have "row_get run_id (run_id n) (map (closing (cl_now a) (camera_id c) rs) rs) = None"
      using fresh by (simp add: row_get_None closing_keys image_image)
    then have get: "row_get run_id (run_id n) rs' = Some n"
      by (simp add: rs' row_get_append) (simp add: row_get_def)
    have ended: "finished r \<or> \<not> sql_greater (run_lease_expires_at r) (cl_now a) \<or> run_worker_id r = None"
      if "r \<in> set rs" "run_camera_id r = camera_id c" for r
    proof (cases "leased_run r")
      case True
      with ok that have "latest_for_camera (camera_id c) rs = Some r"
        using latest_row_unique [of run_camera_id run_generation rs r]
        by (simp add: attempts.table_ok_def latest_for_camera_def)
      with live show ?thesis by blast
    qed (simp add: leased_run_def)
    have other: "r \<in> set rs'" if r: "r \<in> set rs" "run_camera_id r \<noteq> camera_id c" for r
    proof -
      have "closing (cl_now a) (camera_id c) rs r = r"
        using ok r by (intro close_latest_other) (simp_all add: attempts.table_ok_def)
      with r(1) show ?thesis unfolding rs' by (metis UnI1 image_eqI list.set_map set_append)
    qed
    have closed: "r = n" if "r \<in> set rs'" "run_camera_id r = camera_id c" "run_worker_id r \<noteq> None" for r
      using attempts.claim_closes [OF ok claim that(1)] that by (simp add: leased_run_def n new_run_fields)
    show ?thesis
      using wanted get newer ended other closed
      by (intro bexI [of _ c]) (auto simp: n new_run_fields)
  qed
qed

lemma claim_clears_holder:
  assumes "attempts.table_ok rs" and "claim_act (locked, cs, a) rs = (rs', Some n)"
    and "r \<in> set rs" and "run_camera_id r = run_camera_id n"
  shows "map_option run_holder (row_get run_id (run_id r) rs') = Some None"
  using assms(2)
proof (rule claim_act_Some)
  fix c
  assume rs': "rs' = map (closing (cl_now a) (camera_id c) rs) rs @ [n]"
    and fresh: "run_id n \<notin> run_id ` set rs"
  define q where "q = closing (cl_now a) (camera_id c) rs r"
  have "row_get run_id (run_id r) rs = Some r"
    using assms(1,3) by (intro row_get_unique) (auto simp: attempts.table_ok_def unique_keys_def)
  then have get: "row_get run_id (run_id r) rs' = Some q"
    by (simp add: rs' row_get_append row_get_map closing_keys q_def)
  have "q \<in> set rs'" and "q \<noteq> n"
    using assms(3) fresh unfolding rs' q_def by (auto simp: closing_keys)
  then have "\<not> leased_run q"
    using attempts.claim_closes [OF assms(1,2), of q] assms(4) by (auto simp: q_def closing_keys)
  then show ?thesis by (simp add: get leased_run_def run_holder_def)
qed

text \<open>
  Once a claim has opened a new generation for a camera, every operation on any earlier run of
  that camera is refused and changes nothing, whoever calls it and whatever the workers did in
  between.
\<close>

theorem superseded_run_fenced:
  assumes "run_step\<^sup>*\<^sup>* [] rs" and "claim_run locked cs a rs = Inr (rs', Some n)"
    and "r \<in> set rs" and "run_camera_id r = run_camera_id n"
  shows "run_act op (run_id r) h (run_fence.run history rs') = (run_fence.run history rs', False)"
proof -
  have "claim_act (locked, cs, a) rs = (rs', Some n)" using assms(2) by (simp add: claim_act_def)
  from claim_clears_holder [OF runs_reachable_ok [OF assms(1)] this assms(3,4)]
  show ?thesis by (intro run_fence.lost_refused) auto
qed

section \<open>Cameras\<close>

lemma touch_delete [simp]:
  "deleted_at (touch now (delete_row d) c) = Some d"
  "desired_state (touch now (delete_row d) c) = ''stopped''"
  "camera_id (touch now (delete_row d) c) = camera_id c"
proof -
  have "touch now (delete_row d) c = c \<and> delete_row d c = c \<or>
      touch now (delete_row d) c = (delete_row d c)\<lparr>camera_updated_at := now\<rparr>"
    by (auto simp: touch_def)
  moreover have "deleted_at (delete_row d c) = Some d" "desired_state (delete_row d c) = ''stopped''"
    "camera_id (delete_row d c) = camera_id c"
    by (simp_all add: delete_row_def)
  ultimately show "deleted_at (touch now (delete_row d) c) = Some d"
    "desired_state (touch now (delete_row d) c) = ''stopped''"
    "camera_id (touch now (delete_row d) c) = camera_id c"
    by auto
qed

lemma soft_deleted_kept:
  "filter (\<lambda>c. deleted_at c = None) (row_update camera_id cid (touch now (delete_row d)) cs) =
   filter (\<lambda>c. camera_id c \<noteq> cid) (filter (\<lambda>c. deleted_at c = None) cs)"
  by (induction cs) (auto simp: row_update_def)

lemma cameras_ok_delete:
  assumes "cameras_ok cs"
  shows "cameras_ok (row_update camera_id cid (touch now (delete_row d)) cs)"
proof -
  let ?cs = "row_update camera_id cid (touch now (delete_row d)) cs"
  let ?kept = "filter (\<lambda>c. deleted_at c = None) cs"
  have ids: "map camera_id ?cs = map camera_id cs" by (rule row_update_keys) simp
  have "length (filter (\<lambda>c. desired_state c = ''running'') (filter (\<lambda>c. camera_id c \<noteq> cid) ?kept))
      \<le> length (filter (\<lambda>c. desired_state c = ''running'') ?kept)"
    unfolding filter_filter [of _ "\<lambda>c. camera_id c \<noteq> cid"] by (induction cs) auto
  moreover have "list_all (\<lambda>c. desired_state c \<in> {''stopped'', ''running''}) ?cs"
    using assms by (auto simp: cameras_ok_def Let_def list_all_iff set_row_update)
  ultimately show ?thesis
    using assms ids
    by (simp add: cameras_ok_def Let_def soft_deleted_kept distinct_map_filter
          del: filter_filter)
qed

lemma camera_gone:
  assumes "\<forall>c \<in> set cs. camera_id c = cid \<longrightarrow> deleted_at c \<noteq> None"
  shows "camera_get cid cs = None" and "wanted_camera locked (Some cid) cs = None"
  unfolding camera_get_def find_None_iff wanted_camera_def select_first_None using assms by simp_all

text \<open>
  Deleting a camera always succeeds and keeps the table's constraints; afterwards the camera
  can no longer be found, and no claim selects it.
\<close>

theorem soft_delete_total:
  assumes "cameras_ok cs"
  shows "\<exists>cs' b. soft_delete cid deletion now cs = Inr (cs', b) \<and> cameras_ok cs'
    \<and> camera_get cid cs' = None \<and> wanted_camera locked (Some cid) cs' = None"
proof (cases "camera_get cid cs")
  case None
  have "\<not> (desired_state c = ''running'' \<and> is_active c \<and> deleted_at c = None
      \<and> camera_id c = cid \<and> \<not> locked (camera_id c))" if "c \<in> set cs" for c
    using None that unfolding camera_get_def find_None_iff by blast
  then have "wanted_camera locked (Some cid) cs = None"
    by (simp add: wanted_camera_def select_first_None)
  with None assms show ?thesis
    by (intro exI [of _ cs] exI [of _ False]) (simp add: soft_delete_def)
next
  case (Some c)
  let ?cs = "row_update camera_id cid (touch now (delete_row deletion)) cs"
  have "\<forall>c \<in> set ?cs. camera_id c = cid \<longrightarrow> deleted_at c \<noteq> None"
    unfolding set_row_update by (intro ballI, elim imageE) simp
  note gone = camera_gone [OF this]
  with Some cameras_ok_delete [OF assms, of cid now deletion] show ?thesis
    by (intro exI [of _ ?cs] exI [of _ True]) (simp add: soft_delete_def checked_def)
qed

section \<open>Witnesses\<close>

definition sample_camera :: live_camera where
  "sample_camera =
     \<lparr>camera_id = ''c1'', camera_name = ''door'', uri_ciphertext = ''x'', uri_fingerprint = ''f'',
      desired_state = ''running'', desired_traceparent = None, desired_tracestate = None,
      is_active = True, camera_created_at = 0, camera_updated_at = 0, deleted_at = None\<rparr>"

definition sample_run_claim :: "string \<Rightarrow> string \<Rightarrow> time \<Rightarrow> run_claim" where
  "sample_run_claim i w now =
     \<lparr>cl_camera = None, cl_run_id = i, cl_worker = w, cl_token = ''t'', cl_now = now,
      cl_lease_seconds = 30, cl_traceparent = ''tp''\<rparr>"

definition sample_run :: "string \<Rightarrow> int \<Rightarrow> string \<Rightarrow> time \<Rightarrow> live_camera_run" where
  "sample_run i g w now = new_run i sample_camera g w ''t'' now 30 ''tp''"

lemma sample_wanted: "wanted_camera (\<lambda>_. False) None [sample_camera] = Some sample_camera"
  by (simp add: wanted_camera_def select_first_def sample_camera_def)

lemma sample_first_claim:
  "claim_run (\<lambda>_. False) [sample_camera] (sample_run_claim ''r1'' ''w1'' 0) [] =
     Inr ([sample_run ''r1'' 1 ''w1'' 0], Some (sample_run ''r1'' 1 ''w1'' 0))"
  by (simp add: claim_run_def sample_wanted sample_run_claim_def sample_run_def latest_for_camera_def
        latest_row_def select_first_def insert_run_def)
     (simp add: new_run_def run_constraints_def RUN_STATES_def)

lemma sample_second_claim:
  "claim_run (\<lambda>_. False) [sample_camera] (sample_run_claim ''r2'' ''w2'' 90000000) [sample_run ''r1'' 1 ''w1'' 0] =
     Inr ([expire_run 90000000 (sample_run ''r1'' 1 ''w1'' 0), sample_run ''r2'' 2 ''w2'' 90000000],
          Some (sample_run ''r2'' 2 ''w2'' 90000000))"
proof -
  have "latest_for_camera ''c1'' [sample_run ''r1'' 1 ''w1'' 0] = Some (sample_run ''r1'' 1 ''w1'' 0)"
    by (simp add: latest_for_camera_def latest_row_def select_first_def) (simp add: sample_run_def new_run_def sample_camera_def)
  then show ?thesis
    by (simp add: claim_run_def sample_run_claim_def sample_wanted insert_run_def row_update_def)
       (simp add: sample_run_def new_run_def sample_camera_def finished_def TERMINAL_STATES_def
          sql_greater_def seconds_def insert_run_def row_update_def expire_run_def
          run_constraints_def RUN_STATES_def)
qed

lemma sample_runs_reachable: "run_step\<^sup>*\<^sup>* [] [sample_run ''r1'' 1 ''w1'' 0]"
proof -
  have "claim_act (\<lambda>_. False, [sample_camera], sample_run_claim ''r1'' ''w1'' 0) [] =
      ([sample_run ''r1'' 1 ''w1'' 0], Some (sample_run ''r1'' 1 ''w1'' 0))"
    by (simp add: claim_act_def sample_first_claim)
  then have "run_step [] [sample_run ''r1'' 1 ''w1'' 0]" by (rule run_step.claim)
  then show ?thesis by (rule r_into_rtranclp)
qed

theorem camera_lease_exclusive_witness:
  "run_state (sample_run ''r1'' 1 ''w1'' 0) \<notin> set TERMINAL_STATES"
proof -
  have "run_worker_id (sample_run ''r1'' 1 ''w1'' 0) \<noteq> None" by (simp add: sample_run_def new_run_def)
  from camera_lease_exclusive [OF sample_runs_reachable _ this] show ?thesis by simp
qed

theorem claim_run_correct_witness:
  "\<exists>c \<in> set [sample_camera]. run_camera_id (sample_run ''r2'' 2 ''w2'' 90000000) = camera_id c
    \<and> run_state (sample_run ''r2'' 2 ''w2'' 90000000) = ''STARTING''"
  using claim_run_correct [OF sample_runs_reachable sample_second_claim]
  by (elim bexE conjE) (intro bexI conjI)

theorem superseded_run_fenced_witness:
  "run_act (RenewRun 99, 95000000) (run_id (sample_run ''r1'' 1 ''w1'' 0)) (''w1'', ''t'')
     (run_fence.run [] [expire_run 90000000 (sample_run ''r1'' 1 ''w1'' 0), sample_run ''r2'' 2 ''w2'' 90000000]) =
   (run_fence.run [] [expire_run 90000000 (sample_run ''r1'' 1 ''w1'' 0), sample_run ''r2'' 2 ''w2'' 90000000],
    False)"
  by (rule superseded_run_fenced [OF sample_runs_reachable sample_second_claim])
     (simp_all add: sample_run_def new_run_def)

theorem soft_delete_total_witness:
  "\<exists>cs' b. soft_delete ''c1'' 5 6 [sample_camera] = Inr (cs', b) \<and> cameras_ok cs'
    \<and> camera_get ''c1'' cs' = None \<and> wanted_camera (\<lambda>_. False) (Some ''c1'') cs' = None"
  by (rule soft_delete_total) (simp add: cameras_ok_def sample_camera_def)

end
