(* ===== verification/Supervisor_Commands.thy ===== *)
theory Supervisor_Commands
  imports Session_Service Live_Stream Live_Runs
begin

text \<open>
  The commands the supervisor builds for a native worker: the start command of a session run and
  of a camera run, the stop command and the check of an event's header
  (\<open>_session_start_command\<close>, \<open>_start_command\<close>, \<open>_stop_command\<close> and \<open>_require_matching_header\<close> of
  \<open>src/backend/app/services/live_supervisor.py\<close>). Random trace identifiers and the monotonic clock
  are parameters.
\<close>

section \<open>Settings\<close>

record live_settings =
  sv_gpu_id :: int
  sv_pgie_config_path :: string
  sv_preprocess_config_path :: string
  sv_sgie_config_path :: string
  sv_tracker_config_path :: string
  sv_rtp_udp_port :: int
  sv_rtsp_output_port :: int
  sv_profile_version :: int
  sv_min_confidence :: real
  sv_recognition_threshold :: real
  sv_vote_min_margin :: real
  sv_appearance_max_gap_seconds :: real
  sv_latency_ms :: int
  sv_reconnect_interval_seconds :: int
  sv_reconnect_attempts :: int
  sv_frame_timeout_ns :: int
  sv_internal_rtsp_origin :: string
  sv_lease_seconds :: int
  sv_assignment_queue_capacity :: int
  sv_identity_work_queue_capacity :: int

definition trace_parent :: "string \<times> string \<Rightarrow> string" where
  "trace_parent ids = ''00-'' @ fst ids @ ''-'' @ snd ids @ ''-01''"

section \<open>The start command of a session run\<close>

definition invalid_spec :: py_exc where
  "invalid_spec = ValueError ''LIVE_RESOLVED_SPEC_INVALID''"

definition spec_section :: "pydict \<Rightarrow> string \<Rightarrow> pydict result" where
  "spec_section resolved name =
     (case map_of resolved (PStr name) of Some (PDict d) \<Rightarrow> Inr d | _ \<Rightarrow> Inl invalid_spec)"

definition spec_integer :: "pydict \<Rightarrow> string \<Rightarrow> int \<Rightarrow> int result" where
  "spec_integer values name minimum =
     (case map_of values (PStr name) of
        Some (PInt i) \<Rightarrow> if i < minimum then Inl invalid_spec else Inr i
      | _ \<Rightarrow> Inl invalid_spec)"

definition spec_probability :: "pydict \<Rightarrow> string \<Rightarrow> real result" where
  "spec_probability values name =
     rbind (case map_of values (PStr name) of
              Some (PInt i) \<Rightarrow> float_of_int i
            | Some (PFloat (Fin r)) \<Rightarrow> Inr r
            | _ \<Rightarrow> Inl invalid_spec)
       (\<lambda>x. if unit_interval x then Inr x else Inl invalid_spec)"

definition spec_flag :: "pydict \<Rightarrow> string \<Rightarrow> bool result" where
  "spec_flag values name =
     (case map_of values (PStr name) of Some (PBool b) \<Rightarrow> Inr b | _ \<Rightarrow> Inl invalid_spec)"

text \<open>Membership in a set hashes the value, which a list or a dictionary does not allow.\<close>

definition spec_mode :: "pydict \<Rightarrow> string result" where
  "spec_mode processing =
     (case map_of processing (PStr ''mode'') of
        Some (PStr m) \<Rightarrow> if m \<in> set ANALYTICS_MODES then Inr m else Inl invalid_spec
      | Some (PList _) \<Rightarrow> Inl TypeError
      | Some (PDict _) \<Rightarrow> Inl TypeError
      | _ \<Rightarrow> Inl invalid_spec)"

definition spec_sampling :: "pydict \<Rightarrow> int result" where
  "spec_sampling processing =
     (let unsupported = ValueError ''LIVE_SAMPLING_MODE_UNSUPPORTED''
      in if map_of processing (PStr ''sampling_mode'') \<noteq> Some (PStr ''everyNFrames'') then Inl unsupported
         else case map_of processing (PStr ''sampling_value'') of
           Some (PInt i) \<Rightarrow>
             rbind (float_of_int i) (\<lambda>x. if x < 1 then Inl unsupported else Inr i)
         | Some (PFloat (Fin r)) \<Rightarrow>
             if r < 1 \<or> of_int \<lfloor>r\<rfloor> \<noteq> r then Inl unsupported else Inr \<lfloor>r\<rfloor>
         | _ \<Rightarrow> Inl unsupported)"

text \<open>\<open>max(1, math.ceil(ms / 1_000))\<close>; the division overflows where its quotient is no double.\<close>

definition ceil_seconds :: "int \<Rightarrow> int result" where
  "ceil_seconds ms =
     (if ms \<ge> 1000 * (2 ^ 1024 - 2 ^ 970) then Inl OverflowError
      else Inr (max 1 \<lceil>(of_int ms :: real) / 1000\<rceil>))"

definition strip_both :: "string \<Rightarrow> string" where
  "strip_both s = strip_slashes (dropWhile (\<lambda>c. c = CHR ''/'') s)"

definition media_location :: "live_settings \<Rightarrow> string \<Rightarrow> string result" where
  "media_location cfg path =
     (let origin = strip_slashes (sv_internal_rtsp_origin cfg); ingress = strip_both path
      in if \<not> starts_with RTSP_SCHEMES origin
            \<or> list_ex (\<lambda>c. char_code c < 32) origin
            \<or> \<not> starts_with [''ingress/''] ingress
            \<or> list_ex (\<lambda>seg. seg \<in> {'''', ''.'', ''..''}) (split_on (CHR ''/'') ingress)
            \<or> list_ex (\<lambda>c. char_code c < 32) ingress
         then Inl (ValueError ''LIVE_INTERNAL_MEDIA_PATH_INVALID'')
         else Inr (origin @ ''/'' @ ingress))"

definition session_header :: "string \<times> string \<Rightarrow> session_run \<Rightarrow> live_generation \<Rightarrow> protocol_header" where
  "session_header ids run g =
     \<lparr>protocol_version = PROTOCOL_VERSION, message_type = ''start'', hd_session_id = gen_session g,
      hd_camera_id = gen_session g, hd_run_id = srun_id run, hd_generation = gen_number g,
      hd_runtime_attempt = srun_attempt run, hd_sequence = 1, hd_traceparent = trace_parent ids,
      hd_tracestate = None\<rparr>"

definition session_start_command ::
  "live_settings \<Rightarrow> string \<times> string \<Rightarrow> session_run \<Rightarrow> live_generation \<Rightarrow> start_command result" where
  "session_start_command cfg ids run g =
     (let resolved = resolved_spec (gen_spec g)
      in rbind (spec_section resolved ''processing'') (\<lambda>processing.
         rbind (spec_section resolved ''source_policy'') (\<lambda>source_policy.
         rbind (spec_section resolved ''recording'') (\<lambda>recording.
         rbind (spec_section resolved ''annotated_stream'') (\<lambda>annotated_stream.
         rbind (spec_mode processing) (\<lambda>analytics_mode.
         rbind (spec_sampling processing) (\<lambda>sample_every_n.
         rbind (spec_integer source_policy ''latency_ms'' 0) (\<lambda>latency_ms.
         rbind (spec_integer source_policy ''frame_timeout_ms'' 1) (\<lambda>frame_timeout_ms.
         rbind (spec_integer source_policy ''reconnect_interval_ms'' 1) (\<lambda>reconnect_interval_ms.
         rbind (spec_integer source_policy ''reconnect_attempts'' (-1)) (\<lambda>reconnect_attempts.
         rbind (spec_integer processing ''track_gap_ms'' 1) (\<lambda>track_gap_ms.
         rbind (ensure (1 \<le> profile_version (gen_spec g)) invalid_spec) (\<lambda>_.
         rbind (media_location cfg (ingress_path (gen_spec g))) (\<lambda>uri.
         rbind (spec_probability processing ''detector_threshold'') (\<lambda>detector.
         rbind (spec_probability processing ''recognition_threshold'') (\<lambda>recognition.
         rbind (spec_probability processing ''top2_margin'') (\<lambda>margin.
         rbind (ceil_seconds reconnect_interval_ms) (\<lambda>reconnect_seconds.
         rbind (spec_flag recording ''enabled'') (\<lambda>recording_enabled.
         rbind (spec_flag annotated_stream ''enabled'') (\<lambda>annotated_enabled.
         Inr \<lparr>sc_header = session_header ids run g, sc_uri = uri, sc_gpu_id = sv_gpu_id cfg,
              sc_pgie_config_path = sv_pgie_config_path cfg,
              sc_preprocess_config_path = sv_preprocess_config_path cfg,
              sc_sgie_config_path = sv_sgie_config_path cfg,
              sc_tracker_config_path = sv_tracker_config_path cfg,
              sc_output_mount_path = ''/live/'' @ gen_session g,
              sc_output_udp_port = sv_rtp_udp_port cfg, sc_output_rtsp_port = sv_rtsp_output_port cfg,
              sc_profile_version = profile_version (gen_spec g), sc_analytics_mode = analytics_mode,
              sc_sample_every_n = sample_every_n, sc_detector_threshold = detector,
              sc_recognition_threshold = recognition, sc_top2_margin = margin,
              sc_track_gap_ns = track_gap_ms * 1000000, sc_latency_ms = latency_ms,
              sc_reconnect_interval_seconds = reconnect_seconds,
              sc_reconnect_attempts = reconnect_attempts,
              sc_frame_timeout_ns = frame_timeout_ms * 1000000,
              sc_recording_enabled = recording_enabled, sc_annotated_enabled = annotated_enabled\<rparr>
         ))))))))))))))))))))"

section \<open>The start command of a camera run\<close>

definition camera_header :: "live_camera_run \<Rightarrow> protocol_header" where
  "camera_header run =
     \<lparr>protocol_version = PROTOCOL_VERSION, message_type = ''start'', hd_session_id = run_camera_id run,
      hd_camera_id = run_camera_id run, hd_run_id = run_id run, hd_generation = run_generation run,
      hd_runtime_attempt = 1, hd_sequence = 1, hd_traceparent = run_traceparent run,
      hd_tracestate = run_tracestate run\<rparr>"

definition camera_start_command :: "live_settings \<Rightarrow> live_camera_run \<Rightarrow> string \<Rightarrow> start_command" where
  "camera_start_command cfg run uri =
     \<lparr>sc_header = camera_header run, sc_uri = uri, sc_gpu_id = sv_gpu_id cfg,
      sc_pgie_config_path = sv_pgie_config_path cfg,
      sc_preprocess_config_path = sv_preprocess_config_path cfg,
      sc_sgie_config_path = sv_sgie_config_path cfg,
      sc_tracker_config_path = sv_tracker_config_path cfg,
      sc_output_mount_path = ''/live/'' @ run_camera_id run,
      sc_output_udp_port = sv_rtp_udp_port cfg, sc_output_rtsp_port = sv_rtsp_output_port cfg,
      sc_profile_version = sv_profile_version cfg, sc_analytics_mode = ''recognize'',
      sc_sample_every_n = 1, sc_detector_threshold = sv_min_confidence cfg,
      sc_recognition_threshold = sv_recognition_threshold cfg, sc_top2_margin = sv_vote_min_margin cfg,
      sc_track_gap_ns = \<lfloor>sv_appearance_max_gap_seconds cfg * 1000000000\<rfloor>,
      sc_latency_ms = sv_latency_ms cfg,
      sc_reconnect_interval_seconds = sv_reconnect_interval_seconds cfg,
      sc_reconnect_attempts = sv_reconnect_attempts cfg, sc_frame_timeout_ns = sv_frame_timeout_ns cfg,
      sc_recording_enabled = False, sc_annotated_enabled = True\<rparr>"

section \<open>Stopping and checking\<close>

definition NIL_UUID :: string where
  "NIL_UUID = ''00000000-0000-0000-0000-000000000000''"

text \<open>
  A stop command repeats the active header under the next command sequence number; without an
  active run it carries nil identifiers and a fresh trace context.
\<close>

definition stop_header_of :: "string \<times> string \<Rightarrow> protocol_header option \<Rightarrow> int \<Rightarrow> protocol_header" where
  "stop_header_of ids active sequence =
     (case active of
        None \<Rightarrow>
          \<lparr>protocol_version = PROTOCOL_VERSION, message_type = ''stop'', hd_session_id = NIL_UUID,
           hd_camera_id = NIL_UUID, hd_run_id = NIL_UUID, hd_generation = 1, hd_runtime_attempt = 1,
           hd_sequence = sequence, hd_traceparent = trace_parent ids, hd_tracestate = None\<rparr>
      | Some h \<Rightarrow> h\<lparr>protocol_version := PROTOCOL_VERSION, message_type := ''stop'', hd_sequence := sequence\<rparr>)"

definition supervisor_stop ::
  "string \<times> string \<Rightarrow> int \<Rightarrow> string \<Rightarrow> protocol_header option \<Rightarrow> int \<Rightarrow> int \<times> stop_command" where
  "supervisor_stop ids monotonic_ns reason active sequence =
     (sequence + 1,
      \<lparr>stop_header = stop_header_of ids active sequence, stop_reason = reason,
       shutdown_deadline_ns = monotonic_ns + 5000000000\<rparr>)"

text \<open>The first difference decides the code of the lost lease.\<close>

definition require_matching_header :: "protocol_header \<Rightarrow> protocol_header \<Rightarrow> string option" where
  "require_matching_header expected received =
     (if hd_session_id received \<noteq> hd_session_id expected then Some ''WRONG_SESSION_ID''
      else if hd_camera_id received \<noteq> hd_camera_id expected then Some ''WRONG_CAMERA_ID''
      else if hd_run_id received \<noteq> hd_run_id expected then Some ''WRONG_RUN_ID''
      else if hd_generation received \<noteq> hd_generation expected then Some ''WRONG_GENERATION''
      else if hd_runtime_attempt received \<noteq> hd_runtime_attempt expected then Some ''WRONG_RUNTIME_ATTEMPT''
      else None)"

section \<open>Commands are well formed\<close>

text \<open>
  What the deployment has to supply: settings in the ranges the protocol accepts, and trace
  identifiers as \<open>secrets.token_hex\<close> makes them, not all zero.
\<close>

definition settings_ok :: "live_settings \<Rightarrow> bool" where
  "settings_ok cfg =
     (0 \<le> sv_gpu_id cfg \<and> 1 \<le> sv_rtp_udp_port cfg \<and> 1 \<le> sv_rtsp_output_port cfg
      \<and> 1 \<le> sv_profile_version cfg \<and> unit_interval (sv_min_confidence cfg)
      \<and> unit_interval (sv_recognition_threshold cfg) \<and> unit_interval (sv_vote_min_margin cfg)
      \<and> 1 \<le> sv_appearance_max_gap_seconds cfg * 1000000000 \<and> 0 \<le> sv_latency_ms cfg
      \<and> 0 \<le> sv_reconnect_interval_seconds cfg \<and> -1 \<le> sv_reconnect_attempts cfg
      \<and> 1 \<le> sv_frame_timeout_ns cfg)"

definition trace_ids_ok :: "string \<times> string \<Rightarrow> bool" where
  "trace_ids_ok ids =
     (length (fst ids) = 32 \<and> all_hex (fst ids) \<and> fst ids \<noteq> replicate 32 (CHR ''0'')
      \<and> length (snd ids) = 16 \<and> all_hex (snd ids) \<and> snd ids \<noteq> replicate 16 (CHR ''0''))"

lemma trace_parent_valid:
  assumes "trace_ids_ok ids"
  shows "valid_trace_context (trace_parent ids) None"
proof -
  have "traceparent_matches (trace_parent ids)"
    using assms by (simp add: traceparent_matches_def trace_parent_def trace_ids_ok_def nth_append nth_Cons'
        all_hex_def lower_hex_def char_code_def)
  moreover have "take 32 (drop 3 (trace_parent ids)) = fst ids" "take 16 (drop 36 (trace_parent ids)) = snd ids"
    using assms by (simp_all add: trace_parent_def trace_ids_ok_def)
  ultimately show ?thesis
    using assms by (simp add: valid_trace_context_def validate_trace_context_def is_ok_def trace_ids_ok_def)
qed

lemma unit_interval_in_unit: "unit_interval x = in_unit x"
  by (simp add: unit_interval_def in_unit_def)

lemma ceil_seconds_pos: "ceil_seconds ms = Inr n \<Longrightarrow> 1 \<le> n"
  by (auto simp: ceil_seconds_def split: if_splits)

lemma spec_inv:
  "spec_mode p = Inr m \<Longrightarrow> m \<in> set ANALYTICS_MODES"
  "spec_sampling p = Inr n \<Longrightarrow> 1 \<le> n"
  "spec_integer d k i = Inr n \<Longrightarrow> i \<le> n"
  "spec_probability d k = Inr x \<Longrightarrow> unit_interval x"
  by (auto simp: spec_mode_def spec_sampling_def spec_integer_def spec_probability_def Let_def result_simps le_floor_iff
      float_of_int_def split: option.splits pyval.splits pyfloat.splits if_splits)

text \<open>
  Whatever is stored as the resolved specification of a session, a start command is only sent
  if it is well formed: the native worker's decoder accepts it.
\<close>

theorem session_start_wf:
  assumes "session_start_command cfg ids run g = Inr s" and "settings_ok cfg" and "trace_ids_ok ids"
    and "canonical_uuid (gen_session g)" and "canonical_uuid (srun_id run)"
    and "1 \<le> gen_number g" and "1 \<le> srun_attempt run"
  shows "wf_message (StartCommand s)"
proof -
  have "wf_header (session_header ids run g)"
    using assms trace_parent_valid [OF assms(3)] by (simp add: wf_header_def session_header_def)
  moreover have "wf_start s \<and> sc_header s = session_header ids run g"
    using assms(1,2)
    by (auto simp: session_start_command_def Let_def wf_start_def settings_ok_def rbind_Inr_iff unit_interval_in_unit
        split: if_splits dest!: spec_inv ceil_seconds_pos)
  ultimately show ?thesis by (simp add: wf_message_def session_header_def)
qed

text \<open>The sampling a worker can do: every \<open>n\<close>-th frame, for a whole number \<open>n\<close>.\<close>

definition sampling_supported :: "live_processing \<Rightarrow> bool" where
  "sampling_supported p =
     (lp_sampling_mode p = ''everyNFrames'' \<and> 1 \<le> lp_sampling_value p
      \<and> of_int \<lfloor>lp_sampling_value p\<rfloor> = lp_sampling_value p)"

lemma spec_of_resolved [simp]:
  "spec_section (resolved_dict v) ''processing'' = Inr (processing_dict (rv_processing v))"
  "spec_section (resolved_dict v) ''source_policy'' = Inr (source_policy_dict (rv_source_policy v))"
  "spec_section (resolved_dict v) ''recording'' = Inr (recording_dict (rv_recording v))"
  "spec_section (resolved_dict v) ''annotated_stream'' = Inr (annotated_dict (rv_annotated v))"
  "spec_flag (recording_dict r) ''enabled'' = Inr (ro_enabled r)"
  "spec_flag (annotated_dict a) ''enabled'' = Inr (ao_enabled a)"
  by (simp_all add: spec_section_def spec_flag_def resolved_dict_def recording_dict_def annotated_dict_def)

lemma spec_of_processing:
  assumes "processing_ok p"
  shows "spec_mode (processing_dict p) = Inr (lp_mode p)"
    and "spec_integer (processing_dict p) ''track_gap_ms'' 1 = Inr (lp_track_gap_ms p)"
    and "spec_probability (processing_dict p) ''detector_threshold'' = Inr (lp_detector_threshold p)"
    and "spec_probability (processing_dict p) ''recognition_threshold'' = Inr (lp_recognition_threshold p)"
    and "spec_probability (processing_dict p) ''top2_margin'' = Inr (lp_top2_margin p)"
    and "spec_sampling (processing_dict p) =
      (if sampling_supported p then Inr \<lfloor>lp_sampling_value p\<rfloor> else Inl (ValueError ''LIVE_SAMPLING_MODE_UNSUPPORTED''))"
  using assms
  by (auto simp: processing_ok_def processing_dict_def spec_mode_def spec_integer_def spec_probability_def
      spec_sampling_def sampling_supported_def ANALYTICS_MODES_def)

lemma spec_of_policy:
  assumes "source_policy_ok p"
  shows "spec_integer (source_policy_dict p) ''latency_ms'' 0 = Inr (sp_latency_ms p)"
    and "spec_integer (source_policy_dict p) ''frame_timeout_ms'' 1 = Inr (sp_frame_timeout_ms p)"
    and "spec_integer (source_policy_dict p) ''reconnect_interval_ms'' 1 = Inr (sp_reconnect_interval_ms p)"
    and "spec_integer (source_policy_dict p) ''reconnect_attempts'' (-1) = Inr (sp_reconnect_attempts p)"
    and "ceil_seconds (sp_reconnect_interval_ms p) = Inr \<lceil>(of_int (sp_reconnect_interval_ms p) :: real) / 1000\<rceil>"
proof -
  have "sp_reconnect_interval_ms p < 1000 * (2 ^ 1024 - 2 ^ 970)"
    using assms by (simp add: source_policy_ok_def)
  moreover have "1 \<le> \<lceil>(of_int (sp_reconnect_interval_ms p) :: real) / 1000\<rceil>"
    using assms by (simp add: source_policy_ok_def one_le_ceiling)
  ultimately show "ceil_seconds (sp_reconnect_interval_ms p) = Inr \<lceil>(of_int (sp_reconnect_interval_ms p) :: real) / 1000\<rceil>"
    by (simp add: ceil_seconds_def)
qed (use assms in \<open>simp_all add: source_policy_ok_def source_policy_dict_def spec_integer_def\<close>)

text \<open>
  C30. The worker of a session gets exactly what was asked for, if it is asked to sample every
  \<open>n\<close>-th frame: thresholds, time limits and outputs of the start command are those of the request,
  in the units of the protocol. The sampling mode \<open>framesPerSecond\<close>, which the API accepts and
  advertises, and fractional sampling values are refused here, so such a session is accepted and
  never starts.
\<close>

theorem compiled_session_starts:
  assumes "request_ok r" and "compile profile version digest r = Inr v"
    and "resolved_spec (gen_spec g) = resolved_dict v" and "1 \<le> profile_version (gen_spec g)"
    and "media_location cfg (ingress_path (gen_spec g)) = Inr uri"
  shows "case session_start_command cfg ids run g of
      Inl e \<Rightarrow> e = ValueError ''LIVE_SAMPLING_MODE_UNSUPPORTED'' \<and> \<not> sampling_supported (sr_processing r)
    | Inr s \<Rightarrow> sampling_supported (sr_processing r) \<and> sc_uri s = uri
        \<and> sc_analytics_mode s = lp_mode (sr_processing r)
        \<and> of_int (sc_sample_every_n s) = lp_sampling_value (sr_processing r)
        \<and> sc_detector_threshold s = lp_detector_threshold (sr_processing r)
        \<and> sc_recognition_threshold s = lp_recognition_threshold (sr_processing r)
        \<and> sc_top2_margin s = lp_top2_margin (sr_processing r)
        \<and> sc_track_gap_ns s = lp_track_gap_ms (sr_processing r) * 1000000
        \<and> sc_latency_ms s = sp_latency_ms (sr_source_policy r)
        \<and> sc_frame_timeout_ns s = sp_frame_timeout_ms (sr_source_policy r) * 1000000
        \<and> sc_reconnect_attempts s = sp_reconnect_attempts (sr_source_policy r)
        \<and> 0 \<le> 1000 * sc_reconnect_interval_seconds s - sp_reconnect_interval_ms (sr_source_policy r)
        \<and> 1000 * sc_reconnect_interval_seconds s - sp_reconnect_interval_ms (sr_source_policy r) < 1000
        \<and> sc_recording_enabled s = ro_enabled (sr_recording r)
        \<and> sc_annotated_enabled s = ao_enabled (sr_annotated r)"
proof -
  have v: "rv_processing v = sr_processing r" "rv_source_policy v = sr_source_policy r"
      "rv_recording v = sr_recording r" "rv_annotated v = sr_annotated r"
    using assms(2) by (auto simp: compile_def split: if_splits)
  have ok: "processing_ok (sr_processing r)" "source_policy_ok (sr_source_policy r)"
    using assms(1) by (auto simp: request_ok_def)
  have ceil: "0 \<le> 1000 * \<lceil>(of_int n :: real) / 1000\<rceil> - n \<and> 1000 * \<lceil>(of_int n :: real) / 1000\<rceil> - n < 1000" for n :: int
    by linarith
  show ?thesis
    using assms(3-5) ceil
    by (simp add: session_start_command_def v spec_of_processing [OF ok(1)] spec_of_policy [OF ok(2)])
       (simp add: sampling_supported_def)
qed

lemma supervisor_stop_wf:
  assumes "trace_ids_ok ids" and "case active of None \<Rightarrow> True | Some h \<Rightarrow> wf_header h"
    and "0 \<le> sequence" and "0 \<le> clock"
  shows "wf_message (StopCommand (snd (supervisor_stop ids clock reason active sequence)))"
proof -
  have "canonical_uuid NIL_UUID" unfolding NIL_UUID_def by code_simp
  then have "wf_header (stop_header_of ids active sequence)"
    using assms trace_parent_valid [OF assms(1)]
    by (cases active) (auto simp: stop_header_of_def wf_header_def)
  moreover have "message_type (stop_header_of ids active sequence) = ''stop''"
    by (cases active) (simp_all add: stop_header_of_def)
  ultimately show ?thesis using assms(4) by (simp add: supervisor_stop_def wf_message_def)
qed

section \<open>Witnesses\<close>

definition sample_live :: live_settings where
  "sample_live =
     \<lparr>sv_gpu_id = 0, sv_pgie_config_path = ''p'', sv_preprocess_config_path = ''q'', sv_sgie_config_path = ''s'',
      sv_tracker_config_path = ''t'', sv_rtp_udp_port = 5400, sv_rtsp_output_port = 8554, sv_profile_version = 1,
      sv_min_confidence = 1 / 4, sv_recognition_threshold = 1 / 2, sv_vote_min_margin = 0,
      sv_appearance_max_gap_seconds = 1, sv_latency_ms = 200, sv_reconnect_interval_seconds = 10,
      sv_reconnect_attempts = -1, sv_frame_timeout_ns = 5000000000, sv_internal_rtsp_origin = ''rtsp://m:8554/'',
      sv_lease_seconds = 30, sv_assignment_queue_capacity = 256, sv_identity_work_queue_capacity = 64\<rparr>"

definition sample_ids :: "string \<times> string" where
  "sample_ids = (''0af7651916cd43dd8448eb211c80319c'', ''b7ad6b7169203331'')"

lemma sample_live_ok: "settings_ok sample_live" "trace_ids_ok sample_ids"
proof -
  show "settings_ok sample_live" by (simp add: settings_ok_def sample_live_def unit_interval_def)
  show "trace_ids_ok sample_ids" unfolding trace_ids_ok_def sample_ids_def by code_simp
qed

definition sample_session_run :: session_run where
  "sample_session_run =
     \<lparr>srun_id = ''33333333-3333-4333-8333-333333333333'', srun_generation_id = ''g1'', srun_attempt = 1,
      srun_state = ''STARTING'', srun_worker_id = Some ''w'', srun_lease_token = Some ''t'',
      srun_lease_expires_at = Some 40, srun_started_at = 10, srun_stopped_at = None, srun_error_code = None\<rparr>"

definition sample_running :: live_generation where
  "sample_running = created_generation\<lparr>gen_session := ''11111111-1111-4111-8111-111111111111''\<rparr>"

lemma sample_running_spec:
  "resolved_spec (gen_spec sample_running) = resolved_dict sample_resolved"
  "profile_version (gen_spec sample_running) = 1" "ingress_path (gen_spec sample_running) = ''ingress/1''"
  "gen_number sample_running = 1" "gen_session sample_running = ''11111111-1111-4111-8111-111111111111''"
  by (simp_all add: sample_running_def created_generation_def new_generation_def generation_spec_of_def sample_resolved_def)

lemma sample_location: "media_location sample_live ''ingress/1'' = Inr ''rtsp://m:8554/ingress/1''"
  by (simp add: media_location_def sample_live_def strip_slashes_def strip_both_def starts_with_def RTSP_SCHEMES_def
      char_code_def)

lemma sample_request_ok: "request_ok (sample_create WhipPush)"
  by (simp add: request_ok_def processing_ok_def source_policy_ok_def sample_create_def unit_interval_def)

lemma sample_session_starts: "\<exists>s. session_start_command sample_live sample_ids sample_session_run sample_running = Inr s"
proof -
  have ok: "processing_ok (sr_processing (sample_create WhipPush))" "source_policy_ok (sr_source_policy (sample_create WhipPush))"
    using sample_request_ok by (simp_all add: request_ok_def)
  have "sampling_supported (sr_processing (sample_create WhipPush))"
    by (simp add: sampling_supported_def sample_create_def)
  moreover have "rv_processing sample_resolved = sr_processing (sample_create WhipPush)"
      "rv_source_policy sample_resolved = sr_source_policy (sample_create WhipPush)"
    by (simp_all add: sample_resolved_def)
  ultimately show ?thesis
    by (simp add: session_start_command_def sample_running_spec sample_location spec_of_processing [OF ok(1)]
        spec_of_policy [OF ok(2)])
qed

theorem session_start_wf_witness:
  "\<exists>s. session_start_command sample_live sample_ids sample_session_run sample_running = Inr s
     \<and> wf_message (StartCommand s)"
proof -
  obtain s where s: "session_start_command sample_live sample_ids sample_session_run sample_running = Inr s"
    using sample_session_starts by blast
  have "canonical_uuid ''11111111-1111-4111-8111-111111111111''"
    "canonical_uuid ''33333333-3333-4333-8333-333333333333''" by code_simp+
  then have "wf_message (StartCommand s)"
    using session_start_wf [OF s sample_live_ok] by (simp add: sample_running_spec) (simp add: sample_session_run_def)
  with s show ?thesis by blast
qed

theorem compiled_session_starts_witness:
  "\<exists>s. session_start_command sample_live sample_ids sample_session_run sample_running = Inr s
     \<and> sc_uri s = ''rtsp://m:8554/ingress/1'' \<and> sc_track_gap_ns s = 1500000000"
proof -
  have "compile ''p'' 1 (\<lambda>_. ''h'') (sample_create WhipPush) = Inr sample_resolved"
    by (simp add: compile_def sample_resolved_def) (simp add: sample_create_def)
  moreover have "lp_track_gap_ms (sr_processing (sample_create WhipPush)) = 1500" by (simp add: sample_create_def)
  ultimately show ?thesis
    using compiled_session_starts [OF sample_request_ok, of "''p''" 1 "\<lambda>_. ''h''" sample_resolved sample_running sample_live
      "''rtsp://m:8554/ingress/1''" sample_ids sample_session_run] sample_session_starts
    by (auto simp: sample_running_spec sample_location)
qed

end
