(* ===== verification/Command_Queue.thy ===== *)
theory Command_Queue
  imports Live_Stream
begin

text \<open>
  The bounded command queue between the supervisor and the writer of the worker's standard input
  (\<open>LiveCommandQueue\<close> and \<open>NativeLiveRunner._write_commands\<close> of
  \<open>src/backend/app/infrastructure/live/native_runner.py\<close>). Stop commands wait in a deque and are
  never dropped; assignments wait in an \<open>OrderedDict\<close> keyed by tracker, bounded by a capacity, of
  which the oldest entry is evicted. \<open>get\<close> is modelled by one pass of its loop: it delivers a
  command, or clears the event and suspends.
\<close>

section \<open>State and operations\<close>

datatype live_command = AssignCommand identity_assignment | ControlCommand stop_command

record command_queue =
  assignment_capacity :: int
  controls :: "stop_command list"
  assignments :: "(int \<times> identity_assignment) list"
  available :: bool

definition command_queue_init :: "int \<Rightarrow> command_queue result" where
  "command_queue_init capacity =
     (if capacity < 1 then Inl (ValueError ''LIVE_COMMAND_CAPACITY_INVALID'')
      else Inr \<lparr>assignment_capacity = capacity, controls = [], assignments = [],
                available = False\<rparr>)"

fun put_nowait :: "command_queue \<Rightarrow> live_command \<Rightarrow> command_queue \<times> bool" where
  "put_nowait q (ControlCommand c) =
     (q\<lparr>controls := controls q @ [c], available := True\<rparr>, True)"
| "put_nowait q (AssignCommand a) =
     (case map_of (assignments q) (ia_tracker_id a) of
        Some previous \<Rightarrow>
          if assignment_revision a \<le> assignment_revision previous then (q, False)
          else (q\<lparr>assignments := dict_put (ia_tracker_id a) a (assignments q),
                  available := True\<rparr>, True)
      | None \<Rightarrow>
          let kept = (if int (length (assignments q)) \<ge> assignment_capacity q
                      then tl (assignments q) else assignments q)
          in (q\<lparr>assignments := dict_put (ia_tracker_id a) a kept, available := True\<rparr>, True))"

definition get_nowait :: "command_queue \<Rightarrow> (command_queue \<times> live_command) result" where
  "get_nowait q =
     (case controls q of
        c # cs \<Rightarrow> Inr (q\<lparr>controls := cs\<rparr>, ControlCommand c)
      | [] \<Rightarrow>
          (case assignments q of
             (t, a) # rest \<Rightarrow> Inr (q\<lparr>assignments := rest\<rparr>, AssignCommand a)
           | [] \<Rightarrow> Inl (OtherError ''QueueEmpty'')))"

definition get_pass :: "command_queue \<Rightarrow> command_queue \<times> live_command option" where
  "get_pass q =
     (case get_nowait q of
        Inr (q', c) \<Rightarrow> (q', Some c)
      | Inl _ \<Rightarrow> (q\<lparr>available := False\<rparr>, None))"

fun command_message :: "live_command \<Rightarrow> live_message" where
  "command_message (AssignCommand a) = IdentityAssignment a"
| "command_message (ControlCommand c) = StopCommand c"

text \<open>The writer's loop, up to the point where \<open>get\<close> suspends; an encoding error ends it.\<close>

definition queue_size :: "command_queue \<Rightarrow> nat" where
  "queue_size q = length (controls q) + length (assignments q)"

lemma get_nowait_size: "get_nowait q = Inr (q', c) \<Longrightarrow> queue_size q' < queue_size q"
  by (auto simp: get_nowait_def queue_size_def split: list.splits)

function write_commands ::
  "(pyval \<Rightarrow> bytes) \<Rightarrow> command_queue \<Rightarrow> bytes \<Rightarrow> command_queue \<times> bytes \<times> unit result" where
  "write_commands packb q stdin =
     (case get_pass q of
        (q', None) \<Rightarrow> (q', stdin, Inr ())
      | (q', Some c) \<Rightarrow>
          (case encode_message packb (command_message c) of
             Inl e \<Rightarrow> (q', stdin, Inl e)
           | Inr frame \<Rightarrow> write_commands packb q' (stdin @ frame)))"
  by pat_completeness auto

termination
  by (relation "measure (\<lambda>(_, q, _). queue_size q)")
     (auto simp: get_pass_def get_nowait_size split: sum.splits)

declare write_commands.simps [simp del]

section \<open>Invariant\<close>

definition queue_ok :: "command_queue \<Rightarrow> bool" where
  "queue_ok q =
     (1 \<le> assignment_capacity q \<and> int (length (assignments q)) \<le> assignment_capacity q \<and>
      distinct (map fst (assignments q)) \<and>
      list_all (\<lambda>(t, a). ia_tracker_id a = t) (assignments q) \<and>
      (available q \<or> (controls q = [] \<and> assignments q = [])))"

lemma queue_init_ok: "command_queue_init n = Inr q \<Longrightarrow> queue_ok q"
  by (auto simp: command_queue_init_def queue_ok_def split: if_splits)

lemma length_dict_put:
  "length (dict_put k v d) = (if k \<in> fst ` set d then length d else Suc (length d))"
proof -
  have "length (map fst (dict_put k v d)) = (if k \<in> fst ` set d then length d else Suc (length d))"
    by (simp only: dict_put_keys split: if_splits) simp
  then show ?thesis by simp
qed

lemma list_all_dict_put: "list_all P d \<Longrightarrow> P (k, v) \<Longrightarrow> list_all P (dict_put k v d)"
  by (induction d) auto

lemma tl_props:
  "distinct (map fst d) \<Longrightarrow> distinct (map fst (tl d))"
  "list_all P d \<Longrightarrow> list_all P (tl d)"
  "k \<notin> fst ` set d \<Longrightarrow> k \<notin> fst ` set (tl d)"
  by (cases d; auto)+

lemma put_nowait_ok:
  assumes "queue_ok q"
  shows "queue_ok (fst (put_nowait q c))"
proof (cases c)
  case (ControlCommand s)
  with assms show ?thesis by (simp add: queue_ok_def)
next
  case (AssignCommand a)
  show ?thesis
  proof (cases "map_of (assignments q) (ia_tracker_id a)")
    case (Some p)
    then have "ia_tracker_id a \<in> fst ` set (assignments q)"
      by (metis image_eqI fst_conv map_of_SomeD)
    with assms AssignCommand Some show ?thesis
      by (auto simp: queue_ok_def distinct_dict_put list_all_dict_put length_dict_put)
  next
    case None
    then have new: "ia_tracker_id a \<notin> fst ` set (assignments q)" by (simp add: map_of_eq_None_iff)
    with assms AssignCommand None show ?thesis
      by (auto simp: queue_ok_def Let_def length_dict_put
               intro!: distinct_dict_put list_all_dict_put tl_props dest: tl_props(3))
  qed
qed

lemma get_nowait_ok: "queue_ok q \<Longrightarrow> get_nowait q = Inr (q', c) \<Longrightarrow> queue_ok q'"
  by (auto simp: get_nowait_def queue_ok_def split: list.splits)

lemma get_pass_ok: "queue_ok q \<Longrightarrow> queue_ok (fst (get_pass q))"
  by (auto simp: get_pass_def queue_ok_def get_nowait_def split: list.splits sum.splits)

section \<open>Runs\<close>

text \<open>
  An interleaving of the producer and the writer: each step puts a command or is one pass of
  \<open>get\<close>. \<open>buffer_run\<close> returns the final queue and the delivered commands in order.
\<close>

datatype 'c buffer_op = PutOp 'c | GetOp

fun buffer_run ::
  "('q \<Rightarrow> 'c \<Rightarrow> 'q \<times> bool) \<Rightarrow> ('q \<Rightarrow> 'q \<times> 'c option) \<Rightarrow> 'q \<Rightarrow> 'c buffer_op list \<Rightarrow> 'q \<times> 'c list"
where
  "buffer_run put get q [] = (q, [])"
| "buffer_run put get q (PutOp c # ops) = buffer_run put get (fst (put q c)) ops"
| "buffer_run put get q (GetOp # ops) =
     (case get q of
        (q', None) \<Rightarrow> buffer_run put get q' ops
      | (q', Some c) \<Rightarrow>
          (case buffer_run put get q' ops of (q'', cs) \<Rightarrow> (q'', c # cs)))"

fun puts :: "'c buffer_op list \<Rightarrow> 'c list" where
  "puts [] = []"
| "puts (PutOp c # ops) = c # puts ops"
| "puts (GetOp # ops) = puts ops"

text \<open>
  The contract of a buffer with urgent entries: putting one appends it to the urgent entries,
  and a pass of \<open>get\<close> takes their head, or takes something that is not urgent when there is none.
\<close>

locale priority_buffer =
  fixes put :: "'q \<Rightarrow> 'c \<Rightarrow> 'q \<times> bool" and get :: "'q \<Rightarrow> 'q \<times> 'c option"
    and inv :: "'q \<Rightarrow> bool" and urgent :: "'q \<Rightarrow> 'u list" and as_urgent :: "'c \<Rightarrow> 'u option"
  assumes put_inv: "inv q \<Longrightarrow> inv (fst (put q c))"
    and get_inv: "inv q \<Longrightarrow> inv (fst (get q))"
    and put_urgent: "urgent (fst (put q c)) =
      urgent q @ (case as_urgent c of None \<Rightarrow> [] | Some u \<Rightarrow> [u])"
    and get_urgent: "get q = (q', r) \<Longrightarrow>
      (case urgent q of
         [] \<Rightarrow> urgent q' = [] \<and> (case r of None \<Rightarrow> True | Some c \<Rightarrow> as_urgent c = None)
       | u # us \<Rightarrow> urgent q' = us \<and> (\<exists>c. r = Some c \<and> as_urgent c = Some u))"
begin

lemma run_inv: "inv q \<Longrightarrow> inv (fst (buffer_run put get q ops))"
proof (induction ops arbitrary: q)
  case (Cons op ops)
  show ?case
  proof (cases op)
    case (PutOp c)
    with Cons put_inv show ?thesis by simp
  next
    case GetOp
    from get_inv [OF Cons.prems] have "inv (fst (get q))" .
    with Cons.IH [of "fst (get q)"] GetOp show ?thesis
      by (auto split: prod.splits option.splits)
  qed
qed simp

lemma urgent_fifo:
  "buffer_run put get q ops = (q', cs) \<Longrightarrow>
     List.map_filter as_urgent cs @ urgent q' = urgent q @ List.map_filter as_urgent (puts ops)"
proof (induction ops arbitrary: q cs)
  case (Cons op ops)
  show ?case
  proof (cases op)
    case (PutOp c)
    with Cons.prems Cons.IH [of "fst (put q c)" cs] show ?thesis
      by (simp add: put_urgent split: option.splits)
  next
    case GetOp
    obtain q1 r where g: "get q = (q1, r)" by fastforce
    from get_urgent [OF g] show ?thesis
      using Cons.prems Cons.IH [of q1] GetOp g
      by (auto split: option.splits list.splits prod.splits)
  qed
qed simp

end

fun as_stop :: "live_command \<Rightarrow> stop_command option" where
  "as_stop (ControlCommand c) = Some c"
| "as_stop (AssignCommand a) = None"

fun as_assignment :: "live_command \<Rightarrow> identity_assignment option" where
  "as_assignment (AssignCommand a) = Some a"
| "as_assignment (ControlCommand c) = None"

lemma put_nowait_controls:
  "controls (fst (put_nowait q c)) =
     controls q @ (case as_stop c of None \<Rightarrow> [] | Some u \<Rightarrow> [u])"
  by (cases c) (auto simp: Let_def split: option.splits)

lemma get_pass_controls:
  "get_pass q = (q', r) \<Longrightarrow>
     (case controls q of
        [] \<Rightarrow> controls q' = [] \<and> (case r of None \<Rightarrow> True | Some c \<Rightarrow> as_stop c = None)
      | u # us \<Rightarrow> controls q' = us \<and> (\<exists>c. r = Some c \<and> as_stop c = Some u))"
  by (auto simp: get_pass_def get_nowait_def split: list.splits)

interpretation stops: priority_buffer put_nowait get_pass queue_ok controls as_stop
  by unfold_locales (simp_all add: put_nowait_ok get_pass_ok put_nowait_controls get_pass_controls)

section \<open>Assignments\<close>

definition rev_order :: "identity_assignment \<Rightarrow> identity_assignment \<Rightarrow> bool" where
  "rev_order a b = (ia_tracker_id a = ia_tracker_id b \<longrightarrow> assignment_revision a < assignment_revision b)"

definition pending :: "command_queue \<Rightarrow> identity_assignment set" where
  "pending q = snd ` set (assignments q)"

lemma put_pending:
  "pending (fst (put_nowait q c)) \<subseteq> pending q \<union> set (List.map_filter as_assignment [c])"
proof (cases c)
  case (AssignCommand a)
  have "snd ` set (dict_put k v d) \<subseteq> insert v (snd ` set d)"
    for k :: int and v :: identity_assignment and d
    using image_mono [OF set_dict_put [of k v d], of snd] by simp
  moreover have "snd ` set (tl (assignments q)) \<subseteq> snd ` set (assignments q)"
    by (cases "assignments q") auto
  ultimately have "snd ` set (dict_put k a (assignments q)) \<subseteq> insert a (snd ` set (assignments q))"
    and "snd ` set (dict_put k a (tl (assignments q))) \<subseteq> insert a (snd ` set (assignments q))" for k
    by (blast, blast)
  then show ?thesis
    using AssignCommand
    by (cases "map_of (assignments q) (ia_tracker_id a)") (simp_all add: pending_def Let_def subset_insertI)
qed (simp add: pending_def)

lemma get_pass_assignments:
  assumes "get_pass q = (q', r)"
  shows "(\<exists>a t. r = Some (AssignCommand a) \<and> assignments q = (t, a) # assignments q')
    \<or> ((\<forall>a. r \<noteq> Some (AssignCommand a)) \<and> assignments q' = assignments q)"
  using assms by (auto simp: get_pass_def get_nowait_def split: list.splits)

lemma queue_ok_head_differs:
  assumes "queue_ok q" and "assignments q = (t, a) # rest" and "b \<in> snd ` set rest"
  shows "rev_order a b"
proof -
  from assms(3) obtain t' where b: "(t', b) \<in> set rest" by auto
  with assms(1,2) have "ia_tracker_id a = t" "ia_tracker_id b = t'" "t \<noteq> t'"
    by (auto simp: queue_ok_def list_all_iff image_iff)
  then show ?thesis by (simp add: rev_order_def)
qed

lemma delivered_assignments:
  assumes "buffer_run put_nowait get_pass q ops = (q', cs)" and "queue_ok q"
    and "sorted_wrt rev_order (List.map_filter as_assignment (puts ops))"
    and "\<forall>p \<in> pending q. \<forall>b \<in> set (List.map_filter as_assignment (puts ops)). rev_order p b"
  shows "sorted_wrt rev_order (List.map_filter as_assignment cs)
    \<and> set (List.map_filter as_assignment cs) \<subseteq>
        pending q \<union> set (List.map_filter as_assignment (puts ops))"
  using assms
proof (induction ops arbitrary: q cs)
  case Nil
  then show ?case by simp
next
  case (Cons op ops)
  show ?case
  proof (cases op)
    case (PutOp c)
    let ?q = "fst (put_nowait q c)"
    have split: "List.map_filter as_assignment (puts (op # ops)) =
        List.map_filter as_assignment [c] @ List.map_filter as_assignment (puts ops)"
      by (simp add: PutOp split: option.splits)
    have "\<forall>p \<in> pending ?q. \<forall>b \<in> set (List.map_filter as_assignment (puts ops)). rev_order p b"
      using put_pending [of q c] Cons.prems(3,4) unfolding split sorted_wrt_append by fastforce
    with Cons.prems PutOp put_nowait_ok [OF Cons.prems(2)]
    have "sorted_wrt rev_order (List.map_filter as_assignment cs)
      \<and> set (List.map_filter as_assignment cs) \<subseteq>
          pending ?q \<union> set (List.map_filter as_assignment (puts ops))"
      by (intro Cons.IH) (simp_all add: sorted_wrt_append split: option.splits)
    with put_pending [of q c] show ?thesis unfolding split by auto
  next
    case GetOp
    obtain q1 r where g: "get_pass q = (q1, r)" by fastforce
    obtain cs1 where run: "buffer_run put_nowait get_pass q1 ops = (q', cs1)"
      and cs: "cs = (case r of None \<Rightarrow> cs1 | Some c \<Rightarrow> c # cs1)"
      using Cons.prems(1) GetOp g by (auto split: option.splits prod.splits)
    have ok: "queue_ok q1" using get_pass_ok [OF Cons.prems(2)] g by simp
    have sub: "pending q1 \<subseteq> pending q"
      using get_pass_assignments [OF g] by (auto simp: pending_def)
    with Cons.prems(3,4) GetOp have ih: "sorted_wrt rev_order (List.map_filter as_assignment cs1)
      \<and> set (List.map_filter as_assignment cs1) \<subseteq>
          pending q1 \<union> set (List.map_filter as_assignment (puts ops))"
      by (intro Cons.IH [OF run ok]) auto
    from get_pass_assignments [OF g] show ?thesis
    proof (elim disjE exE conjE)
      fix a t assume r: "r = Some (AssignCommand a)" and q: "assignments q = (t, a) # assignments q1"
      then have "a \<in> pending q" by (simp add: pending_def)
      moreover have "rev_order a b" if "b \<in> pending q1" for b
        using queue_ok_head_differs [OF Cons.prems(2) q] that by (simp add: pending_def)
      ultimately show ?thesis
        using ih sub Cons.prems(4) GetOp by (auto simp: cs r)
    next
      assume "\<forall>a. r \<noteq> Some (AssignCommand a)"
      then have "List.map_filter as_assignment cs = List.map_filter as_assignment cs1"
        by (auto simp: cs split: option.splits elim: as_assignment.elims)
      with ih sub GetOp show ?thesis by auto
    qed
  qed
qed

section \<open>Properties\<close>

text \<open>
  Under every interleaving of puts and passes of \<open>get\<close>, the queue keeps its invariant: at
  most \<open>capacity\<close> assignments, one per tracker, each filed under its own tracker, and the wake-up
  event is set whenever a command waits, so a suspended reader never sleeps on a non-empty queue.
\<close>

theorem queue_run_invariant:
  assumes "command_queue_init n = Inr q"
  shows "queue_ok (fst (buffer_run put_nowait get_pass q ops))"
  by (rule stops.run_inv [OF queue_init_ok [OF assms]])

text \<open>
  Stop commands are never dropped or reordered: the stops delivered so far, followed by those
  still waiting, are exactly the stops put, in order.
\<close>

theorem stop_commands_fifo:
  assumes "command_queue_init n = Inr q" and "buffer_run put_nowait get_pass q ops = (q', cs)"
  shows "List.map_filter as_stop cs @ controls q' = List.map_filter as_stop (puts ops)"
proof -
  have "controls q = []" using assms(1) by (auto simp: command_queue_init_def split: if_splits)
  with stops.urgent_fifo [OF assms(2)] show ?thesis by simp
qed

text \<open>
  When the producer issues strictly increasing revisions per tracker, the assignments the
  writer receives have strictly increasing revisions per tracker too, whatever is evicted or
  replaced on the way, and every one of them was put.
\<close>

theorem assignments_delivered_in_order:
  assumes "command_queue_init n = Inr q" and "buffer_run put_nowait get_pass q ops = (q', cs)"
    and "sorted_wrt rev_order (List.map_filter as_assignment (puts ops))"
  shows "sorted_wrt rev_order (List.map_filter as_assignment cs)
    \<and> set (List.map_filter as_assignment cs) \<subseteq> set (List.map_filter as_assignment (puts ops))"
proof -
  have "pending q = {}" using assms(1) by (auto simp: command_queue_init_def pending_def split: if_splits)
  with delivered_assignments [OF assms(2) queue_init_ok [OF assms(1)] assms(3)] show ?thesis by simp
qed

text \<open>
  What \<open>put_nowait\<close> does with an assignment. It is refused, and the queue is unchanged, exactly
  when an assignment of the same tracker with the same or a newer revision waits. Otherwise it
  becomes the waiting assignment of its tracker, and every other tracker keeps its own, except
  the oldest one when the queue is full and the tracker is new.
\<close>

theorem put_nowait_assignment:
  assumes "queue_ok q" and "put_nowait q (AssignCommand a) = (q', accepted)"
  shows "(accepted \<longleftrightarrow> (case map_of (assignments q) (ia_tracker_id a) of
             None \<Rightarrow> True | Some p \<Rightarrow> assignment_revision p < assignment_revision a))
    \<and> (\<not> accepted \<longrightarrow> q' = q)
    \<and> (accepted \<longrightarrow> available q' \<and> controls q' = controls q
        \<and> map_of (assignments q') (ia_tracker_id a) = Some a
        \<and> (\<forall>t. t \<noteq> ia_tracker_id a \<longrightarrow>
             map_of (assignments q') t = map_of (assignments q) t
             \<or> (map_of (assignments q) (ia_tracker_id a) = None
                 \<and> int (length (assignments q)) = assignment_capacity q
                 \<and> t = fst (hd (assignments q)) \<and> map_of (assignments q') t = None)))"
proof (cases "map_of (assignments q) (ia_tracker_id a)")
  case (Some p)
  with assms show ?thesis by (auto split: if_splits)
next
  case None
  show ?thesis
  proof (cases "int (length (assignments q)) \<ge> assignment_capacity q")
    case True
    with assms(1) obtain t b rest where q: "assignments q = (t, b) # rest"
      and full: "int (length (assignments q)) = assignment_capacity q" and "t \<notin> fst ` set rest"
      by (cases "assignments q") (auto simp: queue_ok_def)
    moreover have "map_of rest t = None"
      using \<open>t \<notin> fst ` set rest\<close> by (simp add: map_of_eq_None_iff)
    ultimately show ?thesis using None True assms(2) by auto
  next
    case False
    with None assms(2) show ?thesis by auto
  qed
qed

lemma get_pass_None: "get_pass q = (q', None) \<Longrightarrow> controls q = [] \<and> assignments q = []"
  by (auto simp: get_pass_def get_nowait_def split: list.splits)

lemma get_pass_Some:
  "get_pass q = (q', Some c) \<Longrightarrow>
     map ControlCommand (controls q) @ map (AssignCommand \<circ> snd) (assignments q) =
     c # map ControlCommand (controls q') @ map (AssignCommand \<circ> snd) (assignments q')"
  by (auto simp: get_pass_def get_nowait_def split: list.splits)

text \<open>
  C33. The writer's loop empties the queue: it writes the frames of all waiting stop commands in
  order and then those of the waiting assignments, oldest tracker first, and suspends on the
  empty queue.
\<close>

theorem write_commands_drains:
  assumes "mapM (\<lambda>c. encode_message packb (command_message c))
      (map ControlCommand (controls q) @ map (AssignCommand \<circ> snd) (assignments q)) = Inr frames"
  shows "\<exists>q'. write_commands packb q stdin = (q', stdin @ concat frames, Inr ())
    \<and> controls q' = [] \<and> assignments q' = [] \<and> \<not> available q'"
  using assms
proof (induction "queue_size q" arbitrary: q stdin frames rule: less_induct)
  case less
  obtain q1 r where g: "get_pass q = (q1, r)" by fastforce
  show ?case
  proof (cases r)
    case None
    with g get_pass_None [of q q1] less.prems show ?thesis
      by (auto simp: write_commands.simps [of packb q] get_pass_def get_nowait_def)
  next
    case (Some c)
    from less.prems [unfolded get_pass_Some [OF g [unfolded Some]]] obtain f fs where
      f: "encode_message packb (command_message c) = Inr f" and fs: "frames = f # fs" and
      rest: "mapM (\<lambda>c. encode_message packb (command_message c))
        (map ControlCommand (controls q1) @ map (AssignCommand \<circ> snd) (assignments q1)) = Inr fs"
      by (auto simp: rbind_Inr_iff)
    have "queue_size q1 < queue_size q"
      using g Some by (auto simp: get_pass_def get_nowait_size split: sum.splits)
    from less.hyps [OF this rest, of "stdin @ f"] g Some f fs show ?thesis
      by (simp add: write_commands.simps [of packb q])
  qed
qed

section \<open>Witnesses\<close>

definition sample_assignment :: "int \<Rightarrow> int \<Rightarrow> identity_assignment" where
  "sample_assignment t r =
     \<lparr>ia_header = sample_header ''identity_assignment'' r, ia_tracker_id = t,
      assignment_revision = r, ia_identity_epoch = 1, ia_identity_state = ''unknown'',
      ia_display_name = None, ia_face_id = None, ia_match_score = None,
      ia_recognition_threshold = None, ia_reference_embedding = None,
      ia_decision_sequence = 0\<rparr>"

definition sample_control :: stop_command where
  "sample_control = \<lparr>stop_header = sample_header ''stop'' 9, stop_reason = ''stop_requested'',
     shutdown_deadline_ns = 5\<rparr>"

definition sample_queue :: command_queue where
  "sample_queue = \<lparr>assignment_capacity = 1, controls = [], assignments = [], available = False\<rparr>"

definition sample_ops :: "live_command buffer_op list" where
  "sample_ops =
     [PutOp (AssignCommand (sample_assignment 1 1)), PutOp (AssignCommand (sample_assignment 2 1)),
      PutOp (ControlCommand sample_control), GetOp, GetOp,
      PutOp (AssignCommand (sample_assignment 2 2)), GetOp]"

lemma sample_queue_init: "command_queue_init 1 = Inr sample_queue"
  by (simp add: command_queue_init_def sample_queue_def)

lemma sample_run:
  "buffer_run put_nowait get_pass sample_queue sample_ops =
     (sample_queue\<lparr>available := True\<rparr>,
      [ControlCommand sample_control, AssignCommand (sample_assignment 2 1),
       AssignCommand (sample_assignment 2 2)])"
  by (simp add: sample_ops_def sample_queue_def get_pass_def get_nowait_def sample_assignment_def)

lemma sample_ordered:
  "sorted_wrt rev_order (List.map_filter as_assignment (puts sample_ops))"
  by (simp add: sample_ops_def rev_order_def sample_assignment_def)

theorem queue_run_invariant_witness:
  "queue_ok (fst (buffer_run put_nowait get_pass sample_queue sample_ops))"
  by (rule queue_run_invariant [OF sample_queue_init])

theorem stop_commands_fifo_witness:
  "List.map_filter as_stop [ControlCommand sample_control, AssignCommand (sample_assignment 2 1),
       AssignCommand (sample_assignment 2 2)] @ controls (sample_queue\<lparr>available := True\<rparr>) =
     List.map_filter as_stop (puts sample_ops)"
  by (rule stop_commands_fifo [OF sample_queue_init sample_run])

theorem assignments_delivered_in_order_witness:
  "sorted_wrt rev_order (List.map_filter as_assignment
       [ControlCommand sample_control, AssignCommand (sample_assignment 2 1),
        AssignCommand (sample_assignment 2 2)])
    \<and> set (List.map_filter as_assignment
       [ControlCommand sample_control, AssignCommand (sample_assignment 2 1),
        AssignCommand (sample_assignment 2 2)])
      \<subseteq> set (List.map_filter as_assignment (puts sample_ops))"
  by (rule assignments_delivered_in_order [OF sample_queue_init sample_run sample_ordered])

theorem put_nowait_assignment_witness:
  "map_of (assignments (fst (put_nowait sample_queue (AssignCommand (sample_assignment 1 1))))) 1 =
     Some (sample_assignment 1 1)"
  using put_nowait_assignment [of sample_queue "sample_assignment 1 1"
      "fst (put_nowait sample_queue (AssignCommand (sample_assignment 1 1)))" True]
  by (simp add: sample_queue_def queue_ok_def sample_assignment_def)

theorem write_commands_drains_witness:
  "\<exists>q'. write_commands (\<lambda>_. [7]) (sample_queue\<lparr>controls := [sample_control]\<rparr>) [] =
      (q', [] @ concat [[0, 0, 0, 1, 7]], Inr ())
    \<and> controls q' = [] \<and> assignments q' = [] \<and> \<not> available q'"
  by (rule write_commands_drains)
     (simp add: sample_queue_def encode_message_def MAX_FRAME_BYTES_def pack_be32_def)

end
