(* ===== verification/Session_Supervisor.thy ===== *)
theory Session_Supervisor
  imports Supervisor_Commands Command_Queue
begin

text \<open>
  Running one session (\<open>process_one_session\<close>, \<open>_monitor_session\<close>, \<open>_persist_session_state\<close>,
  \<open>_finish_session\<close> and \<open>request_stop\<close> of \<open>src/backend/app/services/live_supervisor.py\<close>, and
  \<open>NativeLiveRunner.run\<close> of \<open>src/backend/app/infrastructure/live/native_runner.py\<close>).

  A claimed run is a \<open>job\<close>: the state that the runner, its event handler, the monitor, the command
  writer and a shutdown request share while the run lasts. Each of them advances by steps that end
  at an \<open>await\<close>, so a job is a step relation in which their steps interleave with the transactions
  of everybody else on the database. The native process itself is seen through the bytes it writes
  and its exit code.
\<close>

section \<open>The runner\<close>

datatype runner_end =
    RunnerStopped stopped_event
  | RunnerFailed string string

text \<open>
  \<open>run\<close> after the start command has been written: every exception of the reader, the handler's
  included, becomes a \<open>NativeLiveRunnerError\<close>. The text of an exception is a parameter.
\<close>

definition native_run ::
  "(bytes \<Rightarrow> pyval option) \<Rightarrow> (py_exc \<Rightarrow> string) \<Rightarrow> ('s \<Rightarrow> live_message \<Rightarrow> 's \<times> unit result) \<Rightarrow> start_command \<Rightarrow>
   int \<Rightarrow> 's \<Rightarrow> bytes \<Rightarrow> 's \<times> runner_end"
where
  "native_run unpackb str_exc on_event start return_code s stdout =
     (case read_events unpackb on_event (sc_header start) s stdout of
        (s', Inl e) \<Rightarrow> (s', RunnerFailed ''LIVE_PIPELINE_ERROR'' (str_exc e))
      | (s', Inr stopped) \<Rightarrow>
          (s', if return_code \<noteq> 0
               then RunnerFailed ''LIVE_PIPELINE_ERROR''
                      (''Native live worker exited with code '' @ str_int return_code)
               else case stopped of
                 None \<Rightarrow> RunnerFailed ''LIVE_PIPELINE_ERROR'' ''Native live worker exited without a stopped event''
               | Some ev \<Rightarrow> RunnerStopped ev))"

section \<open>Jobs\<close>

record 'd job =
  jb_db :: 'd
  jb_queue :: command_queue
  jb_header :: protocol_header
  jb_sequence :: int
  jb_stop_sent :: bool
  jb_failed :: "failed_event option"
  jb_written :: "live_command list"

definition send_stop :: "string \<times> string \<Rightarrow> int \<Rightarrow> string \<Rightarrow> ('d, 'x) job_scheme \<Rightarrow> ('d, 'x) job_scheme" where
  "send_stop ids clock reason j =
     (case supervisor_stop ids clock reason (Some (jb_header j)) (jb_sequence j) of
        (sequence, c) \<Rightarrow>
          j\<lparr>jb_queue := fst (put_nowait (jb_queue j) (ControlCommand c)), jb_sequence := sequence\<rparr>)"

definition request_stop :: "string \<times> string \<Rightarrow> int \<Rightarrow> ('d, 'x) job_scheme \<Rightarrow> ('d, 'x) job_scheme" where
  "request_stop ids clock j = send_stop ids clock ''worker_shutdown'' j"

definition stop_if_unwanted ::
  "string \<times> string \<Rightarrow> int \<Rightarrow> bool \<Rightarrow> ('d, 'x) job_scheme \<Rightarrow> ('d, 'x) job_scheme" where
  "stop_if_unwanted ids clock wanted j =
     (if \<not> wanted \<and> \<not> jb_stop_sent j
      then (send_stop ids clock ''desired_stopped'' j)\<lparr>jb_stop_sent := True\<rparr> else j)"

text \<open>One command taken by the writer.\<close>

definition write_one :: "('d, 'x) job_scheme \<Rightarrow> ('d, 'x) job_scheme" where
  "write_one j =
     (case get_pass (jb_queue j) of
        (q, None) \<Rightarrow> j\<lparr>jb_queue := q\<rparr>
      | (q, Some c) \<Rightarrow> j\<lparr>jb_queue := q, jb_written := jb_written j @ [c]\<rparr>)"

definition lease_lost :: py_exc where
  "lease_lost = LeaseLost ''LIVE_WORKER_LEASE_LOST''"

text \<open>A transaction of the job: an exception rolls back, a refused update commits and then raises.\<close>

definition fenced_tx ::
  "('d \<Rightarrow> ('d \<times> bool) result) \<Rightarrow> ('d, 'x) job_scheme \<Rightarrow> ('d, 'x) job_scheme \<times> unit result" where
  "fenced_tx tx j =
     (case tx (jb_db j) of
        Inl e \<Rightarrow> (j, Inl e)
      | Inr (db, updated) \<Rightarrow> (j\<lparr>jb_db := db\<rparr>, if updated then Inr () else Inl lease_lost))"

section \<open>Session jobs\<close>

record session_task =
  st_run :: session_run
  st_cred :: session_cred
  st_lease_seconds :: int

definition persist_session_state ::
  "session_task \<Rightarrow> time \<Rightarrow> string \<Rightarrow> session_db job \<Rightarrow> session_db job \<times> unit result" where
  "persist_session_state t now state =
     fenced_tx (update_run_state (srun_id (st_run t)) (st_cred t) now state)"

definition session_event ::
  "session_task \<Rightarrow> time \<Rightarrow> session_db job \<Rightarrow> live_message \<Rightarrow> session_db job \<times> unit result" where
  "session_event t now j m =
     (case require_matching_header (jb_header j) (header_of m) of
        Some code \<Rightarrow> (j, Inl (LeaseLost code))
      | None \<Rightarrow>
          (case m of
             FailedEvent e \<Rightarrow> (j\<lparr>jb_failed := Some e\<rparr>, Inr ())
           | StateEvent e \<Rightarrow>
               if state_state e \<in> {''STOPPED'', ''FAILED''} then (j, Inr ())
               else persist_session_state t now (state_state e) j
           | _ \<Rightarrow> (j, Inr ())))"

definition monitor_session ::
  "session_task \<Rightarrow> time \<Rightarrow> string \<times> string \<Rightarrow> int \<Rightarrow> session_db job \<Rightarrow> session_db job \<times> unit result" where
  "monitor_session t now ids clock j =
     (let current = get_generation (srun_generation_id (st_run t)) (jb_db j)
      in case fenced_tx (renew_run (srun_id (st_run t)) (st_cred t) now
                (now + seconds (st_lease_seconds t))) j of
           (j', Inl e) \<Rightarrow> (j', Inl e)
         | (j', Inr _) \<Rightarrow>
             (stop_if_unwanted ids clock
                (case current of None \<Rightarrow> False | Some g \<Rightarrow> gen_desired_state g = ''running'') j', Inr ()))"

inductive session_job_step :: "session_task \<Rightarrow> session_db job \<Rightarrow> session_db job \<Rightarrow> bool" for t where
  event: "session_event t now j m = (j', r) \<Longrightarrow> session_job_step t j j'"
| monitor: "monitor_session t now ids clock j = (j', r) \<Longrightarrow> session_job_step t j j'"
| shutdown: "session_job_step t j (request_stop ids clock j)"
| writer: "session_job_step t j (write_one j)"
| others: "session_step (jb_db j) db \<Longrightarrow> session_job_step t j (j\<lparr>jb_db := db\<rparr>)"

section \<open>The end of a job\<close>

datatype job_end =
    MonitorLost
  | MonitorFailed py_exc
  | Runner runner_end

text \<open>The terminal state and error code that are recorded, if any.\<close>

fun session_outcome :: "job_end \<Rightarrow> failed_event option \<Rightarrow> (string \<times> string option) option" where
  "session_outcome MonitorLost f = None"
| "session_outcome (MonitorFailed e) f = Some (''FAILED'', Some ''LIVE_PIPELINE_ERROR'')"
| "session_outcome (Runner (RunnerFailed code _)) f = Some (''FAILED'', Some code)"
| "session_outcome (Runner (RunnerStopped _)) f =
     (case f of Some e \<Rightarrow> Some (''FAILED'', Some (fe_error_code e)) | None \<Rightarrow> Some (''STOPPED'', None))"

definition finish_session ::
  "session_task \<Rightarrow> time \<Rightarrow> string \<Rightarrow> string option \<Rightarrow> session_db \<Rightarrow> session_db \<times> unit result" where
  "finish_session t now state code db =
     (case finish_run (srun_id (st_run t)) (st_cred t) now state code db of
        Inl e \<Rightarrow> (db, Inl e)
      | Inr (db', updated) \<Rightarrow> (db', if updated then Inr () else Inl lease_lost))"

text \<open>A lease that is lost while the end is recorded is not an error: the new holder decides.\<close>

definition end_session :: "session_task \<Rightarrow> time \<Rightarrow> (string \<times> string option) option \<Rightarrow> session_db \<Rightarrow> (session_db \<times> bool) result" where
  "end_session t now outcome db =
     (case outcome of
        None \<Rightarrow> Inr (db, True)
      | Some (state, code) \<Rightarrow>
          (case finish_session t now state code db of
             (db', Inr _) \<Rightarrow> Inr (db', True)
           | (db', Inl (LeaseLost _)) \<Rightarrow> Inr (db', True)
           | (_, Inl e) \<Rightarrow> Inl e))"

definition start_job :: "command_queue \<Rightarrow> int \<Rightarrow> start_command \<Rightarrow> 'd \<Rightarrow> 'd job" where
  "start_job q sequence start db =
     \<lparr>jb_db = db, jb_queue = q, jb_header = sc_header start, jb_sequence = sequence,
      jb_stop_sent = False, jb_failed = None, jb_written = []\<rparr>"

text \<open>
  \<open>process_one_session\<close>, with what happens between the start and the end of the job as a parameter.
  Without a claim nothing is done; a missing generation and a start command that cannot be built
  fail the run at once.
\<close>

definition process_one_session ::
  "live_settings \<Rightarrow> (string \<Rightarrow> bool) \<Rightarrow> session_claim \<Rightarrow> string \<times> string \<Rightarrow> int \<Rightarrow>
   (session_task \<Rightarrow> start_command \<Rightarrow> session_db job \<Rightarrow> session_db job \<times> job_end) \<Rightarrow> time \<Rightarrow> session_db \<Rightarrow>
   (session_db \<times> bool) result"
where
  "process_one_session cfg locked a ids sequence body end_now db =
     (case claim_generation locked a db of
        Inl e \<Rightarrow> Inl e
      | Inr (db1, None) \<Rightarrow> Inr (db1, False)
      | Inr (db1, Some run) \<Rightarrow>
          let t = \<lparr>st_run = run,
                   st_cred = (sc_worker a, Some (sc_token a), srun_generation_id run, srun_attempt run),
                   st_lease_seconds = sv_lease_seconds cfg\<rparr>
          in case get_generation (srun_generation_id run) db1 of
               None \<Rightarrow>
                 (case finish_session t end_now ''FAILED'' (Some ''LIVE_SESSION_GENERATION_NOT_FOUND'') db1 of
                    (db2, Inl e) \<Rightarrow> Inl e
                  | (db2, Inr _) \<Rightarrow> Inr (db2, True))
             | Some g \<Rightarrow>
                 (case command_queue_init (sv_assignment_queue_capacity cfg) of
                    Inl e \<Rightarrow> Inl e
                  | Inr q \<Rightarrow>
                      (case session_start_command cfg ids run g of
                         Inl e \<Rightarrow> end_session t end_now (Some (''FAILED'', Some ''LIVE_PIPELINE_ERROR'')) db1
                       | Inr start \<Rightarrow>
                           (case body t start (start_job q sequence start db1) of
                              (j, ending) \<Rightarrow> end_session t end_now (session_outcome ending (jb_failed j)) (jb_db j)))))"

section \<open>Stop commands of a job\<close>

fun control_of :: "live_command \<Rightarrow> stop_command list" where
  "control_of (ControlCommand c) = [c]"
| "control_of (AssignCommand a) = []"

definition job_stops :: "('d, 'x) job_scheme \<Rightarrow> stop_command list" where
  "job_stops j = concat (map control_of (jb_written j)) @ controls (jb_queue j)"

text \<open>
  The stop commands a job has written or still has queued: numbered without gaps from the first
  sequence number on, in the order they were sent, all under the header of the run, and exactly one
  of them because the run is no longer wanted, once the monitor has found that out.
\<close>

definition stops_inv :: "int \<Rightarrow> protocol_header \<Rightarrow> ('d, 'x) job_scheme \<Rightarrow> bool" where
  "stops_inv s0 h j =
     (jb_header j = h \<and> s0 \<le> jb_sequence j
      \<and> map (\<lambda>c. hd_sequence (stop_header c)) (job_stops j) = [s0..jb_sequence j - 1]
      \<and> list_all (\<lambda>c. stop_header c = h\<lparr>protocol_version := PROTOCOL_VERSION, message_type := ''stop'',
           hd_sequence := hd_sequence (stop_header c)\<rparr>) (job_stops j)
      \<and> length (filter (\<lambda>c. stop_reason c = ''desired_stopped'') (job_stops j)) = (if jb_stop_sent j then 1 else 0))"

lemma stops_inv_cong:
  assumes "stops_inv s0 h j" and "jb_header j' = jb_header j" and "jb_sequence j' = jb_sequence j"
    and "job_stops j' = job_stops j" and "jb_stop_sent j' = jb_stop_sent j"
  shows "stops_inv s0 h j'"
  using assms by (simp add: stops_inv_def)

lemma job_stops_send: "\<exists>c. stop_reason c = reason \<and> stop_header c = stop_header_of ids (Some (jb_header j)) (jb_sequence j)
    \<and> job_stops (send_stop ids clock reason j) = job_stops j @ [c] \<and> jb_sequence (send_stop ids clock reason j) = jb_sequence j + 1
    \<and> jb_header (send_stop ids clock reason j) = jb_header j \<and> jb_stop_sent (send_stop ids clock reason j) = jb_stop_sent j
    \<and> jb_db (send_stop ids clock reason j) = jb_db j \<and> jb_written (send_stop ids clock reason j) = jb_written j
    \<and> assignments (jb_queue (send_stop ids clock reason j)) = assignments (jb_queue j)"
  by (simp add: send_stop_def supervisor_stop_def job_stops_def)

lemma stops_inv_send:
  assumes "stops_inv s0 h j" and "reason \<noteq> ''desired_stopped''"
  shows "stops_inv s0 h (send_stop ids clock reason j)"
proof -
  from job_stops_send [of reason ids j clock] obtain c where
    c: "stop_reason c = reason" "stop_header c = stop_header_of ids (Some (jb_header j)) (jb_sequence j)"
      "job_stops (send_stop ids clock reason j) = job_stops j @ [c]"
      "jb_sequence (send_stop ids clock reason j) = jb_sequence j + 1"
      "jb_header (send_stop ids clock reason j) = jb_header j"
      "jb_stop_sent (send_stop ids clock reason j) = jb_stop_sent j" by blast
  then show ?thesis
    using assms upto_rec2 [of s0 "jb_sequence j"] by (auto simp: stops_inv_def stop_header_of_def)
qed

lemma stops_inv_unwanted:
  assumes "stops_inv s0 h j"
  shows "stops_inv s0 h (stop_if_unwanted ids clock wanted j)"
    and "\<not> wanted \<Longrightarrow> jb_stop_sent (stop_if_unwanted ids clock wanted j)"
proof -
  from job_stops_send [of "''desired_stopped''" ids j clock] obtain c where
    c: "stop_reason c = ''desired_stopped''" "stop_header c = stop_header_of ids (Some (jb_header j)) (jb_sequence j)"
      "job_stops (send_stop ids clock ''desired_stopped'' j) = job_stops j @ [c]"
      "jb_sequence (send_stop ids clock ''desired_stopped'' j) = jb_sequence j + 1"
      "jb_header (send_stop ids clock ''desired_stopped'' j) = jb_header j" by blast
  have "job_stops (send_stop ids clock ''desired_stopped'' j\<lparr>jb_stop_sent := True\<rparr>) = job_stops j @ [c]"
    using c(3) by (simp add: job_stops_def)
  then show "stops_inv s0 h (stop_if_unwanted ids clock wanted j)"
    using assms c upto_rec2 [of s0 "jb_sequence j"]
    by (auto simp: stop_if_unwanted_def stops_inv_def stop_header_of_def)
  show "\<not> wanted \<Longrightarrow> jb_stop_sent (stop_if_unwanted ids clock wanted j)" by (simp add: stop_if_unwanted_def)
qed

lemma job_stops_write [simp]:
  "job_stops (write_one j) = job_stops j"
  by (auto simp: write_one_def job_stops_def get_pass_def get_nowait_def split: list.splits)

lemma write_one_keeps [simp]:
  "jb_header (write_one j) = jb_header j" "jb_sequence (write_one j) = jb_sequence j"
  "jb_stop_sent (write_one j) = jb_stop_sent j" "jb_db (write_one j) = jb_db j" "jb_failed (write_one j) = jb_failed j"
  by (simp_all add: write_one_def split: prod.splits option.splits)

lemma fenced_tx_keeps:
  assumes "fenced_tx tx j = (j', r)"
  shows "jb_header j' = jb_header j" "jb_sequence j' = jb_sequence j" "jb_stop_sent j' = jb_stop_sent j"
    "jb_queue j' = jb_queue j" "jb_written j' = jb_written j" "jb_failed j' = jb_failed j"
  using assms by (auto simp: fenced_tx_def split: sum.splits prod.splits)

lemma stops_inv_tx:
  assumes "stops_inv s0 h j" and "fenced_tx tx j = (j', r)"
  shows "stops_inv s0 h j'"
  by (rule stops_inv_cong [OF assms(1)]) (simp_all add: fenced_tx_keeps [OF assms(2)] job_stops_def)

lemma stops_inv_start:
  assumes "command_queue_init n = Inr q"
  shows "stops_inv s0 (sc_header start) (start_job q s0 start db)"
  using assms by (auto simp: stops_inv_def start_job_def job_stops_def command_queue_init_def split: if_splits)

lemma session_job_stops_inv:
  assumes "session_job_step t j j'" and "stops_inv s0 h j"
  shows "stops_inv s0 h j'"
  using assms
proof cases
  case (event now m r)
  with assms(2) show ?thesis
    by (auto simp: session_event_def persist_session_state_def job_stops_def
        intro: stops_inv_tx stops_inv_cong split: option.splits live_message.splits if_splits)
next
  case (monitor now ids clock r)
  with assms(2) show ?thesis
    by (auto simp: monitor_session_def Let_def intro: stops_inv_tx stops_inv_unwanted(1) split: prod.splits sum.splits)
next
  case (shutdown ids clock)
  with assms(2) show ?thesis by (simp add: request_stop_def stops_inv_send)
qed (use assms(2) in \<open>auto intro: stops_inv_cong simp: job_stops_def [of "j\<lparr>jb_db := _\<rparr>"] job_stops_def [of j]\<close>)

text \<open>
  However the monitor, shutdown requests, the event handler, the writer and other transactions
  interleave, the stop commands of a session's run are numbered consecutively and all carry the
  header of that run, and however often the monitor finds the session unwanted, exactly one stop
  command is sent for it.
\<close>

theorem session_stops_consecutive:
  assumes "command_queue_init n = Inr q" and "(session_job_step t)\<^sup>*\<^sup>* (start_job q s0 start db) j"
  shows "stops_inv s0 (sc_header start) j"
  using assms(2)
  by (induction rule: rtranclp_induct) (auto intro: session_job_stops_inv stops_inv_start [OF assms(1)])

section \<open>How a run ends\<close>

lemma read_loop_stopped:
  assumes "read_loop unpackb (logged on_event) ctx prev stopped (s, l) stdout = ((s', l'), Inr st)"
  shows "\<exists>new. l' = l @ new \<and> st = foldl next_stopped stopped new"
  using assms
proof (induction "length stdout" arbitrary: stdout ctx prev stopped s l rule: less_induct)
  case less
  let ?n = "unpack_be32 (take HEADER_SIZE stdout)"
  consider "stdout = []" "l' = l" "st = stopped"
    | ctx' m s1 where "HEADER_SIZE \<le> length stdout"
      "read_loop unpackb (logged on_event) ctx' (hd_sequence (header_of m)) (next_stopped stopped m) (s1, l @ [m])
         (drop (HEADER_SIZE + ?n) stdout) = ((s', l'), Inr st)"
    using less.prems
    by (subst (asm) read_loop.simps)
       (auto simp: Let_def logged_def next_stopped_def split: if_splits sum.splits prod.splits)
  then show ?case
  proof cases
    case 2
    then have "length (drop (HEADER_SIZE + ?n) stdout) < length stdout" by (simp add: HEADER_SIZE_def)
    from less.hyps [OF this 2(2)] obtain new where "l' = l @ [m] @ new" "st = foldl next_stopped (next_stopped stopped m) new"
      by auto
    then show ?thesis by (intro exI [of _ "m # new"]) simp
  qed simp
qed

lemma no_stopped: "(\<And>e. StoppedEvent e \<notin> set ms) \<Longrightarrow> foldl next_stopped st ms = st"
  by (induction ms arbitrary: st) (auto simp: next_stopped_def split: live_message.splits)

text \<open>
  A failure the worker reports is forgotten unless the worker then reports an orderly stop: if
  the events it delivers contain no stopped event, the run is recorded with the generic code,
  whatever code a failed event carried. The native worker sends no stopped event once its pipeline
  has failed.
\<close>

theorem failed_event_code_discarded:
  assumes "native_run unpackb str_exc (logged on_event) start rc (s, []) stdout = ((s', events), ending)"
    and "\<And>e. StoppedEvent e \<notin> set events"
  shows "session_outcome (Runner ending) failed = Some (''FAILED'', Some ''LIVE_PIPELINE_ERROR'')"
proof -
  have "st = None" if "read_events unpackb (logged on_event) (sc_header start) (s, []) stdout = ((s', events), Inr st)" for st
    using that read_loop_stopped [of unpackb on_event] no_stopped [OF assms(2)]
    by (auto simp: read_events_def split: sum.splits) fastforce
  then have "\<exists>msg. ending = RunnerFailed ''LIVE_PIPELINE_ERROR'' msg"
    using assms(1) by (auto simp: native_run_def split: prod.splits sum.splits option.splits if_splits)
  then show ?thesis by auto
qed

lemma finish_run_settles:
  assumes "finish_run rid h now state code db = Inr (db', b)" and "state \<in> set SESSION_TERMINAL_STATES"
    and "row_get srun_id rid (db_runs db') = Some row"
  shows "srun_state row = state \<and> srun_error_code row = code \<and> srun_lease_token row = None \<or> \<not> owned h now row"
proof (cases "row_get srun_id rid (db_runs db)")
  case None
  with assms show ?thesis by (simp add: finish_run_def fenced_srun_def)
next
  case (Some r)
  show ?thesis
  proof (cases "owned h now r")
    case True
    with assms Some have "db_runs db' = row_update srun_id rid (finish_srun now state code) (db_runs db)"
      by (auto simp: finish_run_def fenced_srun_def)
    moreover have "row_get srun_id rid (row_update srun_id rid (finish_srun now state code) (db_runs db)) = Some (finish_srun now state code r)"
      using Some row_get_update_same [of srun_id "finish_srun now state code" rid "db_runs db"] by (simp add: finish_srun_def)
    ultimately show ?thesis using assms(3) by (auto simp: finish_srun_def)
  next
    case False
    with assms Some show ?thesis by (auto simp: finish_run_def fenced_srun_def)
  qed
qed

definition settled_row :: "session_cred \<Rightarrow> time \<Rightarrow> session_run \<Rightarrow> bool" where
  "settled_row h now row =
     (srun_state row = ''STOPPED'' \<and> srun_error_code row = None \<and> srun_lease_token row = None
      \<or> srun_state row = ''FAILED'' \<and> srun_error_code row \<noteq> None \<and> srun_lease_token row = None
      \<or> \<not> owned h now row)"

definition proper_outcome :: "string \<times> string option \<Rightarrow> bool" where
  "proper_outcome oc = (fst oc = ''STOPPED'' \<and> snd oc = None \<or> fst oc = ''FAILED'' \<and> snd oc \<noteq> None)"

lemma session_outcome_proper:
  "session_outcome ending f = Some oc \<Longrightarrow> proper_outcome oc" "session_outcome ending f = None \<Longrightarrow> ending = MonitorLost"
  by (cases "(ending, f)" rule: session_outcome.cases; auto simp: proper_outcome_def split: option.splits)+

lemma finish_session_settles:
  assumes "finish_session t now state code db = (db', r)" and "proper_outcome (state, code)"
    and "row_get srun_id (srun_id (st_run t)) (db_runs db') = Some row"
    and "r = Inr () \<or> (\<exists>c. r = Inl (LeaseLost c))"
  shows "settled_row (st_cred t) now row"
proof -
  have st: "state \<in> set SESSION_TERMINAL_STATES" using assms(2) by (auto simp: proper_outcome_def SESSION_TERMINAL_STATES_def)
  then obtain b where "finish_run (srun_id (st_run t)) (st_cred t) now state code db = Inr (db', b)"
    using assms(1) by (auto simp: finish_session_def finish_run_def split: prod.splits option.splits)
  from finish_run_settles [OF this st assms(3)] assms(2) show ?thesis
    by (auto simp: settled_row_def proper_outcome_def)
qed


section \<open>Witnesses\<close>

theorem session_stops_consecutive_witness:
  "\<exists>q s. command_queue_init 4 = Inr q
    \<and> session_start_command sample_live sample_ids sample_session_run sample_running = Inr s
    \<and> stops_inv 2 (sc_header s) (write_one (request_stop sample_ids 7 (request_stop sample_ids 5 (start_job q 2 s empty_db))))"
proof -
  obtain q where q: "command_queue_init 4 = Inr q" by (simp add: command_queue_init_def)
  obtain s where s: "session_start_command sample_live sample_ids sample_session_run sample_running = Inr s"
    using sample_session_starts by blast
  let ?t = "\<lparr>st_run = sample_session_run, st_cred = (''w'', None, ''g1'', 1), st_lease_seconds = 30\<rparr>"
  have "(session_job_step ?t)\<^sup>*\<^sup>* (start_job q 2 s empty_db)
      (write_one (request_stop sample_ids 7 (request_stop sample_ids 5 (start_job q 2 s empty_db))))"
    by (rule rtranclp.rtrancl_into_rtrancl [OF rtranclp.rtrancl_into_rtrancl [OF r_into_rtranclp
        [of "session_job_step ?t", OF session_job_step.shutdown] session_job_step.shutdown] session_job_step.writer])
  from session_stops_consecutive [OF q this] q s show ?thesis by blast
qed

theorem failed_event_code_discarded_witness:
  "\<exists>s ending. native_run sample_unpack (\<lambda>_. []) (logged (\<lambda>s m. (s, Inr ()))) s 0 ((), []) [0, 0, 0, 1, 7]
        = (((), [sample_stop 3]), ending)
    \<and> session_outcome (Runner ending) (Some \<lparr>fe_header = sc_header s, fe_error_code = ''LIVE_SOURCE_LOST'', fe_message = []\<rparr>)
      = Some (''FAILED'', Some ''LIVE_PIPELINE_ERROR'')"
proof -
  let ?s = "camera_start_command sample_live (sample_run ''r'' 1 ''t'' 0) []\<lparr>sc_header := sample_header ''start'' 0\<rparr>"
  have run: "native_run sample_unpack (\<lambda>_. []) (logged (\<lambda>s m. (s, Inr ()))) ?s 0 ((), []) [0, 0, 0, 1, 7]
      = (((), [sample_stop 3]), RunnerFailed ''LIVE_PIPELINE_ERROR'' ''Native live worker exited without a stopped event'')"
    using sample_read by (simp add: native_run_def)
  have none: "StoppedEvent e \<notin> set [sample_stop 3]" for e by (simp add: sample_stop_def)
  show ?thesis
    by (rule exI [of _ ?s], rule exI, rule conjI [OF run], rule failed_event_code_discarded [OF run none])
qed


end
