(* ===== verification/Face_Matching.thy ===== *)
theory Face_Matching
  imports Leases Py_Values Vectors "HOL-Library.Product_Lexorder"
begin

text \<open>
  Face identities and how a track is matched to one: the \<open>face_identity\<close> table and its repository
  (\<open>src/backend/app/infrastructure/database\<close>), \<open>FaceMatcher\<close>
  (\<open>src/backend/app/services/face_matcher.py\<close>) and \<open>VideoIdentityVotingService\<close>
  (\<open>src/backend/app/services/video_identity_voting_service.py\<close>). The vector index is a parameter:
  its answers to a search are arguments. The logging of the votes is left out.
\<close>

section \<open>Identities\<close>

record face_identity =
  fi_face_id :: string
  fi_lifecycle_status :: string
  fi_name :: "string option"
  fi_metadata :: pydict
  fi_is_active :: bool
  fi_version :: int
  fi_deleted_at :: "time option"

definition identity_constraints :: "face_identity \<Rightarrow> bool" where
  "identity_constraints i =
     (fi_lifecycle_status i \<in> {''anonymous'', ''known''}
      \<and> (fi_lifecycle_status i = ''known'' \<or> fi_name i = None \<and> fi_metadata i = [])
      \<and> (fi_lifecycle_status i = ''anonymous''
         \<or> (case fi_name i of None \<Rightarrow> False | Some n \<Rightarrow> 0 < length n)))"

definition identities_ok :: "face_identity list \<Rightarrow> bool" where
  "identities_ok ids = (distinct (map fi_face_id ids) \<and> list_all identity_constraints ids)"

definition identity_create ::
  "string \<Rightarrow> string \<Rightarrow> string option \<Rightarrow> pydict option \<Rightarrow> face_identity list \<Rightarrow> face_identity list result"
where
  "identity_create fid status name metadata ids =
     checked identities_ok (ids @
       [\<lparr>fi_face_id = fid, fi_lifecycle_status = status, fi_name = name,
         fi_metadata = (case metadata of None \<Rightarrow> [] | Some m \<Rightarrow> m), fi_is_active = True,
         fi_version = 1, fi_deleted_at = None\<rparr>])"

definition get_by_id :: "string \<Rightarrow> face_identity list \<Rightarrow> face_identity option" where
  "get_by_id fid ids = row_get fi_face_id fid ids"

definition get_active_by_id :: "string \<Rightarrow> face_identity list \<Rightarrow> face_identity option" where
  "get_active_by_id fid ids = find (\<lambda>i. fi_face_id i = fid \<and> fi_is_active i) ids"

definition active_update ::
  "string \<Rightarrow> (face_identity \<Rightarrow> face_identity) \<Rightarrow> face_identity list \<Rightarrow>
   (face_identity list \<times> face_identity option) result"
where
  "active_update fid f ids =
     (case get_active_by_id fid ids of
        None \<Rightarrow> Inr (ids, None)
      | Some i \<Rightarrow>
          rbind (checked identities_ok
              (map (\<lambda>i. if fi_face_id i = fid \<and> fi_is_active i then f i else i) ids))
            (\<lambda>ids'. Inr (ids', Some (f i))))"

definition update_known ::
  "string \<Rightarrow> string \<Rightarrow> pydict option \<Rightarrow> face_identity list \<Rightarrow>
   (face_identity list \<times> face_identity option) result"
where
  "update_known fid name metadata =
     active_update fid (\<lambda>i. i\<lparr>fi_lifecycle_status := ''known'', fi_name := Some name,
       fi_metadata := (case metadata of None \<Rightarrow> [] | Some m \<Rightarrow> m), fi_version := fi_version i + 1\<rparr>)"

definition identity_soft_delete ::
  "string \<Rightarrow> time \<Rightarrow> face_identity list \<Rightarrow> (face_identity list \<times> face_identity option) result" where
  "identity_soft_delete fid now =
     active_update fid (\<lambda>i. i\<lparr>fi_is_active := False, fi_deleted_at := Some now,
       fi_version := fi_version i + 1\<rparr>)"

section \<open>Matching\<close>

record face_match =
  fm_identity :: face_identity
  fm_sample_id :: string
  fm_score :: real

text \<open>A hit of the vector index; \<open>hit_face_id\<close> is the payload's \<open>face_id\<close>, if it has one.\<close>

record vector_hit =
  hit_face_id :: "string option"
  hit_sample_id :: string
  hit_score :: real

record match_settings =
  recognition_threshold :: real
  anonymous_threshold :: real
  vote_candidate_floor :: real
  vote_min_count :: int
  vote_min_support_ratio :: real
  vote_min_margin :: real

definition clamp_unit :: "real \<Rightarrow> real" where
  "clamp_unit x = min 1 (max 0 x)"

fun hit_matches :: "face_identity list \<Rightarrow> real \<Rightarrow> vector_hit list \<Rightarrow> face_match list" where
  "hit_matches ids minimum [] = []"
| "hit_matches ids minimum (h # hs) =
     (case hit_face_id h of
        None \<Rightarrow> hit_matches ids minimum hs
      | Some fid \<Rightarrow>
          if fid = '''' then hit_matches ids minimum hs
          else case get_active_by_id fid ids of
            None \<Rightarrow> hit_matches ids minimum hs
          | Some i \<Rightarrow>
              (if minimum \<le> clamp_unit (hit_score h)
               then [\<lparr>fm_identity = i, fm_sample_id = hit_sample_id h,
                      fm_score = clamp_unit (hit_score h)\<rparr>] else [])
              @ hit_matches ids minimum hs)"

definition candidates_batch ::
  "face_identity list \<Rightarrow> real \<Rightarrow> vector_hit list list \<Rightarrow> face_match list list" where
  "candidates_batch ids minimum groups = map (hit_matches ids minimum) groups"

definition strong_threshold :: "match_settings \<Rightarrow> face_identity \<Rightarrow> real" where
  "strong_threshold s i =
     (if fi_lifecycle_status i = ''known'' then recognition_threshold s else anonymous_threshold s)"

definition face_match_of ::
  "match_settings \<Rightarrow> face_identity list \<Rightarrow> vector_hit list \<Rightarrow> face_match option" where
  "face_match_of s ids hits =
     find (\<lambda>c. strong_threshold s (fm_identity c) \<le> fm_score c) (hit_matches ids 0 hits)"

section \<open>Voting\<close>

record track_template =
  tt_embedding :: "real list"
  tt_detection_count :: nat
  tt_best_confidence :: real

record identity_decision =
  vd_match :: "face_match option"
  vd_score :: "real option"

record identity_support =
  is_identity :: face_identity
  is_votes :: int
  is_weight :: real
  is_weighted_score :: real
  is_best_match :: "face_match option"
  is_scores :: "real list"

definition mean_score :: "identity_support \<Rightarrow> real" where
  "mean_score i = is_weighted_score i / is_weight i"

definition new_support :: "face_identity \<Rightarrow> identity_support" where
  "new_support i =
     \<lparr>is_identity = i, is_votes = 0, is_weight = 0, is_weighted_score = 0, is_best_match = None,
      is_scores = []\<rparr>"

type_synonym support = "(string \<times> identity_support) list"

definition face_of :: "face_match \<Rightarrow> string" where
  "face_of c = fi_face_id (fm_identity c)"

text \<open>The best candidate of each identity that passes the floor, in order of first appearance.\<close>

fun best_by_identity ::
  "match_settings \<Rightarrow> (string \<times> face_match) list \<Rightarrow> face_match list \<Rightarrow> (string \<times> face_match) list" where
  "best_by_identity s best [] = best"
| "best_by_identity s best (c # cs) =
     best_by_identity s
       (if fm_score c < min (strong_threshold s (fm_identity c)) (vote_candidate_floor s) then best
        else case map_of best (face_of c) of
          None \<Rightarrow> dict_put (face_of c) c best
        | Some cur \<Rightarrow> if fm_score cur < fm_score c then dict_put (face_of c) c best else best)
       cs"

definition add_vote :: "real \<Rightarrow> face_match \<Rightarrow> identity_support \<Rightarrow> identity_support" where
  "add_vote w c i =
     i\<lparr>is_votes := is_votes i + 1, is_weight := is_weight i + w,
       is_weighted_score := is_weighted_score i + fm_score c * w,
       is_scores := is_scores i @ [fm_score c],
       is_best_match := (case is_best_match i of
          None \<Rightarrow> Some c
        | Some b \<Rightarrow> if fm_score b < fm_score c then Some c else Some b)\<rparr>"

definition cast_vote :: "real \<Rightarrow> face_match \<Rightarrow> support \<Rightarrow> support" where
  "cast_vote w c sp =
     dict_put (face_of c)
       (add_vote w c (case map_of sp (face_of c) of None \<Rightarrow> new_support (fm_identity c) | Some i \<Rightarrow> i))
       sp"

definition template_weight :: "track_template \<Rightarrow> real" where
  "template_weight t = 1 + ln (1 + real (tt_detection_count t))"

definition eligible :: "string set \<Rightarrow> face_match \<Rightarrow> bool" where
  "eligible statuses c = (fi_lifecycle_status (fm_identity c) \<in> statuses)"

definition nearest_update :: "real option \<Rightarrow> face_match list \<Rightarrow> real option" where
  "nearest_update near active =
     (if active = [] then near
      else let m = Max (fm_score ` set active)
           in Some (case near of None \<Rightarrow> m | Some n \<Rightarrow> max n m))"

record vote_state =
  vs_support :: support
  vs_total_weight :: real
  vs_nearest :: "real option"

definition vote_template ::
  "match_settings \<Rightarrow> string set \<Rightarrow> vote_state \<Rightarrow> track_template \<times> face_match list \<Rightarrow> vote_state" where
  "vote_template s statuses st p =
     (case p of (t, cands) \<Rightarrow>
        let active = filter (eligible statuses) cands; w = template_weight t
        in \<lparr>vs_support =
              fold (\<lambda>(_, c). cast_vote w c) (best_by_identity s [] active) (vs_support st),
            vs_total_weight = vs_total_weight st + w,
            vs_nearest = nearest_update (vs_nearest st) active\<rparr>)"

text \<open>Descending by mean score, then weight; ties keep the order of the dictionary.\<close>

definition ranked :: "support \<Rightarrow> identity_support list" where
  "ranked sp = sort_key (\<lambda>i. (- mean_score i, - is_weight i)) (map snd sp)"

definition decide :: "match_settings \<Rightarrow> vote_state \<Rightarrow> identity_decision result" where
  "decide s st =
     (case ranked (vs_support st) of
        [] \<Rightarrow> Inr \<lparr>vd_match = None, vd_score = vs_nearest st\<rparr>
      | winner # rest \<Rightarrow>
          let runner = (case rest of [] \<Rightarrow> 0 | r # _ \<Rightarrow> mean_score r);
              strong = strong_threshold s (is_identity winner) \<le> Max (set (is_scores winner));
              consensus = vote_min_count s \<le> is_votes winner
                \<and> vote_min_support_ratio s \<le> is_weight winner / vs_total_weight st
          in if \<not> (strong \<or> consensus) then Inr \<lparr>vd_match = None, vd_score = vs_nearest st\<rparr>
             else if mean_score winner - runner < vote_min_margin s
             then Inr \<lparr>vd_match = None, vd_score = Some (mean_score winner)\<rparr>
             else case is_best_match winner of
               None \<Rightarrow> Inl AssertionError
             | Some b \<Rightarrow>
                 let score = clamp_unit (mean_score winner)
                 in Inr \<lparr>vd_match = Some \<lparr>fm_identity = is_identity winner,
                            fm_sample_id = fm_sample_id b, fm_score = score\<rparr>,
                         vd_score = Some score\<rparr>)"

definition tally ::
  "match_settings \<Rightarrow> string set \<Rightarrow> track_template list \<Rightarrow> face_match list list \<Rightarrow> vote_state" where
  "tally s statuses templates groups =
     foldl (vote_template s statuses) \<lparr>vs_support = [], vs_total_weight = 0, vs_nearest = None\<rparr>
       (zip templates groups)"

text \<open>\<open>zip(..., strict=True)\<close> raises ValueError when the two lengths differ.\<close>

definition voting_resolve ::
  "match_settings \<Rightarrow> string set \<Rightarrow> track_template list \<Rightarrow> face_match list list \<Rightarrow>
   identity_decision result"
where
  "voting_resolve s statuses templates groups =
     (if length templates \<noteq> length groups then Inl (ValueError ''zip'')
      else decide s (tally s statuses templates groups))"

section \<open>Candidates\<close>

lemma clamp_unit_bounds [simp]: "0 \<le> clamp_unit x" "clamp_unit x \<le> 1"
  by (simp_all add: clamp_unit_def)

lemma get_active_by_id_Some:
  "get_active_by_id fid ids = Some i \<Longrightarrow> i \<in> set ids \<and> fi_face_id i = fid \<and> fi_is_active i"
  by (auto simp: get_active_by_id_def find_Some_iff)

lemma hit_matches_sound:
  "c \<in> set (hit_matches ids minimum hits) \<Longrightarrow>
     fm_identity c \<in> set ids \<and> fi_is_active (fm_identity c) \<and> minimum \<le> fm_score c
     \<and> 0 \<le> fm_score c \<and> fm_score c \<le> 1
     \<and> (\<exists>h \<in> set hits. hit_face_id h = Some (face_of c) \<and> hit_sample_id h = fm_sample_id c)"
proof (induction hits)
  case (Cons h hits)
  then show ?case
    by (auto simp: face_of_def dest: get_active_by_id_Some split: option.splits if_splits)
qed simp

lemma face_match_sound:
  "face_match_of s ids hits = Some m \<Longrightarrow>
     fm_identity m \<in> set ids \<and> fi_is_active (fm_identity m) \<and> strong_threshold s (fm_identity m) \<le> fm_score m"
  using hit_matches_sound [of m ids 0 hits] by (auto simp: face_match_of_def find_Some_iff)

text \<open>
  The matcher returns only active identities the index named, whose score lies in the unit
  interval and reaches the threshold of the identity's lifecycle; it returns none exactly when no
  active candidate reaches its threshold.
\<close>

theorem face_match_correct:
  "case face_match_of s ids hits of
     None \<Rightarrow> \<not> (\<exists>c \<in> set (hit_matches ids 0 hits). strong_threshold s (fm_identity c) \<le> fm_score c)
   | Some m \<Rightarrow> fm_identity m \<in> set ids \<and> fi_is_active (fm_identity m)
       \<and> strong_threshold s (fm_identity m) \<le> fm_score m \<and> fm_score m \<le> 1
       \<and> (\<exists>h \<in> set hits. hit_face_id h = Some (face_of m) \<and> hit_sample_id h = fm_sample_id m)"
proof (cases "face_match_of s ids hits")
  case None
  then have "\<not> (\<exists>c \<in> set (hit_matches ids 0 hits). strong_threshold s (fm_identity c) \<le> fm_score c)"
    by (auto simp: face_match_of_def find_None_iff)
  with None show ?thesis by simp
next
  case (Some m)
  then have "m \<in> set (hit_matches ids 0 hits)" "strong_threshold s (fm_identity m) \<le> fm_score m"
    by (auto simp: face_match_of_def find_Some_iff)
  with hit_matches_sound [of m ids 0 hits] Some show ?thesis by simp
qed

section \<open>The tally\<close>

text \<open>What a vote for one identity has collected, relative to the candidates \<open>C\<close> it came from.\<close>

definition item_ok :: "face_match set \<Rightarrow> identity_support \<Rightarrow> bool" where
  "item_ok C i =
     (is_scores i \<noteq> [] \<and> 0 < is_weight i \<and> is_votes i = int (length (is_scores i))
      \<and> set (is_scores i) \<subseteq> fm_score ` C
      \<and> Min (set (is_scores i)) * is_weight i \<le> is_weighted_score i
      \<and> is_weighted_score i \<le> Max (set (is_scores i)) * is_weight i
      \<and> is_identity i \<in> fm_identity ` C
      \<and> (\<exists>b \<in> C. is_best_match i = Some b \<and> face_of b = fi_face_id (is_identity i)
           \<and> fm_score b = Max (set (is_scores i))))"

lemma add_vote_new:
  assumes "c \<in> C" and "0 < w"
  shows "item_ok C (add_vote w c (new_support (fm_identity c)))"
  using assms by (simp add: item_ok_def add_vote_def new_support_def face_of_def)

lemma add_vote_ok:
  assumes ok: "item_ok C i" and c: "c \<in> C" "0 < w" "face_of c = fi_face_id (is_identity i)"
  shows "item_ok C (add_vote w c i)"
proof -
  let ?S = "set (is_scores i)" and ?x = "fm_score c"
  from ok obtain b where b: "b \<in> C" "is_best_match i = Some b" "face_of b = fi_face_id (is_identity i)"
    "fm_score b = Max ?S" and ne: "is_scores i \<noteq> []"
    by (auto simp: item_ok_def)
  have max: "Max (insert ?x ?S) = max ?x (Max ?S)" and min: "Min (insert ?x ?S) = min ?x (Min ?S)"
    using ne by (simp_all add: Max_insert Min_insert)
  have bounds: "0 < is_weight i" "Min ?S * is_weight i \<le> is_weighted_score i"
    "is_weighted_score i \<le> Max ?S * is_weight i"
    using ok by (simp_all add: item_ok_def)
  have up: "is_weighted_score i + ?x * w \<le> max ?x (Max ?S) * (is_weight i + w)"
  proof -
    have "is_weighted_score i \<le> Max ?S * is_weight i" using bounds by simp
    also have "\<dots> \<le> max ?x (Max ?S) * is_weight i" using bounds by (intro mult_right_mono) simp_all
    finally have "is_weighted_score i \<le> max ?x (Max ?S) * is_weight i" .
    moreover have "?x * w \<le> max ?x (Max ?S) * w" using c(2) by (simp add: mult_right_mono)
    ultimately show ?thesis by (simp add: distrib_left)
  qed
  have low: "min ?x (Min ?S) * (is_weight i + w) \<le> is_weighted_score i + ?x * w"
  proof -
    have "min ?x (Min ?S) * is_weight i \<le> Min ?S * is_weight i" using bounds by (intro mult_right_mono) simp_all
    also have "\<dots> \<le> is_weighted_score i" using bounds by simp
    finally have "min ?x (Min ?S) * is_weight i \<le> is_weighted_score i" .
    moreover have "min ?x (Min ?S) * w \<le> ?x * w" using c(2) by (simp add: mult_right_mono)
    ultimately show ?thesis by (simp add: distrib_left)
  qed
  let ?i = "add_vote w c i"
  have scores: "set (is_scores ?i) = insert ?x ?S" by (simp add: add_vote_def)
  have best: "\<exists>d \<in> C. is_best_match ?i = Some d \<and> face_of d = fi_face_id (is_identity ?i)
      \<and> fm_score d = Max (set (is_scores ?i))"
    unfolding scores max b(4) [symmetric] using b(1-3) c by (cases "fm_score b < ?x") (simp_all add: add_vote_def)
  have "is_scores ?i \<noteq> []" "0 < is_weight ?i" "is_votes ?i = int (length (is_scores ?i))"
    "set (is_scores ?i) \<subseteq> fm_score ` C" "is_identity ?i \<in> fm_identity ` C"
    using ok c by (simp_all add: item_ok_def add_vote_def)
  moreover have "Min (set (is_scores ?i)) * is_weight ?i \<le> is_weighted_score ?i"
    "is_weighted_score ?i \<le> Max (set (is_scores ?i)) * is_weight ?i"
    unfolding scores max min using up low by (simp_all add: add_vote_def)
  ultimately show ?thesis using best unfolding item_ok_def by blast
qed

definition support_ok :: "face_match set \<Rightarrow> support \<Rightarrow> bool" where
  "support_ok C sp =
     (distinct (map fst sp) \<and>
      (\<forall>(f, i) \<in> set sp. f = fi_face_id (is_identity i) \<and> item_ok C i))"

lemma dict_put_set: "set (dict_put k v d) \<subseteq> insert (k, v) (set d)"
  by (induction d) (auto split: if_splits)

lemma cast_vote_ok:
  assumes "support_ok C sp" and "c \<in> C" and "0 < w"
  shows "support_ok C (cast_vote w c sp)"
proof -
  define i where "i = add_vote w c
      (case map_of sp (face_of c) of None \<Rightarrow> new_support (fm_identity c) | Some i \<Rightarrow> i)"
  have "fi_face_id (is_identity i) = face_of c \<and> item_ok C i"
  proof (cases "map_of sp (face_of c)")
    case None
    with add_vote_new [OF assms(2,3)] show ?thesis
      by (simp add: i_def) (simp add: add_vote_def new_support_def face_of_def)
  next
    case (Some j)
    with assms(1) have j: "face_of c = fi_face_id (is_identity j)" "item_ok C j"
      by (auto simp: support_ok_def dest: map_of_SomeD)
    with add_vote_ok [OF j(2) assms(2,3)] Some show ?thesis by (simp add: i_def) (simp add: add_vote_def)
  qed
  moreover have "cast_vote w c sp = dict_put (face_of c) i sp" by (simp add: cast_vote_def i_def)
  ultimately show ?thesis
    using assms(1) dict_put_set [of "face_of c" i sp] distinct_dict_put [of sp "face_of c" i]
    by (fastforce simp: support_ok_def)
qed

lemma best_by_identity_set:
  assumes "\<And>p. p \<in> set best \<Longrightarrow> P (snd p)"
    and "\<And>c. c \<in> set cs \<Longrightarrow> min (strong_threshold s (fm_identity c)) (vote_candidate_floor s) \<le> fm_score c \<Longrightarrow> P c"
  shows "p \<in> set (best_by_identity s best cs) \<Longrightarrow> P (snd p)"
  using assms
proof (induction cs arbitrary: best p)
  case (Cons c cs)
  let ?best = "if fm_score c < min (strong_threshold s (fm_identity c)) (vote_candidate_floor s) then best
        else case map_of best (face_of c) of
          None \<Rightarrow> dict_put (face_of c) c best
        | Some cur \<Rightarrow> if fm_score cur < fm_score c then dict_put (face_of c) c best else best"
  have "P (snd q)" if q: "q \<in> set ?best" for q
  proof (cases "fm_score c < min (strong_threshold s (fm_identity c)) (vote_candidate_floor s)")
    case False
    then have "min (strong_threshold s (fm_identity c)) (vote_candidate_floor s) \<le> fm_score c"
      by (simp only: not_less)
    then have "P c" using Cons.prems(3) [of c] by simp
    moreover from False q have "q \<in> insert (face_of c, c) (set best)"
      using dict_put_set [of "face_of c" c best] by (auto split: if_splits option.splits)
    ultimately show ?thesis using Cons.prems(2) by (cases q) auto
  qed (use q Cons.prems(2) in simp)
  with Cons.IH [of p ?best] Cons.prems show ?case by simp
qed simp

lemma template_weight_pos: "0 < template_weight t"
proof -
  have "0 \<le> ln (1 + real (tt_detection_count t))" by (rule ln_ge_zero) simp
  then show ?thesis unfolding template_weight_def by linarith
qed

text \<open>The candidates that count: of an eligible lifecycle and above the floor.\<close>

definition counted :: "match_settings \<Rightarrow> string set \<Rightarrow> face_match list list \<Rightarrow> face_match set" where
  "counted s statuses groups =
     {c. \<exists>g \<in> set groups. c \<in> set g \<and> eligible statuses c
        \<and> min (strong_threshold s (fm_identity c)) (vote_candidate_floor s) \<le> fm_score c}"

lemma fold_cast_ok:
  assumes "support_ok C sp" and "\<And>p. p \<in> set ps \<Longrightarrow> snd p \<in> C" and "0 < w"
  shows "support_ok C (fold (\<lambda>(_, c). cast_vote w c) ps sp)"
  using assms
proof (induction ps arbitrary: sp)
  case (Cons p ps)
  obtain k c where p: "p = (k, c)" by (cases p)
  have "c \<in> C" using Cons.prems(2) [of p] p by simp
  with Cons.prems(1,3) have "support_ok C (cast_vote w c sp)" by (intro cast_vote_ok)
  with Cons p show ?case by simp
qed simp

lemma tally_ok:
  assumes "length templates = length groups"
  shows "support_ok (counted s statuses groups) (vs_support (tally s statuses templates groups))"
proof -
  let ?C = "counted s statuses groups"
  have step: "support_ok ?C (vs_support (vote_template s statuses st (t, cs)))"
    if "support_ok ?C (vs_support st)" "cs \<in> set groups" for st t cs
  proof -
    have "snd p \<in> ?C" if "p \<in> set (best_by_identity s [] (filter (eligible statuses) cs))" for p
      by (rule best_by_identity_set [where P = "\<lambda>c. c \<in> ?C", OF _ _ that])
         (use \<open>cs \<in> set groups\<close> in \<open>auto simp: counted_def\<close>)
    from fold_cast_ok [OF that(1) this template_weight_pos] show ?thesis
      by (simp add: vote_template_def Let_def)
  qed
  have folded: "support_ok ?C (vs_support (foldl (vote_template s statuses) st ps))"
    if "support_ok ?C (vs_support st)" "\<And>p. p \<in> set ps \<Longrightarrow> snd p \<in> set groups" for st ps
    using that
  proof (induction ps arbitrary: st)
    case (Cons p ps)
    obtain t cs where p: "p = (t, cs)" by (cases p)
    have "cs \<in> set groups" using Cons.prems(2) [of p] p by simp
    with Cons step [of st cs t] p show ?case by simp
  qed simp
  have zipped: "snd p \<in> set groups" if "p \<in> set (zip templates groups)" for p
    using that set_zip_rightD [of "fst p" "snd p" templates groups] by simp
  show ?thesis unfolding tally_def by (rule folded [OF _ zipped]) (simp add: support_ok_def)
qed

lemma ranked_set: "set (ranked sp) = snd ` set sp"
  by (simp add: ranked_def)

lemma ranked_order:
  assumes "ranked sp = w # rest" and "j \<in> set rest"
  shows "mean_score j \<le> (case rest of [] \<Rightarrow> 0 | r # _ \<Rightarrow> mean_score r)"
proof -
  have "sorted (map (\<lambda>i. (- mean_score i, - is_weight i)) (w # rest))"
    unfolding assms(1) [symmetric] ranked_def by simp
  with assms(2) show ?thesis by (cases rest) (auto simp: less_eq_prod_def)
qed

lemma decide_cases:
  assumes "support_ok C (vs_support st)"
  obtains (none) sc where "decide s st = Inr \<lparr>vd_match = None, vd_score = sc\<rparr>"
  | (matched) w rest b where "ranked (vs_support st) = w # rest" and "item_ok C w"
      and "is_best_match w = Some b"
      and "strong_threshold s (is_identity w) \<le> Max (set (is_scores w))
        \<or> vote_min_count s \<le> is_votes w \<and> vote_min_support_ratio s \<le> is_weight w / vs_total_weight st"
      and "(case rest of [] \<Rightarrow> 0 | r # _ \<Rightarrow> mean_score r) + vote_min_margin s \<le> mean_score w"
      and "decide s st = Inr \<lparr>vd_match = Some \<lparr>fm_identity = is_identity w, fm_sample_id = fm_sample_id b,
             fm_score = clamp_unit (mean_score w)\<rparr>, vd_score = Some (clamp_unit (mean_score w))\<rparr>"
proof (cases "ranked (vs_support st)")
  case Nil
  then show ?thesis by (intro none) (simp add: decide_def)
next
  case (Cons w rest)
  have "w \<in> set (ranked (vs_support st))" by (simp add: Cons)
  then have "w \<in> snd ` set (vs_support st)" by (simp only: ranked_set)
  with assms have ok: "item_ok C w" by (auto simp: support_ok_def)
  then obtain b where b: "is_best_match w = Some b" by (auto simp: item_ok_def)
  define strong where "strong = (strong_threshold s (is_identity w) \<le> Max (set (is_scores w))
        \<or> vote_min_count s \<le> is_votes w \<and> vote_min_support_ratio s \<le> is_weight w / vs_total_weight st)"
  define runner where "runner = (case rest of [] \<Rightarrow> 0 | r # _ \<Rightarrow> mean_score r)"
  have eq: "decide s st =
      (if \<not> strong then Inr \<lparr>vd_match = None, vd_score = vs_nearest st\<rparr>
       else if mean_score w - runner < vote_min_margin s
       then Inr \<lparr>vd_match = None, vd_score = Some (mean_score w)\<rparr>
       else Inr \<lparr>vd_match = Some \<lparr>fm_identity = is_identity w, fm_sample_id = fm_sample_id b,
             fm_score = clamp_unit (mean_score w)\<rparr>, vd_score = Some (clamp_unit (mean_score w))\<rparr>)"
    by (simp add: decide_def Cons b Let_def strong_def runner_def)
  show ?thesis
  proof (cases "strong \<and> \<not> mean_score w - runner < vote_min_margin s")
    case True
    then show ?thesis
      by (intro matched [OF Cons ok b]) (simp_all add: eq, simp_all add: strong_def runner_def)
  next
    case False
    with eq show ?thesis by (cases strong) (auto intro: none)
  qed
qed

lemma item_mean_bounds:
  assumes "item_ok C i"
  shows "Min (set (is_scores i)) \<le> mean_score i" and "mean_score i \<le> Max (set (is_scores i))"
  using assms by (simp_all add: item_ok_def mean_score_def pos_le_divide_eq pos_divide_le_eq)

text \<open>Where a reported match comes from; its score is clamped whatever the candidates' scores are.\<close>

lemma voting_match_source:
  assumes "voting_resolve s statuses templates groups = Inr d" and "vd_match d = Some m"
  shows "0 \<le> fm_score m \<and> fm_score m \<le> 1
    \<and> (\<exists>b \<in> counted s statuses groups. face_of b = face_of m)"
proof -
  have len: "length templates = length groups"
    and dec: "decide s (tally s statuses templates groups) = Inr d"
    using assms(1) by (auto simp: voting_resolve_def split: if_splits)
  from tally_ok [OF len, of s statuses] show ?thesis
  proof (cases rule: decide_cases [where s = s])
    case (none sc)
    with dec assms(2) show ?thesis by auto
  next
    case (matched w rest b)
    with dec assms(2) have "m = \<lparr>fm_identity = is_identity w, fm_sample_id = fm_sample_id b,
        fm_score = clamp_unit (mean_score w)\<rparr>"
      by auto
    with matched(2,3) show ?thesis by (auto simp: item_ok_def face_of_def)
  qed
qed


section \<open>Identities keep their constraints\<close>

lemma active_update_ok:
  "active_update fid f ids = Inr (ids', r) \<Longrightarrow> identities_ok ids \<Longrightarrow> identities_ok ids'"
  by (auto simp: active_update_def checked_def split: option.splits if_splits)

text \<open>
  A deleted identity is gone for every lookup of active identities and stays gone: neither a
  rename nor a second deletion finds it, and it can no longer be matched.
\<close>

theorem deleted_identity_never_matches:
  assumes "identity_soft_delete fid now ids = Inr (ids', r)"
  shows "get_active_by_id fid ids' = None
    \<and> update_known fid name md ids' = Inr (ids', None)
    \<and> identity_soft_delete fid now' ids' = Inr (ids', None)
    \<and> \<not> (\<exists>c \<in> set (hit_matches ids' minimum hits). face_of c = fid)"
proof -
  have gone: "get_active_by_id fid ids' = None"
  proof (cases "get_active_by_id fid ids")
    case None
    with assms show ?thesis by (simp add: identity_soft_delete_def active_update_def)
  next
    case (Some i)
    let ?f = "\<lambda>i. i\<lparr>fi_is_active := False, fi_deleted_at := Some now, fi_version := fi_version i + 1\<rparr>"
    from assms Some have "ids' = map (\<lambda>i. if fi_face_id i = fid \<and> fi_is_active i then ?f i else i) ids"
      by (simp add: identity_soft_delete_def active_update_def checked_def split: if_splits)
    then have "\<not> (fi_face_id x = fid \<and> fi_is_active x)" if "x \<in> set ids'" for x
      using that by (auto simp only: set_map split: if_splits) simp_all
    then show ?thesis unfolding get_active_by_id_def find_None_iff by blast
  qed
  then have "\<not> (\<exists>i \<in> set ids'. fi_face_id i = fid \<and> fi_is_active i)"
    by (auto simp: get_active_by_id_def find_None_iff)
  with hit_matches_sound have "\<not> (\<exists>c \<in> set (hit_matches ids' minimum hits). face_of c = fid)"
    unfolding face_of_def by blast
  with gone show ?thesis
    by (simp add: update_known_def identity_soft_delete_def active_update_def)
qed

section \<open>Witnesses\<close>

definition sample_identity :: face_identity where
  "sample_identity =
     \<lparr>fi_face_id = ''f'', fi_lifecycle_status = ''known'', fi_name = Some ''Ann'', fi_metadata = [],
      fi_is_active = True, fi_version = 1, fi_deleted_at = None\<rparr>"

definition sample_match_settings :: match_settings where
  "sample_match_settings =
     \<lparr>recognition_threshold = 6 / 10, anonymous_threshold = 7 / 10, vote_candidate_floor = 1 / 2,
      vote_min_count = 2, vote_min_support_ratio = 1 / 2, vote_min_margin = 5 / 100\<rparr>"

definition sample_match :: face_match where
  "sample_match = \<lparr>fm_identity = sample_identity, fm_sample_id = ''x'', fm_score = 8 / 10\<rparr>"

definition sample_template :: track_template where
  "sample_template = \<lparr>tt_embedding = [], tt_detection_count = 0, tt_best_confidence = 1\<rparr>"

lemma sample_vote:
  "voting_resolve sample_match_settings {''known''} [sample_template] [[sample_match]] =
     Inr \<lparr>vd_match = Some sample_match, vd_score = Some (8 / 10)\<rparr>"
  by (simp add: voting_resolve_def tally_def vote_template_def eligible_def sample_match_def
        sample_identity_def sample_match_settings_def sample_template_def template_weight_def
        strong_threshold_def cast_vote_def add_vote_def new_support_def face_of_def decide_def
        ranked_def mean_score_def clamp_unit_def Let_def)


lemma sample_delete:
  "identity_soft_delete ''f'' 5 [sample_identity] =
     Inr ([sample_identity\<lparr>fi_is_active := False, fi_deleted_at := Some 5, fi_version := 2\<rparr>],
          Some (sample_identity\<lparr>fi_is_active := False, fi_deleted_at := Some 5, fi_version := 2\<rparr>))"
  by (simp add: identity_soft_delete_def active_update_def get_active_by_id_def checked_def
        identities_ok_def identity_constraints_def sample_identity_def)

theorem deleted_identity_never_matches_witness:
  "get_active_by_id ''f'' [sample_identity\<lparr>fi_is_active := False, fi_deleted_at := Some 5, fi_version := 2\<rparr>] = None"
  using deleted_identity_never_matches [OF sample_delete] by blast

end
