(* ===== verification/Video_Tracking.thy ===== *)
theory Video_Tracking
  imports Face_Matching "HOL-Library.Multiset"
begin

text \<open>
  Reconciliation of the tracker's fragments into canonical tracks:
  \<open>src/backend/app/services/video_tracking_service.py\<close>, with the detection and track records of
  \<open>src/backend/app/infrastructure/video/protocol.py\<close>. \<open>fresh k\<close> is the k-th generated track id. An
  empty tuple has no first element, so the source only indexes the detections of tracks that have
  some; the model does the same.
\<close>

section \<open>Data\<close>

record video_detection =
  det_frame :: int
  det_timestamp :: real
  det_x :: real
  det_y :: real
  det_width :: real
  det_height :: real
  detector_confidence :: real
  det_landmarks :: "real list"

record track_output =
  to_tracker_id :: int
  to_embedding :: "real list"
  to_jpeg :: bytes
  to_detections :: "video_detection list"

record appearance =
  ap_start :: real
  ap_end :: real
  ap_start_frame :: int
  ap_end_frame :: int

record canonical_track =
  ct_track_id :: string
  ct_source_tracker_ids :: "int list"
  ct_embedding :: "real list"
  ct_jpeg :: bytes
  ct_detections :: "video_detection list"
  ct_appearances :: "appearance list"
  ct_first_seen :: real
  ct_last_seen :: real
  ct_total_duration :: real
  ct_source_templates :: "track_template list"

record working_track =
  wt_track_id :: string
  wt_source_tracker_ids :: "int list"
  wt_source_embeddings :: "real list list"
  wt_source_templates :: "track_template list"
  wt_embedding :: "real list"
  wt_jpeg :: bytes
  wt_representative_score :: real
  wt_detections :: "video_detection list"

section \<open>Helpers\<close>

definition overlaps :: "video_detection list \<Rightarrow> video_detection list \<Rightarrow> bool" where
  "overlaps left right =
     (det_frame (hd left) \<le> det_frame (last right) \<and> det_frame (hd right) \<le> det_frame (last left))"

definition cosine :: "real list \<Rightarrow> real list \<Rightarrow> real" where
  "cosine left right = (if length left \<noteq> length right \<or> left = [] then 0 else dot left right)"

definition normalize :: "real list \<Rightarrow> real list result" where
  "normalize values =
     (if vnorm values \<le> 0 then Inl (ValueError ''Track embedding is not normalizable'')
      else Inr (scale (vnorm values) values))"

definition best_confidence :: "video_detection list \<Rightarrow> real" where
  "best_confidence ds = Max (detector_confidence ` set ds)"

definition source_template :: "track_output \<Rightarrow> track_template" where
  "source_template raw =
     \<lparr>tt_embedding = to_embedding raw, tt_detection_count = length (to_detections raw),
      tt_best_confidence = best_confidence (to_detections raw)\<rparr>"

definition appearance_of :: "video_detection \<Rightarrow> video_detection \<Rightarrow> appearance" where
  "appearance_of start finish =
     \<lparr>ap_start = det_timestamp start, ap_end = det_timestamp finish,
      ap_start_frame = det_frame start, ap_end_frame = det_frame finish\<rparr>"

text \<open>\<open>round(x, 6)\<close>, to the nearest multiple of a millionth, ties to the even one.\<close>

definition round_half_even :: "real \<Rightarrow> int" where
  "round_half_even x =
     (let f = \<lfloor>x\<rfloor>; d = x - of_int f
      in if d < 1 / 2 then f else if 1 / 2 < d then f + 1 else if even f then f else f + 1)"

definition round6 :: "real \<Rightarrow> real" where
  "round6 x = of_int (round_half_even (x * 1000000)) / 1000000"

section \<open>Reconciliation\<close>

text \<open>\<open>enumerate\<close> from an index on, keeping the tracks that may absorb the fragment.\<close>

fun merge_candidates ::
  "real \<Rightarrow> track_output \<Rightarrow> nat \<Rightarrow> working_track list \<Rightarrow> (nat \<times> real) list" where
  "merge_candidates thr raw i [] = []"
| "merge_candidates thr raw i (t # ts) =
     (if \<not> overlaps (wt_detections t) (to_detections raw)
         \<and> list_all (\<lambda>e. thr \<le> cosine e (to_embedding raw)) (wt_source_embeddings t)
      then [(i, cosine (wt_embedding t) (to_embedding raw))] else [])
     @ merge_candidates thr raw (i + 1) ts"

text \<open>\<open>max(candidates, key=...)\<close> keeps the first of several maximal elements.\<close>

fun first_max :: "nat \<times> real \<Rightarrow> (nat \<times> real) list \<Rightarrow> nat \<times> real" where
  "first_max b [] = b"
| "first_max b (c # cs) = first_max (if snd b < snd c then c else b) cs"

definition new_track :: "string \<Rightarrow> track_output \<Rightarrow> working_track result" where
  "new_track tid raw =
     (let ds = sort_key det_frame (to_detections raw)
      in rbind (normalize (to_embedding raw)) (\<lambda>e.
           Inr \<lparr>wt_track_id = tid, wt_source_tracker_ids = [to_tracker_id raw],
                wt_source_embeddings = [to_embedding raw],
                wt_source_templates = [source_template raw], wt_embedding = e,
                wt_jpeg = to_jpeg raw, wt_representative_score = best_confidence ds,
                wt_detections = ds\<rparr>))"

definition absorb :: "track_output \<Rightarrow> working_track \<Rightarrow> working_track result" where
  "absorb raw t =
     rbind (normalize (map2 (+) (wt_embedding t) (to_embedding raw))) (\<lambda>e.
       let score = best_confidence (to_detections raw);
           better = to_jpeg raw \<noteq> [] \<and> wt_representative_score t < score
       in Inr (t\<lparr>wt_source_tracker_ids := wt_source_tracker_ids t @ [to_tracker_id raw],
                 wt_source_embeddings := wt_source_embeddings t @ [to_embedding raw],
                 wt_source_templates := wt_source_templates t @ [source_template raw],
                 wt_embedding := e,
                 wt_detections := sort_key det_frame (wt_detections t @ to_detections raw),
                 wt_representative_score := (if better then score else wt_representative_score t),
                 wt_jpeg := (if better then to_jpeg raw else wt_jpeg t)\<rparr>))"

definition place ::
  "real \<Rightarrow> (nat \<Rightarrow> string) \<Rightarrow> track_output \<Rightarrow> working_track list \<Rightarrow> working_track list result" where
  "place thr fresh raw working =
     (case merge_candidates thr raw 0 working of
        [] \<Rightarrow> rbind (new_track (fresh (length working)) raw) (\<lambda>t. Inr (working @ [t]))
      | c # cs \<Rightarrow>
          (let i = fst (first_max c cs)
           in rbind (absorb raw (working ! i)) (\<lambda>t. Inr (working[i := t]))))"

fun reconcile_loop ::
  "real \<Rightarrow> (nat \<Rightarrow> string) \<Rightarrow> working_track list \<Rightarrow> track_output list \<Rightarrow> working_track list result" where
  "reconcile_loop thr fresh working [] = Inr working"
| "reconcile_loop thr fresh working (raw # raws) =
     rbind (place thr fresh raw working) (\<lambda>w. reconcile_loop thr fresh w raws)"

fun appearances_loop ::
  "real \<Rightarrow> video_detection \<Rightarrow> video_detection \<Rightarrow> video_detection list \<Rightarrow> appearance list" where
  "appearances_loop gap start previous [] = [appearance_of start previous]"
| "appearances_loop gap start previous (d # ds) =
     (if gap < det_timestamp d - det_timestamp previous
      then appearance_of start previous # appearances_loop gap d d ds
      else appearances_loop gap start d ds)"

definition finalize :: "real \<Rightarrow> working_track \<Rightarrow> canonical_track" where
  "finalize gap t =
     (let ds = wt_detections t; aps = appearances_loop gap (hd ds) (hd ds) (tl ds)
      in \<lparr>ct_track_id = wt_track_id t, ct_source_tracker_ids = wt_source_tracker_ids t,
          ct_embedding = wt_embedding t, ct_jpeg = wt_jpeg t, ct_detections = ds,
          ct_appearances = aps, ct_first_seen = det_timestamp (hd ds),
          ct_last_seen = det_timestamp (last ds),
          ct_total_duration = round6 (sum_list (map (\<lambda>a. ap_end a - ap_start a) aps)),
          ct_source_templates = wt_source_templates t\<rparr>)"

definition ordered_fragments :: "track_output list \<Rightarrow> track_output list" where
  "ordered_fragments raws =
     sort_key (\<lambda>t. (det_frame (hd (to_detections t)), to_tracker_id t))
       (filter (\<lambda>t. to_detections t \<noteq> []) raws)"

definition reconcile ::
  "real \<Rightarrow> real \<Rightarrow> (nat \<Rightarrow> string) \<Rightarrow> track_output list \<Rightarrow> canonical_track list result" where
  "reconcile thr gap fresh raws =
     rbind (reconcile_loop thr fresh [] (ordered_fragments raws)) (\<lambda>w. Inr (map (finalize gap) w))"

section \<open>Every fragment lands in one track\<close>

definition frames_sorted :: "track_output \<Rightarrow> bool" where
  "frames_sorted f = sorted (map det_frame (to_detections f))"

definition frames_apart :: "track_output \<Rightarrow> track_output \<Rightarrow> bool" where
  "frames_apart f g =
     (\<forall>d \<in> set (to_detections f). \<forall>e \<in> set (to_detections g). det_frame d \<noteq> det_frame e)"

text \<open>When a later fragment may join a track that holds an earlier one.\<close>

definition compatible :: "real \<Rightarrow> track_output \<Rightarrow> track_output \<Rightarrow> bool" where
  "compatible thr f g =
     (thr \<le> cosine (to_embedding f) (to_embedding g) \<and> (frames_sorted g \<longrightarrow> frames_apart f g))"

text \<open>A working track and the fragments it was built from.\<close>

definition built_from :: "real \<Rightarrow> working_track \<Rightarrow> track_output list \<Rightarrow> bool" where
  "built_from thr t fs =
     (fs \<noteq> [] \<and> wt_source_tracker_ids t = map to_tracker_id fs
      \<and> wt_source_embeddings t = map to_embedding fs
      \<and> wt_source_templates t = map source_template fs
      \<and> mset (wt_detections t) = mset (concat (map to_detections fs))
      \<and> sorted (map det_frame (wt_detections t)) \<and> sorted_wrt (compatible thr) fs)"

lemma merge_candidates_sound:
  "(j, c) \<in> set (merge_candidates thr raw i ts) \<Longrightarrow>
     i \<le> j \<and> j < i + length ts \<and> \<not> overlaps (wt_detections (ts ! (j - i))) (to_detections raw)
     \<and> list_all (\<lambda>e. thr \<le> cosine e (to_embedding raw)) (wt_source_embeddings (ts ! (j - i)))"
proof (induction ts arbitrary: i)
  case (Cons t ts)
  show ?case
  proof (cases "(j, c) \<in> set (merge_candidates thr raw (i + 1) ts)")
    case True
    from Cons.IH [OF this] show ?thesis by (auto simp: nth_Cons')
  next
    case False
    with Cons.prems show ?thesis by (auto split: if_splits)
  qed
qed simp

lemma first_max_in: "first_max b cs \<in> set (b # cs)"
proof (induction cs arbitrary: b)
  case (Cons c cs)
  from Cons.IH [of "if snd b < snd c then c else b"] show ?case by (auto split: if_splits)
qed simp

lemma sorted_hull:
  assumes "sorted (map k xs)" and "x \<in> set xs"
  shows "k (hd xs) \<le> k x" and "k x \<le> k (last xs)"
proof -
  from assms(2) obtain i where i: "i < length xs" "xs ! i = x" by (auto simp: in_set_conv_nth)
  then have ne: "xs \<noteq> []" "0 < length xs" "length xs - 1 < length xs" by auto
  have "map k xs ! 0 \<le> map k xs ! i" "map k xs ! i \<le> map k xs ! (length xs - 1)"
    by (rule sorted_nth_mono [OF assms(1)]; use i in simp)+
  then have "k (xs ! 0) \<le> k x" "k x \<le> k (xs ! (length xs - 1))"
    using i ne by (simp_all only: nth_map)
  then show "k (hd xs) \<le> k x" "k x \<le> k (last xs)"
    unfolding hd_conv_nth [OF ne(1)] last_conv_nth [OF ne(1)] .
qed

lemma not_overlaps_apart:
  assumes "\<not> overlaps left right" and "sorted (map det_frame left)" and "sorted (map det_frame right)"
    and "d \<in> set left" and "e \<in> set right"
  shows "det_frame d \<noteq> det_frame e"
  using assms(1) sorted_hull [OF assms(2,4)] sorted_hull [OF assms(3,5)] by (auto simp: overlaps_def)

lemma new_track_built:
  assumes "new_track tid raw = Inr t"
  shows "built_from thr t [raw]"
  using assms by (auto simp: new_track_def Let_def rbind_Inr_iff built_from_def)

lemma absorb_built:
  assumes built: "built_from thr t fs" and "absorb raw t = Inr t'"
    and "\<not> overlaps (wt_detections t) (to_detections raw)"
    and "list_all (\<lambda>e. thr \<le> cosine e (to_embedding raw)) (wt_source_embeddings t)"
  shows "built_from thr t' (fs @ [raw])"
proof -
  have "compatible thr f raw" if "f \<in> set fs" for f
  proof -
    have "thr \<le> cosine (to_embedding f) (to_embedding raw)"
      using built assms(4) that by (auto simp: built_from_def list_all_iff)
    moreover have "frames_apart f raw" if "frames_sorted raw"
    proof -
      have "set (to_detections f) \<subseteq> set (wt_detections t)"
        using built \<open>f \<in> set fs\<close> mset_eq_setD [of "wt_detections t" "concat (map to_detections fs)"]
        by (auto simp: built_from_def)
      then show ?thesis
        using not_overlaps_apart [OF assms(3)] built that
        by (auto simp: frames_apart_def frames_sorted_def built_from_def)
    qed
    ultimately show ?thesis by (simp add: compatible_def)
  qed
  with built assms(2) show ?thesis
    by (auto simp: absorb_def Let_def rbind_Inr_iff built_from_def sorted_wrt_append)
qed

lemma mset_concat_update:
  "i < length gs \<Longrightarrow> mset (concat (gs[i := gs ! i @ [x]])) = mset (concat gs) + {#x#}"
proof (induction gs arbitrary: i)
  case (Cons g gs)
  then show ?case by (cases i) auto
qed simp

lemma place_built:
  assumes "list_all2 (built_from thr) ws gs" and "place thr fresh raw ws = Inr ws'"
  shows "\<exists>gs'. list_all2 (built_from thr) ws' gs' \<and> mset (concat gs') = mset (concat gs) + {#raw#}"
proof (cases "merge_candidates thr raw 0 ws")
  case Nil
  with assms(2) obtain t where "new_track (fresh (length ws)) raw = Inr t" "ws' = ws @ [t]"
    by (auto simp: place_def rbind_Inr_iff)
  with assms(1) new_track_built [of _ raw t thr] show ?thesis
    by (intro exI [of _ "gs @ [[raw]]"]) (simp add: list_all2_appendI)
next
  case (Cons c cs)
  define i where "i = fst (first_max c cs)"
  have "(i, snd (first_max c cs)) \<in> set (merge_candidates thr raw 0 ws)"
    using first_max_in [of c cs] Cons by (simp add: i_def)
  from merge_candidates_sound [OF this] have i: "i < length ws"
    "\<not> overlaps (wt_detections (ws ! i)) (to_detections raw)"
    "list_all (\<lambda>e. thr \<le> cosine e (to_embedding raw)) (wt_source_embeddings (ws ! i))"
    by simp_all
  from assms(2) Cons obtain t where t: "absorb raw (ws ! i) = Inr t" "ws' = ws[i := t]"
    by (auto simp: place_def Let_def rbind_Inr_iff i_def)
  have len: "length ws = length gs" using assms(1) by (rule list_all2_lengthD)
  have "built_from thr t (gs ! i @ [raw])"
    using absorb_built [OF _ t(1) i(2,3)] list_all2_nthD [OF assms(1) i(1)] by blast
  then have "list_all2 (built_from thr) ws' (gs[i := gs ! i @ [raw]])"
    using assms(1) t(2) by (simp add: list_all2_update_cong)
  with mset_concat_update [of i gs raw] i(1) len show ?thesis by auto
qed

lemma reconcile_loop_built:
  assumes "list_all2 (built_from thr) ws gs" and "reconcile_loop thr fresh ws raws = Inr ws'"
  shows "\<exists>gs'. list_all2 (built_from thr) ws' gs' \<and> mset (concat gs') = mset (concat gs) + mset raws"
  using assms
proof (induction raws arbitrary: ws gs)
  case Nil
  then show ?case by auto
next
  case (Cons raw raws)
  from Cons.prems(2) obtain w where w: "place thr fresh raw ws = Inr w" "reconcile_loop thr fresh w raws = Inr ws'"
    by (auto simp: rbind_Inr_iff)
  from place_built [OF Cons.prems(1) w(1)] obtain g1 where
    g1: "list_all2 (built_from thr) w g1" "mset (concat g1) = mset (concat gs) + {#raw#}" by blast
  from Cons.IH [OF g1(1) w(2)] g1(2) show ?case by auto
qed

text \<open>
  C21. Reconciliation loses and duplicates nothing: the fragments with detections are partitioned
  among the canonical tracks. Each canonical track lists exactly its fragments' tracker ids, one
  template per fragment and all of their detections in frame order; any two of its fragments have
  embeddings of at least the threshold's similarity, and (for fragments whose detections are in
  frame order) never a frame in common.
\<close>

theorem reconcile_partitions:
  assumes "reconcile thr gap fresh raws = Inr cts"
  shows "\<exists>gs. mset (concat gs) = mset (filter (\<lambda>t. to_detections t \<noteq> []) raws)
    \<and> list_all2 (\<lambda>c fs. fs \<noteq> [] \<and> ct_source_tracker_ids c = map to_tracker_id fs
        \<and> ct_source_templates c = map source_template fs
        \<and> mset (ct_detections c) = mset (concat (map to_detections fs))
        \<and> sorted (map det_frame (ct_detections c))
        \<and> sorted_wrt (\<lambda>f g. thr \<le> cosine (to_embedding f) (to_embedding g)
             \<and> (frames_sorted g \<longrightarrow> frames_apart f g)) fs) cts gs"
proof -
  from assms obtain ws where ws: "reconcile_loop thr fresh [] (ordered_fragments raws) = Inr ws"
    and cts: "cts = map (finalize gap) ws"
    by (auto simp: reconcile_def rbind_Inr_iff)
  from reconcile_loop_built [where gs = "[]", OF _ ws] obtain gs where
    gs: "list_all2 (built_from thr) ws gs" "mset (concat gs) = mset (ordered_fragments raws)"
    by auto
  have "(\<lambda>f g. thr \<le> cosine (to_embedding f) (to_embedding g) \<and> (frames_sorted g \<longrightarrow> frames_apart f g))
      = compatible thr"
    by (simp add: compatible_def fun_eq_iff)
  moreover have "mset (ordered_fragments raws) = mset (filter (\<lambda>t. to_detections t \<noteq> []) raws)"
    by (simp add: ordered_fragments_def)
  ultimately show ?thesis
    using gs
    by (intro exI [of _ gs])
       (auto simp: cts list_all2_map1 built_from_def finalize_def Let_def elim!: list_all2_mono)
qed

section \<open>Appearances\<close>

definition close_by :: "real \<Rightarrow> video_detection \<Rightarrow> video_detection \<Rightarrow> bool" where
  "close_by gap d e = (det_timestamp e - det_timestamp d \<le> gap)"

definition split_at :: "real \<Rightarrow> video_detection list \<Rightarrow> video_detection list \<Rightarrow> bool" where
  "split_at gap r r' = (gap < det_timestamp (hd r') - det_timestamp (last r))"

definition runs_of :: "real \<Rightarrow> video_detection list \<Rightarrow> video_detection list list \<Rightarrow> bool" where
  "runs_of gap ds rs =
     (concat rs = ds \<and> [] \<notin> set rs \<and> list_all (successively (close_by gap)) rs
      \<and> successively (split_at gap) rs)"

lemma appearances_runs:
  assumes "pre \<noteq> []" and "successively (close_by gap) pre"
  shows "\<exists>r rs. runs_of gap (pre @ ds) (r # rs) \<and> hd r = hd pre
    \<and> appearances_loop gap (hd pre) (last pre) ds = map (\<lambda>r. appearance_of (hd r) (last r)) (r # rs)"
  using assms
proof (induction ds arbitrary: pre)
  case Nil
  then show ?case by (intro exI [of _ pre] exI [of _ "[]"]) (simp add: runs_of_def)
next
  case (Cons d ds)
  show ?case
  proof (cases "gap < det_timestamp d - det_timestamp (last pre)")
    case True
    from Cons.IH [of "[d]"] obtain r rs where r: "runs_of gap (d # ds) (r # rs)" "hd r = d"
      "appearances_loop gap d d ds = map (\<lambda>r. appearance_of (hd r) (last r)) (r # rs)"
      by auto
    with True Cons.prems show ?thesis
      by (intro exI [of _ pre] exI [of _ "r # rs"]) (simp add: runs_of_def split_at_def)
  next
    case False
    with Cons.prems have "successively (close_by gap) (pre @ [d])"
      by (simp add: successively_append_iff close_by_def)
    from Cons.IH [OF _ this] Cons.prems(1) False show ?thesis by simp
  qed
qed

lemma finalize_runs:
  assumes "wt_detections t \<noteq> []"
  obtains rs where "runs_of gap (wt_detections t) rs"
    and "ct_appearances (finalize gap t) = map (\<lambda>r. appearance_of (hd r) (last r)) rs"
    and "ct_detections (finalize gap t) = wt_detections t"
proof -
  let ?ds = "wt_detections t"
  from appearances_runs [of "[hd ?ds]" gap "tl ?ds"] assms
  obtain r rs where "runs_of gap ?ds (r # rs)"
    "appearances_loop gap (hd ?ds) (hd ?ds) (tl ?ds) = map (\<lambda>r. appearance_of (hd r) (last r)) (r # rs)"
    by auto
  then show thesis by (intro that [of "r # rs"]) (simp_all add: finalize_def Let_def)
qed

lemma built_from_detections:
  assumes "built_from thr t fs" and "\<forall>f \<in> set fs. to_detections f \<noteq> []"
  shows "wt_detections t \<noteq> []"
proof -
  from assms obtain f where "f \<in> set fs" "to_detections f \<noteq> []"
    by (cases fs) (auto simp: built_from_def)
  then have "mset (concat (map to_detections fs)) \<noteq> {#}" by auto
  with assms(1) show ?thesis unfolding built_from_def by (metis mset_zero_iff_right)
qed

lemma reconcile_built:
  assumes "reconcile thr gap fresh raws = Inr cts" and "c \<in> set cts"
  obtains t fs where "c = finalize gap t" and "built_from thr t fs" and "set fs \<subseteq> set raws"
    and "wt_detections t \<noteq> []"
proof -
  from assms(1) obtain ws where ws: "reconcile_loop thr fresh [] (ordered_fragments raws) = Inr ws"
    and cts: "cts = map (finalize gap) ws"
    by (auto simp: reconcile_def rbind_Inr_iff)
  from reconcile_loop_built [where gs = "[]", OF _ ws] obtain gs where
    gs: "list_all2 (built_from thr) ws gs" "mset (concat gs) = mset (ordered_fragments raws)"
    by auto
  from assms(2) cts obtain i where i: "i < length ws" "c = finalize gap (ws ! i)"
    by (auto simp: in_set_conv_nth)
  have "i < length gs" using i(1) list_all2_lengthD [OF gs(1)] by simp
  then have "set (gs ! i) \<subseteq> set (concat gs)" using nth_mem by fastforce
  also have "\<dots> = set (ordered_fragments raws)" using gs(2) by (rule mset_eq_setD)
  finally have sub: "set (gs ! i) \<subseteq> {t \<in> set raws. to_detections t \<noteq> []}"
    by (auto simp: ordered_fragments_def)
  have "built_from thr (ws ! i) (gs ! i)" using list_all2_nthD [OF gs(1) i(1)] .
  with sub i(2) show thesis
    by (intro that [of "ws ! i" "gs ! i"]) (auto dest: built_from_detections)
qed

text \<open>
  The appearances of a canonical track are exactly the maximal runs of its detections: the
  detections split into consecutive non-empty runs, one appearance per run with the run's first and
  last detection; inside a run no gap exceeds the configured maximum, and between two runs the gap
  does.
\<close>

theorem appearances_are_maximal_runs:
  assumes "reconcile thr gap fresh raws = Inr cts" and "c \<in> set cts"
  shows "\<exists>rs. concat rs = ct_detections c \<and> [] \<notin> set rs
    \<and> ct_appearances c = map (\<lambda>r. appearance_of (hd r) (last r)) rs
    \<and> list_all (successively (\<lambda>d e. det_timestamp e - det_timestamp d \<le> gap)) rs
    \<and> successively (\<lambda>r r'. gap < det_timestamp (hd r') - det_timestamp (last r)) rs"
proof -
  from assms obtain t fs where t: "c = finalize gap t" "wt_detections t \<noteq> []"
    by (rule reconcile_built)
  from t(2) obtain rs where "runs_of gap (wt_detections t) rs"
    "ct_appearances c = map (\<lambda>r. appearance_of (hd r) (last r)) rs" "ct_detections c = wt_detections t"
    unfolding t(1) by (rule finalize_runs)
  then show ?thesis
    by (intro exI [of _ rs]) (simp add: runs_of_def close_by_def [abs_def] split_at_def [abs_def])
qed

lemma round_half_even_error: "\<bar>of_int (round_half_even x) - x\<bar> \<le> 1 / 2"
proof -
  have "of_int \<lfloor>x\<rfloor> \<le> x" "x < of_int \<lfloor>x\<rfloor> + 1" by linarith+
  then show ?thesis by (auto simp: round_half_even_def Let_def)
qed

lemma round6_error: "\<bar>round6 x - x\<bar> \<le> 1 / 2000000"
  using round_half_even_error [of "x * 1000000"] by (simp add: round6_def abs_if field_simps split: if_splits)

lemma run_span:
  fixes k :: "'a \<Rightarrow> real"
  assumes "sorted (map k (concat rs))" and "[] \<notin> set rs" and "rs \<noteq> []"
  shows "0 \<le> sum_list (map (\<lambda>r. k (last r) - k (hd r)) rs)
    \<and> sum_list (map (\<lambda>r. k (last r) - k (hd r)) rs) \<le> k (last (concat rs)) - k (hd (concat rs))"
  using assms
proof (induction rs)
  case (Cons r rs)
  have r: "r \<noteq> []" "sorted (map k r)" "sorted (map k (concat rs))" "[] \<notin> set rs"
    using Cons.prems by (auto simp: sorted_append)
  then have span: "k (hd r) \<le> k (last r)" using sorted_hull(1) [OF r(2), of "last r"] by simp
  show ?case
  proof (cases "rs = []")
    case True
    with span r(1) show ?thesis by simp
  next
    case False
    then have ne: "concat rs \<noteq> []" using r(4) by (cases rs) auto
    have "k (last r) \<le> k (hd (concat rs))"
    proof -
      have "\<forall>x \<in> set (map k r). \<forall>y \<in> set (map k (concat rs)). x \<le> y"
        using Cons.prems(1) unfolding concat.simps map_append sorted_append by (elim conjE)
      with hd_in_set [OF ne] last_in_set [OF r(1)] show ?thesis unfolding set_map by blast
    qed
    with Cons.IH [OF r(3,4) False] span r(1) ne show ?thesis by simp
  qed
qed simp

text \<open>
  The recorded duration of a track whose detections are in time order lies between zero and the
  time from its first to its last detection, up to half a microsecond of rounding.
\<close>

theorem total_duration_bounds:
  assumes "reconcile thr gap fresh raws = Inr cts" and "c \<in> set cts"
    and "sorted (map det_timestamp (ct_detections c))"
  shows "- 1 / 2000000 \<le> ct_total_duration c
    \<and> ct_total_duration c \<le> ct_last_seen c - ct_first_seen c + 1 / 2000000"
proof -
  from assms(1,2) obtain t fs where t: "c = finalize gap t" "wt_detections t \<noteq> []"
    by (rule reconcile_built)
  from t(2) obtain rs where rs: "runs_of gap (wt_detections t) rs"
    "ct_appearances c = map (\<lambda>r. appearance_of (hd r) (last r)) rs" "ct_detections c = wt_detections t"
    unfolding t(1) by (rule finalize_runs)
  let ?sum = "sum_list (map (\<lambda>r. det_timestamp (last r) - det_timestamp (hd r)) rs)"
  have concat: "concat rs = ct_detections c" "[] \<notin> set rs" "rs \<noteq> []"
    using rs(1,3) t(2) by (auto simp: runs_of_def)
  have seen: "ct_last_seen c = det_timestamp (last (concat rs))"
    "ct_first_seen c = det_timestamp (hd (concat rs))"
    using concat(1) by (simp_all add: t(1) finalize_def Let_def)
  have "(\<lambda>a. ap_end a - ap_start a) \<circ> (\<lambda>r. appearance_of (hd r) (last r))
      = (\<lambda>r. det_timestamp (last r) - det_timestamp (hd r))"
    by (simp add: fun_eq_iff appearance_of_def)
  moreover have "ct_total_duration c = round6 (sum_list (map (\<lambda>a. ap_end a - ap_start a) (ct_appearances c)))"
    by (simp add: t(1) finalize_def Let_def)
  ultimately have dur: "ct_total_duration c = round6 ?sum" by (simp add: rs(2))
  from run_span [of det_timestamp rs] concat assms(3)
  have "0 \<le> ?sum" "?sum \<le> ct_last_seen c - ct_first_seen c" by (simp_all add: seen)
  with round6_error [of ?sum] show ?thesis unfolding dur by linarith
qed

section \<open>Reconciliation always succeeds on normalisable embeddings\<close>

text \<open>
  A working embedding is a positive combination of its sources, so a vector that has a non-negative
  product with every source has one with it too; adding such a vector cannot give zero.
\<close>

definition positive_span :: "nat \<Rightarrow> working_track \<Rightarrow> bool" where
  "positive_span n t =
     (length (wt_embedding t) = n \<and> vnorm (wt_embedding t) = 1
      \<and> list_all (\<lambda>e. length e = n) (wt_source_embeddings t)
      \<and> (\<forall>v. length v = n \<and> (\<forall>e \<in> set (wt_source_embeddings t). 0 \<le> dot e v) \<longrightarrow>
           0 \<le> dot (wt_embedding t) v))"

lemma dot_scale: "dot (scale n xs) ys = dot xs ys / n"
proof (induction xs arbitrary: ys)
  case (Cons x xs)
  then show ?case by (cases ys) (simp_all add: dot_def scale_def add_divide_distrib)
qed (simp add: dot_def scale_def)

lemma dot_add:
  assumes "length xs = length ys" and "length ys = length zs"
  shows "dot (map2 (+) xs ys) zs = dot xs zs + dot ys zs"
  using assms by (induction xs ys zs rule: list_induct3) (simp_all add: dot_def algebra_simps)

lemma sum_squares_add:
  assumes "length xs = length ys"
  shows "sum_squares (map2 (+) xs ys) = sum_squares xs + 2 * dot xs ys + sum_squares ys"
  using assms by (induction xs ys rule: list_induct2) (simp_all add: sum_squares_def dot_def algebra_simps)

lemma normalize_ok: "vnorm xs \<noteq> 0 \<Longrightarrow> normalize xs = Inr (scale (vnorm xs) xs)"
  using order_antisym [OF _ vnorm_nonneg [of xs]] by (auto simp: normalize_def)

definition fragment_ok :: "nat \<Rightarrow> track_output \<Rightarrow> bool" where
  "fragment_ok n raw = (length (to_embedding raw) = n \<and> vnorm (to_embedding raw) \<noteq> 0)"

lemma new_track_total:
  assumes "fragment_ok n raw"
  shows "\<exists>t. new_track tid raw = Inr t \<and> positive_span n t"
proof -
  let ?e = "to_embedding raw"
  have "normalize ?e = Inr (scale (vnorm ?e) ?e)" and n: "vnorm ?e \<noteq> 0" "length ?e = n"
    using assms by (simp_all add: fragment_ok_def normalize_ok)
  then show ?thesis
    by (simp add: new_track_def Let_def positive_span_def vnorm_normalized dot_scale)
qed

lemma absorb_total:
  assumes "positive_span n t" and "fragment_ok n raw"
    and "list_all (\<lambda>e. 0 \<le> dot e (to_embedding raw)) (wt_source_embeddings t)"
  shows "\<exists>t'. absorb raw t = Inr t' \<and> positive_span n t'"
proof -
  let ?e = "wt_embedding t" and ?r = "to_embedding raw"
  let ?s = "map2 (+) ?e ?r"
  have len: "length ?e = n" "length ?r = n" and unit: "sum_squares ?e = 1"
    using assms(1,2) vnorm_square [of ?e] by (simp_all add: positive_span_def fragment_ok_def)
  have "0 \<le> dot ?e ?r"
    using assms(1,3) len by (simp add: positive_span_def list_all_iff)
  then have "0 < sum_squares ?s"
    using sum_squares_add [of ?e ?r] len unit sum_squares_nonneg [of ?r] by simp
  then have norm: "vnorm ?s \<noteq> 0" by (simp add: vnorm_def)
  have "0 \<le> dot (scale (vnorm ?s) ?s) v"
    if "length v = n" "\<forall>e \<in> set (wt_source_embeddings t @ [?r]). 0 \<le> dot e v" for v
    using that assms(1) len by (simp add: dot_scale dot_add positive_span_def)
  with norm len assms(1) show ?thesis
    by (simp add: absorb_def normalize_ok Let_def positive_span_def vnorm_normalized)
qed

lemma place_total:
  assumes "list_all (positive_span n) ws" and "fragment_ok n raw" and "0 \<le> thr" and "0 < n"
  shows "\<exists>ws'. place thr fresh raw ws = Inr ws' \<and> list_all (positive_span n) ws'"
proof (cases "merge_candidates thr raw 0 ws")
  case Nil
  with new_track_total [OF assms(2), of "fresh (length ws)"] assms(1) show ?thesis
    by (auto simp: place_def)
next
  case (Cons c cs)
  define i where "i = fst (first_max c cs)"
  have "(i, snd (first_max c cs)) \<in> set (merge_candidates thr raw 0 ws)"
    using first_max_in [of c cs] Cons by (simp add: i_def)
  from merge_candidates_sound [OF this] have i: "i < length ws"
    "list_all (\<lambda>e. thr \<le> cosine e (to_embedding raw)) (wt_source_embeddings (ws ! i))"
    by simp_all
  have span: "positive_span n (ws ! i)" using assms(1) i(1) by (simp add: list_all_length)
  have "0 \<le> dot e (to_embedding raw)" if "e \<in> set (wt_source_embeddings (ws ! i))" for e
  proof -
    have "length e = n" using span that by (simp add: positive_span_def list_all_iff)
    then have "cosine e (to_embedding raw) = dot e (to_embedding raw)"
      using assms(2,4) by (auto simp: cosine_def fragment_ok_def)
    with i(2) that assms(3) show ?thesis by (auto simp: list_all_iff)
  qed
  with absorb_total [OF span assms(2)] obtain t' where "absorb raw (ws ! i) = Inr t'" "positive_span n t'"
    by (auto simp: list_all_iff)
  with assms(1) Cons show ?thesis
    by (auto simp: place_def Let_def i_def [symmetric] list_all_iff dest!: set_update_subset_insert [THEN subsetD])
qed

lemma reconcile_loop_total:
  assumes "list_all (positive_span n) ws" and "list_all (fragment_ok n) raws" and "0 \<le> thr" and "0 < n"
  shows "\<exists>ws'. reconcile_loop thr fresh ws raws = Inr ws'"
  using assms(1,2)
proof (induction raws arbitrary: ws)
  case (Cons raw raws)
  then obtain w where "place thr fresh raw ws = Inr w" "list_all (positive_span n) w"
    using place_total [OF Cons.prems(1) _ assms(3,4), of raw fresh] by auto
  with Cons show ?case by simp
qed simp

text \<open>
  Reconciliation raises no error on fragments whose embeddings are non-zero vectors of one
  length, for any non-negative similarity threshold: merging can never produce a vector that
  cannot be normalised.
\<close>

theorem reconcile_total:
  assumes "\<forall>raw \<in> set raws. length (to_embedding raw) = n \<and> (\<exists>x \<in> set (to_embedding raw). x \<noteq> 0)"
    and "0 \<le> thr"
  shows "\<exists>cts. reconcile thr gap fresh raws = Inr cts"
proof (cases "n = 0")
  case True
  with assms(1) have "raws = []" by (cases raws) auto
  then show ?thesis by (simp add: reconcile_def ordered_fragments_def)
next
  case False
  have "list_all (fragment_ok n) (ordered_fragments raws)"
    using assms(1) by (auto simp: list_all_iff ordered_fragments_def fragment_ok_def vnorm_zero)
  from reconcile_loop_total [OF _ this assms(2), of "[]" fresh] False
  show ?thesis by (auto simp: reconcile_def)
qed

section \<open>Witnesses\<close>

definition sample_detection :: "int \<Rightarrow> video_detection" where
  "sample_detection f =
     \<lparr>det_frame = f, det_timestamp = of_int f, det_x = 0, det_y = 0, det_width = 1, det_height = 1,
      detector_confidence = 9 / 10, det_landmarks = []\<rparr>"

definition sample_fragment :: "int \<Rightarrow> int \<Rightarrow> track_output" where
  "sample_fragment i f =
     \<lparr>to_tracker_id = i, to_embedding = [3, 4], to_jpeg = [],
      to_detections = [sample_detection f, sample_detection (f + 1)]\<rparr>"

definition sample_track :: canonical_track where
  "sample_track =
     \<lparr>ct_track_id = ''t'', ct_source_tracker_ids = [7], ct_embedding = [3 / 5, 4 / 5], ct_jpeg = [],
      ct_detections = [sample_detection 1, sample_detection 2],
      ct_appearances = [appearance_of (sample_detection 1) (sample_detection 2)],
      ct_first_seen = 1, ct_last_seen = 2, ct_total_duration = 1,
      ct_source_templates = [source_template (sample_fragment 7 1)]\<rparr>"

lemma vnorm_345: "vnorm [3, 4] = 5"
  by (simp add: vnorm_def sum_squares_def)

lemma round6_one: "round6 1 = 1"
  by (simp add: round6_def round_half_even_def)

lemma sample_reconcile: "reconcile (1 / 2) 5 (\<lambda>_. ''t'') [sample_fragment 7 1] = Inr [sample_track]"
proof -
  have ds: "to_detections (sample_fragment 7 1) = [sample_detection 1, sample_detection 2]"
    by (simp add: sample_fragment_def)
  have frame: "det_frame (sample_detection f) = f" for f by (simp add: sample_detection_def)
  have "new_track ''t'' (sample_fragment 7 1) =
      Inr \<lparr>wt_track_id = ''t'', wt_source_tracker_ids = [7], wt_source_embeddings = [[3, 4]],
        wt_source_templates = [source_template (sample_fragment 7 1)], wt_embedding = [3 / 5, 4 / 5],
        wt_jpeg = [], wt_representative_score = best_confidence [sample_detection 1, sample_detection 2],
        wt_detections = [sample_detection 1, sample_detection 2]\<rparr>"
    by (simp add: new_track_def ds frame Let_def)
       (simp add: sample_fragment_def normalize_def vnorm_345 scale_def)
  moreover have "ordered_fragments [sample_fragment 7 1] = [sample_fragment 7 1]"
    by (simp add: ordered_fragments_def ds)
  ultimately show ?thesis
    by (simp add: reconcile_def place_def finalize_def Let_def sample_track_def appearance_of_def)
       (simp add: sample_detection_def round6_one)
qed

theorem reconcile_partitions_witness:
  "\<exists>gs. mset (concat gs) = mset (filter (\<lambda>t. to_detections t \<noteq> []) [sample_fragment 7 1])
    \<and> list_all2 (\<lambda>c fs. ct_source_tracker_ids c = map to_tracker_id fs) [sample_track] gs"
  using reconcile_partitions [OF sample_reconcile]
  by (elim exE conjE, intro exI conjI) (auto elim: list_all2_mono)

theorem appearances_are_maximal_runs_witness:
  "\<exists>rs. concat rs = ct_detections sample_track \<and> [] \<notin> set rs
    \<and> ct_appearances sample_track = map (\<lambda>r. appearance_of (hd r) (last r)) rs"
  using appearances_are_maximal_runs [OF sample_reconcile, of sample_track] by auto

theorem total_duration_bounds_witness:
  "- 1 / 2000000 \<le> ct_total_duration sample_track
    \<and> ct_total_duration sample_track \<le> ct_last_seen sample_track - ct_first_seen sample_track + 1 / 2000000"
  by (rule total_duration_bounds [OF sample_reconcile])
     (simp_all add: sample_track_def, simp add: sample_detection_def)

theorem reconcile_total_witness:
  "\<exists>cts. reconcile (1 / 2) 5 (\<lambda>_. ''t'') [sample_fragment 7 1, sample_fragment 8 9] = Inr cts"
  by (rule reconcile_total [of _ 2]) (auto simp: sample_fragment_def)

end
