(* ===== verification/Live_Identity.thy ===== *)
theory Live_Identity
  imports Live_Protocol Video_Tracking
begin

text \<open>
  Who a live track is: \<open>LiveIdentityService\<close>
  (\<open>src/backend/app/services/live_identity_service.py\<close>). Each track keeps its last observations, the
  identity it is known as, and counters of the evidence against it. The voter and the vector store
  are the service's injected collaborators and stay arguments; the vote the live worker injects is
  modelled at the end. Spans and log lines are left out.
\<close>

section \<open>State\<close>

record live_decision =
  ld_identity_state :: string
  ld_match :: "face_match option"
  ld_nearest_known_score :: "real option"
  ld_identity_epoch :: int
  ld_reset_required :: bool
  ld_quality :: "(string \<times> real) list"
  ld_reference_embedding :: "real list option"
  ld_transition :: string
  ld_evaluation_sequence :: int

record track_identity =
  ti_identity_epoch :: int
  ti_seen_timestamps :: "int set"
  ti_observations :: "live_observation list"
  ti_discontinuous :: "live_observation list"
  ti_known_match :: "face_match option"
  ti_nearest_known_score :: "real option"
  ti_reference_embedding :: "real list option"
  ti_candidate_face_id :: "string option"
  ti_candidate_wins :: nat
  ti_rejected_windows :: nat
  ti_evaluation_sequence :: int

definition new_identity :: track_identity where
  "new_identity =
     \<lparr>ti_identity_epoch = 1, ti_seen_timestamps = {}, ti_observations = [], ti_discontinuous = [],
      ti_known_match = None, ti_nearest_known_score = None, ti_reference_embedding = None,
      ti_candidate_face_id = None, ti_candidate_wins = 0, ti_rejected_windows = 0,
      ti_evaluation_sequence = 0\<rparr>"

section \<open>Vectors\<close>

definition identity_normalize :: "real list \<Rightarrow> real list" where
  "identity_normalize values = (if vnorm values \<noteq> 0 then scale (vnorm values) values else values)"

text \<open>Adding a longer embedding than the first one would index past the end.\<close>

definition add_into :: "real list \<Rightarrow> real list \<Rightarrow> real list result" where
  "add_into acc e =
     (if length acc < length e then Inl IndexError
      else Inr (map2 (+) acc e @ drop (length e) acc))"

fun add_all :: "real list \<Rightarrow> real list list \<Rightarrow> real list result" where
  "add_all acc [] = Inr acc"
| "add_all acc (e # es) = rbind (add_into acc e) (\<lambda>acc'. add_all acc' es)"

definition centroid :: "live_observation list \<Rightarrow> real list result" where
  "centroid obs =
     rbind (add_all (replicate (length (obs_embedding (hd obs))) 0) (map obs_embedding obs))
       (\<lambda>values. Inr (identity_normalize values))"

definition identity_cosine :: "real list \<Rightarrow> real list \<Rightarrow> real" where
  "identity_cosine first second =
     (if length first \<noteq> length second then -1
      else if vnorm first = 0 \<or> vnorm second = 0 then -1
      else dot first second / (vnorm first * vnorm second))"

text \<open>
  The stored reference of a sample: the store answers with an exception, no point, a point whose
  vector is not a list, or a list of floats.
\<close>

type_synonym reference_store = "string \<Rightarrow> pyfloat list option option result"

fun finite_value :: "pyfloat \<Rightarrow> real option" where
  "finite_value (Fin r) = Some r"
| "finite_value _ = None"

fun finite_values :: "pyfloat list \<Rightarrow> real list option" where
  "finite_values [] = Some []"
| "finite_values (x # xs) =
     (case (finite_value x, finite_values xs) of (Some r, Some rs) \<Rightarrow> Some (r # rs) | _ \<Rightarrow> None)"

definition reference :: "reference_store \<Rightarrow> string \<Rightarrow> real list option" where
  "reference store sample_id =
     (case store sample_id of
        Inr (Some (Some values)) \<Rightarrow>
          if length values \<noteq> 512 then None
          else (case finite_values values of
             None \<Rightarrow> None
           | Some vector \<Rightarrow>
               if vnorm vector = 0 then None
               else let normalized = scale (vnorm vector) vector
                    in if norm_ok normalized then Some normalized else None)
      | _ \<Rightarrow> None)"

section \<open>Evidence windows\<close>

definition accept_observation :: "track_identity \<Rightarrow> live_observation \<Rightarrow> track_identity" where
  "accept_observation st ob =
     (if timestamp_ns ob \<in> ti_seen_timestamps st then st
      else let obs = ti_observations st @ [ob]
           in st\<lparr>ti_seen_timestamps := insert (timestamp_ns ob) (ti_seen_timestamps st),
                 ti_observations := (if length obs > 5 then tl obs else obs)\<rparr>)"

definition accept_new_observations :: "track_identity \<Rightarrow> live_observation list \<Rightarrow> track_identity" where
  "accept_new_observations st obs = foldl accept_observation st (sort_key timestamp_ns obs)"

definition quality_of :: "match_settings \<Rightarrow> (string \<times> real) list" where
  "quality_of s =
     [(''recognition_threshold'', recognition_threshold s),
      (''candidate_floor'', vote_candidate_floor s), (''top_2_margin'', vote_min_margin s)]"

definition current_decision :: "match_settings \<Rightarrow> track_identity \<Rightarrow> live_decision" where
  "current_decision s st =
     \<lparr>ld_identity_state = (if ti_known_match st \<noteq> None then ''known'' else ''pending''),
      ld_match = ti_known_match st, ld_nearest_known_score = ti_nearest_known_score st,
      ld_identity_epoch = ti_identity_epoch st, ld_reset_required = False,
      ld_quality = quality_of s, ld_reference_embedding = ti_reference_embedding st,
      ld_transition = ''none'', ld_evaluation_sequence = ti_evaluation_sequence st\<rparr>"

definition identity_track :: "track_evidence_event \<Rightarrow> track_identity \<Rightarrow> canonical_track result" where
  "identity_track ev st =
     rbind (centroid (ti_observations st)) (\<lambda>c.
       let obs = ti_observations st;
           first = timestamp_ns (hd obs); lst = timestamp_ns (last obs)
       in Inr \<lparr>ct_track_id = hd_run_id (te_header ev) @ '':'' @ str_int (te_tracker_id ev)
                 @ '':'' @ str_int (ti_identity_epoch st),
               ct_source_tracker_ids = [te_tracker_id ev], ct_embedding = c,
               ct_jpeg = representative_aligned_jpeg ev, ct_detections = [], ct_appearances = [],
               ct_first_seen = of_int first / 1000000000, ct_last_seen = of_int lst / 1000000000,
               ct_total_duration = of_int (lst - first) / 1000000000,
               ct_source_templates =
                 map (\<lambda>ob. \<lparr>tt_embedding = obs_embedding ob, tt_detection_count = 1,
                           tt_best_confidence = obs_detector_confidence ob\<rparr>) obs\<rparr>)"

type_synonym voter = "canonical_track \<Rightarrow> identity_decision result"

text \<open>What a window amounts to: nothing to vote on, a failed query, or a vote.\<close>

datatype window = NoObservations | QueryFailed | Voted identity_decision

definition window_vote :: "voter \<Rightarrow> track_evidence_event \<Rightarrow> track_identity \<Rightarrow> window" where
  "window_vote vote ev st =
     (if ti_observations st = [] then NoObservations
      else case rbind (identity_track ev st) vote of Inl _ \<Rightarrow> QueryFailed | Inr d \<Rightarrow> Voted d)"

definition reject_window ::
  "match_settings \<Rightarrow> real option \<Rightarrow> track_identity \<Rightarrow> live_decision \<times> track_identity" where
  "reject_window s score st0 =
     (let st = st0\<lparr>ti_candidate_face_id := None, ti_candidate_wins := 0,
                   ti_rejected_windows := ti_rejected_windows st0 + 1\<rparr>
      in if ti_known_match st \<noteq> None \<and> 3 \<le> ti_rejected_windows st
         then let st' = st\<lparr>ti_identity_epoch := ti_identity_epoch st + 1, ti_known_match := None,
                          ti_reference_embedding := None, ti_rejected_windows := 0\<rparr>
              in (\<lparr>ld_identity_state = ''unknown'', ld_match = None, ld_nearest_known_score = score,
                   ld_identity_epoch = ti_identity_epoch st', ld_reset_required = True,
                   ld_quality = quality_of s, ld_reference_embedding = None,
                   ld_transition = ''unknown'',
                   ld_evaluation_sequence = ti_evaluation_sequence st'\<rparr>, st')
         else (current_decision s st, st))"

definition become_known ::
  "match_settings \<Rightarrow> reference_store \<Rightarrow> face_match \<Rightarrow> real option \<Rightarrow> track_identity \<Rightarrow>
   live_decision \<times> track_identity"
where
  "become_known s store m score st =
     (case reference store (fm_sample_id m) of
        None \<Rightarrow> (current_decision s st, st)
      | Some ref \<Rightarrow>
          let replacing = (ti_known_match st \<noteq> None);
              st' = st\<lparr>ti_identity_epoch := ti_identity_epoch st + (if replacing then 1 else 0),
                       ti_known_match := Some m, ti_reference_embedding := Some ref,
                       ti_candidate_face_id := None, ti_candidate_wins := 0\<rparr>
          in (\<lparr>ld_identity_state = ''known'', ld_match = Some m, ld_nearest_known_score = score,
               ld_identity_epoch = ti_identity_epoch st', ld_reset_required = replacing,
               ld_quality = quality_of s, ld_reference_embedding = Some ref,
               ld_transition = ''known'', ld_evaluation_sequence = ti_evaluation_sequence st'\<rparr>, st'))"

definition apply_vote ::
  "match_settings \<Rightarrow> reference_store \<Rightarrow> identity_decision \<Rightarrow> track_identity \<Rightarrow>
   live_decision \<times> track_identity"
where
  "apply_vote s store v st0 =
     (let st1 = st0\<lparr>ti_nearest_known_score := vd_score v\<rparr>
      in case vd_match v of
           None \<Rightarrow> reject_window s (vd_score v) st1
         | Some m \<Rightarrow>
             let st = st1\<lparr>ti_rejected_windows := 0\<rparr>
             in (case ti_known_match st of
                   None \<Rightarrow> become_known s store m (vd_score v) st
                 | Some k \<Rightarrow>
                     if face_of k = face_of m
                     then let st' = st\<lparr>ti_candidate_face_id := None, ti_candidate_wins := 0\<rparr>
                          in (current_decision s st', st')
                     else let st' = st\<lparr>ti_candidate_face_id := Some (face_of m),
                                       ti_candidate_wins :=
                                         (if ti_candidate_face_id st = Some (face_of m)
                                          then ti_candidate_wins st + 1 else 1)\<rparr>
                          in if ti_candidate_wins st' < 3 then (current_decision s st', st')
                             else become_known s store m (vd_score v) st'))"

definition open_window :: "track_evidence_event \<Rightarrow> track_identity \<Rightarrow> track_identity" where
  "open_window ev st =
     (accept_new_observations st (te_observations ev))
       \<lparr>ti_evaluation_sequence := ti_evaluation_sequence st + 1\<rparr>"

definition resolve_track ::
  "match_settings \<Rightarrow> voter \<Rightarrow> reference_store \<Rightarrow> track_evidence_event \<Rightarrow> track_identity \<Rightarrow>
   live_decision \<times> track_identity"
where
  "resolve_track s vote store ev st0 =
     (let st = open_window ev st0
      in case window_vote vote ev st of
           NoObservations \<Rightarrow>
             ((current_decision s st)\<lparr>ld_identity_state := ''pending'', ld_match := None,
                ld_nearest_known_score := None, ld_reference_embedding := None\<rparr>, st)
         | QueryFailed \<Rightarrow> (current_decision s st, st)
         | Voted v \<Rightarrow> apply_vote s store v st)"

section \<open>The service\<close>

type_synonym track_key = "string \<times> string \<times> int \<times> int"

definition evidence_key :: "track_evidence_event \<Rightarrow> track_key" where
  "evidence_key ev =
     (hd_camera_id (te_header ev), hd_run_id (te_header ev), hd_generation (te_header ev),
      te_tracker_id ev)"

definition expired_key :: "track_expired_event \<Rightarrow> track_key" where
  "expired_key ev =
     (hd_camera_id (tx_header ev), hd_run_id (tx_header ev), hd_generation (tx_header ev),
      tx_tracker_id ev)"

type_synonym identity_tracks = "(track_key \<times> track_identity) list"

definition track_state :: "track_key \<Rightarrow> identity_tracks \<Rightarrow> track_identity" where
  "track_state k tracks = (case map_of tracks k of None \<Rightarrow> new_identity | Some st \<Rightarrow> st)"

definition identity_resolve ::
  "match_settings \<Rightarrow> voter \<Rightarrow> reference_store \<Rightarrow> track_evidence_event \<Rightarrow> identity_tracks \<Rightarrow>
   live_decision \<times> identity_tracks"
where
  "identity_resolve s vote store ev tracks =
     (case resolve_track s vote store ev (track_state (evidence_key ev) tracks) of
        (d, st) \<Rightarrow> (d, dict_put (evidence_key ev) st tracks))"

definition identity_expire :: "track_key \<Rightarrow> identity_tracks \<Rightarrow> identity_tracks" where
  "identity_expire k tracks = dict_del k tracks"

section \<open>References are unit vectors\<close>

lemma finite_values_length: "finite_values xs = Some rs \<Longrightarrow> length rs = length xs"
  by (induction xs arbitrary: rs) (auto split: option.splits)

lemma reference_wf: "reference store i = Some e \<Longrightarrow> wf_embedding e"
  by (auto simp: reference_def wf_embedding_def Let_def finite_values_length
        split: sum.splits option.splits if_splits)

text \<open>
  The cosine of the identity service lies in the interval from -1 to 1 for all vectors, the
  degenerate ones included.
\<close>

theorem identity_cosine_bounds: "-1 \<le> identity_cosine xs ys \<and> identity_cosine xs ys \<le> 1"
proof (cases "length xs = length ys \<and> vnorm xs \<noteq> 0 \<and> vnorm ys \<noteq> 0")
  case True
  have "dot xs ys / (vnorm xs * vnorm ys) = dot (scale (vnorm xs) xs) (scale (vnorm ys) ys)"
  proof -
    have "dot us (scale n vs) = dot us vs / n" for us vs n
    proof (induction us arbitrary: vs)
      case (Cons u us)
      then show ?case by (cases vs) (simp_all add: dot_def scale_def add_divide_distrib)
    qed (simp add: dot_def scale_def)
    then show ?thesis by (simp add: dot_scale)
  qed
  with dot_unit_bounds [of "scale (vnorm xs) xs" "scale (vnorm ys) ys"] True
  show ?thesis by (simp add: identity_cosine_def vnorm_normalized)
qed (auto simp: identity_cosine_def)

section \<open>The state of a track\<close>

definition identity_ok :: "track_identity \<Rightarrow> bool" where
  "identity_ok st =
     (1 \<le> ti_identity_epoch st \<and> length (ti_observations st) \<le> 5
      \<and> distinct (map timestamp_ns (ti_observations st))
      \<and> timestamp_ns ` set (ti_observations st) \<subseteq> ti_seen_timestamps st
      \<and> (ti_known_match st = None \<longleftrightarrow> ti_reference_embedding st = None)
      \<and> (\<forall>e. ti_reference_embedding st = Some e \<longrightarrow> wf_embedding e)
      \<and> (ti_candidate_face_id st = None \<longrightarrow> ti_candidate_wins st = 0)
      \<and> (ti_known_match st \<noteq> None \<longrightarrow> ti_rejected_windows st < 3))"

lemma new_identity_ok: "identity_ok new_identity"
  by (simp add: identity_ok_def new_identity_def)

lemma accept_observation_ok: "identity_ok st \<Longrightarrow> identity_ok (accept_observation st ob)"
proof (cases "timestamp_ns ob \<in> ti_seen_timestamps st")
  case False
  assume ok: "identity_ok st"
  let ?obs = "ti_observations st @ [ob]"
  have d: "distinct (map timestamp_ns ?obs)"
    using ok False by (auto simp: identity_ok_def)
  then have "distinct (map timestamp_ns (if length ?obs > 5 then tl ?obs else ?obs))"
    using distinct_tl [OF d] by (cases "length ?obs > 5") (simp_all only: map_tl if_True if_False)
  moreover have "length (if length ?obs > 5 then tl ?obs else ?obs) \<le> 5"
    using ok by (auto simp: identity_ok_def)
  moreover have "set (if length ?obs > 5 then tl ?obs else ?obs) \<subseteq> insert ob (set (ti_observations st))"
    by (auto dest: list.set_sel(2) [rotated])
  ultimately show ?thesis
    using ok False by (fastforce simp: identity_ok_def accept_observation_def Let_def)
qed (simp add: accept_observation_def)

lemma accept_keeps [simp]:
  "ti_identity_epoch (accept_new_observations st obs) = ti_identity_epoch st"
  "ti_known_match (accept_new_observations st obs) = ti_known_match st"
  "ti_reference_embedding (accept_new_observations st obs) = ti_reference_embedding st"
  "ti_candidate_face_id (accept_new_observations st obs) = ti_candidate_face_id st"
  "ti_candidate_wins (accept_new_observations st obs) = ti_candidate_wins st"
  "ti_rejected_windows (accept_new_observations st obs) = ti_rejected_windows st"
proof -
  have "ti_identity_epoch (foldl accept_observation st xs) = ti_identity_epoch st
      \<and> ti_known_match (foldl accept_observation st xs) = ti_known_match st
      \<and> ti_reference_embedding (foldl accept_observation st xs) = ti_reference_embedding st
      \<and> ti_candidate_face_id (foldl accept_observation st xs) = ti_candidate_face_id st
      \<and> ti_candidate_wins (foldl accept_observation st xs) = ti_candidate_wins st
      \<and> ti_rejected_windows (foldl accept_observation st xs) = ti_rejected_windows st" for xs
    by (induction xs arbitrary: st) (simp_all add: accept_observation_def Let_def)
  then show "ti_identity_epoch (accept_new_observations st obs) = ti_identity_epoch st"
    "ti_known_match (accept_new_observations st obs) = ti_known_match st"
    "ti_reference_embedding (accept_new_observations st obs) = ti_reference_embedding st"
    "ti_candidate_face_id (accept_new_observations st obs) = ti_candidate_face_id st"
    "ti_candidate_wins (accept_new_observations st obs) = ti_candidate_wins st"
    "ti_rejected_windows (accept_new_observations st obs) = ti_rejected_windows st"
    by (simp_all add: accept_new_observations_def)
qed

lemma open_window_ok: "identity_ok st \<Longrightarrow> identity_ok (open_window ev st)"
proof -
  assume "identity_ok st"
  then have "identity_ok (foldl accept_observation st xs)" for xs
    by (induction xs arbitrary: st) (auto intro: accept_observation_ok)
  then have "identity_ok (accept_new_observations st (te_observations ev))"
    by (simp add: accept_new_observations_def)
  then show ?thesis by (auto simp: open_window_def identity_ok_def)
qed

lemma open_window_keeps [simp]:
  "ti_identity_epoch (open_window ev st) = ti_identity_epoch st"
  "ti_known_match (open_window ev st) = ti_known_match st"
  "ti_reference_embedding (open_window ev st) = ti_reference_embedding st"
  "ti_candidate_face_id (open_window ev st) = ti_candidate_face_id st"
  "ti_candidate_wins (open_window ev st) = ti_candidate_wins st"
  "ti_rejected_windows (open_window ev st) = ti_rejected_windows st"
  "ti_evaluation_sequence (open_window ev st) = ti_evaluation_sequence st + 1"
  by (simp_all add: open_window_def)

text \<open>What a decision promises, relative to the state before (\<open>st\<close>) and after (\<open>st'\<close>) the window.\<close>

definition decision_ok :: "track_identity \<Rightarrow> live_decision \<Rightarrow> track_identity \<Rightarrow> bool" where
  "decision_ok st d st' =
     (ld_identity_epoch d = ti_identity_epoch st'
      \<and> ti_identity_epoch st' = ti_identity_epoch st + (if ld_reset_required d then 1 else 0)
      \<and> ld_evaluation_sequence d = ti_evaluation_sequence st'
      \<and> (ld_transition d = ''known'' \<longrightarrow> ld_match d \<noteq> None \<and> ld_match d = ti_known_match st'
           \<and> ld_reference_embedding d \<noteq> None \<and> ld_reference_embedding d = ti_reference_embedding st')
      \<and> (ld_transition d = ''unknown'' \<longrightarrow> ld_match d = None \<and> ld_reset_required d
           \<and> ti_known_match st' = None)
      \<and> (ld_transition d = ''none'' \<longrightarrow> \<not> ld_reset_required d \<and> ti_known_match st' = ti_known_match st)
      \<and> ld_transition d \<in> {''none'', ''known'', ''unknown''}
      \<and> map_of (ld_quality d) ''recognition_threshold'' \<noteq> None)"

lemma quality_threshold [simp]: "map_of (quality_of s) ''recognition_threshold'' = Some (recognition_threshold s)"
  by (simp add: quality_of_def)

lemma current_decision_ok:
  "ti_identity_epoch st' = ti_identity_epoch st \<Longrightarrow> ti_known_match st' = ti_known_match st \<Longrightarrow>
     decision_ok st (current_decision s st') st'"
  by (simp add: decision_ok_def current_decision_def)

lemma reject_window_ok:
  assumes "identity_ok st" and "reject_window s sc st = (d, st')"
  shows "identity_ok st' \<and> decision_ok st d st'"
proof -
  define st1 where "st1 = st\<lparr>ti_candidate_face_id := None, ti_candidate_wins := 0,
      ti_rejected_windows := ti_rejected_windows st + 1\<rparr>"
  show ?thesis
  proof (cases "ti_known_match st1 \<noteq> None \<and> 3 \<le> ti_rejected_windows st1")
    case True
    then have "reject_window s sc st = (fst (reject_window s sc st),
        st1\<lparr>ti_identity_epoch := ti_identity_epoch st1 + 1, ti_known_match := None,
          ti_reference_embedding := None, ti_rejected_windows := 0\<rparr>)"
      by (simp add: reject_window_def Let_def st1_def)
    with assms(2) have st': "st' = st1\<lparr>ti_identity_epoch := ti_identity_epoch st1 + 1, ti_known_match := None,
          ti_reference_embedding := None, ti_rejected_windows := 0\<rparr>"
      by (metis prod.inject)
    have "identity_ok st'" using assms(1) unfolding st' by (simp add: identity_ok_def st1_def)
    moreover have "decision_ok st (fst (reject_window s sc st)) st'"
      using True unfolding st' by (simp add: reject_window_def Let_def st1_def decision_ok_def)
    ultimately show ?thesis using assms(2) by simp
  next
    case False
    then have eq: "d = current_decision s st1" "st' = st1"
      using assms(2) by (auto simp: reject_window_def Let_def st1_def split: if_splits)
    have "identity_ok st1" using assms(1) False by (auto simp: identity_ok_def st1_def)
    then show ?thesis unfolding eq by (auto intro: current_decision_ok simp: st1_def)
  qed
qed

lemma become_known_ok:
  assumes "identity_ok st" and "ti_rejected_windows st = 0"
    and "become_known s store m sc st = (d, st')"
  shows "identity_ok st' \<and> decision_ok st d st'"
proof (cases "reference store (fm_sample_id m)")
  case None
  with assms show ?thesis by (auto simp: become_known_def intro: current_decision_ok)
next
  case (Some e)
  define st1 where "st1 = st\<lparr>ti_identity_epoch := ti_identity_epoch st + (if ti_known_match st \<noteq> None then 1 else 0),
      ti_known_match := Some m, ti_reference_embedding := Some e,
      ti_candidate_face_id := None, ti_candidate_wins := 0\<rparr>"
  have eq: "become_known s store m sc st = (fst (become_known s store m sc st), st1)"
    by (simp add: become_known_def Some Let_def st1_def)
  have st': "st' = st1" using assms(3) eq by (metis prod.inject)
  have "identity_ok st1"
    using assms(1,2) reference_wf [OF Some] by (simp add: identity_ok_def st1_def)
  moreover have "decision_ok st (fst (become_known s store m sc st)) st1"
    by (simp add: become_known_def Some Let_def decision_ok_def st1_def)
  ultimately show ?thesis using assms(3) st' by simp
qed

lemma decision_ok_cong:
  assumes "decision_ok st1 d st'" and "ti_identity_epoch st1 = ti_identity_epoch st"
    and "ti_known_match st1 = ti_known_match st"
  shows "decision_ok st d st'"
  using assms(1) unfolding decision_ok_def assms(2,3) .

text \<open>The cases of a vote on a track.\<close>

lemma apply_vote_cases:
  assumes "apply_vote s store v st = (d, st')"
  obtains (reject) "vd_match v = None"
      and "reject_window s (vd_score v) (st\<lparr>ti_nearest_known_score := vd_score v\<rparr>) = (d, st')"
  | (first) m where "vd_match v = Some m" and "ti_known_match st = None"
      and "become_known s store m (vd_score v)
             (st\<lparr>ti_nearest_known_score := vd_score v, ti_rejected_windows := 0\<rparr>) = (d, st')"
  | (same) m k where "vd_match v = Some m" and "ti_known_match st = Some k" and "face_of k = face_of m"
      and "st' = st\<lparr>ti_nearest_known_score := vd_score v, ti_rejected_windows := 0,
             ti_candidate_face_id := None, ti_candidate_wins := 0\<rparr>"
      and "d = current_decision s st'"
  | (candidate) m k where "vd_match v = Some m" and "ti_known_match st = Some k" and "face_of k \<noteq> face_of m"
      and "st' = st\<lparr>ti_nearest_known_score := vd_score v, ti_rejected_windows := 0,
             ti_candidate_face_id := Some (face_of m),
             ti_candidate_wins := (if ti_candidate_face_id st = Some (face_of m)
               then ti_candidate_wins st + 1 else 1)\<rparr>"
      and "ti_candidate_wins st' < 3" and "d = current_decision s st'"
  | (replace) m k where "vd_match v = Some m" and "ti_known_match st = Some k" and "face_of k \<noteq> face_of m"
      and "ti_candidate_face_id st = Some (face_of m)" and "2 \<le> ti_candidate_wins st"
      and "become_known s store m (vd_score v)
             (st\<lparr>ti_nearest_known_score := vd_score v, ti_rejected_windows := 0,
               ti_candidate_face_id := Some (face_of m),
               ti_candidate_wins := ti_candidate_wins st + 1\<rparr>) = (d, st')"
proof (cases "vd_match v")
  case None
  with assms show ?thesis by (intro reject) (simp_all add: apply_vote_def Let_def)
next
  case m: (Some m)
  show ?thesis
  proof (cases "ti_known_match st")
    case None
    with assms m show ?thesis by (intro first) (simp_all add: apply_vote_def Let_def)
  next
    case k: (Some k)
    show ?thesis
    proof (cases "face_of k = face_of m")
      case True
      with assms m k show ?thesis by (intro same [of m k]) (auto simp: apply_vote_def Let_def)
    next
      case False
      show ?thesis
      proof (cases "(if ti_candidate_face_id st = Some (face_of m) then ti_candidate_wins st + 1 else 1) < 3")
        case True
        with assms m k False show ?thesis
          by (intro candidate [of m k]) (auto simp: apply_vote_def Let_def split: if_splits)
      next
        case False
        with assms m k \<open>face_of k \<noteq> face_of m\<close> show ?thesis
          by (intro replace [of m k]) (auto simp: apply_vote_def Let_def split: if_splits)
      qed
    qed
  qed
qed

lemma apply_vote_ok:
  assumes ok: "identity_ok st" and "apply_vote s store v st = (d, st')"
  shows "identity_ok st' \<and> decision_ok st d st'"
  using assms(2)
proof (cases rule: apply_vote_cases)
  case reject
  let ?st = "st\<lparr>ti_nearest_known_score := vd_score v\<rparr>"
  have "identity_ok ?st" using ok by (auto simp: identity_ok_def)
  from reject_window_ok [OF this reject(2)] show ?thesis
    using decision_ok_cong [of ?st d st' st] by simp
next
  case (first m)
  let ?st = "st\<lparr>ti_nearest_known_score := vd_score v, ti_rejected_windows := 0\<rparr>"
  have "identity_ok ?st" using ok by (auto simp: identity_ok_def)
  from become_known_ok [OF this _ first(3)] show ?thesis
    using decision_ok_cong [of ?st d st' st] by simp
next
  case (same m k)
  then show ?thesis using ok by (auto simp: identity_ok_def intro: current_decision_ok)
next
  case (candidate m k)
  then have "identity_ok st'" using ok by (auto simp: identity_ok_def)
  with candidate show ?thesis by (auto intro: current_decision_ok)
next
  case (replace m k)
  let ?st = "st\<lparr>ti_nearest_known_score := vd_score v, ti_rejected_windows := 0,
      ti_candidate_face_id := Some (face_of m), ti_candidate_wins := ti_candidate_wins st + 1\<rparr>"
  have "identity_ok ?st" using ok by (auto simp: identity_ok_def)
  from become_known_ok [OF this _ replace(6)] show ?thesis
    using decision_ok_cong [of ?st d st' st] by simp
qed

lemma resolve_track_ok:
  assumes "identity_ok st" and "resolve_track s vote store ev st = (d, st')"
  shows "identity_ok st' \<and> decision_ok st d st'"
proof -
  let ?w = "open_window ev st"
  have ok: "identity_ok ?w" using open_window_ok [OF assms(1)] .
  show ?thesis
  proof (cases "window_vote vote ev ?w")
    case NoObservations
    with assms(2) ok show ?thesis
      by (auto simp: resolve_track_def Let_def decision_ok_def current_decision_def)
  next
    case QueryFailed
    with assms(2) ok show ?thesis
      by (auto simp: resolve_track_def Let_def intro: current_decision_ok)
  next
    case (Voted v)
    with assms(2) have "apply_vote s store v ?w = (d, st')" by (simp add: resolve_track_def Let_def)
    from apply_vote_ok [OF ok this] show ?thesis
      using decision_ok_cong [of ?w d st' st] by simp
  qed
qed

lemma resolve_voted:
  "window_vote vote ev (open_window ev st) = Voted v \<Longrightarrow>
     resolve_track s vote store ev st = apply_vote s store v (open_window ev st)"
  by (simp add: resolve_track_def Let_def)

section \<open>Histories of a track\<close>

text \<open>The vote a window contributes to the history: the voted face, or \<open>None\<close> for a rejection.\<close>

definition window_faces :: "voter \<Rightarrow> track_evidence_event \<Rightarrow> track_identity \<Rightarrow> string option list" where
  "window_faces vote ev st =
     (case window_vote vote ev (open_window ev st) of
        Voted v \<Rightarrow> [map_option face_of (vd_match v)]
      | _ \<Rightarrow> [])"

text \<open>
  \<open>identity_run s store st h\<close>: the track can be in state \<open>st\<close> after windows whose votes were \<open>h\<close>, the
  newest first. Evidence and the voter's answers are arbitrary.
\<close>

inductive identity_run ::
  "match_settings \<Rightarrow> reference_store \<Rightarrow> track_identity \<Rightarrow> string option list \<Rightarrow> bool"
  for s store where
  start: "identity_run s store new_identity []"
| step: "identity_run s store st h \<Longrightarrow> resolve_track s vote store ev st = (d, st') \<Longrightarrow>
     identity_run s store st' (window_faces vote ev st @ h)"

lemma identity_run_ok: "identity_run s store st h \<Longrightarrow> identity_ok st"
  by (induction rule: identity_run.induct) (auto intro: new_identity_ok dest: resolve_track_ok)

text \<open>The counters of a track count votes at the head of its history.\<close>

definition counters_ok :: "track_identity \<Rightarrow> string option list \<Rightarrow> bool" where
  "counters_ok st h =
     (take (ti_rejected_windows st) h = replicate (ti_rejected_windows st) None
      \<and> (\<forall>f. ti_candidate_face_id st = Some f \<longrightarrow>
           take (ti_candidate_wins st) h = replicate (ti_candidate_wins st) (Some f))
      \<and> (ti_known_match st = None \<longrightarrow> ti_candidate_face_id st = None))"

lemma counters_replicate:
  "take n h = replicate n x \<Longrightarrow> k \<le> n \<Longrightarrow> take k h = replicate k x"
  by (metis min.absorb1 take_replicate take_take)

lemma apply_vote_counters:
  assumes c: "counters_ok st h" and "apply_vote s store v st = (d, st')"
  shows "counters_ok st' (map_option face_of (vd_match v) # h)"
  using assms(2)
proof (cases rule: apply_vote_cases)
  case reject
  then have "ti_candidate_face_id st' = None"
    "ti_rejected_windows st' = 0 \<or> ti_rejected_windows st' = ti_rejected_windows st + 1"
    by (auto simp: reject_window_def Let_def split: if_splits)
  with c reject(1) show ?thesis by (auto simp: counters_ok_def)
next
  case (first m)
  with c have "ti_candidate_face_id st' = None" "ti_rejected_windows st' = 0"
    by (auto simp: become_known_def Let_def counters_ok_def split: option.splits)
  then show ?thesis by (simp add: counters_ok_def)
next
  case (same m k)
  then show ?thesis by (simp add: counters_ok_def)
next
  case (candidate m k)
  with c show ?thesis by (auto simp: counters_ok_def)
next
  case (replace m k)
  show ?thesis
  proof (cases "reference store (fm_sample_id m)")
    case None
    with replace have "st' = st\<lparr>ti_nearest_known_score := vd_score v, ti_rejected_windows := 0,
        ti_candidate_face_id := Some (face_of m), ti_candidate_wins := ti_candidate_wins st + 1\<rparr>"
      by (simp add: become_known_def)
    with replace c show ?thesis by (simp add: counters_ok_def)
  next
    case (Some e)
    with replace(6) have "ti_candidate_face_id st' = None" "ti_rejected_windows st' = 0"
      by (auto simp: become_known_def Let_def)
    then show ?thesis by (simp add: counters_ok_def)
  qed
qed

lemma resolve_track_counters:
  assumes "counters_ok st h" and "resolve_track s vote store ev st = (d, st')"
  shows "counters_ok st' (window_faces vote ev st @ h)"
proof -
  have w: "counters_ok (open_window ev st) h" using assms(1) by (simp add: counters_ok_def)
  show ?thesis
  proof (cases "window_vote vote ev (open_window ev st)")
    case (Voted v)
    with assms(2) have "apply_vote s store v (open_window ev st) = (d, st')"
      by (simp add: resolve_track_def Let_def)
    from apply_vote_counters [OF w this] show ?thesis by (simp add: window_faces_def Voted)
  qed (use assms(2) w in \<open>auto simp: resolve_track_def Let_def window_faces_def\<close>)
qed

lemma identity_run_counters: "identity_run s store st h \<Longrightarrow> counters_ok st h"
proof (induction rule: identity_run.induct)
  case start
  show ?case by (simp add: counters_ok_def new_identity_def)
next
  case (step st h vote ev d st')
  then show ?case by (intro resolve_track_counters)
qed

text \<open>
  In every state a track can reach it keeps at most five observations with distinct timestamps,
  it is known exactly when it has a reference, and that reference is a 512-dimensional unit vector
  the wire protocol accepts; a known track has fewer than three rejected windows in a row.
\<close>

theorem live_identity_invariant:
  assumes "identity_run s store st h"
  shows "length (ti_observations st) \<le> 5 \<and> distinct (map timestamp_ns (ti_observations st))
    \<and> 1 \<le> ti_identity_epoch st
    \<and> (case (ti_known_match st, ti_reference_embedding st) of
         (None, None) \<Rightarrow> True
       | (Some m, Some e) \<Rightarrow> wf_embedding e \<and> ti_rejected_windows st < 3
       | _ \<Rightarrow> False)"
  using identity_run_ok [OF assms] by (auto simp: identity_ok_def split: option.splits)

text \<open>
  C19. A track never switches identity on a single vote: when a known track loses its identity, its
  last three votes rejected it; when it takes another identity, its last three votes all named that
  other face. Either way the decision asks the native worker for a reset and the track's identity
  epoch grows by one; without a change of identity no reset is asked for.
\<close>

theorem identity_change_confirmed:
  assumes "identity_run s store st h" and "resolve_track s vote store ev st = (d, st')"
    and "ti_known_match st = Some k" and "ti_known_match st' \<noteq> Some k"
  shows "ld_reset_required d \<and> ti_identity_epoch st' = ti_identity_epoch st + 1
    \<and> (ti_known_match st' = None \<and> take 3 (window_faces vote ev st @ h) = replicate 3 None
       \<or> (\<exists>m. ti_known_match st' = Some m \<and> face_of m \<noteq> face_of k
            \<and> take 3 (window_faces vote ev st @ h) = replicate 3 (Some (face_of m))))"
proof -
  let ?w = "open_window ev st"
  note c = identity_run_counters [OF assms(1)]
  note ok = conjunct2 [OF resolve_track_ok [OF identity_run_ok [OF assms(1)] assms(2)]]
  from assms(2-4) obtain v where v: "window_vote vote ev ?w = Voted v"
    and av: "apply_vote s store v ?w = (d, st')"
    by (cases "window_vote vote ev ?w") (auto simp: resolve_track_def Let_def)
  have faces: "window_faces vote ev st = [map_option face_of (vd_match v)]"
    by (simp add: window_faces_def v)
  have three: "take 3 (x # h) = replicate 3 x" if "take 2 h = replicate 2 x" for x
    using that by (simp add: eval_nat_numeral)
  from av have change: "ti_known_match st' = None \<and> take 3 (window_faces vote ev st @ h) = replicate 3 None
       \<or> (\<exists>m. ti_known_match st' = Some m \<and> face_of m \<noteq> face_of k
            \<and> take 3 (window_faces vote ev st @ h) = replicate 3 (Some (face_of m)))"
  proof (cases rule: apply_vote_cases)
    case reject
    with assms(3,4) have "2 \<le> ti_rejected_windows st" "ti_known_match st' = None"
      by (auto simp: reject_window_def Let_def split: if_splits)
    moreover have "take 2 h = replicate 2 None"
      using c calculation(1) by (auto simp: counters_ok_def intro: counters_replicate)
    ultimately show ?thesis using three [of None] reject(1) faces by simp
  next
    case (replace m j)
    then have jk: "j = k" "take 2 h = replicate 2 (Some (face_of m))"
      using assms(3) c by (auto simp: counters_ok_def intro: counters_replicate)
    moreover have "ti_known_match st' = Some m"
      using replace(6) assms(3,4) by (auto simp: become_known_def Let_def split: option.splits)
    ultimately show ?thesis using three [of "Some (face_of m)"] replace(1,3) faces by auto
  qed (use assms(3,4) in auto)
  moreover have "ld_reset_required d"
  proof -
    from av show ?thesis
    proof (cases rule: apply_vote_cases)
      case reject
      with assms(3,4) show ?thesis by (auto simp: reject_window_def Let_def split: if_splits)
    next
      case (replace m j)
      with assms(3,4) show ?thesis by (auto simp: become_known_def Let_def split: option.splits)
    qed (use assms(3,4) in auto)
  qed
  ultimately show ?thesis using ok by (simp add: decision_ok_def)
qed

section \<open>The voter the live worker injects\<close>

text \<open>
  The contract the service relies on: a vote that names a face is acceptable (\<open>named\<close>). From it
  follows that a track only becomes known as an acceptable face.
\<close>

locale identity_voter =
  fixes vote :: voter and named :: "face_match \<Rightarrow> bool"
  assumes names: "vote t = Inr d \<Longrightarrow> vd_match d = Some m \<Longrightarrow> named m"
begin

lemma window_named: "window_vote vote ev st = Voted v \<Longrightarrow> vd_match v = Some m \<Longrightarrow> named m"
  by (auto simp: window_vote_def rbind_Inr_iff intro: names split: if_splits sum.splits)

lemma known_named:
  assumes "resolve_track s vote store ev st = (d, st')" and "ld_transition d = ''known''"
  shows "\<exists>m. ld_match d = Some m \<and> ti_known_match st' = Some m \<and> named m"
proof -
  from assms obtain v where v: "window_vote vote ev (open_window ev st) = Voted v"
    and av: "apply_vote s store v (open_window ev st) = (d, st')"
    by (cases "window_vote vote ev (open_window ev st)")
       (auto simp: resolve_track_def Let_def current_decision_def)
  from av have "\<exists>m. vd_match v = Some m \<and> ld_match d = Some m \<and> ti_known_match st' = Some m"
  proof (cases rule: apply_vote_cases)
    case reject
    with assms(2) show ?thesis
      by (auto simp: reject_window_def Let_def current_decision_def split: if_splits)
  next
    case (first m)
    with assms(2) show ?thesis
      by (auto simp: become_known_def Let_def current_decision_def split: option.splits)
  next
    case (replace m k)
    with assms(2) show ?thesis
      by (auto simp: become_known_def Let_def current_decision_def split: option.splits)
  qed (use assms(2) in \<open>auto simp: current_decision_def\<close>)
  with window_named [OF v] show ?thesis by blast
qed

end

text \<open>
  \<open>live_vote\<close> is the vote of \<open>VideoIdentityVotingService\<close> over the candidates that the vector index
  (\<open>search\<close>, one list of hits per embedding, or an exception) and the identity table give.
\<close>

definition live_vote ::
  "match_settings \<Rightarrow> string set \<Rightarrow> face_identity list \<Rightarrow>
   (real list list \<Rightarrow> vector_hit list list result) \<Rightarrow> voter"
where
  "live_vote s statuses ids search t =
     rbind (search (map tt_embedding (ct_source_templates t))) (\<lambda>groups.
       voting_resolve s statuses (ct_source_templates t) (candidates_batch ids 0 groups))"

definition enrolled :: "string set \<Rightarrow> face_identity list \<Rightarrow> face_match \<Rightarrow> bool" where
  "enrolled statuses ids m =
     (0 \<le> fm_score m \<and> fm_score m \<le> 1
      \<and> (\<exists>i \<in> set ids. fi_face_id i = face_of m \<and> fi_is_active i \<and> fi_lifecycle_status i \<in> statuses))"

interpretation live_voter: identity_voter "live_vote s statuses ids search" "enrolled statuses ids"
  for s statuses ids search
proof
  fix t d m
  assume vote: "live_vote s statuses ids search t = Inr d" and m: "vd_match d = Some m"
  then obtain groups where res: "voting_resolve s statuses (ct_source_templates t) (candidates_batch ids 0 groups) = Inr d"
    by (auto simp: live_vote_def rbind_Inr_iff)
  let ?gs = "candidates_batch ids 0 groups"
  have sound: "fm_identity c \<in> set ids \<and> fi_is_active (fm_identity c) \<and> 0 \<le> fm_score c \<and> fm_score c \<le> 1"
    if "g \<in> set ?gs" "c \<in> set g" for g c
    using that hit_matches_sound [of c ids 0] by (auto simp: candidates_batch_def)
  from voting_match_source [OF res m] obtain b where b: "b \<in> counted s statuses ?gs"
    "face_of b = face_of m" "0 \<le> fm_score m" "fm_score m \<le> 1"
    by blast
  then obtain g where "g \<in> set ?gs" "b \<in> set g" "eligible statuses b" by (auto simp: counted_def)
  with sound b show "enrolled statuses ids m"
    by (auto simp: enrolled_def eligible_def face_of_def intro!: bexI [of _ "fm_identity b"])
qed

text \<open>
  A live track only ever becomes known as an enrolled person: the identity the index named is
  active and of an eligible lifecycle in the identity table at that moment, the score lies in the
  unit interval, and the decision carries the unit reference vector of the matched sample.
\<close>

theorem known_track_is_enrolled:
  assumes "identity_run s store st h"
    and "resolve_track s (live_vote s statuses ids search) store ev st = (d, st')"
    and "ld_transition d = ''known''"
  shows "\<exists>m e. ld_match d = Some m \<and> enrolled statuses ids m
    \<and> ld_reference_embedding d = Some e \<and> reference store (fm_sample_id m) = Some e \<and> wf_embedding e"
proof -
  from live_voter.known_named [OF assms(2,3)] obtain m where
    m: "ld_match d = Some m" "enrolled statuses ids m" by blast
  let ?vote = "live_vote s statuses ids search"
  from assms(2,3) obtain v where "apply_vote s store v (open_window ev st) = (d, st')"
    by (cases "window_vote ?vote ev (open_window ev st)")
       (auto simp: resolve_track_def Let_def current_decision_def)
  then have "\<exists>e. reference store (fm_sample_id m) = Some e \<and> ld_reference_embedding d = Some e"
  proof (cases rule: apply_vote_cases)
    case reject
    with assms(3) show ?thesis
      by (auto simp: reject_window_def Let_def current_decision_def split: if_splits)
  next
    case (first m')
    with assms(3) m(1) show ?thesis
      by (auto simp: become_known_def Let_def current_decision_def split: option.splits)
  next
    case (replace m' k)
    with assms(3) m(1) show ?thesis
      by (auto simp: become_known_def Let_def current_decision_def split: option.splits)
  qed (use assms(3) in \<open>auto simp: current_decision_def\<close>)
  with m reference_wf show ?thesis by blast
qed

section \<open>Witnesses\<close>

definition unit_vector :: "real list" where
  "unit_vector = 1 # replicate 511 0"

definition sample_store :: reference_store where
  "sample_store i = Inr (Some (Some (map Fin unit_vector)))"

lemma finite_values_map: "finite_values (map Fin xs) = Some xs"
  by (induction xs) simp_all

lemma unit_vector_norm: "vnorm unit_vector = 1" "length unit_vector = 512" "scale 1 unit_vector = unit_vector"
  by (simp_all add: vnorm_def sum_squares_def unit_vector_def scale_def map_replicate_const sum_list_replicate)

lemma unit_vector_norm_ok: "norm_ok unit_vector"
  using unit_vector_norm(1) by (simp add: norm_ok_def vnorm_def)

lemma sample_reference: "reference sample_store i = Some unit_vector"
  by (simp add: reference_def sample_store_def finite_values_map unit_vector_norm unit_vector_norm_ok Let_def)

definition sample_observation :: live_observation where
  "sample_observation =
     \<lparr>timestamp_ns = 1, obs_bbox = [0, 0, 1, 1], obs_detector_confidence = 9 / 10,
      obs_landmarks = replicate 10 0, landmark_confidences = replicate 5 1, quality_score = 1,
      reject_mask = 0, obs_embedding = unit_vector\<rparr>"

definition sample_evidence :: track_evidence_event where
  "sample_evidence =
     \<lparr>te_header = sample_header ''track_evidence'' 3, te_tracker_id = 7, te_evidence_revision = 1, te_first_seen_ns = 1,
      te_last_seen_ns = 1, te_observations = [sample_observation], representative_aligned_jpeg = []\<rparr>"

definition sample_hits :: "real list list \<Rightarrow> vector_hit list list result" where
  "sample_hits es =
     Inr (map (\<lambda>_. [\<lparr>hit_face_id = Some ''f'', hit_sample_id = ''x'', hit_score = 8 / 10\<rparr>]) es)"

abbreviation sample_voter :: voter where
  "sample_voter \<equiv> live_vote sample_match_settings {''known''} [sample_identity] sample_hits"

definition reject_vote :: voter where
  "reject_vote t = Inr \<lparr>vd_match = None, vd_score = None\<rparr>"

definition doubted_state :: "real option \<Rightarrow> nat \<Rightarrow> track_identity" where
  "doubted_state near n =
     new_identity\<lparr>ti_seen_timestamps := {1}, ti_observations := [sample_observation],
       ti_known_match := Some sample_match, ti_nearest_known_score := near,
       ti_reference_embedding := Some unit_vector, ti_rejected_windows := n,
       ti_evaluation_sequence := 1 + int n\<rparr>"

abbreviation known_state :: track_identity where
  "known_state \<equiv> doubted_state (Some (8 / 10)) 0"

lemma sample_centroid: "\<exists>c. centroid [sample_observation] = Inr c"
  by (simp add: centroid_def add_into_def sample_observation_def)

lemma sample_track_result:
  assumes "ti_observations st = [sample_observation]"
  obtains t where "identity_track ev st = Inr t"
    and "ct_source_templates t = [\<lparr>tt_embedding = unit_vector, tt_detection_count = 1, tt_best_confidence = 9 / 10\<rparr>]"
  using sample_centroid assms that by (auto simp: identity_track_def Let_def sample_observation_def)

lemma sample_live_vote:
  assumes "ct_source_templates t = [\<lparr>tt_embedding = unit_vector, tt_detection_count = 1, tt_best_confidence = 9 / 10\<rparr>]"
  shows "sample_voter t = Inr \<lparr>vd_match = Some sample_match, vd_score = Some (8 / 10)\<rparr>"
proof -
  have hits: "candidates_batch [sample_identity] 0 [[\<lparr>hit_face_id = Some ''f'', hit_sample_id = ''x'', hit_score = 4 / 5\<rparr>]]
      = [[sample_match]]"
    by (simp add: candidates_batch_def get_active_by_id_def sample_identity_def clamp_unit_def sample_match_def)
  have "template_weight x \<noteq> 0" for x using template_weight_pos [of x] by simp
  then show ?thesis
    by (simp add: live_vote_def assms sample_hits_def hits)
       (simp add: voting_resolve_def tally_def vote_template_def eligible_def sample_match_def
        sample_identity_def sample_match_settings_def
        strong_threshold_def cast_vote_def add_vote_def new_support_def face_of_def decide_def
        ranked_def mean_score_def clamp_unit_def Let_def)
qed

lemma sample_first_window: "open_window sample_evidence new_identity =
    new_identity\<lparr>ti_seen_timestamps := {1}, ti_observations := [sample_observation], ti_evaluation_sequence := 1\<rparr>"
  by (simp add: open_window_def accept_new_observations_def accept_observation_def sample_evidence_def
        sample_observation_def new_identity_def)

lemma sample_becomes_known:
  "snd (resolve_track sample_match_settings sample_voter sample_store sample_evidence new_identity) = known_state"
  "ld_transition (fst (resolve_track sample_match_settings sample_voter sample_store sample_evidence new_identity)) = ''known''"
proof -
  let ?w = "open_window sample_evidence new_identity"
  have "ti_observations ?w = [sample_observation]" by (simp add: sample_first_window)
  then obtain t where "identity_track sample_evidence ?w = Inr t" "sample_voter t =
      Inr \<lparr>vd_match = Some sample_match, vd_score = Some (8 / 10)\<rparr>"
    using sample_live_vote by (metis sample_track_result)
  then have "window_vote sample_voter sample_evidence ?w = Voted \<lparr>vd_match = Some sample_match, vd_score = Some (8 / 10)\<rparr>"
    by (simp add: window_vote_def sample_first_window)
  from resolve_voted [OF this] have res: "resolve_track sample_match_settings sample_voter sample_store sample_evidence new_identity
      = apply_vote sample_match_settings sample_store \<lparr>vd_match = Some sample_match, vd_score = Some (8 / 10)\<rparr>
          (new_identity\<lparr>ti_seen_timestamps := {1}, ti_observations := [sample_observation], ti_evaluation_sequence := 1\<rparr>)"
    by (simp only: sample_first_window)
  show "snd (resolve_track sample_match_settings sample_voter sample_store sample_evidence new_identity) = known_state"
    "ld_transition (fst (resolve_track sample_match_settings sample_voter sample_store sample_evidence new_identity)) = ''known''"
    unfolding res
    by (simp_all add: apply_vote_def become_known_def sample_reference Let_def
          doubted_state_def new_identity_def)
qed

lemma sample_reopen: "open_window sample_evidence (doubted_state near n) =
    (doubted_state near n)\<lparr>ti_evaluation_sequence := 2 + int n\<rparr>"
  by (simp add: open_window_def accept_new_observations_def accept_observation_def sample_evidence_def
        sample_observation_def doubted_state_def)

lemma sample_doubt_vote:
  "window_vote reject_vote sample_evidence (open_window sample_evidence (doubted_state near n)) =
     Voted \<lparr>vd_match = None, vd_score = None\<rparr>"
proof -
  let ?w = "open_window sample_evidence (doubted_state near n)"
  have obs: "ti_observations ?w = [sample_observation]" by (simp add: sample_reopen) (simp add: doubted_state_def)
  then obtain t where "identity_track sample_evidence ?w = Inr t" by (rule sample_track_result)
  with obs show ?thesis by (simp add: window_vote_def reject_vote_def)
qed

lemma sample_doubts:
  "n + 1 < 3 \<Longrightarrow> snd (resolve_track sample_match_settings reject_vote sample_store sample_evidence
     (doubted_state near n)) = doubted_state None (n + 1)"
  "window_faces reject_vote sample_evidence (doubted_state near n) = [None]"
  "ti_known_match (snd (resolve_track sample_match_settings reject_vote sample_store sample_evidence
     (doubted_state near 2))) = None"
proof -
  show "window_faces reject_vote sample_evidence (doubted_state near n) = [None]"
    by (simp only: window_faces_def sample_doubt_vote) simp
qed (unfold resolve_voted [OF sample_doubt_vote] sample_reopen,
     simp_all add: apply_vote_def reject_window_def Let_def doubted_state_def new_identity_def)

lemma sample_known_run: "\<exists>h. identity_run sample_match_settings sample_store known_state h"
  using identity_run.step [OF identity_run.start, of sample_match_settings sample_voter sample_store sample_evidence]
    sample_becomes_known(1) by (metis prod.collapse)

lemma sample_doubt_run:
  "\<exists>h. identity_run sample_match_settings sample_store (doubted_state None 2) (None # None # h)"
proof -
  let ?r = "\<lambda>near n. resolve_track sample_match_settings reject_vote sample_store sample_evidence (doubted_state near n)"
  from sample_known_run obtain h where "identity_run sample_match_settings sample_store known_state h" ..
  from identity_run.step [OF this surjective_pairing, of reject_vote sample_evidence]
  have "identity_run sample_match_settings sample_store (doubted_state None 1) (None # h)"
    by (simp add: sample_doubts)
  from identity_run.step [OF this surjective_pairing, of reject_vote sample_evidence]
  have "identity_run sample_match_settings sample_store (doubted_state None 2) (None # None # h)"
    using sample_doubts(1) [of 1 None] by (simp add: sample_doubts(2) numeral_2_eq_2)
  then show ?thesis ..
qed

theorem live_identity_invariant_witness:
  "length (ti_observations known_state) \<le> 5 \<and> distinct (map timestamp_ns (ti_observations known_state))"
  using sample_known_run live_identity_invariant [of sample_match_settings sample_store known_state] by blast

theorem identity_change_confirmed_witness:
  "\<exists>h. take 3 (window_faces reject_vote sample_evidence (doubted_state None 2) @ None # None # h) = replicate 3 None"
proof -
  let ?r = "resolve_track sample_match_settings reject_vote sample_store sample_evidence (doubted_state None 2)"
  from sample_doubt_run obtain h where
    run: "identity_run sample_match_settings sample_store (doubted_state None 2) (None # None # h)" ..
  have "ti_known_match (doubted_state None 2) = Some sample_match" by (simp add: doubted_state_def)
  from identity_change_confirmed [OF run surjective_pairing [of ?r] this] sample_doubts(3) [of None]
  have "take 3 (window_faces reject_vote sample_evidence (doubted_state None 2) @ None # None # h) = replicate 3 None"
    by simp
  then show ?thesis by (rule exI)
qed

theorem known_track_is_enrolled_witness:
  "\<exists>m e. ld_match (fst (resolve_track sample_match_settings sample_voter sample_store sample_evidence new_identity)) = Some m
    \<and> enrolled {''known''} [sample_identity] m
    \<and> reference sample_store (fm_sample_id m) = Some e \<and> wf_embedding e"
  using known_track_is_enrolled [OF identity_run.start surjective_pairing sample_becomes_known(2)] by blast

end
