(* ===== verification/Live_Events.thy ===== *)
theory Live_Events
  imports Live_Identity "HOL-Library.List_Lexorder" "HOL-Library.Char_ord"
begin

text \<open>
  What the live worker reports about a track: \<open>LiveEventService\<close>
  (\<open>src/backend/app/services/live_event_service.py\<close>) and \<open>LiveEventRepository\<close> with its table
  (\<open>src/backend/app/infrastructure/database\<close>). An identity decision becomes a durable detection
  event, a snapshot object, and assignments for the native worker. The name-based UUID
  (\<open>uuid5\<close>) is a parameter; so is, per call, how the object store and the database answer: a failed
  upload, a failed commit (a violated foreign key included) or a failed clean-up. Spans and log
  lines are left out; \<open>es_published\<close> records the events handed to the notifier, whose queues are in
  \<open>Live_Notifier\<close>.
\<close>

section \<open>The event table\<close>

record detection_event =
  ev_event_id :: string
  ev_camera_id :: string
  ev_run_id :: string
  ev_native_track_id :: int
  ev_identity_epoch :: int
  ev_event_type :: string
  ev_face_id :: "string option"
  ev_name_snapshot :: "string option"
  ev_identity_version :: "int option"
  ev_match_score :: "real option"
  ev_nearest_known_score :: "real option"
  ev_detector_confidence :: real
  ev_first_seen_at :: time
  ev_last_seen_at :: time
  ev_occurred_at :: time
  ev_bounding_box :: "(string \<times> real) list"
  ev_landmarks :: "real list"
  ev_quality :: "(string \<times> real) list"
  ev_snapshot_status :: string
  ev_snapshot_bucket :: "string option"
  ev_snapshot_object_key :: "string option"

definition event_constraints :: "detection_event \<Rightarrow> bool" where
  "event_constraints e =
     (ev_event_type e \<in> {''known'', ''unknown''}
      \<and> ev_snapshot_status e \<in> {''pending'', ''ready'', ''failed'', ''unavailable''}
      \<and> 0 \<le> ev_native_track_id e \<and> ev_native_track_id e \<le> 18446744073709551615
      \<and> (ev_event_type e = ''known'' \<and> ev_face_id e \<noteq> None \<and> ev_name_snapshot e \<noteq> None
         \<or> ev_event_type e = ''unknown'' \<and> ev_face_id e = None \<and> ev_name_snapshot e = None)
      \<and> (ev_snapshot_bucket e = None \<longleftrightarrow> ev_snapshot_object_key e = None))"

type_synonym event_key = "string \<times> int \<times> int \<times> string"

definition event_key_of :: "detection_event \<Rightarrow> event_key" where
  "event_key_of e = (ev_run_id e, ev_native_track_id e, ev_identity_epoch e, ev_event_type e)"

text \<open>
  \<open>INSERT ... ON CONFLICT DO NOTHING\<close> on the key: a row that breaks a check raises, a row whose key is
  taken leaves the table alone and the present row is returned, and a taken primary key raises.
\<close>

definition create_once ::
  "detection_event \<Rightarrow> detection_event list \<Rightarrow> (detection_event list \<times> detection_event) result" where
  "create_once row evs =
     (if \<not> event_constraints row then Inl (OtherError ''IntegrityError'')
      else case find (\<lambda>e. event_key_of e = event_key_of row) evs of
        Some e \<Rightarrow> Inr (evs, e)
      | None \<Rightarrow>
          if ev_event_id row \<in> ev_event_id ` set evs then Inl (OtherError ''IntegrityError'')
          else Inr (evs @ [row], row))"

text \<open>Newest first; a cursor continues after the row it names.\<close>

definition page_order :: "detection_event \<Rightarrow> time \<times> string" where
  "page_order e = (ev_occurred_at e, ev_event_id e)"

definition list_page ::
  "string \<Rightarrow> int \<Rightarrow> time option \<Rightarrow> string option \<Rightarrow> detection_event list \<Rightarrow> detection_event list result"
where
  "list_page cam limit cur_time cur_id evs =
     (if limit \<le> 0 then Inl (ValueError ''INVALID_LIVE_EVENT_PAGE_LIMIT'')
      else let mine = filter (\<lambda>e. ev_camera_id e = cam) evs in
        rbind (case (cur_time, cur_id) of
                 (None, None) \<Rightarrow> Inr mine
               | (Some t, Some i) \<Rightarrow>
                   Inr (filter (\<lambda>e. ev_occurred_at e < t \<or> ev_occurred_at e = t \<and> ev_event_id e < i) mine)
               | _ \<Rightarrow> Inl (ValueError ''INVALID_LIVE_EVENT_CURSOR''))
          (\<lambda>rows. Inr (take (nat limit) (rev (sort_key page_order rows)))))"

definition event_get :: "string \<Rightarrow> string \<Rightarrow> detection_event list \<Rightarrow> detection_event option" where
  "event_get cam i evs = find (\<lambda>e. ev_camera_id e = cam \<and> ev_event_id e = i) evs"

section \<open>The service\<close>

record event_settings =
  known_cooldown_seconds :: real
  unknown_min_dwell_seconds :: real

text \<open>\<open>int(x)\<close> truncates towards zero.\<close>

definition py_trunc :: "real \<Rightarrow> int" where
  "py_trunc x = (if x < 0 then \<lceil>x\<rceil> else \<lfloor>x\<rfloor>)"

definition event_timestamp :: "int \<Rightarrow> time" where
  "event_timestamp ns = round_half_even (of_int ns / 1000)"

type_synonym pending = "((string \<times> int) \<times> track_evidence_event \<times> live_decision) list"

record event_state =
  es_events :: "detection_event list"
  es_snapshots :: "string set"
  es_published :: "detection_event list"
  es_revisions :: "((string \<times> int) \<times> int) list"
  es_pending :: pending
  es_cooldown :: "((string \<times> string) \<times> int) list"
  es_suppressed :: int

definition initial_events :: event_state where
  "initial_events =
     \<lparr>es_events = [], es_snapshots = {}, es_published = [], es_revisions = [], es_pending = [],
      es_cooldown = [], es_suppressed = 0\<rparr>"

text \<open>How the outside world answers one call.\<close>

record persist_env =
  pe_upload :: "(string \<times> string) option"
  pe_commit :: bool
  pe_delete :: bool

fun best_observation :: "live_observation \<Rightarrow> live_observation list \<Rightarrow> live_observation" where
  "best_observation b [] = b"
| "best_observation b (ob # obs) =
     best_observation (if quality_score b < quality_score ob then ob else b) obs"

definition event_name ::
  "string \<Rightarrow> int \<Rightarrow> string \<Rightarrow> int \<Rightarrow> string" where
  "event_name run tracker kind epoch =
     run @ '':'' @ str_int tracker @ '':'' @ kind @ '':'' @ str_int epoch"

definition str_name :: "string option \<Rightarrow> string" where
  "str_name n = (case n of None \<Rightarrow> ''None'' | Some s \<Rightarrow> s)"

definition event_row ::
  "string \<Rightarrow> string \<Rightarrow> string \<Rightarrow> track_evidence_event \<Rightarrow> live_decision \<Rightarrow> string \<Rightarrow>
   (string \<times> string) option \<Rightarrow> live_observation \<Rightarrow> detection_event"
where
  "event_row event_id cam run ev d kind upload best =
     (let m = ld_match d; i = map_option fm_identity m
      in \<lparr>ev_event_id = event_id, ev_camera_id = cam, ev_run_id = run,
          ev_native_track_id = te_tracker_id ev, ev_identity_epoch = ld_identity_epoch d,
          ev_event_type = kind, ev_face_id = map_option fi_face_id i,
          ev_name_snapshot = map_option (\<lambda>i. str_name (fi_name i)) i,
          ev_identity_version = map_option fi_version i, ev_match_score = map_option fm_score m,
          ev_nearest_known_score = ld_nearest_known_score d,
          ev_detector_confidence = obs_detector_confidence best,
          ev_first_seen_at = event_timestamp (te_first_seen_ns ev),
          ev_last_seen_at = event_timestamp (te_last_seen_ns ev),
          ev_occurred_at = event_timestamp (te_last_seen_ns ev),
          ev_bounding_box =
            [(''x'', obs_bbox best ! 0), (''y'', obs_bbox best ! 1), (''width'', obs_bbox best ! 2),
             (''height'', obs_bbox best ! 3)],
          ev_landmarks = obs_landmarks best,
          ev_quality = dict_put ''identity_epoch'' (of_int (ld_identity_epoch d)) (ld_quality d),
          ev_snapshot_status = (if upload = None then ''failed'' else ''ready''),
          ev_snapshot_bucket = map_option fst upload,
          ev_snapshot_object_key = map_option snd upload\<rparr>)"

text \<open>
  An evidence event without observations has no best one: \<open>max\<close> raises after the upload, outside the
  block that would remove the snapshot again. A bounding box shorter than four would do the same.
\<close>

definition persist ::
  "(string \<Rightarrow> string) \<Rightarrow> persist_env \<Rightarrow> string \<Rightarrow> string \<Rightarrow> track_evidence_event \<Rightarrow> live_decision \<Rightarrow>
   string \<Rightarrow> event_state \<Rightarrow> event_state \<times> detection_event result"
where
  "persist uuid5 env cam run ev d kind st =
     (let event_id = uuid5 (event_name run (te_tracker_id ev) kind (ld_identity_epoch d));
          object_key = ''live/'' @ cam @ ''/'' @ event_id @ ''/aligned'';
          st1 = (if pe_upload env = None then st
                 else st\<lparr>es_snapshots := insert object_key (es_snapshots st)\<rparr>)
      in case te_observations ev of
           [] \<Rightarrow> (st1, Inl (ValueError ''max() arg is an empty sequence''))
         | ob # obs \<Rightarrow>
             let best = best_observation ob obs
             in if length (obs_bbox best) < 4 then (st1, Inl IndexError)
                else let row = event_row event_id cam run ev d kind (pe_upload env) best;
                         inserted = (if pe_commit env then create_once row (es_events st1)
                                     else Inl (OtherError ''SQLAlchemyError''))
                     in case inserted of
                          Inl e \<Rightarrow>
                            ((if pe_upload env \<noteq> None \<and> pe_delete env
                              then st1\<lparr>es_snapshots := es_snapshots st1 - {object_key}\<rparr> else st1),
                             Inl e)
                        | Inr (evs, saved) \<Rightarrow>
                            (st1\<lparr>es_events := evs, es_published := es_published st1 @ [saved]\<rparr>, Inr saved))"

text \<open>
  An assignment takes the next revision of its track. The decision's quality must name the
  recognition threshold when it has a match: \<open>decision.quality["recognition_threshold"]\<close> raises
  otherwise, after the revision has been taken.
\<close>

definition assignment ::
  "track_evidence_event \<Rightarrow> live_decision \<Rightarrow> string \<Rightarrow> event_state \<Rightarrow> event_state \<times> identity_assignment result"
where
  "assignment ev d state st =
     (let h = te_header ev; key = (hd_run_id h, te_tracker_id ev);
          revision = (case map_of (es_revisions st) key of None \<Rightarrow> 0 | Some r \<Rightarrow> r) + 1;
          m = (if state = ''known'' then ld_match d else None); i = map_option fm_identity m;
          threshold = map_of (ld_quality d) ''recognition_threshold''
      in (st\<lparr>es_revisions := dict_put key revision (es_revisions st)\<rparr>,
          if m \<noteq> None \<and> threshold = None then Inl KeyError
          else Inr \<lparr>ia_header = h\<lparr>message_type := ''identity_assignment'', hd_sequence := hd_sequence h + revision\<rparr>,
           ia_tracker_id = te_tracker_id ev, assignment_revision = revision,
           ia_identity_epoch = ld_identity_epoch d, ia_identity_state = state,
           ia_display_name = map_option (\<lambda>i. str_name (fi_name i)) i,
           ia_face_id = map_option fi_face_id i, ia_match_score = map_option fm_score m,
           ia_recognition_threshold = (if m = None then None else threshold),
           ia_reference_embedding = (if m = None then None else ld_reference_embedding d),
           ia_decision_sequence = te_evidence_revision ev\<rparr>))"

definition validate_context :: "string \<Rightarrow> string \<Rightarrow> int \<Rightarrow> protocol_header \<Rightarrow> unit result" where
  "validate_context cam run gen h =
     (if hd_camera_id h \<noteq> cam \<or> hd_run_id h \<noteq> run \<or> hd_generation h \<noteq> gen
      then Inl (ValueError ''STALE_LIVE_EVIDENCE'') else Inr ())"

fun assign_all ::
  "track_evidence_event \<Rightarrow> live_decision \<Rightarrow> string list \<Rightarrow> event_state \<Rightarrow> event_state \<times> identity_assignment list result"
where
  "assign_all ev d [] st = (st, Inr [])"
| "assign_all ev d (state # states) st =
     (case assignment ev d state st of
        (st1, Inl e) \<Rightarrow> (st1, Inl e)
      | (st1, Inr a) \<Rightarrow>
          (case assign_all ev d states st1 of (st2, r) \<Rightarrow> (st2, rbind r (\<lambda>as. Inr (a # as)))))"

definition assign_unknown ::
  "track_evidence_event \<Rightarrow> live_decision \<Rightarrow> event_state \<Rightarrow> event_state \<times> identity_assignment list result" where
  "assign_unknown ev d st = assign_all ev d [''unknown''] st"

text \<open>The assignments of a track that has become known; a replaced identity is first cleared.\<close>

definition known_assignments ::
  "track_evidence_event \<Rightarrow> live_decision \<Rightarrow> event_state \<Rightarrow> event_state \<times> identity_assignment list result" where
  "known_assignments ev d st =
     assign_all ev d (if ld_reset_required d then [''unknown'', ''known''] else [''known'']) st"

definition keep_pending :: "string \<Rightarrow> track_evidence_event \<Rightarrow> live_decision \<Rightarrow> event_state \<Rightarrow> event_state" where
  "keep_pending run ev d st = st\<lparr>es_pending := dict_put (run, te_tracker_id ev) (ev, d) (es_pending st)\<rparr>"

definition accept_decision ::
  "event_settings \<Rightarrow> (string \<Rightarrow> string) \<Rightarrow> persist_env \<Rightarrow> string \<Rightarrow> string \<Rightarrow> int \<Rightarrow>
   track_evidence_event \<Rightarrow> live_decision \<Rightarrow> event_state \<Rightarrow> event_state \<times> identity_assignment list result"
where
  "accept_decision s uuid5 env cam run gen ev d st =
     (case validate_context cam run gen (te_header ev) of
        Inl e \<Rightarrow> (st, Inl e)
      | Inr _ \<Rightarrow>
          if ld_transition d = ''none'' then
            ((if ld_match d = None then keep_pending run ev d st else st), Inr [])
          else if ld_transition d = ''unknown'' then
            (let st0 = st\<lparr>es_pending := dict_del (run, te_tracker_id ev) (es_pending st)\<rparr>
             in case persist uuid5 env cam run ev d ''unknown'' st0 of
                  (st1, Inl e) \<Rightarrow> (st1, Inl e)
                | (st1, Inr _) \<Rightarrow> assign_unknown ev d st1)
          else case ld_match d of
            None \<Rightarrow> (keep_pending run ev d st, Inr [])
          | Some m \<Rightarrow>
              if ld_reference_embedding d = None then (keep_pending run ev d st, Inr [])
              else let key = (cam, face_of m);
                       cooldown_ns = py_trunc (known_cooldown_seconds s * 1000000000);
                       suppressed = (case map_of (es_cooldown st) key of
                          None \<Rightarrow> False | Some t \<Rightarrow> te_last_seen_ns ev - t < cooldown_ns)
                   in if suppressed
                      then known_assignments ev d (st\<lparr>es_suppressed := es_suppressed st + 1\<rparr>)
                      else case persist uuid5 env cam run ev d ''known'' st of
                          (st1, Inl e) \<Rightarrow> (st1, Inl e)
                        | (st1, Inr _) \<Rightarrow>
                            known_assignments ev d
                              (st1\<lparr>es_cooldown := dict_put key (te_last_seen_ns ev) (es_cooldown st1)\<rparr>))"

definition expire_track ::
  "event_settings \<Rightarrow> (string \<Rightarrow> string) \<Rightarrow> persist_env \<Rightarrow> string \<Rightarrow> string \<Rightarrow> int \<Rightarrow>
   track_expired_event \<Rightarrow> event_state \<Rightarrow> event_state \<times> identity_assignment list result"
where
  "expire_track s uuid5 env cam run gen x st =
     (case validate_context cam run gen (tx_header x) of
        Inl e \<Rightarrow> (st, Inl e)
      | Inr _ \<Rightarrow>
          let key = (run, tx_tracker_id x);
              st0 = st\<lparr>es_pending := dict_del key (es_pending st)\<rparr>
          in case map_of (es_pending st) key of
               None \<Rightarrow> (st0, Inr [])
             | Some (ev, d) \<Rightarrow>
                 if tx_last_seen_ns x - tx_first_seen_ns x
                    < py_trunc (unknown_min_dwell_seconds s * 1000000000)
                 then (st0, Inr [])
                 else case persist uuid5 env cam run ev d ''unknown'' st0 of
                     (st1, Inl e) \<Rightarrow> (st1, Inl e)
                   | (st1, Inr _) \<Rightarrow> assign_unknown ev d st1)"

section \<open>Histories\<close>

datatype event_input =
    Decide persist_env string string int track_evidence_event live_decision
  | Expire persist_env string string int track_expired_event

fun event_step ::
  "event_settings \<Rightarrow> (string \<Rightarrow> string) \<Rightarrow> event_state \<Rightarrow> event_input \<Rightarrow>
   event_state \<times> identity_assignment list result"
where
  "event_step s uuid5 st (Decide env cam run gen ev d) = accept_decision s uuid5 env cam run gen ev d st"
| "event_step s uuid5 st (Expire env cam run gen x) = expire_track s uuid5 env cam run gen x st"

definition emitted :: "identity_assignment list result \<Rightarrow> identity_assignment list" where
  "emitted r = (case r of Inl _ \<Rightarrow> [] | Inr as \<Rightarrow> as)"

fun run_events ::
  "event_settings \<Rightarrow> (string \<Rightarrow> string) \<Rightarrow> event_state \<Rightarrow> event_input list \<Rightarrow>
   event_state \<times> identity_assignment list"
where
  "run_events s uuid5 st [] = (st, [])"
| "run_events s uuid5 st (i # is) =
     (case event_step s uuid5 st i of (st1, r) \<Rightarrow>
        (case run_events s uuid5 st1 is of (st2, as) \<Rightarrow> (st2, emitted r @ as)))"

section \<open>What persisting changes\<close>

lemma persist_keeps:
  assumes "persist uuid5 env cam run ev d kind st = (st', r)"
  shows "es_revisions st' = es_revisions st" and "es_pending st' = es_pending st"
    and "es_cooldown st' = es_cooldown st"
  using assms by (auto simp: persist_def Let_def split: list.splits if_splits sum.splits)

text \<open>The new row, when there is one.\<close>

lemma persist_rows:
  assumes "persist uuid5 env cam run ev d kind st = (st', r)"
  obtains (same) "es_events st' = es_events st"
  | (added) row where "es_events st' = es_events st @ [row]" and "r = Inr row" and "event_constraints row"
      and "ev_event_type row = kind" and "ev_camera_id row = cam" and "ev_run_id row = run"
      and "ev_native_track_id row = te_tracker_id ev" and "ev_identity_epoch row = ld_identity_epoch d"
      and "ev_face_id row = map_option face_of (ld_match d)"
      and "ev_occurred_at row = event_timestamp (te_last_seen_ns ev)"
      and "event_key_of row \<notin> event_key_of ` set (es_events st)"
      and "ev_event_id row \<notin> ev_event_id ` set (es_events st)"
proof (cases "te_observations ev")
  case Nil
  with assms show ?thesis by (intro same) (auto simp: persist_def Let_def)
next
  case (Cons ob obs)
  let ?best = "best_observation ob obs"
  let ?id = "uuid5 (event_name run (te_tracker_id ev) kind (ld_identity_epoch d))"
  let ?row = "event_row ?id cam run ev d kind (pe_upload env) ?best"
  show ?thesis
  proof (cases "\<not> length (obs_bbox ?best) < 4 \<and> pe_commit env \<and> create_once ?row (es_events st) = Inr (es_events st @ [?row], ?row)")
    case True
    have row: "ev_event_type ?row = kind" "ev_camera_id ?row = cam" "ev_run_id ?row = run"
      "ev_native_track_id ?row = te_tracker_id ev" "ev_identity_epoch ?row = ld_identity_epoch d"
      "ev_face_id ?row = map_option face_of (ld_match d)" "ev_occurred_at ?row = event_timestamp (te_last_seen_ns ev)"
      by (simp_all add: event_row_def Let_def option.map_comp face_of_def [abs_def] comp_def)
    have "event_constraints ?row" "event_key_of ?row \<notin> event_key_of ` set (es_events st)"
      "ev_event_id ?row \<notin> ev_event_id ` set (es_events st)"
      using True by (auto simp: create_once_def find_None_iff split: option.splits if_splits)
    moreover have "es_events st' = es_events st @ [?row]" "r = Inr ?row"
      using assms Cons True by (auto simp: persist_def Let_def split: if_splits)
    ultimately show ?thesis using row by (intro added)
  next
    case False
    have "create_once ?row (es_events st) = Inr (evs, e) \<Longrightarrow>
        evs = es_events st \<or> create_once ?row (es_events st) = Inr (es_events st @ [?row], ?row)" for evs e
      by (auto simp: create_once_def split: option.splits if_splits)
    with assms Cons False show ?thesis
      by (intro same) (auto simp: persist_def Let_def split: if_splits sum.splits)
  qed
qed

section \<open>Revisions\<close>

definition revision_of :: "event_state \<Rightarrow> string \<times> int \<Rightarrow> int" where
  "revision_of st key = (case map_of (es_revisions st) key of None \<Rightarrow> 0 | Some r \<Rightarrow> r)"

definition track_of :: "identity_assignment \<Rightarrow> string \<times> int" where
  "track_of a = (hd_run_id (ia_header a), ia_tracker_id a)"

definition revisions_for :: "string \<times> int \<Rightarrow> identity_assignment list \<Rightarrow> int list" where
  "revisions_for key as = map assignment_revision (filter (\<lambda>a. track_of a = key) as)"

text \<open>Issuing assignments numbers them on from the state's counters.\<close>

definition issues :: "event_state \<Rightarrow> event_state \<Rightarrow> identity_assignment list \<Rightarrow> bool" where
  "issues st st' as =
     (\<forall>key. revision_of st key \<le> revision_of st' key
        \<and> revisions_for key as = [revision_of st key + 1 .. revision_of st' key])"

lemma issues_refl: "es_revisions st' = es_revisions st \<Longrightarrow> issues st st' []"
  by (simp add: issues_def revision_of_def revisions_for_def)

lemma upto_glue: "i \<le> j \<Longrightarrow> j \<le> k \<Longrightarrow> [i + 1..j] @ [j + 1..k] = [i + 1..(k::int)]"
  using upto_split2 [of "i + 1" j k] by (cases "i = j") simp_all

lemma issues_trans: "issues st st1 as \<Longrightarrow> issues st1 st2 bs \<Longrightarrow> issues st st2 (as @ bs)"
  unfolding issues_def revisions_for_def
  by (simp add: upto_glue) (meson order_trans)

text \<open>The parts of the state that numbering an assignment leaves alone.\<close>

definition same_store :: "event_state \<Rightarrow> event_state \<Rightarrow> bool" where
  "same_store st st' =
     (es_events st' = es_events st \<and> es_pending st' = es_pending st \<and> es_cooldown st' = es_cooldown st)"

text \<open>A decision of the identity service always names the threshold it was taken with.\<close>

definition thresholded :: "live_decision \<Rightarrow> bool" where
  "thresholded d = (map_of (ld_quality d) ''recognition_threshold'' \<noteq> None)"

lemma assignment_issues:
  assumes "assignment ev d state st = (st', r)" and "thresholded d"
  obtains a where "r = Inr a" and "issues st st' [a]" and "same_store st st'" and "ia_identity_state a = state"
proof -
  let ?key = "(hd_run_id (te_header ev), te_tracker_id ev)"
  from assms obtain a where a: "r = Inr a" "track_of a = ?key" "assignment_revision a = revision_of st ?key + 1"
      "ia_identity_state a = state"
    and st': "st' = st\<lparr>es_revisions := dict_put ?key (revision_of st ?key + 1) (es_revisions st)\<rparr>"
    by (auto simp: assignment_def Let_def track_of_def revision_of_def thresholded_def)
  have "revision_of st' key = (if key = ?key then revision_of st ?key + 1 else revision_of st key)" for key
    by (simp add: revision_of_def st')
  then have "issues st st' [a]" using a by (auto simp: issues_def revisions_for_def)
  with that a st' show ?thesis by (simp add: same_store_def)
qed

lemma assign_all_issues:
  assumes "assign_all ev d states st = (st', r)" and "thresholded d"
  shows "issues st st' (emitted r) \<and> same_store st st' \<and> (\<exists>as. r = Inr as \<and> map ia_identity_state as = states)"
  using assms(1)
proof (induction states arbitrary: st st' r)
  case Nil
  then show ?case by (auto simp: issues_refl same_store_def emitted_def)
next
  case (Cons state states)
  obtain st1 r1 where 1: "assignment ev d state st = (st1, r1)" by fastforce
  from 1 assms(2) obtain a where a: "r1 = Inr a" "issues st st1 [a]" "same_store st st1" "ia_identity_state a = state"
    by (rule assignment_issues)
  obtain st2 r2 where 2: "assign_all ev d states st1 = (st2, r2)" by fastforce
  from Cons.IH [OF this] obtain as where "r2 = Inr as" "issues st1 st2 as" "same_store st1 st2"
    "map ia_identity_state as = states" by (auto simp: emitted_def)
  with Cons.prems 1 2 a issues_trans [OF a(2), of st2 as] show ?case
    by (auto simp: emitted_def same_store_def)
qed

section \<open>What a call does\<close>

definition cooling :: "event_settings \<Rightarrow> event_state \<Rightarrow> string \<times> string \<Rightarrow> int \<Rightarrow> bool" where
  "cooling s st key ns =
     (case map_of (es_cooldown st) key of
        None \<Rightarrow> False | Some t \<Rightarrow> ns - t < py_trunc (known_cooldown_seconds s * 1000000000))"

text \<open>What is asked of the evidence and the decisions that arrive is asked of the remembered ones too.\<close>

definition input_ok :: "(track_evidence_event \<Rightarrow> live_decision \<Rightarrow> bool) \<Rightarrow> event_input \<Rightarrow> bool" where
  "input_ok Q i = (case i of Decide _ _ _ _ ev d \<Rightarrow> Q ev d | Expire _ _ _ _ _ \<Rightarrow> True)"

definition pending_ok :: "(track_evidence_event \<Rightarrow> live_decision \<Rightarrow> bool) \<Rightarrow> event_state \<Rightarrow> bool" where
  "pending_ok Q st = (\<forall>p\<in>set (es_pending st). Q (fst (snd p)) (snd (snd p)))"

abbreviation thresholded_input :: "event_input \<Rightarrow> bool" where
  "thresholded_input \<equiv> input_ok (\<lambda>_. thresholded)"

text \<open>
  The four things a call can do: nothing but remember the evidence; record and announce an unknown
  person; announce a known person without an event while the face is cooling down; or record and
  announce a known person. \<open>follow\<close> is the part after the record.
\<close>

definition follow ::
  "(event_state \<Rightarrow> event_state \<times> identity_assignment list result) \<Rightarrow> event_state \<times> detection_event result \<Rightarrow>
   event_state \<times> identity_assignment list result" where
  "follow f p = (case p of (st1, Inl e) \<Rightarrow> (st1, Inl e) | (st1, Inr _) \<Rightarrow> f st1)"

lemma event_step_cases:
  assumes "event_step s uuid5 st i = (st', r)" and "pending_ok Q st" and "input_ok Q i"
  obtains (idle) "emitted r = []" and "es_events st' = es_events st" and "es_cooldown st' = es_cooldown st"
      and "es_revisions st' = es_revisions st" and "pending_ok Q st'"
  | (unknown) env cam run ev d st0 where
      "(st', r) = follow (assign_unknown ev d) (persist uuid5 env cam run ev d ''unknown'' st0)"
      and "es_events st0 = es_events st" and "es_cooldown st0 = es_cooldown st"
      and "es_revisions st0 = es_revisions st" and "pending_ok Q st0" and "Q ev d"
  | (suppressed) ev d where "known_assignments ev d (st\<lparr>es_suppressed := es_suppressed st + 1\<rparr>) = (st', r)"
      and "Q ev d" and "ld_match d \<noteq> None" and "ld_reference_embedding d \<noteq> None"
  | (known) env cam run ev d m where "\<not> cooling s st (cam, face_of m) (te_last_seen_ns ev)"
      and "(st', r) = follow (\<lambda>st1. known_assignments ev d
             (st1\<lparr>es_cooldown := dict_put (cam, face_of m) (te_last_seen_ns ev) (es_cooldown st1)\<rparr>))
            (persist uuid5 env cam run ev d ''known'' st)"
      and "ld_match d = Some m" and "Q ev d" and "ld_reference_embedding d \<noteq> None"
proof (cases i)
  case (Decide env cam run gen ev d)
  let ?key = "(run, te_tracker_id ev)"
  have keep: "pending_ok Q (keep_pending run ev d st)"
    using assms(2,3) Decide set_dict_put [of ?key "(ev, d)" "es_pending st"]
    by (auto simp: pending_ok_def keep_pending_def input_ok_def)
  have acc: "accept_decision s uuid5 env cam run gen ev d st = (st', r)" and th: "Q ev d"
    using assms(1,3) Decide by (simp_all add: input_ok_def)
  consider (stale) e where "validate_context cam run gen (te_header ev) = Inl e"
    | (quiet) "validate_context cam run gen (te_header ev) = Inr ()"
        and "st' = st \<or> st' = keep_pending run ev d st" and "r = Inr []"
    | (unk) "validate_context cam run gen (te_header ev) = Inr ()" and "ld_transition d = ''unknown''"
    | (match) m where "validate_context cam run gen (te_header ev) = Inr ()" and "ld_transition d \<noteq> ''none''"
        and "ld_transition d \<noteq> ''unknown''" and "ld_match d = Some m" and "ld_reference_embedding d \<noteq> None"
    using acc
    by (cases "validate_context cam run gen (te_header ev)"; cases "ld_match d";
        cases "ld_reference_embedding d"; cases "ld_transition d = ''none''"; cases "ld_transition d = ''unknown''")
       (simp_all add: accept_decision_def)
  then show ?thesis
  proof cases
    case stale
    with acc have "st' = st" "r = Inl e" by (simp_all add: accept_decision_def)
    with assms(2) show ?thesis by (intro idle) (simp_all add: emitted_def)
  next
    case quiet
    with assms(2) keep show ?thesis by (intro idle) (auto simp: emitted_def keep_pending_def)
  next
    case unk
    let ?st0 = "st\<lparr>es_pending := dict_del ?key (es_pending st)\<rparr>"
    have "(st', r) = follow (assign_unknown ev d) (persist uuid5 env cam run ev d ''unknown'' ?st0)"
      using acc unk by (simp add: accept_decision_def follow_def Let_def)
    moreover have "pending_ok Q ?st0" using assms(2) by (auto simp: pending_ok_def dict_del_def)
    ultimately show ?thesis using th by (intro unknown) simp_all
  next
    case match
    show ?thesis
    proof (cases "cooling s st (cam, face_of m) (te_last_seen_ns ev)")
      case True
      with acc match have "known_assignments ev d (st\<lparr>es_suppressed := es_suppressed st + 1\<rparr>) = (st', r)"
        by (simp add: accept_decision_def Let_def cooling_def)
      with th match(4,5) show ?thesis by (intro suppressed) simp_all
    next
      case False
      with acc match have "(st', r) = follow (\<lambda>st1. known_assignments ev d
             (st1\<lparr>es_cooldown := dict_put (cam, face_of m) (te_last_seen_ns ev) (es_cooldown st1)\<rparr>))
            (persist uuid5 env cam run ev d ''known'' st)"
        by (simp add: accept_decision_def Let_def cooling_def follow_def)
      with False match(4,5) th show ?thesis by (intro known)
    qed
  qed
next
  case (Expire env cam run gen x)
  let ?key = "(run, tx_tracker_id x)"
  let ?st0 = "st\<lparr>es_pending := dict_del ?key (es_pending st)\<rparr>"
  have ok: "pending_ok Q ?st0" using assms(2) by (auto simp: pending_ok_def dict_del_def)
  have exp: "expire_track s uuid5 env cam run gen x st = (st', r)" using assms(1) Expire by simp
  consider (quiet) "st' = st \<or> st' = ?st0" and "emitted r = []"
    | (unk) ev d where "map_of (es_pending st) ?key = Some (ev, d)"
        and "(st', r) = follow (assign_unknown ev d) (persist uuid5 env cam run ev d ''unknown'' ?st0)"
    using exp by (cases "validate_context cam run gen (tx_header x)"; cases "map_of (es_pending st) ?key")
      (auto simp: expire_track_def Let_def emitted_def follow_def split: if_splits)
  then show ?thesis
  proof cases
    case quiet
    with assms(2) ok show ?thesis by (intro idle) auto
  next
    case unk
    from map_of_SomeD [OF unk(1)] assms(2) have "Q ev d" by (force simp: pending_ok_def)
    with unk ok show ?thesis by (intro unknown) simp_all
  qed
qed

lemma follow_persist:
  assumes "(st', r) = follow f (persist uuid5 env cam run ev d kind st)"
  obtains (failed) e where "r = Inl e" and "es_events st' = es_events st" and "es_cooldown st' = es_cooldown st"
      and "es_revisions st' = es_revisions st" and "es_pending st' = es_pending st"
  | (saved) st1 row where "f st1 = (st', r)" and "persist uuid5 env cam run ev d kind st = (st1, Inr row)"
      and "es_cooldown st1 = es_cooldown st" and "es_revisions st1 = es_revisions st"
      and "es_pending st1 = es_pending st"
proof -
  obtain st1 p where p: "persist uuid5 env cam run ev d kind st = (st1, p)" by fastforce
  note keeps = persist_keeps [OF p]
  show ?thesis
  proof (cases p)
    case (Inl e)
    with p have "es_events st1 = es_events st" by (auto elim: persist_rows)
    with assms p Inl keeps show ?thesis by (intro failed) (simp_all add: follow_def)
  next
    case (Inr row)
    with assms p keeps show ?thesis using saved [of st1 row] by (simp add: follow_def)
  qed
qed

lemma event_step_issues:
  assumes "event_step s uuid5 st i = (st', r)" and "pending_ok Q st" and "input_ok Q i"
    and "\<And>ev d. Q ev d \<Longrightarrow> thresholded d"
  shows "issues st st' (emitted r) \<and> pending_ok Q st'"
  using assms(1-3)
proof (cases rule: event_step_cases)
  case idle
  then show ?thesis by (simp add: issues_refl)
next
  case (unknown env cam run ev d st0)
  from unknown(1) show ?thesis
  proof (cases rule: follow_persist)
    case failed
    with unknown show ?thesis by (simp add: issues_refl emitted_def pending_ok_def)
  next
    case (saved st1 row)
    from assign_all_issues [OF saved(1) [unfolded assign_unknown_def] assms(4) [OF unknown(6)]] saved unknown show ?thesis
      by (simp add: issues_def revision_of_def same_store_def pending_ok_def)
  qed
next
  case (suppressed ev d)
  from assign_all_issues [OF suppressed(1) [unfolded known_assignments_def] assms(4) [OF suppressed(2)]] assms(2) show ?thesis
    by (simp add: issues_def revision_of_def same_store_def pending_ok_def)
next
  case (known env cam run ev d m)
  from known(2) show ?thesis
  proof (cases rule: follow_persist)
    case failed
    with assms(2) show ?thesis by (simp add: issues_refl emitted_def pending_ok_def)
  next
    case (saved st1 row)
    from assign_all_issues [OF saved(1) [unfolded known_assignments_def] assms(4) [OF known(4)]] saved assms(2) show ?thesis
      by (simp add: issues_def revision_of_def same_store_def pending_ok_def)
  qed
qed

text \<open>What a call adds to the event table.\<close>

lemma event_step_rows:
  assumes "event_step s uuid5 st i = (st', r)" and "pending_ok (\<lambda>_. thresholded) st" and "thresholded_input i"
  obtains (same) "es_events st' = es_events st"
      and "es_cooldown st' = es_cooldown st \<or>
        (\<exists>key ns. \<not> cooling s st key ns \<and> es_cooldown st' = dict_put key ns (es_cooldown st))"
  | (unknown) row where "es_events st' = es_events st @ [row]" and "ev_event_type row = ''unknown''"
      and "es_cooldown st' = es_cooldown st" and "event_constraints row"
      and "event_key_of row \<notin> event_key_of ` set (es_events st)"
      and "ev_event_id row \<notin> ev_event_id ` set (es_events st)"
  | (known) row ns f where "es_events st' = es_events st @ [row]" and "ev_event_type row = ''known''"
      and "ev_face_id row = Some f" and "ev_occurred_at row = event_timestamp ns"
      and "\<not> cooling s st (ev_camera_id row, f) ns"
      and "es_cooldown st' = dict_put (ev_camera_id row, f) ns (es_cooldown st)" and "event_constraints row"
      and "event_key_of row \<notin> event_key_of ` set (es_events st)"
      and "ev_event_id row \<notin> ev_event_id ` set (es_events st)"
  using assms
proof (cases rule: event_step_cases)
  case idle
  then show ?thesis by (intro same) simp_all
next
  case (unknown env cam run ev d st0)
  from unknown(1) show ?thesis
  proof (cases rule: follow_persist)
    case failed
    with unknown show ?thesis by (intro same) simp_all
  next
    case (saved st1 row)
    from assign_all_issues [OF saved(1) [unfolded assign_unknown_def] unknown(6)]
    have "es_events st' = es_events st1" "es_cooldown st' = es_cooldown st1" by (simp_all add: same_store_def)
    with saved(2) unknown saved(3) that(1,2) show ?thesis by (elim persist_rows) simp_all
  qed
next
  case (suppressed ev d)
  from assign_all_issues [OF suppressed(1) [unfolded known_assignments_def] suppressed(2)] show ?thesis
    by (intro same) (simp_all add: same_store_def)
next
  case (known env cam run ev d m)
  from known(2) show ?thesis
  proof (cases rule: follow_persist)
    case failed
    then show ?thesis by (intro same) simp_all
  next
    case (saved st1 row)
    from assign_all_issues [OF saved(1) [unfolded known_assignments_def] known(4)] saved(3)
    have ev': "es_events st' = es_events st1"
      and cd: "es_cooldown st' = dict_put (cam, face_of m) (te_last_seen_ns ev) (es_cooldown st)"
      by (simp_all add: same_store_def)
    from saved(2) show ?thesis
    proof (cases rule: persist_rows)
      case same
      with ev' cd known(1) show ?thesis by (intro that(1)) auto
    next
      case (added row')
      with ev' cd known(1,3) show ?thesis by (intro that(3)) simp_all
    qed
  qed
qed

section \<open>Histories of the service\<close>

text \<open>A step invariant that the start has holds after every history of complete decisions.\<close>

lemma run_events_induct:
  assumes "run_events s uuid5 st is = (st', as)" and "pending_ok Q st" and "list_all (input_ok Q) is" and "P st"
    and Q: "\<And>ev d. Q ev d \<Longrightarrow> thresholded d"
    and step: "\<And>st i st' r. P st \<Longrightarrow> pending_ok Q st \<Longrightarrow> input_ok Q i \<Longrightarrow>
      event_step s uuid5 st i = (st', r) \<Longrightarrow> P st' \<and> list_all E (emitted r)"
  shows "P st' \<and> list_all E as \<and> issues st st' as"
  using assms(1-4)
proof (induction "is" arbitrary: st as)
  case Nil
  then show ?case by (simp add: issues_refl)
next
  case (Cons i "is")
  obtain st1 r where 1: "event_step s uuid5 st i = (st1, r)" by fastforce
  obtain st2 bs where 2: "run_events s uuid5 st1 is = (st2, bs)" by fastforce
  from Cons.prems(1) 1 2 have eq: "st2 = st'" "as = emitted r @ bs" by simp_all
  from event_step_issues [OF 1 _ _ Q] Cons.prems(2,3) have is1: "issues st st1 (emitted r)" "pending_ok Q st1"
    by simp_all
  from step [OF _ _ _ 1] Cons.prems have "P st1" "list_all E (emitted r)" by simp_all
  with Cons.IH [OF 2 [unfolded eq(1)]] is1 Cons.prems(3)
  have "P st' \<and> list_all E bs \<and> issues st1 st' bs" by simp
  with is1(1) eq(2) issues_trans \<open>list_all E (emitted r)\<close> show ?case by (metis list_all_append)
qed

lemmas run_thresholded =
  run_events_induct [where Q = "\<lambda>_. thresholded" and E = "\<lambda>_. True",
    unfolded list.pred_True, simplified]

lemma initial_pending: "pending_ok Q initial_events"
  by (simp add: pending_ok_def initial_events_def)

text \<open>
  Whatever is decided and expires, in whatever order and however the object store and the
  database fail, the assignments the service hands out for a track of a run are numbered
  1, 2, 3, ... without gaps or repetitions, up to the revision the service remembers.
\<close>

theorem revisions_consecutive:
  assumes "run_events s uuid5 initial_events is = (st, as)" and "list_all thresholded_input is"
  shows "revisions_for key as = [1..revision_of st key]"
proof -
  have "revision_of initial_events key = 0" by (simp add: revision_of_def initial_events_def)
  moreover have "issues initial_events st as"
    using run_thresholded [OF assms(1) initial_pending assms(2), where P = "\<lambda>_. True"] by simp
  ultimately show ?thesis unfolding issues_def by (metis add_0)
qed

definition events_ok :: "detection_event list \<Rightarrow> bool" where
  "events_ok evs =
     (list_all event_constraints evs \<and> distinct (map event_key_of evs) \<and> distinct (map ev_event_id evs))"

lemma event_step_events_ok:
  assumes "event_step s uuid5 st i = (st', r)" and "pending_ok (\<lambda>_. thresholded) st" and "thresholded_input i"
    and "events_ok (es_events st)"
  shows "events_ok (es_events st')"
  using assms(1-3)
proof (cases rule: event_step_rows)
  case same
  with assms(4) show ?thesis by simp
next
  case (unknown row)
  with assms(4) show ?thesis by (auto simp: events_ok_def)
next
  case (known row ns f)
  with assms(4) show ?thesis by (auto simp: events_ok_def)
qed

text \<open>
  The event table stays well formed: every row satisfies the table's checks (a known event
  names a face and a person, an unknown one neither, a snapshot has a bucket exactly when it has a
  key), ids are unique, and a track of a run has at most one event per identity epoch and kind,
  however often evidence is delivered.
\<close>

theorem event_table_invariant:
  assumes "run_events s uuid5 initial_events is = (st, as)" and "list_all thresholded_input is"
  shows "list_all event_constraints (es_events st) \<and> distinct (map event_key_of (es_events st))
    \<and> distinct (map ev_event_id (es_events st))"
proof -
  have "events_ok (es_events initial_events)" by (simp add: events_ok_def initial_events_def)
  with run_thresholded [OF assms(1) initial_pending assms(2), where P = "\<lambda>st. events_ok (es_events st)"]
  have "events_ok (es_events st)" using event_step_events_ok by blast
  then show ?thesis by (simp add: events_ok_def)
qed

text \<open>Two known events of the same face at the same camera, the second not earlier than the cooldown allows.\<close>

definition spaced :: "int \<Rightarrow> detection_event \<Rightarrow> detection_event \<Rightarrow> bool" where
  "spaced cooldown a b =
     (ev_event_type a = ''known'' \<and> ev_event_type b = ''known'' \<and> ev_camera_id a = ev_camera_id b
        \<and> ev_face_id a = ev_face_id b \<longrightarrow>
      cooldown - 1000 \<le> (ev_occurred_at b - ev_occurred_at a) * 1000)"

definition cooldown_inv :: "event_settings \<Rightarrow> event_state \<Rightarrow> bool" where
  "cooldown_inv s st =
     (sorted_wrt (spaced (py_trunc (known_cooldown_seconds s * 1000000000))) (es_events st)
      \<and> (\<forall>e\<in>set (es_events st). \<forall>f. ev_event_type e = ''known'' \<longrightarrow> ev_face_id e = Some f \<longrightarrow>
           (\<exists>t ns. map_of (es_cooldown st) (ev_camera_id e, f) = Some t \<and> ns \<le> t
              \<and> ev_occurred_at e = event_timestamp ns)))"

lemma event_timestamp_error: "\<bar>event_timestamp ns * 1000 - ns\<bar> \<le> 500"
proof -
  have "\<bar>of_int (event_timestamp ns) - of_int ns / 1000\<bar> \<le> (1 / 2 :: real)"
    unfolding event_timestamp_def by (rule round_half_even_error)
  then have "real_of_int (event_timestamp ns) * 1000 - real_of_int ns \<le> 500"
    "real_of_int ns - real_of_int (event_timestamp ns) * 1000 \<le> 500" by linarith+
  then have "real_of_int (event_timestamp ns * 1000 - ns) \<le> real_of_int 500"
    "real_of_int (ns - event_timestamp ns * 1000) \<le> real_of_int 500" by simp_all
  then show ?thesis unfolding of_int_le_iff by linarith
qed

lemma cooling_later:
  assumes "\<not> cooling s st key ns" and "map_of (es_cooldown st) key = Some t"
    and "0 \<le> known_cooldown_seconds s"
  shows "t + py_trunc (known_cooldown_seconds s * 1000000000) \<le> ns" and "t \<le> ns"
proof -
  have "0 \<le> py_trunc (known_cooldown_seconds s * 1000000000)" using assms(3) by (simp add: py_trunc_def)
  then show "t + py_trunc (known_cooldown_seconds s * 1000000000) \<le> ns" "t \<le> ns"
    using assms(1,2) by (simp_all add: cooling_def)
qed

lemma event_step_cooldown:
  assumes "event_step s uuid5 st i = (st', r)" and "pending_ok (\<lambda>_. thresholded) st" and "thresholded_input i"
    and "0 \<le> known_cooldown_seconds s" and "cooldown_inv s st"
  shows "cooldown_inv s st'"
proof -
  have put: "\<exists>t ns'. map_of (dict_put key ns (es_cooldown st)) (ev_camera_id e, f) = Some t \<and> ns' \<le> t
      \<and> ev_occurred_at e = event_timestamp ns'"
    if "\<not> cooling s st key ns" "e \<in> set (es_events st)" "ev_event_type e = ''known''" "ev_face_id e = Some f"
    for key ns e f
  proof -
    from assms(5) that(2-4) obtain t ns' where t: "map_of (es_cooldown st) (ev_camera_id e, f) = Some t" "ns' \<le> t"
      "ev_occurred_at e = event_timestamp ns'" unfolding cooldown_inv_def by blast
    show ?thesis
    proof (cases "key = (ev_camera_id e, f)")
      case True
      with cooling_later(2) [OF that(1), of t] assms(4) t have "ns' \<le> ns" by simp
      with True t(3) show ?thesis by auto
    qed (use t in auto)
  qed
  from assms(1-3) show ?thesis
  proof (cases rule: event_step_rows)
    case same
    with assms(5) put show ?thesis by (auto simp: cooldown_inv_def)
  next
    case (unknown row)
    with assms(5) show ?thesis by (auto simp: cooldown_inv_def sorted_wrt_append spaced_def)
  next
    case (known row ns f)
    let ?cd = "py_trunc (known_cooldown_seconds s * 1000000000)"
    have "spaced ?cd e row" if "e \<in> set (es_events st)" for e
    proof -
      have "?cd - 1000 \<le> (ev_occurred_at row - ev_occurred_at e) * 1000"
        if k: "ev_event_type e = ''known''" "ev_camera_id e = ev_camera_id row" "ev_face_id e = ev_face_id row"
      proof -
        from assms(5) \<open>e \<in> _\<close> k known(3) obtain t ns' where t: "map_of (es_cooldown st) (ev_camera_id row, f) = Some t"
          "ns' \<le> t" "ev_occurred_at e = event_timestamp ns'" unfolding cooldown_inv_def by metis
        from cooling_later(1) [OF known(5) t(1) assms(4)] event_timestamp_error [of ns] event_timestamp_error [of ns']
          t(2,3) known(4)
        show ?thesis by (simp add: algebra_simps)
      qed
      then show ?thesis by (simp add: spaced_def)
    qed
    with known put [OF known(5)] assms(5) show ?thesis
      by (auto simp: cooldown_inv_def sorted_wrt_append)
  qed
qed


section \<open>The assignments the service hands out\<close>

text \<open>
  What the assignments need: evidence as the decoder delivers it, and a decision as the identity
  service takes it, for a face whose id the database made.
\<close>

definition decision_wf :: "live_decision \<Rightarrow> bool" where
  "decision_wf d =
     (thresholded d \<and> 1 \<le> ld_identity_epoch d
      \<and> (case ld_match d of None \<Rightarrow> True | Some m \<Rightarrow> canonical_uuid (face_of m))
      \<and> (case ld_reference_embedding d of None \<Rightarrow> True | Some e \<Rightarrow> wf_embedding e))"

definition delivered :: "track_evidence_event \<Rightarrow> live_decision \<Rightarrow> bool" where
  "delivered ev d = (wf_message (TrackEvidenceEvent ev) \<and> decision_wf d)"

lemma delivered_thresholded: "delivered ev d \<Longrightarrow> thresholded d"
  by (simp add: delivered_def decision_wf_def)

definition counting :: "event_state \<Rightarrow> bool" where
  "counting st = (\<forall>key. 0 \<le> revision_of st key)"

lemma assignment_wf:
  assumes "assignment ev d state st = (st', Inr a)" and "delivered ev d" and "counting st"
    and "state = ''unknown'' \<or> state = ''known'' \<and> ld_match d \<noteq> None \<and> ld_reference_embedding d \<noteq> None"
  shows "wf_message (IdentityAssignment a) \<and> counting st'"
proof -
  let ?key = "(hd_run_id (te_header ev), te_tracker_id ev)"
  from assms(1) have st': "st' = st\<lparr>es_revisions := dict_put ?key (revision_of st ?key + 1) (es_revisions st)\<rparr>"
    by (simp add: assignment_def Let_def revision_of_def)
  have pos: "0 \<le> revision_of st key" for key using assms(3) unfolding counting_def by blast
  have "counting st'" using pos by (simp add: counting_def st' revision_of_def)
  moreover have "wf_message (IdentityAssignment a)"
  proof -
    let ?m = "if state = ''known'' then ld_match d else None"
    from assms(1) have "a = (case snd (assignment ev d state st) of Inr b \<Rightarrow> b | Inl _ \<Rightarrow> a)" by simp
    then have a: "ia_header a = (te_header ev)\<lparr>message_type := ''identity_assignment'',
          hd_sequence := hd_sequence (te_header ev) + (revision_of st ?key + 1)\<rparr>"
        "ia_tracker_id a = te_tracker_id ev" "assignment_revision a = revision_of st ?key + 1"
        "ia_identity_epoch a = ld_identity_epoch d" "ia_identity_state a = state"
        "ia_decision_sequence a = te_evidence_revision ev"
        "ia_display_name a = map_option (\<lambda>m. str_name (fi_name (fm_identity m))) ?m"
        "ia_face_id a = map_option face_of ?m" "ia_match_score a = map_option fm_score ?m"
        "ia_recognition_threshold a = (if ?m = None then None else map_of (ld_quality d) ''recognition_threshold'')"
        "ia_reference_embedding a = (if ?m = None then None else ld_reference_embedding d)"
      using assms(1)
      by (auto simp: assignment_def Let_def revision_of_def option.map_comp comp_def face_of_def
            split: if_splits)
    have ev: "wf_header (te_header ev)" "0 \<le> te_tracker_id ev" "1 \<le> te_evidence_revision ev"
      using assms(2) by (simp_all add: delivered_def wf_message_def)
    have "wf_header (ia_header a)" using ev(1) pos [of ?key] by (simp add: a wf_header_def)
    moreover have "wf_assignment a"
    proof (cases "state = ''known''")
      case True
      with assms(4) obtain m e where "ld_match d = Some m" "ld_reference_embedding d = Some e" by auto
      with True assms(2) ev pos [of ?key] show ?thesis
        by (simp add: wf_assignment_def a delivered_def decision_wf_def thresholded_def)
    next
      case False
      with assms(2,4) ev pos [of ?key] show ?thesis
        by (simp add: wf_assignment_def a delivered_def decision_wf_def)
    qed
    ultimately show ?thesis by (simp add: wf_message_def a(1))
  qed
  ultimately show ?thesis by blast
qed

lemma assign_all_wf:
  assumes "assign_all ev d states st = (st', r)" and "delivered ev d" and "counting st"
    and "set states \<subseteq> (if ld_match d \<noteq> None \<and> ld_reference_embedding d \<noteq> None
           then {''unknown'', ''known''} else {''unknown''})"
  shows "list_all (\<lambda>a. wf_message (IdentityAssignment a)) (emitted r) \<and> counting st'"
  using assms(1,3,4)
proof (induction states arbitrary: st r)
  case Nil
  then show ?case by (auto simp: emitted_def)
next
  case (Cons state states)
  obtain st1 r1 where 1: "assignment ev d state st = (st1, r1)" by fastforce
  from 1 delivered_thresholded [OF assms(2)] obtain a where a: "r1 = Inr a" by (rule assignment_issues)
  from assignment_wf [OF 1 [unfolded a] assms(2) Cons.prems(2)] Cons.prems(3)
  have wf: "wf_message (IdentityAssignment a)" "counting st1" by (auto split: if_splits)
  obtain r2 where 2: "assign_all ev d states st1 = (st', r2)"
    "r = rbind r2 (\<lambda>as. Inr (a # as))" using Cons.prems(1) 1 a by (auto split: prod.splits)
  from Cons.IH [OF 2(1) wf(2)] Cons.prems(3) wf(1) 2(2) show ?case
    by (cases r2) (simp_all add: emitted_def)
qed

lemma counting_cong: "es_revisions st' = es_revisions st \<Longrightarrow> counting st \<Longrightarrow> counting st'"
  by (simp add: counting_def revision_of_def)

lemma event_step_wf:
  assumes "event_step s uuid5 st i = (st', r)" and "pending_ok delivered st" and "input_ok delivered i"
    and "counting st"
  shows "counting st' \<and> list_all (\<lambda>a. wf_message (IdentityAssignment a)) (emitted r)"
  using assms(1-3)
proof (cases rule: event_step_cases)
  case idle
  with assms(4) show ?thesis by (simp add: counting_cong)
next
  case (unknown env cam run ev d st0)
  from unknown(1) show ?thesis
  proof (cases rule: follow_persist)
    case failed
    with unknown(4) assms(4) show ?thesis by (simp add: counting_cong emitted_def)
  next
    case (saved st1 row)
    with unknown(4) assms(4) have "counting st1" by (simp add: counting_cong)
    with assign_all_wf [OF saved(1) [unfolded assign_unknown_def] unknown(6)] show ?thesis by simp
  qed
next
  case (suppressed ev d)
  have "counting (st\<lparr>es_suppressed := es_suppressed st + 1\<rparr>)" using assms(4) by (simp add: counting_cong)
  with assign_all_wf [OF suppressed(1) [unfolded known_assignments_def] suppressed(2)] suppressed(3,4)
  show ?thesis by simp
next
  case (known env cam run ev d m)
  from known(2) show ?thesis
  proof (cases rule: follow_persist)
    case failed
    with assms(4) show ?thesis by (simp add: counting_cong emitted_def)
  next
    case (saved st1 row)
    let ?st1 = "st1\<lparr>es_cooldown := dict_put (cam, face_of m) (te_last_seen_ns ev) (es_cooldown st1)\<rparr>"
    have "counting ?st1" using saved(4) assms(4) by (simp add: counting_cong)
    with assign_all_wf [OF saved(1) [unfolded known_assignments_def] known(4)] known(3,5)
    show ?thesis by simp
  qed
qed

text \<open>
  Every assignment the service hands out is a message the native worker's decoder accepts: for
  evidence the protocol admitted and decisions that keep the identity service's promises, a known
  assignment carries a name, a canonical face id, score, threshold and a unit reference vector, an
  unknown one none of them, and revision and sequence number are in range.
\<close>

theorem assignments_well_formed:
  assumes "run_events s uuid5 initial_events is = (st, as)" and "list_all (input_ok delivered) is"
  shows "list_all (\<lambda>a. wf_message (IdentityAssignment a)) as"
proof -
  have "counting initial_events" by (simp add: counting_def revision_of_def initial_events_def)
  with run_events_induct [OF assms(1) initial_pending assms(2), where P = counting]
    event_step_wf delivered_thresholded
  show ?thesis by blast
qed

section \<open>Pages\<close>

lemma list_page_filter:
  "rev (sort_key page_order (filter P evs)) = filter P (rev (sort_key page_order evs))"
  by (simp only: filter_sort [symmetric] rev_filter)

text \<open>
  C24. Paging by cursor loses and repeats nothing. Write the camera's events, newest first, as
  \<open>xs @ ys\<close>: the page after the last event of \<open>xs\<close> is the beginning of \<open>ys\<close>, and the page without a
  cursor is the beginning of the whole list.
\<close>

theorem list_page_resumes:
  assumes "distinct (map ev_event_id evs)" and "0 < limit"
    and "rev (sort_key page_order (filter (\<lambda>e. ev_camera_id e = cam) evs)) = xs @ ys"
  shows "list_page cam limit
      (if xs = [] then None else Some (ev_occurred_at (last xs)))
      (if xs = [] then None else Some (ev_event_id (last xs))) evs = Inr (take (nat limit) ys)"
proof (cases "xs = []")
  case True
  with assms show ?thesis by (simp add: list_page_def)
next
  case False
  let ?mine = "filter (\<lambda>e. ev_camera_id e = cam) evs" and ?c = "last xs"
  let ?older = "\<lambda>e. page_order e < page_order ?c"
  have "sorted (map page_order (rev (xs @ ys)))" using assms(3) by (metis rev_rev_ident sorted_sort_key)
  then have desc: "sorted_wrt (\<lambda>a b. page_order b \<le> page_order a) (xs @ ys)"
    by (simp only: rev_map [symmetric] sorted_wrt_rev sorted_wrt_map)
  have "distinct (map ev_event_id (xs @ ys))"
  proof -
    have "distinct (map ev_event_id ?mine)" using assms(1) by (rule distinct_map_filter)
    then have "distinct (map ev_event_id (rev (sort_key page_order ?mine)))"
      by (simp add: distinct_map)
    then show ?thesis unfolding assms(3) .
  qed
  then have ids: "ev_event_id e \<noteq> ev_event_id ?c" if "e \<in> set ys" for e
    using that False by (auto simp: distinct_map) (metis IntI empty_iff imageI last_in_set)
  have front: "\<not> ?older e" if "e \<in> set xs" for e
  proof -
    from False obtain zs where zs: "xs = zs @ [?c]" by (metis append_butlast_last_id)
    with desc have "\<forall>z\<in>set zs. page_order ?c \<le> page_order z"
      by (metis (no_types, lifting) sorted_wrt_append list.set_intros(1))
    moreover have "e \<in> set zs \<or> e = ?c" using that zs by (metis UnE set_append set_ConsD empty_iff empty_set)
    ultimately show ?thesis by (auto simp: not_less)
  qed
  have rest: "?older e" if "e \<in> set ys" for e
    using that False desc ids [OF that] by (auto simp: sorted_wrt_append page_order_def less_le)
  have "filter ?older (xs @ ys) = ys" using front rest by (simp add: filter_id_conv)
  moreover have older: "?older = (\<lambda>e. ev_occurred_at e < ev_occurred_at ?c
      \<or> ev_occurred_at e = ev_occurred_at ?c \<and> ev_event_id e < ev_event_id ?c)"
    by (auto simp: page_order_def fun_eq_iff)
  have "list_page cam limit (Some (ev_occurred_at ?c)) (Some (ev_event_id ?c)) evs
      = Inr (take (nat limit) (rev (sort_key page_order (filter ?older ?mine))))"
    unfolding older using assms(2) by (simp add: list_page_def)
  moreover have "rev (sort_key page_order (filter ?older ?mine)) = filter ?older (xs @ ys)"
    unfolding assms(3) [symmetric] by (rule list_page_filter)
  ultimately show ?thesis using False by simp
qed

section \<open>Two gaps\<close>

text \<open>
  C38. Accepting a known decision leaves what was remembered about the track from before it was known.
  When the track expires, that is recorded: the person who was recognised gets an unknown event
  and, with a higher revision, an unknown assignment.
\<close>

theorem known_track_expires_unknown:
  assumes "map_of (es_pending st) (run, te_tracker_id ev) = Some (ev0, d0)" and "thresholded d0"
    and "accept_decision s uuid5 env cam run gen ev d st = (st1, Inr as)" and "ld_transition d = ''known''"
    and "validate_context cam run gen (tx_header x) = Inr ()" and "tx_tracker_id x = te_tracker_id ev"
    and "py_trunc (unknown_min_dwell_seconds s * 1000000000) \<le> tx_last_seen_ns x - tx_first_seen_ns x"
    and "persist uuid5 env' cam run ev0 d0 ''unknown''
           (st1\<lparr>es_pending := dict_del (run, te_tracker_id ev) (es_pending st1)\<rparr>) = (st2, Inr row)"
    and "ld_match d \<noteq> None" and "ld_reference_embedding d \<noteq> None" and "thresholded d"
  shows "\<exists>st3 a. expire_track s uuid5 env' cam run gen x st1 = (st3, Inr [a]) \<and> ia_identity_state a = ''unknown''"
proof -
  have "es_pending st1 = es_pending st"
  proof -
    obtain m where m: "ld_match d = Some m" using assms(9) by auto
    let ?key = "(cam, face_of m)"
    show ?thesis
    proof (cases "cooling s st ?key (te_last_seen_ns ev)")
      case True
      with assms(3,4,10) m have "known_assignments ev d (st\<lparr>es_suppressed := es_suppressed st + 1\<rparr>) = (st1, Inr as)"
        by (auto simp: accept_decision_def Let_def cooling_def split: sum.splits)
      from assign_all_issues [OF this [unfolded known_assignments_def] assms(11)] show ?thesis
        by (simp add: same_store_def)
    next
      case False
      with assms(3,4,10) m have "(st1, Inr as) = follow (\<lambda>st'. known_assignments ev d
             (st'\<lparr>es_cooldown := dict_put ?key (te_last_seen_ns ev) (es_cooldown st')\<rparr>))
            (persist uuid5 env cam run ev d ''known'' st)"
        by (auto simp: accept_decision_def Let_def cooling_def follow_def split: sum.splits)
      then show ?thesis
      proof (cases rule: follow_persist)
        case (saved st' row')
        from assign_all_issues [OF saved(1) [unfolded known_assignments_def] assms(11)] saved(5) show ?thesis
          by (simp add: same_store_def)
      qed simp
    qed
  qed
  with assms(1,5,6,7,8) have "expire_track s uuid5 env' cam run gen x st1 = assign_unknown ev0 d0 st2"
    by (simp add: expire_track_def Let_def)
  moreover obtain st3 r where "assign_unknown ev0 d0 st2 = (st3, r)" by fastforce
  ultimately show ?thesis
    using assign_all_issues [of ev0 d0 "[''unknown'']" st2 st3 r] assms(2) by (auto simp: assign_unknown_def)
qed

text \<open>
  Evidence without observations is a message the protocol admits, but it has no best observation:
  recording it uploads the snapshot, then fails outside the block that would delete it again, so
  the snapshot stays without an event.
\<close>

theorem empty_evidence_leaves_snapshot:
  assumes "te_observations ev = []" and "pe_upload env \<noteq> None"
    and "persist uuid5 env cam run ev d kind st = (st', r)"
  shows "(\<exists>e. r = Inl e) \<and> es_events st' = es_events st
    \<and> ''live/'' @ cam @ ''/'' @ uuid5 (event_name run (te_tracker_id ev) kind (ld_identity_epoch d)) @ ''/aligned''
        \<in> es_snapshots st'"
  using assms by (auto simp: persist_def Let_def)

section \<open>Witnesses\<close>

definition sample_env :: persist_env where
  "sample_env = \<lparr>pe_upload = Some (''bucket'', ''key''), pe_commit = True, pe_delete = True\<rparr>"

definition sample_event_settings :: event_settings where
  "sample_event_settings = \<lparr>known_cooldown_seconds = 30, unknown_min_dwell_seconds = 1 / 2\<rparr>"

definition sample_person :: face_match where
  "sample_person = sample_match\<lparr>fm_identity := sample_identity\<lparr>fi_face_id := ''44444444-4444-4444-8444-444444444444''\<rparr>\<rparr>"

definition sample_decision :: "string \<Rightarrow> live_decision" where
  "sample_decision transition =
     \<lparr>ld_identity_state = ''known'', ld_match = (if transition = ''known'' then Some sample_person else None),
      ld_nearest_known_score = None, ld_identity_epoch = 1, ld_reset_required = False,
      ld_quality = quality_of sample_match_settings,
      ld_reference_embedding = (if transition = ''known'' then Some unit_vector else None),
      ld_transition = transition, ld_evaluation_sequence = 1\<rparr>"

definition sample_expiry :: track_expired_event where
  "sample_expiry =
     \<lparr>tx_header = sample_header ''track_expired'' 4, tx_tracker_id = 7, tx_evidence_revision = 2,
      tx_first_seen_ns = 1, tx_last_seen_ns = 1000000001,
      tx_reason = ''lost''\<rparr>"

abbreviation sample_camera :: string where
  "sample_camera \<equiv> hd_camera_id (sample_header ''stop'' 0)"

abbreviation sample_run :: string where
  "sample_run \<equiv> hd_run_id (sample_header ''stop'' 0)"

abbreviation sample_inputs :: "event_input list" where
  "sample_inputs \<equiv>
     [Decide sample_env sample_camera sample_run 1 sample_evidence (sample_decision ''none''),
      Decide sample_env sample_camera sample_run 1 sample_evidence (sample_decision ''known''),
      Expire sample_env sample_camera sample_run 1 sample_expiry]"

lemmas sample_event_defs =
  sample_header_def sample_evidence_def sample_observation_def sample_decision_def sample_expiry_def
  initial_events_def accept_decision_def expire_track_def validate_context_def keep_pending_def Let_def
  known_assignments_def assign_unknown_def assignment_def persist_def create_once_def event_row_def event_constraints_def
  sample_env_def sample_event_settings_def py_trunc_def emitted_def event_key_of_def sample_person_def sample_match_def
  face_of_def quality_of_def event_name_def

lemma sample_run_events:
  "map ia_identity_state (snd (run_events sample_event_settings id initial_events sample_inputs)) = [''known'', ''unknown'']"
  "map ev_event_type (es_events (fst (run_events sample_event_settings id initial_events sample_inputs))) = [''known'', ''unknown'']"
  by (simp_all add: sample_event_defs)

lemma sample_thresholded: "list_all thresholded_input sample_inputs"
  by (simp add: input_ok_def thresholded_def sample_decision_def)

lemma sample_delivered: "list_all (input_ok delivered) sample_inputs"
proof -
  have mt: "message_type (sample_header mt n) = mt" for mt n by (simp add: sample_header_def)
  have "wf_message (TrackEvidenceEvent sample_evidence)"
    by (simp add: wf_message_def sample_evidence_def sample_header_wf mt wf_observation_def
        sample_observation_def MAX_OBSERVATIONS_def wf_embedding_def unit_vector_norm unit_vector_norm_ok)
  moreover have uuid: "canonical_uuid ''44444444-4444-4444-8444-444444444444''" by code_simp
  have "decision_wf (sample_decision t)" for t
    using uuid by (simp add: decision_wf_def thresholded_def sample_decision_def sample_person_def face_of_def
        wf_embedding_def unit_vector_norm unit_vector_norm_ok)
  ultimately show ?thesis by (simp add: input_ok_def delivered_def)
qed

abbreviation sample_history :: "event_state \<times> identity_assignment list" where
  "sample_history \<equiv> run_events sample_event_settings id initial_events sample_inputs"

theorem revisions_consecutive_witness:
  "revisions_for (sample_run, 7) (snd sample_history) = [1..revision_of (fst sample_history) (sample_run, 7)]
   \<and> length (snd sample_history) = 2"
  using revisions_consecutive [OF surjective_pairing sample_thresholded] sample_run_events(1)
  by (metis length_map length_Cons list.size(3) numeral_2_eq_2)

theorem event_table_invariant_witness:
  "distinct (map event_key_of (es_events (fst sample_history))) \<and> length (es_events (fst sample_history)) = 2"
  using event_table_invariant [OF surjective_pairing sample_thresholded] sample_run_events(2)
  by (metis length_map length_Cons list.size(3) numeral_2_eq_2)


theorem assignments_well_formed_witness:
  "list_all (\<lambda>a. wf_message (IdentityAssignment a)) (snd sample_history) \<and> length (snd sample_history) = 2"
  using assignments_well_formed [OF surjective_pairing sample_delivered] sample_run_events(1)
  by (metis length_map length_Cons list.size(3) numeral_2_eq_2)

definition sample_event :: "string \<Rightarrow> int \<Rightarrow> detection_event" where
  "sample_event i t =
     (event_row i sample_camera sample_run sample_evidence (sample_decision ''none'') ''unknown'' None
        sample_observation)\<lparr>ev_occurred_at := t\<rparr>"

theorem list_page_resumes_witness:
  "list_page sample_camera 5 (Some 4) (Some ''a'') [sample_event ''b'' 2, sample_event ''a'' 4, sample_event ''c'' 2]
   = Inr [sample_event ''c'' 2, sample_event ''b'' 2]"
proof -
  let ?a = "sample_event ''a'' 4" and ?b = "sample_event ''b'' 2" and ?c = "sample_event ''c'' 2"
  have f: "ev_event_id (sample_event i t) = i" "ev_occurred_at (sample_event i t) = t"
    "ev_camera_id (sample_event i t) = sample_camera" for i t
    by (simp_all add: sample_event_def event_row_def Let_def)
  have "rev (sort_key page_order (filter (\<lambda>e. ev_camera_id e = sample_camera) [?b, ?a, ?c])) = [?a] @ [?c, ?b]"
    by (simp add: f page_order_def less_char_def)
  from list_page_resumes [OF _ _ this, of 5] show ?thesis by (simp add: f)
qed

abbreviation sample_remembered :: event_state where
  "sample_remembered \<equiv> keep_pending sample_run sample_evidence (sample_decision ''none'') initial_events"

abbreviation sample_recognised :: "event_state \<times> identity_assignment list result" where
  "sample_recognised \<equiv> accept_decision sample_event_settings id sample_env sample_camera sample_run 1 sample_evidence
     (sample_decision ''known'') sample_remembered"

abbreviation sample_recorded :: "event_state \<times> detection_event result" where
  "sample_recorded \<equiv> persist id sample_env sample_camera sample_run sample_evidence (sample_decision ''none'') ''unknown''
     ((fst sample_recognised)\<lparr>es_pending := dict_del (sample_run, te_tracker_id sample_evidence)
        (es_pending (fst sample_recognised))\<rparr>)"

theorem known_track_expires_unknown_witness:
  "\<exists>st3 a. expire_track sample_event_settings id sample_env sample_camera sample_run 1 sample_expiry (fst sample_recognised)
     = (st3, Inr [a]) \<and> ia_identity_state a = ''unknown''"
proof (rule known_track_expires_unknown)
  show "map_of (es_pending sample_remembered) (sample_run, te_tracker_id sample_evidence)
      = Some (sample_evidence, sample_decision ''none'')"
    by (simp add: keep_pending_def)
  show "sample_recognised = (fst sample_recognised, Inr (emitted (snd sample_recognised)))"
    by (simp add: sample_event_defs)
  show "sample_recorded = (fst sample_recorded, Inr (case snd sample_recorded of Inr row \<Rightarrow> row))"
    by (simp add: sample_event_defs)
qed (simp_all add: thresholded_def sample_event_defs)

end
