(* ===== verification/Live_Uri.thy ===== *)
theory Live_Uri
  imports Py_Values
begin

text \<open>
  Camera and source addresses: their syntax check, their encryption and their removal from
  diagnostics (\<open>src/backend/app/infrastructure/live/uri_cipher.py\<close> and the URL validators of
  \<open>src/backend/app/presentation/schemas/live_sessions.py\<close> and \<open>live_connectors.py\<close>). The part of
  the standard library's \<open>urlsplit\<close> that decides about scheme, host and port is written out; only
  the check of a bracketed address, which differs between its releases, is a parameter, and so are
  the Fernet primitives and the keyed digest.
\<close>

section \<open>Splitting an address\<close>

definition partition_on :: "char \<Rightarrow> string \<Rightarrow> string \<times> string option" where
  "partition_on sep s =
     (takeWhile (\<lambda>c. c \<noteq> sep) s,
      case dropWhile (\<lambda>c. c \<noteq> sep) s of [] \<Rightarrow> None | _ # rest \<Rightarrow> Some rest)"

definition after_last :: "char \<Rightarrow> string \<Rightarrow> string" where
  "after_last sep s = rev (takeWhile (\<lambda>c. c \<noteq> sep) (rev s))"

definition ascii_alpha :: "char \<Rightarrow> bool" where
  "ascii_alpha c = (let n = char_code c in (65 \<le> n \<and> n \<le> 90) \<or> (97 \<le> n \<and> n \<le> 122))"

definition ascii_digit :: "char \<Rightarrow> bool" where
  "ascii_digit c = (48 \<le> char_code c \<and> char_code c \<le> 57)"

definition scheme_char :: "char \<Rightarrow> bool" where
  "scheme_char c = (ascii_alpha c \<or> ascii_digit c \<or> c \<in> set ''+-.'')"

definition stripped_url :: "string \<Rightarrow> string" where
  "stripped_url raw =
     filter (\<lambda>c. char_code c \<notin> {9, 10, 13}) (dropWhile (\<lambda>c. char_code c \<le> 32) raw)"

text \<open>The scheme, lower-cased, and what follows it.\<close>

definition split_scheme :: "string \<Rightarrow> string \<times> string" where
  "split_scheme url =
     (case partition_on (CHR '':'') url of
        (name, Some rest) \<Rightarrow>
          if name \<noteq> [] \<and> ascii_alpha (hd url) \<and> list_all scheme_char name
          then (py_lower name, rest) else ([], url)
      | (name, None) \<Rightarrow> ([], url))"

definition urlsplit :: "(string \<Rightarrow> bool) \<Rightarrow> string \<Rightarrow> (string \<times> string) result" where
  "urlsplit bracket_ok raw =
     (let (scheme, rest) = split_scheme (stripped_url raw);
          netloc = (if take 2 rest = ''//'' then takeWhile (\<lambda>c. c \<notin> set ''/?#'') (drop 2 rest) else [])
      in if (CHR ''['' \<in> set netloc) \<noteq> (CHR '']'' \<in> set netloc) then Inl (ValueError ''Invalid IPv6 URL'')
         else if CHR ''['' \<in> set netloc \<and> \<not> bracket_ok netloc then Inl (ValueError ''Invalid IPv6 URL'')
         else Inr (scheme, netloc))"

definition hostinfo :: "string \<Rightarrow> string \<times> string option" where
  "hostinfo netloc =
     (let info = after_last (CHR ''@'') netloc;
          (host, port) =
            (case partition_on (CHR ''['') info of
               (_, Some bracketed) \<Rightarrow>
                 (case partition_on (CHR '']'') bracketed of
                    (h, None) \<Rightarrow> (h, None)
                  | (h, Some rest) \<Rightarrow> (h, snd (partition_on (CHR '':'') rest)))
             | (_, None) \<Rightarrow> partition_on (CHR '':'') info)
      in (host, if port = Some [] then None else port))"

definition digits_value :: "string \<Rightarrow> nat" where
  "digits_value s = foldl (\<lambda>n c. 10 * n + (char_code c - 48)) 0 s"

definition port_ok :: "string option \<Rightarrow> bool" where
  "port_ok port =
     (case port of None \<Rightarrow> True | Some p \<Rightarrow> list_all ascii_digit p \<and> digits_value p \<le> 65535)"

definition control_char :: "char \<Rightarrow> bool" where
  "control_char c = (char_code c < 32 \<or> char_code c = 127)"

text \<open>
  The check the three validators share: no control character, an address that splits, a host, a
  valid port and one of the allowed schemes.
\<close>

definition address_ok :: "(string \<Rightarrow> bool) \<Rightarrow> string list \<Rightarrow> string \<Rightarrow> bool" where
  "address_ok bracket_ok schemes raw =
     (list_all (\<lambda>c. \<not> control_char c) raw
      \<and> (case urlsplit bracket_ok raw of
           Inl _ \<Rightarrow> False
         | Inr (scheme, netloc) \<Rightarrow>
             port_ok (snd (hostinfo netloc)) \<and> scheme \<in> set schemes \<and> fst (hostinfo netloc) \<noteq> []))"

definition validate_source_url :: "(string \<Rightarrow> bool) \<Rightarrow> string list \<Rightarrow> string \<Rightarrow> string result" where
  "validate_source_url bracket_ok schemes raw =
     (if address_ok bracket_ok schemes raw then Inr raw
      else Inl (ValueError ''LIVE_SOURCE_CREDENTIAL_INVALID''))"

definition validate_webhook_url :: "(string \<Rightarrow> bool) \<Rightarrow> string \<Rightarrow> string result" where
  "validate_webhook_url bracket_ok raw =
     (if address_ok bracket_ok [''http'', ''https''] raw then Inr raw
      else Inl (ValueError ''LIVE_CONNECTOR_CREDENTIAL_INVALID''))"

definition MAX_URI_LENGTH :: nat where
  "MAX_URI_LENGTH = 4096"

definition MAX_SECRET_LENGTH :: nat where
  "MAX_SECRET_LENGTH = 6000"

definition validate_live_uri :: "(string \<Rightarrow> bool) \<Rightarrow> string \<Rightarrow> string result" where
  "validate_live_uri bracket_ok uri =
     (if uri = [] \<or> length uri > MAX_URI_LENGTH \<or> \<not> address_ok bracket_ok [''rtsp'', ''rtsps''] uri
      then Inl (ValueError ''CAMERA_URI_INVALID'') else Inr uri)"

section \<open>Encryption\<close>

text \<open>
  The third-party primitives: \<open>fn_decrypt\<close> is None when the token is invalid or its plaintext is
  not UTF-8.
\<close>

record fernet =
  fn_encrypt :: "string \<Rightarrow> string"
  fn_decrypt :: "string \<Rightarrow> string option"
  fn_digest :: "string \<Rightarrow> string"
  fn_bracket_ok :: "string \<Rightarrow> bool"

definition cipher_encrypt :: "fernet \<Rightarrow> string \<Rightarrow> string result" where
  "cipher_encrypt f uri =
     (case validate_live_uri (fn_bracket_ok f) uri of Inl e \<Rightarrow> Inl e | Inr v \<Rightarrow> Inr (fn_encrypt f v))"

definition cipher_decrypt :: "fernet \<Rightarrow> string \<Rightarrow> string result" where
  "cipher_decrypt f ciphertext =
     (case fn_decrypt f ciphertext of
        None \<Rightarrow> Inl (ValueError ''LIVE_URI_DECRYPTION_FAILED'')
      | Some plaintext \<Rightarrow>
          (case validate_live_uri (fn_bracket_ok f) plaintext of
             Inl _ \<Rightarrow> Inl (ValueError ''LIVE_URI_DECRYPTION_FAILED'')
           | Inr v \<Rightarrow> Inr v))"

definition fingerprint :: "fernet \<Rightarrow> string \<Rightarrow> string result" where
  "fingerprint f uri =
     (case validate_live_uri (fn_bracket_ok f) uri of Inl e \<Rightarrow> Inl e | Inr v \<Rightarrow> Inr (fn_digest f v))"

definition utf8_length :: "string \<Rightarrow> nat" where
  "utf8_length s = sum_list (map (\<lambda>c. if char_code c < 128 then 1 else 2) s)"

definition encrypt_secret :: "fernet \<Rightarrow> string \<Rightarrow> string result" where
  "encrypt_secret f value =
     (if value = [] \<or> utf8_length value > MAX_SECRET_LENGTH then Inl (ValueError ''LIVE_SECRET_INVALID'')
      else Inr (fn_encrypt f value))"

definition decrypt_secret :: "fernet \<Rightarrow> string \<Rightarrow> string result" where
  "decrypt_secret f ciphertext =
     (case fn_decrypt f ciphertext of
        None \<Rightarrow> Inl (ValueError ''LIVE_SECRET_DECRYPTION_FAILED'')
      | Some plaintext \<Rightarrow>
          if plaintext = [] \<or> utf8_length plaintext > MAX_SECRET_LENGTH
          then Inl (ValueError ''LIVE_SECRET_DECRYPTION_FAILED'') else Inr plaintext)"

section \<open>Redaction\<close>

text \<open>
  \<open>redact_live_text\<close> replaces every match of the pattern \<open>\brtsps?://[^\s]+\<close>, in any case, by its
  scheme and a placeholder. \<open>scheme_length\<close> is the length of the scheme of a match that begins at
  the head of the text; the flag of \<open>redact_from\<close> says whether the pattern's word boundary holds
  there, which it does at the start and after a character that is no word character. The text after
  a match is empty or begins with white space, where no match begins.
\<close>

definition word_char :: "char \<Rightarrow> bool" where
  "word_char c =
     (let n = char_code c
      in ascii_alpha c \<or> ascii_digit c \<or> n = 95 \<or> n \<in> {170, 178, 179, 181, 185, 186, 188, 189, 190}
         \<or> (192 \<le> n \<and> n \<noteq> 215 \<and> n \<noteq> 247))"

definition visible_at :: "nat \<Rightarrow> string \<Rightarrow> bool" where
  "visible_at n s = (case drop n s of [] \<Rightarrow> False | c # _ \<Rightarrow> \<not> is_space c)"

definition scheme_length :: "string \<Rightarrow> nat option" where
  "scheme_length s =
     (if py_lower (take 8 s) = ''rtsps://'' \<and> visible_at 8 s then Some 5
      else if py_lower (take 7 s) = ''rtsp://'' \<and> visible_at 7 s then Some 4
      else None)"

function redact_from :: "bool \<Rightarrow> string \<Rightarrow> string" where
  "redact_from boundary [] = []"
| "redact_from boundary (c # cs) =
     (case (if boundary then scheme_length (c # cs) else None) of
        Some n \<Rightarrow> take n (c # cs) @ ''://[REDACTED]'' @ redact_from True (dropWhile (\<lambda>c. \<not> is_space c) cs)
      | None \<Rightarrow> c # redact_from (\<not> word_char c) cs)"
  by pat_completeness auto

termination
  by (relation "measure (\<lambda>(_, s). length s)") (auto simp: le_imp_less_Suc length_dropWhile_le)

definition redact_live_text :: "string \<Rightarrow> string" where
  "redact_live_text text = redact_from True text"

section \<open>Round trips\<close>

text \<open>
  What the cipher encrypts it decrypts again, camera addresses and other secrets alike: the
  checks on the way back accept everything that the checks on the way in let through.
\<close>

theorem cipher_roundtrip:
  assumes "\<And>p. fn_decrypt f (fn_encrypt f p) = Some p"
  shows "(cipher_encrypt f uri = Inr c \<longrightarrow> cipher_decrypt f c = Inr uri)
    \<and> (encrypt_secret f v = Inr d \<longrightarrow> decrypt_secret f d = Inr v)"
  using assms
  by (auto simp: cipher_encrypt_def cipher_decrypt_def encrypt_secret_def decrypt_secret_def
      validate_live_uri_def split: if_splits)

section \<open>Redaction hides addresses\<close>

lemma is_space_slash [simp]: "\<not> is_space (CHR ''/'')" "\<not> is_space (CHR '':'')"
  by (simp_all add: is_space_def char_code_def)

lemma scheme_length_le: "scheme_length s = Some n \<Longrightarrow> n \<le> 5"
  by (auto simp: scheme_length_def split: if_splits)

definition secret :: "string \<Rightarrow> bool" where
  "secret s = (s \<noteq> [] \<and> list_all (\<lambda>c. \<not> is_space c) s)"

lemma secret_cases: "secret s \<Longrightarrow> \<exists>c cs. s = c # cs \<and> \<not> is_space c"
  by (cases s) (auto simp: secret_def)

lemma visible_secret:
  assumes "secret s" and "secret s'" and "n \<le> length p"
  shows "visible_at n (p @ s @ rest) = visible_at n (p @ s' @ rest)"
  using assms secret_cases [OF assms(1)] secret_cases [OF assms(2)]
  by (cases "drop n p") (auto simp: visible_at_def)

lemma scheme_length_secret:
  assumes "secret s" and "secret s'" and "8 \<le> length p"
  shows "scheme_length (p @ s @ rest) = scheme_length (p @ s' @ rest)"
  using visible_secret [OF assms(1,2), of 8 p rest] visible_secret [OF assms(1,2), of 7 p rest] assms(3)
  by (simp add: scheme_length_def)

lemma dropWhile_secret:
  assumes "secret s" and "list_all (\<lambda>c. \<not> is_space c) x"
  shows "dropWhile (\<lambda>c. \<not> is_space c) (p @ x @ s @ rest) =
    (if list_all (\<lambda>c. \<not> is_space c) p then dropWhile (\<lambda>c. \<not> is_space c) rest
     else dropWhile (\<lambda>c. \<not> is_space c) p @ x @ s @ rest)"
  using assms
  by (simp add: list_all_iff secret_def dropWhile_append)

definition scheme_text :: "string \<Rightarrow> bool" where
  "scheme_text x = (\<exists>sch. x = sch @ ''://'' \<and> py_lower sch \<in> {''rtsp'', ''rtsps''})"

lemma py_lower_length [simp]: "length (py_lower s) = length s"
  by (simp add: py_lower_def)

lemma py_lower_append [simp]: "py_lower (s @ t) = py_lower s @ py_lower t"
  by (simp add: py_lower_def)

lemma scheme_textD:
  assumes "scheme_text x"
  shows "list_all (\<lambda>c. \<not> is_space c) x" and "7 \<le> length x"
proof -
  obtain sch where sch: "x = sch @ ''://''" "py_lower sch \<in> {''rtsp'', ''rtsps''}"
    using assms by (auto simp: scheme_text_def)
  have space: "\<not> is_space c" if "py_lower_char c \<in> set ''rtsp''" for c
    using that by (cases "is_space c") (auto simp: is_space_def py_lower_char_def Let_def char_code_def split: if_splits)
  have "set (py_lower sch) \<subseteq> set ''rtsp''" using sch(2) by auto
  then have "list_all (\<lambda>c. \<not> is_space c) sch"
    using space by (auto simp: py_lower_def list_all_iff)
  then show "list_all (\<lambda>c. \<not> is_space c) x" by (simp add: sch(1))
  have "4 \<le> length (py_lower sch)" using sch(2) by fastforce
  then show "7 \<le> length x" by (simp add: sch(1))
qed

lemma scheme_text_length:
  assumes "scheme_text x" and "secret s"
  shows "scheme_length (x @ s @ rest) = Some (length x - 3)"
proof -
  obtain sch where sch: "x = sch @ ''://''" "py_lower sch \<in> {''rtsp'', ''rtsps''}"
    using assms(1) by (auto simp: scheme_text_def)
  obtain c cs where s: "s = c # cs" "\<not> is_space c" using secret_cases [OF assms(2)] by blast
  have punct: "py_lower ''://'' = ''://''" "py_lower ''/'' = ''/''" "py_lower '':/'' = '':/''"
    by (simp_all add: py_lower_def py_lower_char_def char_code_def)
  from sch(2) consider "py_lower sch = ''rtsp''" "length sch = 4" | "py_lower sch = ''rtsps''" "length sch = 5"
    using py_lower_length [of sch] by fastforce
  then show ?thesis
  proof cases
    case 1
    have "py_lower (take 8 (x @ s @ rest)) \<noteq> ''rtsps://''"
      using 1 punct by (simp add: sch(1) s) (simp add: py_lower_def)
    with 1 show ?thesis by (simp add: sch(1) s scheme_length_def visible_at_def punct)
  next
    case 2
    then show ?thesis by (simp add: sch(1) s scheme_length_def visible_at_def punct)
  qed
qed

lemma redact_match:
  assumes "scheme_text x" and "secret t"
  shows "redact_from True (x @ t @ rest) =
    take (length x - 3) x @ ''://[REDACTED]'' @ redact_from True (dropWhile (\<lambda>c. \<not> is_space c) rest)"
proof -
  note x = scheme_textD [OF assms(1)]
  obtain c y where cy: "x = c # y" using x(2) by (cases x) auto
  then have "list_all (\<lambda>c. \<not> is_space c) y" using x(1) by simp
  then have "dropWhile (\<lambda>c. \<not> is_space c) (y @ t @ rest) = dropWhile (\<lambda>c. \<not> is_space c) rest"
    using dropWhile_secret [OF assms(2), of y "[]" rest] by simp
  then show ?thesis using scheme_text_length [OF assms, of rest] x(2) by (simp add: cy take_Cons')
qed

lemma redact_from_secret:
  assumes "secret s" and "secret s'" and "scheme_text x" and "rest = [] \<or> is_space (hd rest)"
    and "if pre = [] then b else \<not> word_char (last pre)"
  shows "redact_from b (pre @ x @ s @ rest) = redact_from b (pre @ x @ s' @ rest)"
  using assms(5)
proof (induction pre arbitrary: b rule: length_induct)
  case (1 pre)
  note x = scheme_textD [OF assms(3)]
  show ?case
  proof (cases pre)
    case Nil
    with 1(2) redact_match [OF assms(3)] assms(1,2) show ?thesis by simp
  next
    case (Cons c pre')
    have same: "scheme_length (c # pre' @ x @ s @ rest) = scheme_length (c # pre' @ x @ s' @ rest)"
      using scheme_length_secret [OF assms(1,2), of "c # pre' @ x" rest] x(2) by simp
    have head: "take n (c # pre' @ x @ t @ rest) = take n (c # pre' @ x)" if "n \<le> 5" for n t
      using that x(2) by (simp add: take_Cons')
    let ?q = "dropWhile (\<lambda>c. \<not> is_space c) pre'"
    have "redact_from True (?q @ x @ s @ rest) = redact_from True (?q @ x @ s' @ rest)"
      if "\<not> list_all (\<lambda>c. \<not> is_space c) pre'"
    proof -
      have "?q \<noteq> []" using that by (auto simp: list_all_iff dropWhile_eq_Nil_conv)
      moreover from this have "last ?q = last pre'" by (metis dropWhile_eq_Nil_conv last_appendR takeWhile_dropWhile_id)
      moreover have "length ?q < length pre" by (simp add: Cons le_imp_less_Suc length_dropWhile_le)
      moreover have "pre' \<noteq> []" using that by auto
      ultimately show ?thesis using 1 Cons by auto
    qed
    moreover have "redact_from (\<not> word_char c) (pre' @ x @ s @ rest) = redact_from (\<not> word_char c) (pre' @ x @ s' @ rest)"
      using 1 Cons by (cases "pre' = []") auto
    ultimately show ?thesis
      using same head scheme_length_le dropWhile_secret [OF assms(1) x(1), of pre' rest] dropWhile_secret [OF assms(2) x(1), of pre' rest]
      by (auto simp: Cons split: option.split)
  qed
qed

text \<open>
  A diagnostic that mentions an RTSP address says nothing about it but the scheme: whatever
  follows \<open>rtsp://\<close> or \<open>rtsps://\<close>, in any case and up to the next white space, leaves the redacted
  text unchanged, provided the scheme does not continue a word.
\<close>

theorem redaction_hides_address:
  assumes "secret s" and "secret s'" and "scheme_text x" and "rest = [] \<or> is_space (hd rest)"
    and "pre = [] \<or> \<not> word_char (last pre)"
  shows "redact_live_text (pre @ x @ s @ rest) = redact_live_text (pre @ x @ s' @ rest)"
  unfolding redact_live_text_def
  by (rule redact_from_secret) (use assms in auto)

theorem redaction_hides_address_witness:
  "redact_live_text ''open rtsp://user:pw@cam/1 failed'' = redact_live_text ''open rtsp://x failed''"
proof -
  have "secret ''user:pw@cam/1''" "secret ''x''" by (simp_all add: secret_def is_space_def char_code_def)
  moreover have "scheme_text ''rtsp://''"
    unfolding scheme_text_def by (rule exI [of _ "''rtsp''"]) (simp add: py_lower_def py_lower_char_def char_code_def)
  moreover have "is_space (hd '' failed'')" "\<not> word_char (last ''open '')"
    by (simp_all add: is_space_def word_char_def ascii_alpha_def ascii_digit_def char_code_def)
  ultimately show ?thesis
    using redaction_hides_address [of "''user:pw@cam/1''" "''x''" "''rtsp://''" "'' failed''" "''open ''"] by simp
qed

definition plain_fernet :: fernet where
  "plain_fernet = \<lparr>fn_encrypt = (\<lambda>p. CHR ''g'' # p), fn_decrypt = (\<lambda>c. case c of [] \<Rightarrow> None | _ # p \<Rightarrow> Some p),
     fn_digest = (\<lambda>p. p), fn_bracket_ok = (\<lambda>_. False)\<rparr>"

lemmas url_defs = cipher_encrypt_def encrypt_secret_def utf8_length_def MAX_SECRET_LENGTH_def MAX_URI_LENGTH_def plain_fernet_def
  validate_live_uri_def address_ok_def urlsplit_def split_scheme_def stripped_url_def partition_on_def hostinfo_def
  after_last_def port_ok_def digits_value_def control_char_def scheme_char_def ascii_alpha_def ascii_digit_def
  py_lower_def py_lower_char_def char_code_def char_of_eq_iff take_bit_eq_mod

theorem cipher_roundtrip_witness:
  "cipher_encrypt plain_fernet ''RTSP://u:p@cam:554/1'' = Inr ''gRTSP://u:p@cam:554/1''
   \<and> cipher_decrypt plain_fernet ''gRTSP://u:p@cam:554/1'' = Inr ''RTSP://u:p@cam:554/1''
   \<and> decrypt_secret plain_fernet ''gpw'' = Inr ''pw''"
proof -
  have enc: "cipher_encrypt plain_fernet ''RTSP://u:p@cam:554/1'' = Inr ''gRTSP://u:p@cam:554/1''"
    "encrypt_secret plain_fernet ''pw'' = Inr ''gpw''" by (simp_all add: url_defs)
  have "fn_decrypt plain_fernet (fn_encrypt plain_fernet p) = Some p" for p by (simp add: plain_fernet_def)
  from cipher_roundtrip [of plain_fernet "''RTSP://u:p@cam:554/1''" "''gRTSP://u:p@cam:554/1''" "''pw''" "''gpw''", OF this] enc
  show ?thesis by simp
qed

end
