(* ===== verification/Camera_Supervisor.thy ===== *)
theory Camera_Supervisor
  imports Session_Supervisor Live_Events Live_Uri
begin

text \<open>
  Running one camera (\<open>process_one_camera\<close>, \<open>_monitor\<close>, \<open>_persist_state\<close>, \<open>_persist_metrics\<close>,
  \<open>_process_identity_events\<close>, \<open>_record_native_operation\<close> and \<open>_finish\<close> of
  \<open>src/backend/app/services/live_supervisor.py\<close>). A camera's job extends a session's by the counters
  the metrics export remembers, the bounded queue of evidence that waits for the identity task, and
  the states of the identity and the event service the task composes. Spans, log lines and gauges
  are left out; the exported counters are kept, because the code computes what it adds to them.
\<close>

section \<open>State\<close>

record camera_db =
  cd_cameras :: cameras
  cd_runs :: runs

record camera_job = "camera_db job" +
  cj_counters :: "((string \<times> string) \<times> int) list"
  cj_totals :: "(string \<times> int) list"
  cj_work :: "live_message list"
  cj_tracks :: identity_tracks
  cj_events :: event_state

record camera_task =
  ct_run :: live_camera_run
  ct_holder :: "string \<times> string"
  ct_lease_seconds :: int
  ct_metrics :: bool
  ct_identity :: bool
  ct_work_capacity :: int

definition runs_tx :: "(runs \<Rightarrow> (runs \<times> bool) result) \<Rightarrow> camera_db \<Rightarrow> (camera_db \<times> bool) result" where
  "runs_tx op db =
     (case op (cd_runs db) of Inl e \<Rightarrow> Inl e | Inr (rs, b) \<Rightarrow> Inr (db\<lparr>cd_runs := rs\<rparr>, b))"

section \<open>The event handler\<close>

definition only_state :: "string \<Rightarrow> state_update" where
  "only_state state =
     \<lparr>su_runtime_state = state, su_first_frame_at = None, su_last_frame_at = None, su_reconnect_count = None,
      su_output_path = None, su_error_code = None, su_sanitized_error = None\<rparr>"

definition persist_state :: "camera_task \<Rightarrow> time \<Rightarrow> string \<Rightarrow> camera_job \<Rightarrow> camera_job \<times> unit result" where
  "persist_state t now state =
     fenced_tx (runs_tx (update_state (run_id (ct_run t)) (ct_holder t) now (only_state state)))"

definition METRIC_SOURCES :: "(string \<times> string) list" where
  "METRIC_SOURCES =
     [(''decoded_frames'', ''frames_total''), (''tracked_objects'', ''tracked_objects_total''),
      (''eligible_objects'', ''eligible_objects_total''), (''embedding_count'', ''embeddings_total''),
      (''missing_embeddings'', ''missing_embeddings_total''),
      (''embedding_cosine_samples'', ''embedding_cosine_samples_total''),
      (''dropped_events'', ''protocol_dropped_total'')]"

definition get_zero :: "('k \<times> int) list \<Rightarrow> 'k \<Rightarrow> int" where
  "get_zero d k = (case map_of d k of None \<Rightarrow> 0 | Some n \<Rightarrow> n)"

definition export_counter :: "string \<Rightarrow> (string \<times> int) list \<Rightarrow> camera_job \<Rightarrow> string \<times> string \<Rightarrow> camera_job" where
  "export_counter rid reported j st =
     (let current = get_zero reported (fst st);
          previous = get_zero (cj_counters j) (rid, fst st);
          totals = (if current \<ge> previous
                    then dict_put (snd st) (get_zero (cj_totals j) (snd st) + (current - previous)) (cj_totals j)
                    else cj_totals j)
      in j\<lparr>cj_totals := totals, cj_counters := dict_put (rid, fst st) current (cj_counters j)\<rparr>)"

definition export_metrics :: "string \<Rightarrow> (string \<times> int) list \<Rightarrow> camera_job \<Rightarrow> camera_job" where
  "export_metrics rid reported j = foldl (export_counter rid reported) j METRIC_SOURCES"

definition metrics_dict :: "metrics_event \<Rightarrow> pydict" where
  "metrics_dict e =
     [(PStr ''counters'', PDict (map (\<lambda>(k, n). (PStr k, PInt n)) (counters e))),
      (PStr ''gauges'', PDict (map (\<lambda>(k, x). (PStr k, PFloat (Fin x))) (gauges e)))]"

definition persist_metrics :: "camera_task \<Rightarrow> time \<Rightarrow> metrics_event \<Rightarrow> camera_job \<Rightarrow> camera_job \<times> unit result" where
  "persist_metrics t now e j =
     fenced_tx (runs_tx (update_metrics (run_id (ct_run t)) (ct_holder t) now (metrics_dict e)))
       (if ct_metrics t then export_metrics (run_id (ct_run t)) (counters e) j else j)"

text \<open>\<open>asyncio.Queue.put_nowait\<close>; a full queue drops the event. A queue of size zero is unbounded.\<close>

definition enqueue_work :: "camera_task \<Rightarrow> live_message \<Rightarrow> camera_job \<Rightarrow> camera_job" where
  "enqueue_work t m j =
     (if \<not> ct_identity t \<or> 0 < ct_work_capacity t \<and> ct_work_capacity t \<le> int (length (cj_work j)) then j
      else j\<lparr>cj_work := cj_work j @ [m]\<rparr>)"

definition camera_event :: "camera_task \<Rightarrow> time \<Rightarrow> camera_job \<Rightarrow> live_message \<Rightarrow> camera_job \<times> unit result" where
  "camera_event t now j m =
     (case m of
        FailedEvent e \<Rightarrow> (j\<lparr>jb_failed := Some e\<rparr>, Inr ())
      | StateEvent e \<Rightarrow>
          if state_state e \<in> {''STOPPED'', ''FAILED''} then (j, Inr ())
          else persist_state t now (state_state e) j
      | MetricsEvent e \<Rightarrow> persist_metrics t now e j
      | TrackEvidenceEvent e \<Rightarrow> (enqueue_work t m j, Inr ())
      | TrackExpiredEvent e \<Rightarrow> (enqueue_work t m j, Inr ())
      | _ \<Rightarrow> (j, Inr ()))"

text \<open>
  The span of a native operation on the wall clock, from the two clock readings at the start of the
  run; an operation outside of a day around it is dropped.
\<close>

definition operation_span :: "int \<Rightarrow> int \<Rightarrow> native_operation_event \<Rightarrow> (int \<times> int) option" where
  "operation_span wall monotonic e =
     (let started = wall + started_monotonic_ns e - monotonic; ended = wall + ended_monotonic_ns e - monotonic
      in if started \<le> 0 \<or> \<bar>started_monotonic_ns e - monotonic\<bar> > 86400000000000 then None
         else Some (started, ended))"

section \<open>The identity task\<close>

record identity_env =
  ie_match :: match_settings
  ie_vote :: voter
  ie_store :: reference_store
  ie_events :: event_settings
  ie_uuid5 :: "string \<Rightarrow> string"
  ie_persist :: persist_env

definition put_assignments :: "identity_assignment list \<Rightarrow> command_queue \<Rightarrow> command_queue" where
  "put_assignments as q = foldl (\<lambda>q a. fst (put_nowait q (AssignCommand a))) q as"

text \<open>
  One event of the queue. An exception is logged and swallowed; what the services changed before
  they raised stays.
\<close>

definition process_identity_event :: "identity_env \<Rightarrow> live_message \<Rightarrow> camera_job \<Rightarrow> camera_job" where
  "process_identity_event ie m j =
     (case m of
        TrackEvidenceEvent ev \<Rightarrow>
          (let h = te_header ev;
               (d, tracks) = identity_resolve (ie_match ie) (ie_vote ie) (ie_store ie) ev (cj_tracks j);
               (events, r) = accept_decision (ie_events ie) (ie_uuid5 ie) (ie_persist ie)
                 (hd_camera_id h) (hd_run_id h) (hd_generation h) ev d (cj_events j)
           in j\<lparr>cj_tracks := tracks, cj_events := events, jb_queue := put_assignments (emitted r) (jb_queue j)\<rparr>)
      | TrackExpiredEvent x \<Rightarrow>
          (let h = tx_header x;
               (events, r) = expire_track (ie_events ie) (ie_uuid5 ie) (ie_persist ie)
                 (hd_camera_id h) (hd_run_id h) (hd_generation h) x (cj_events j)
           in j\<lparr>cj_events := events,
                cj_tracks := (case r of Inl _ \<Rightarrow> cj_tracks j | Inr _ \<Rightarrow> identity_expire (expired_key x) (cj_tracks j)),
                jb_queue := put_assignments (emitted r) (jb_queue j)\<rparr>)
      | _ \<Rightarrow> j)"

definition identity_pass :: "identity_env \<Rightarrow> camera_job \<Rightarrow> camera_job" where
  "identity_pass ie j =
     (case cj_work j of
        [] \<Rightarrow> j
      | m # rest \<Rightarrow> process_identity_event ie m (j\<lparr>cj_work := rest\<rparr>))"

section \<open>The monitor and the end of a run\<close>

definition monitor_camera ::
  "camera_task \<Rightarrow> time \<Rightarrow> string \<times> string \<Rightarrow> int \<Rightarrow> camera_job \<Rightarrow> camera_job \<times> unit result" where
  "monitor_camera t now ids clock j =
     (let camera = camera_get (run_camera_id (ct_run t)) (cd_cameras (jb_db j))
      in case fenced_tx (runs_tx (renew (run_id (ct_run t)) (ct_holder t) now
                (now + seconds (ct_lease_seconds t)))) j of
           (j', Inl e) \<Rightarrow> (j', Inl e)
         | (j', Inr _) \<Rightarrow>
             (stop_if_unwanted ids clock
                (case camera of None \<Rightarrow> False | Some c \<Rightarrow> desired_state c = ''running'') j', Inr ()))"

fun camera_outcome ::
  "(py_exc \<Rightarrow> string) \<Rightarrow> job_end \<Rightarrow> failed_event option \<Rightarrow> (string \<times> string option \<times> string option) option" where
  "camera_outcome str_exc MonitorLost f = None"
| "camera_outcome str_exc (MonitorFailed e) f = Some (''FAILED'', Some ''LIVE_PIPELINE_ERROR'', Some (str_exc e))"
| "camera_outcome str_exc (Runner (RunnerFailed code message)) f = Some (''FAILED'', Some code, Some message)"
| "camera_outcome str_exc (Runner (RunnerStopped _)) f =
     (case f of
        Some e \<Rightarrow> Some (''FAILED'', Some (fe_error_code e), Some (fe_message e))
      | None \<Rightarrow> Some (''STOPPED'', None, None))"

definition sanitized :: "string option \<Rightarrow> string option" where
  "sanitized message =
     (case message of None \<Rightarrow> None | Some m \<Rightarrow> if m = [] then None else Some (redact_live_text m))"

text \<open>Whether the update was refused is not looked at.\<close>

definition finish_camera ::
  "camera_task \<Rightarrow> time \<Rightarrow> string \<times> string option \<times> string option \<Rightarrow> camera_db \<Rightarrow> camera_db result" where
  "finish_camera t now outcome db =
     (case outcome of (state, code, message) \<Rightarrow>
        (case runs_tx (finish (run_id (ct_run t)) (ct_holder t) now state code (sanitized message)) db of
           Inl e \<Rightarrow> Inl e
         | Inr (db', _) \<Rightarrow> Inr db'))"

definition end_camera ::
  "camera_task \<Rightarrow> time \<Rightarrow> (string \<times> string option \<times> string option) option \<Rightarrow> camera_db \<Rightarrow> (camera_db \<times> bool) result" where
  "end_camera t now outcome db =
     (case outcome of
        None \<Rightarrow> Inr (db, True)
      | Some oc \<Rightarrow> (case finish_camera t now oc db of Inl e \<Rightarrow> Inl e | Inr db' \<Rightarrow> Inr (db', True)))"

definition camera_job_of ::
  "command_queue \<Rightarrow> int \<Rightarrow> start_command \<Rightarrow> ((string \<times> string) \<times> int) list \<Rightarrow> (string \<times> int) list \<Rightarrow>
   identity_tracks \<Rightarrow> event_state \<Rightarrow> camera_db \<Rightarrow> camera_job"
where
  "camera_job_of q sequence start seen totals tracks events db =
     \<lparr>jb_db = db, jb_queue = q, jb_header = sc_header start, jb_sequence = sequence, jb_stop_sent = False,
      jb_failed = None, jb_written = [], cj_counters = seen, cj_totals = totals, cj_work = [],
      cj_tracks = tracks, cj_events = events\<rparr>"

text \<open>
  What a supervisor keeps from one run to the next: the command sequence, the counters, and the
  states of the two services.
\<close>

record supervisor =
  sp_sequence :: int
  sp_counters :: "((string \<times> string) \<times> int) list"
  sp_totals :: "(string \<times> int) list"
  sp_tracks :: identity_tracks
  sp_events :: event_state

definition process_one_camera ::
  "live_settings \<Rightarrow> fernet option \<Rightarrow> (py_exc \<Rightarrow> string) \<Rightarrow> bool \<Rightarrow> bool \<Rightarrow> (string \<Rightarrow> bool) \<Rightarrow> run_claim \<Rightarrow> supervisor \<Rightarrow>
   (camera_task \<Rightarrow> start_command \<Rightarrow> camera_job \<Rightarrow> camera_job \<times> job_end) \<Rightarrow> time \<Rightarrow> camera_db \<Rightarrow>
   (camera_db \<times> bool) result"
where
  "process_one_camera cfg cipher str_exc metrics_on identity_on locked a su body end_now db =
     (case claim_run locked (cd_cameras db) a (cd_runs db) of
        Inl e \<Rightarrow> Inl e
      | Inr (rs, None) \<Rightarrow> Inr (db\<lparr>cd_runs := rs\<rparr>, False)
      | Inr (rs, Some run) \<Rightarrow>
          let db1 = db\<lparr>cd_runs := rs\<rparr>;
              t = \<lparr>ct_run = run, ct_holder = (cl_worker a, cl_token a), ct_lease_seconds = sv_lease_seconds cfg,
                   ct_metrics = metrics_on, ct_identity = identity_on,
                   ct_work_capacity = sv_identity_work_queue_capacity cfg\<rparr>;
              missing = ''LIVE_SECRET_CONFIGURATION_REQUIRED''
          in case (camera_get (run_camera_id run) (cd_cameras db), cipher) of
               (Some camera, Some f) \<Rightarrow>
                 (case command_queue_init (sv_assignment_queue_capacity cfg) of
                    Inl e \<Rightarrow> Inl e
                  | Inr q \<Rightarrow>
                      (case cipher_decrypt f (uri_ciphertext camera) of
                         Inl e \<Rightarrow> end_camera t end_now (Some (''FAILED'', Some ''LIVE_PIPELINE_ERROR'', Some (str_exc e))) db1
                       | Inr uri \<Rightarrow>
                           let start = camera_start_command cfg run uri
                           in (case body t start (camera_job_of q (sp_sequence su) start (sp_counters su)
                                     (sp_totals su) (sp_tracks su) (sp_events su) db1) of
                                 (j, ending) \<Rightarrow> end_camera t end_now (camera_outcome str_exc ending (jb_failed j)) (jb_db j))))
             | _ \<Rightarrow> end_camera t end_now (Some (''FAILED'', Some missing, Some missing)) db1)"

text \<open>
  The transactions on cameras and runs: those of the API, a claim, and the updates a supervisor
  makes of a run, its own or another's.
\<close>

fun supervisor_op :: "run_op \<Rightarrow> bool" where
  "supervisor_op (RenewRun e) = True"
| "supervisor_op (StateRun u) = (u = only_state (su_runtime_state u) \<and> su_runtime_state u \<notin> {''STOPPED'', ''FAILED''})"
| "supervisor_op (MetricsRun m) = True"
| "supervisor_op (FinishRun st code err) = (err \<in> range sanitized)"

inductive camera_step :: "camera_db \<Rightarrow> camera_db \<Rightarrow> bool" where
  create: "camera_create cid name ct fp now (cd_cameras db) = Inr cs \<Longrightarrow> camera_step db (db\<lparr>cd_cameras := cs\<rparr>)"
| desired: "set_desired cid st tp ts now (cd_cameras db) = Inr (cs, b) \<Longrightarrow> camera_step db (db\<lparr>cd_cameras := cs\<rparr>)"
| delete: "soft_delete cid del now (cd_cameras db) = Inr (cs, b) \<Longrightarrow> camera_step db (db\<lparr>cd_cameras := cs\<rparr>)"
| claim: "claim_run locked (cd_cameras db) a (cd_runs db) = Inr (rs, n) \<Longrightarrow> camera_step db (db\<lparr>cd_runs := rs\<rparr>)"
| update: "supervisor_op op \<Longrightarrow> run_update (op, now) k h (cd_runs db) = Inr (rs, b) \<Longrightarrow>
    camera_step db (db\<lparr>cd_runs := rs\<rparr>)"

text \<open>
  The steps of a camera's job, interleaved with the transactions of everybody else. Events are what
  the decoder lets through; trace identifiers and the monotonic clock are as the system makes them.
\<close>

inductive camera_job_step :: "camera_task \<Rightarrow> identity_env \<Rightarrow> camera_job \<Rightarrow> camera_job \<Rightarrow> bool" for t ie where
  event: "wf_message m \<Longrightarrow> camera_event t now j m = (j', r) \<Longrightarrow> camera_job_step t ie j j'"
| monitor: "trace_ids_ok ids \<Longrightarrow> 0 \<le> clock \<Longrightarrow> monitor_camera t now ids clock j = (j', r) \<Longrightarrow> camera_job_step t ie j j'"
| identity: "camera_job_step t ie j (identity_pass ie j)"
| shutdown: "trace_ids_ok ids \<Longrightarrow> 0 \<le> clock \<Longrightarrow> camera_job_step t ie j (request_stop ids clock j)"
| writer: "camera_job_step t ie j (write_one j)"
| others: "camera_step (jb_db j) db \<Longrightarrow> camera_job_step t ie j (j\<lparr>jb_db := db\<rparr>)"

section \<open>Exported counters\<close>

lemma get_zero_put [simp]: "get_zero (dict_put k v d) k' = (if k' = k then v else get_zero d k')"
  by (simp add: get_zero_def)

lemma export_other:
  "source \<notin> fst ` set srcs \<Longrightarrow>
    get_zero (cj_counters (foldl (export_counter rid reported) j srcs)) (rid, source) = get_zero (cj_counters j) (rid, source)"
  "target \<notin> snd ` set srcs \<Longrightarrow>
    get_zero (cj_totals (foldl (export_counter rid reported) j srcs)) target = get_zero (cj_totals j) target"
  by (induction srcs arbitrary: j) (auto simp: export_counter_def Let_def)

lemma export_each:
  assumes "distinct (map fst srcs)" and "distinct (map snd srcs)" and "(source, target) \<in> set srcs"
  shows "get_zero (cj_counters (foldl (export_counter rid reported) j srcs)) (rid, source) = get_zero reported source
    \<and> get_zero (cj_totals (foldl (export_counter rid reported) j srcs)) target =
      get_zero (cj_totals j) target
      + (if get_zero (cj_counters j) (rid, source) \<le> get_zero reported source
         then get_zero reported source - get_zero (cj_counters j) (rid, source) else 0)"
  using assms
proof (induction srcs arbitrary: j)
  case (Cons st srcs)
  show ?case
  proof (cases "st = (source, target)")
    case True
    with Cons.prems show ?thesis by (simp add: export_other) (simp add: export_counter_def Let_def)
  next
    case False
    with Cons.prems(3) have "(source, target) \<in> set srcs" by simp
    with Cons.prems(1,2) have "source \<noteq> fst st \<and> target \<noteq> snd st" by (force simp: image_iff)
    with Cons False show ?thesis by (simp add: export_counter_def [of _ _ j] Let_def)
  qed
qed simp

lemma export_metrics_counter:
  assumes "(source, target) \<in> set METRIC_SOURCES"
  shows "get_zero (cj_counters (export_metrics rid reported j)) (rid, source) = get_zero reported source"
    and "get_zero (cj_totals (export_metrics rid reported j)) target =
      get_zero (cj_totals j) target
      + (if get_zero (cj_counters j) (rid, source) \<le> get_zero reported source
         then get_zero reported source - get_zero (cj_counters j) (rid, source) else 0)"
proof -
  have "distinct (map fst METRIC_SOURCES)" "distinct (map snd METRIC_SOURCES)" by (simp_all add: METRIC_SOURCES_def)
  from export_each [OF this assms] show "get_zero (cj_counters (export_metrics rid reported j)) (rid, source) = get_zero reported source"
    "get_zero (cj_totals (export_metrics rid reported j)) target =
      get_zero (cj_totals j) target
      + (if get_zero (cj_counters j) (rid, source) \<le> get_zero reported source
         then get_zero reported source - get_zero (cj_counters j) (rid, source) else 0)"
    unfolding export_metrics_def by blast+
qed

fun gained :: "int \<Rightarrow> int list \<Rightarrow> int" where
  "gained previous [] = 0"
| "gained previous (n # ns) = (if previous \<le> n then n - previous else 0) + gained n ns"

lemma export_metrics_total:
  assumes "(source, target) \<in> set METRIC_SOURCES"
  shows "get_zero (cj_totals (foldl (\<lambda>j r. export_metrics rid r j) j reports)) target =
    get_zero (cj_totals j) target
    + gained (get_zero (cj_counters j) (rid, source)) (map (\<lambda>r. get_zero r source) reports)"
  by (induction reports arbitrary: j) (simp_all add: export_metrics_counter [OF assms])

lemma gained_sorted: "sorted (p # ns) \<Longrightarrow> gained p ns = last (p # ns) - p"
  by (induction ns arbitrary: p) auto

text \<open>
  While every metrics report of a run names a counter and the counter does not fall, the
  exported total grows by exactly the difference between the last report and the one before the
  first: nothing is counted twice or lost, however the reports are spread.
\<close>

theorem metrics_exported_exactly:
  assumes "(source, target) \<in> set METRIC_SOURCES"
    and "sorted (get_zero (cj_counters j) (rid, source) # map (\<lambda>r. get_zero r source) reports)"
    and "reports \<noteq> []"
  shows "get_zero (cj_totals (foldl (\<lambda>j r. export_metrics rid r j) j reports)) target =
    get_zero (cj_totals j) target + get_zero (last reports) source - get_zero (cj_counters j) (rid, source)"
  using assms gained_sorted [OF assms(2)] by (simp add: export_metrics_total [OF assms(1)] last_map)

text \<open>
  A report that names only other counters resets the remembered value, so the next full report
  is added again from zero: the total then exceeds what the worker counted by the value before the
  partial report. The native worker sends such partial reports for stale assignments and for
  rejected commands.
\<close>

theorem partial_report_counts_twice:
  assumes "(source, target) \<in> set METRIC_SOURCES" and "source \<notin> fst ` set partial"
    and "get_zero (cj_counters j) (rid, source) \<le> get_zero full source"
    and "0 \<le> get_zero full source" and "get_zero full source \<le> get_zero later source"
  shows "get_zero (cj_totals (foldl (\<lambda>j r. export_metrics rid r j) j [full, partial, later])) target =
    get_zero (cj_totals (foldl (\<lambda>j r. export_metrics rid r j) j [full, later])) target + get_zero full source"
proof -
  have "get_zero partial source = 0" using assms(2) by (simp add: get_zero_def map_of_None_iff [THEN iffD2])
  then show ?thesis using assms(3-5) by (simp only: export_metrics_total [OF assms(1)]) auto
qed

lemma operation_span_ordered:
  assumes "wf_native_operation e" and "operation_span wall monotonic e = Some (s, d)"
  shows "0 < s \<and> s \<le> d \<and> d - s = ended_monotonic_ns e - started_monotonic_ns e"
  using assms by (auto simp: operation_span_def wf_native_operation_def Let_def split: if_splits)

section \<open>Commands of a camera's job\<close>

definition track_ok :: "track_identity \<Rightarrow> bool" where
  "track_ok st = (identity_ok st \<and> (case ti_known_match st of None \<Rightarrow> True | Some m \<Rightarrow> canonical_uuid (face_of m)))"

definition services_ok :: "identity_tracks \<Rightarrow> event_state \<Rightarrow> bool" where
  "services_ok tracks events =
     (list_all (\<lambda>(k, st). track_ok st) tracks \<and> pending_ok delivered events \<and> counting events)"

text \<open>The ids of identities are made by the database.\<close>

definition voter_ok :: "voter \<Rightarrow> bool" where
  "voter_ok vote = (\<forall>c d m. vote c = Inr d \<longrightarrow> vd_match d = Some m \<longrightarrow> canonical_uuid (face_of m))"

definition queue_wf :: "command_queue \<Rightarrow> bool" where
  "queue_wf q =
     (list_all (\<lambda>c. wf_message (StopCommand c)) (controls q)
      \<and> list_all (\<lambda>(k, a). wf_message (IdentityAssignment a)) (assignments q))"

definition camera_job_ok :: "camera_job \<Rightarrow> bool" where
  "camera_job_ok j =
     (wf_header (jb_header j) \<and> 0 \<le> jb_sequence j \<and> queue_wf (jb_queue j)
      \<and> list_all (\<lambda>c. wf_message (command_message c)) (jb_written j)
      \<and> list_all wf_message (cj_work j) \<and> services_ok (cj_tracks j) (cj_events j))"

lemma become_known_face:
  assumes "become_known s store m sc st = (d, st')"
  shows "(ti_known_match st' = Some m \<or> ti_known_match st' = ti_known_match st)
    \<and> (ld_match d = Some m \<or> ld_match d = ti_known_match st)
    \<and> (\<forall>e. ld_reference_embedding d = Some e \<longrightarrow> ti_reference_embedding st = Some e \<or> wf_embedding e)"
  using assms by (auto simp: become_known_def current_decision_def Let_def intro: reference_wf split: option.splits)

lemma reject_window_face:
  assumes "reject_window s sc st = (d, st')"
  shows "(ti_known_match st' = None \<or> ti_known_match st' = ti_known_match st)
    \<and> (ld_match d = None \<or> ld_match d = ti_known_match st)
    \<and> (\<forall>e. ld_reference_embedding d = Some e \<longrightarrow> ti_reference_embedding st = Some e)"
  using assms by (auto simp: reject_window_def current_decision_def Let_def split: if_splits)

lemma apply_vote_face:
  assumes "apply_vote s store v st = (d, st')" and "track_ok st"
    and "\<And>m. vd_match v = Some m \<Longrightarrow> canonical_uuid (face_of m)"
  shows "(case ti_known_match st' of None \<Rightarrow> True | Some m \<Rightarrow> canonical_uuid (face_of m))
    \<and> (case ld_match d of None \<Rightarrow> True | Some m \<Rightarrow> canonical_uuid (face_of m))
    \<and> (case ld_reference_embedding d of None \<Rightarrow> True | Some e \<Rightarrow> wf_embedding e)"
  using assms(1)
proof (cases rule: apply_vote_cases)
  case reject
  from reject_window_face [OF this(2)] assms(2) show ?thesis
    by (auto simp: track_ok_def identity_ok_def split: option.splits)
next
  case (first m)
  from become_known_face [OF this(3)] assms(2) assms(3) [OF first(1)] show ?thesis
    by (auto simp: track_ok_def identity_ok_def split: option.splits)
next
  case (replace m k)
  from become_known_face [OF this(6)] assms(2) assms(3) [OF replace(1)] show ?thesis
    by (auto simp: track_ok_def identity_ok_def split: option.splits)
qed (use assms(2) in \<open>auto simp: track_ok_def identity_ok_def current_decision_def split: option.splits\<close>)

lemma resolve_track_wf:
  assumes "resolve_track s vote store ev st = (d, st')" and "track_ok st" and "voter_ok vote"
  shows "track_ok st' \<and> decision_wf d"
proof -
  have ok: "identity_ok st'" "decision_ok st d st'"
    using resolve_track_ok [OF _ assms(1)] assms(2) by (simp_all add: track_ok_def)
  have w: "track_ok (open_window ev st)"
    using assms(2) open_window_ok by (auto simp: track_ok_def open_window_def)
  have "(case ti_known_match st' of None \<Rightarrow> True | Some m \<Rightarrow> canonical_uuid (face_of m))
    \<and> (case ld_match d of None \<Rightarrow> True | Some m \<Rightarrow> canonical_uuid (face_of m))
    \<and> (case ld_reference_embedding d of None \<Rightarrow> True | Some e \<Rightarrow> wf_embedding e)"
  proof (cases "window_vote vote ev (open_window ev st)")
    case (Voted v)
    then have "canonical_uuid (face_of m)" if "vd_match v = Some m" for m
      using assms(3) that by (auto simp: window_vote_def voter_ok_def rbind_Inr_iff split: if_splits sum.splits)
    moreover have "apply_vote s store v (open_window ev st) = (d, st')"
      using assms(1) Voted by (simp add: resolve_track_def Let_def)
    ultimately show ?thesis using apply_vote_face w by blast
  qed (use assms(1) w in \<open>auto simp: resolve_track_def Let_def current_decision_def track_ok_def identity_ok_def split: option.splits\<close>)
  with ok show ?thesis
    by (auto simp: track_ok_def decision_wf_def thresholded_def decision_ok_def identity_ok_def)
qed

lemma put_nowait_wf: "queue_wf q \<Longrightarrow> wf_message (command_message c) \<Longrightarrow> queue_wf (fst (put_nowait q c))"
  by (cases c) (auto simp: queue_wf_def Let_def intro!: list_all_dict_put tl_props split: option.splits)

lemma put_assignments_wf:
  "queue_wf q \<Longrightarrow> list_all (\<lambda>a. wf_message (IdentityAssignment a)) as \<Longrightarrow> queue_wf (put_assignments as q)"
  unfolding put_assignments_def
proof (induction as arbitrary: q)
  case (Cons a as)
  then have "queue_wf (fst (put_nowait q (AssignCommand a)))" by (intro put_nowait_wf) simp_all
  with Cons show ?case by (simp del: put_nowait.simps)
qed simp

lemma get_pass_wf:
  assumes "queue_wf q" and "get_pass q = (q', c)"
  shows "queue_wf q' \<and> (case c of None \<Rightarrow> True | Some m \<Rightarrow> wf_message (command_message m))"
  using assms by (auto simp: get_pass_def get_nowait_def queue_wf_def split: list.splits)

lemma event_services_ok:
  assumes "event_step s uuid5 events i = (events', r)" and "services_ok tracks events" and "input_ok delivered i"
  shows "services_ok tracks events' \<and> list_all (\<lambda>a. wf_message (IdentityAssignment a)) (emitted r)"
  using event_step_wf [OF assms(1)] event_step_issues [OF assms(1) _ assms(3) delivered_thresholded] assms(2,3)
  by (auto simp: services_ok_def)

lemma process_identity_event_ok:
  assumes "camera_job_ok j" and "wf_message m" and "voter_ok (ie_vote ie)"
  shows "camera_job_ok (process_identity_event ie m j)"
proof (cases m)
  case (TrackEvidenceEvent ev)
  let ?h = "te_header ev"
  obtain d st where res: "resolve_track (ie_match ie) (ie_vote ie) (ie_store ie) ev (track_state (evidence_key ev) (cj_tracks j)) = (d, st)"
    by fastforce
  have "track_ok (track_state (evidence_key ev) (cj_tracks j))"
    using assms(1) map_of_SomeD [of "cj_tracks j" "evidence_key ev"]
    by (auto simp: track_state_def camera_job_ok_def services_ok_def list_all_iff track_ok_def new_identity_ok
        split: option.splits) (auto simp: new_identity_def)
  from resolve_track_wf [OF res this assms(3)] have wf: "track_ok st" "decision_wf d" by simp_all
  let ?i = "Decide (ie_persist ie) (hd_camera_id ?h) (hd_run_id ?h) (hd_generation ?h) ev d"
  obtain events r where step: "event_step (ie_events ie) (ie_uuid5 ie) (cj_events j) ?i = (events, r)" by fastforce
  have "services_ok (dict_put (evidence_key ev) st (cj_tracks j)) (cj_events j)"
    using assms(1) wf(1) by (auto simp: camera_job_ok_def services_ok_def intro: list_all_dict_put)
  from event_services_ok [OF step this] wf(2) assms(2)
  have "services_ok (dict_put (evidence_key ev) st (cj_tracks j)) events"
    "list_all (\<lambda>a. wf_message (IdentityAssignment a)) (emitted r)"
    by (simp_all add: input_ok_def delivered_def TrackEvidenceEvent)
  with assms(1) res step show ?thesis
    by (auto simp: process_identity_event_def TrackEvidenceEvent identity_resolve_def Let_def camera_job_ok_def
        intro: put_assignments_wf)
next
  case (TrackExpiredEvent x)
  let ?h = "tx_header x"
  let ?i = "Expire (ie_persist ie) (hd_camera_id ?h) (hd_run_id ?h) (hd_generation ?h) x"
  obtain events r where step: "event_step (ie_events ie) (ie_uuid5 ie) (cj_events j) ?i = (events, r)" by fastforce
  have "services_ok tracks (cj_events j)" if "tracks = cj_tracks j \<or> tracks = identity_expire (expired_key x) (cj_tracks j)" for tracks
    using assms(1) that by (auto simp: camera_job_ok_def services_ok_def identity_expire_def dict_del_def list_all_iff)
  from event_services_ok [OF step this] have "services_ok tracks events" "list_all (\<lambda>a. wf_message (IdentityAssignment a)) (emitted r)"
    if "tracks = cj_tracks j \<or> tracks = identity_expire (expired_key x) (cj_tracks j)" for tracks
    using that by (auto simp: input_ok_def)
  with assms(1) step show ?thesis
    by (auto simp: process_identity_event_def TrackExpiredEvent Let_def camera_job_ok_def
        intro: put_assignments_wf split: sum.splits)
qed (use assms(1) in \<open>simp_all add: process_identity_event_def\<close>)

lemma camera_tx_ok:
  assumes "fenced_tx tx j = (j', r)"
  shows "camera_job_ok j' = camera_job_ok j" and "jb_failed j' = jb_failed j"
  using assms by (auto simp: camera_job_ok_def fenced_tx_def split: sum.splits prod.splits)

lemma export_metrics_fields:
  "\<exists>totals seen. export_metrics rid reported j = j\<lparr>cj_totals := totals, cj_counters := seen\<rparr>"
proof -
  have "\<exists>totals seen. foldl (export_counter rid reported) j srcs = j\<lparr>cj_totals := totals, cj_counters := seen\<rparr>" for srcs
  proof (induction srcs arbitrary: j)
    case Nil
    show ?case by (intro exI [of _ "cj_totals j"] exI [of _ "cj_counters j"]) simp
  next
    case (Cons st srcs)
    obtain totals seen where "export_counter rid reported j st = j\<lparr>cj_totals := totals, cj_counters := seen\<rparr>"
      by (simp add: export_counter_def Let_def)
    with Cons [of "export_counter rid reported j st"] show ?case by auto
  qed
  then show ?thesis by (simp add: export_metrics_def)
qed

lemma export_metrics_keeps:
  "camera_job_ok (export_metrics rid reported j) = camera_job_ok j"
  "jb_header (export_metrics rid reported j) = jb_header j" "jb_sequence (export_metrics rid reported j) = jb_sequence j"
  "job_stops (export_metrics rid reported j) = job_stops j" "jb_stop_sent (export_metrics rid reported j) = jb_stop_sent j"
  using export_metrics_fields [of rid reported j] by (auto simp: camera_job_ok_def job_stops_def)

lemma send_stop_ok:
  assumes "camera_job_ok j" and "trace_ids_ok ids" and "0 \<le> clock"
  shows "camera_job_ok (send_stop ids clock reason j)"
proof -
  let ?s = "supervisor_stop ids clock reason (Some (jb_header j)) (jb_sequence j)"
  have "wf_message (StopCommand (snd ?s))"
    using assms by (intro supervisor_stop_wf) (simp_all add: camera_job_ok_def)
  then have "queue_wf (fst (put_nowait (jb_queue j) (ControlCommand (snd ?s))))"
    using assms(1) by (intro put_nowait_wf) (simp_all add: camera_job_ok_def)
  then show ?thesis using assms(1) by (simp add: send_stop_def camera_job_ok_def supervisor_stop_def del: put_nowait.simps)
qed

lemma camera_event_ok:
  assumes "camera_event t now j m = (j', r)" and "wf_message m" and "camera_job_ok j"
  shows "camera_job_ok j'"
proof (cases m)
  case (MetricsEvent e)
  with assms show ?thesis
    by (auto simp: camera_event_def persist_metrics_def camera_tx_ok(1) export_metrics_keeps split: if_splits)
next
  case (StateEvent e)
  with assms show ?thesis
    by (auto simp: camera_event_def persist_state_def camera_tx_ok(1) split: if_splits)
qed (use assms in \<open>auto simp: camera_event_def enqueue_work_def camera_job_ok_def split: if_splits\<close>)

lemma camera_job_step_ok:
  assumes "camera_job_step t ie j j'" and "voter_ok (ie_vote ie)" and "camera_job_ok j"
  shows "camera_job_ok j'"
  using assms(1)
proof cases
  case (event m now r)
  with assms(3) show ?thesis by (blast intro: camera_event_ok)
next
  case (monitor ids clock now r)
  obtain j1 q where tx: "fenced_tx (runs_tx (renew (run_id (ct_run t)) (ct_holder t) now
      (now + seconds (ct_lease_seconds t)))) j = (j1, q)" by fastforce
  from camera_tx_ok(1) [OF this] assms(3) have "camera_job_ok j1" by simp
  moreover from send_stop_ok [OF this monitor(1,2)]
  have "camera_job_ok (stop_if_unwanted ids clock wanted j1)" if "camera_job_ok j1" for wanted
    using that by (auto simp: stop_if_unwanted_def camera_job_ok_def)
  ultimately show ?thesis using monitor(3) tx by (auto simp: monitor_camera_def Let_def split: sum.splits)
next
  case identity
  show ?thesis
  proof (cases "cj_work j")
    case (Cons m rest)
    with assms(3) have "camera_job_ok (j\<lparr>cj_work := rest\<rparr>)" "wf_message m" by (simp_all add: camera_job_ok_def)
    with process_identity_event_ok [OF _ _ assms(2)] show ?thesis by (simp add: identity identity_pass_def Cons)
  qed (use assms(3) in \<open>simp add: identity identity_pass_def\<close>)
next
  case (shutdown ids clock)
  with send_stop_ok [OF assms(3)] show ?thesis by (simp add: request_stop_def)
next
  case writer
  obtain q c where "get_pass (jb_queue j) = (q, c)" by fastforce
  with get_pass_wf [OF _ this] assms(3) show ?thesis
    by (auto simp: writer write_one_def camera_job_ok_def split: option.splits)
qed (use assms(3) in \<open>simp add: camera_job_ok_def\<close>)

lemma put_assignments_stops: "controls (put_assignments as q) = controls q"
proof -
  have "controls (fst (put_nowait q (AssignCommand a))) = controls q" for q a
    by (simp add: Let_def split: option.splits)
  then show ?thesis unfolding put_assignments_def by (induction as arbitrary: q) (simp_all del: put_nowait.simps)
qed

lemma camera_job_stops_inv:
  assumes "camera_job_step t ie j j'" and "stops_inv s0 h j"
  shows "stops_inv s0 h j'"
  using assms(1)
proof cases
  case (event m now r)
  show ?thesis
  proof (cases m)
    case (MetricsEvent e)
    have "stops_inv s0 h (export_metrics rid reported j)" for rid reported
      by (rule stops_inv_cong [OF assms(2)]) (simp_all add: export_metrics_keeps)
    with event assms(2) show ?thesis
      by (auto simp: MetricsEvent camera_event_def persist_metrics_def intro: stops_inv_tx split: if_splits)
  qed (use event assms(2) in \<open>auto simp: camera_event_def persist_state_def enqueue_work_def job_stops_def
        intro: stops_inv_tx stops_inv_cong split: if_splits\<close>)
next
  case (monitor ids clock now r)
  with assms(2) show ?thesis
    by (auto simp: monitor_camera_def Let_def intro: stops_inv_tx stops_inv_unwanted(1) split: prod.splits sum.splits)
next
  case identity
  have "stops_inv s0 h (process_identity_event ie m (j\<lparr>cj_work := rest\<rparr>))" for m rest
    by (rule stops_inv_cong [OF assms(2)])
       (auto simp: process_identity_event_def job_stops_def put_assignments_stops Let_def split: live_message.splits prod.splits)
  with assms(2) show ?thesis by (auto simp: identity identity_pass_def split: list.splits)
next
  case (shutdown ids clock)
  with assms(2) show ?thesis by (simp add: request_stop_def stops_inv_send)
qed (use assms(2) in \<open>auto intro: stops_inv_cong simp: job_stops_def [of "j\<lparr>jb_db := _\<rparr>"] job_stops_def [of j]\<close>)

text \<open>
  Everything the supervisor of a camera sends to its worker is well formed: in every
  interleaving of events, identity decisions, renewals, shutdown requests, the writer and the
  transactions of others, each command that waits in the queue or was written is a message the
  native decoder accepts. The chain from evidence over the vote and the event table to the queue
  therefore never produces a command the writer could fail on for its content; and the stop
  commands of the run are numbered consecutively, with at most one because the camera is unwanted.
\<close>

theorem camera_commands_sound:
  assumes "command_queue_init n = Inr q" and "wf_message (StartCommand start)" and "0 \<le> s0"
    and "voter_ok (ie_vote ie)" and "services_ok tracks events"
    and "(camera_job_step t ie)\<^sup>*\<^sup>* (camera_job_of q s0 start seen totals tracks events db) j"
  shows "list_all (\<lambda>c. wf_message (command_message c)) (jb_written j)
    \<and> queue_wf (jb_queue j) \<and> stops_inv s0 (sc_header start) j"
proof -
  let ?j = "camera_job_of q s0 start seen totals tracks events db"
  have "controls q = []" "assignments q = []" using assms(1) by (auto simp: command_queue_init_def split: if_splits)
  then have start: "camera_job_ok ?j" "stops_inv s0 (sc_header start) ?j"
    using assms(2,3,5)
    by (simp_all add: camera_job_of_def camera_job_ok_def queue_wf_def wf_message_def stops_inv_def job_stops_def)
  from assms(6) have "camera_job_ok j \<and> stops_inv s0 (sc_header start) j"
    by (induction rule: rtranclp_induct) (use start camera_job_step_ok [OF _ assms(4)] camera_job_stops_inv in blast)+
  then show ?thesis by (simp add: camera_job_ok_def)
qed

section \<open>Witnesses\<close>

abbreviation blank_job :: camera_job where
  "blank_job \<equiv> camera_job_of \<lparr>assignment_capacity = 4, controls = [], assignments = [], available = False\<rparr> 2
     (camera_start_command sample_live (Live_Runs.sample_run ''r'' 1 ''w'' 0) [])
     [] [] [] initial_events \<lparr>cd_cameras = [], cd_runs = []\<rparr>"

theorem metrics_exported_exactly_witness:
  "get_zero (cj_totals (foldl (\<lambda>j r. export_metrics ''r'' r j) blank_job
     [[(''decoded_frames'', 5)], [(''decoded_frames'', 9)]])) ''frames_total'' = 9"
  using metrics_exported_exactly [of "''decoded_frames''" "''frames_total''" blank_job "''r''"
      "[[(''decoded_frames'', 5)], [(''decoded_frames'', 9)]]"]
  by (simp add: METRIC_SOURCES_def camera_job_of_def get_zero_def)

theorem partial_report_counts_twice_witness:
  "get_zero (cj_totals (foldl (\<lambda>j r. export_metrics ''r'' r j) blank_job
     [[(''decoded_frames'', 5)], [(''stale_assignments'', 1)], [(''decoded_frames'', 9)]])) ''frames_total'' = 14"
proof -
  have "(''decoded_frames'', ''frames_total'') \<in> set METRIC_SOURCES" by (simp add: METRIC_SOURCES_def)
  note total = export_metrics_total [OF this, of "''r''" blank_job "[[(''decoded_frames'', 5)], [(''decoded_frames'', 9)]]"]
  from partial_report_counts_twice [OF \<open>_ \<in> set METRIC_SOURCES\<close>, of "[(''stale_assignments'', 1)]" blank_job "''r''"
      "[(''decoded_frames'', 5)]" "[(''decoded_frames'', 9)]"] total
  show ?thesis by (simp add: camera_job_of_def get_zero_def)
qed

lemma blank_services: "services_ok [] initial_events"
  by (simp add: services_ok_def initial_pending) (simp add: counting_def revision_of_def initial_events_def)

lemma camera_start_wf:
  assumes "settings_ok cfg" and "wf_header (camera_header run)"
  shows "wf_message (StartCommand (camera_start_command cfg run uri))"
  using assms
  by (simp add: wf_message_def wf_start_def settings_ok_def camera_start_command_def unit_interval_in_unit ANALYTICS_MODES_def le_floor_iff)
     (simp add: camera_header_def)

definition sample_wf_run :: live_camera_run where
  "sample_wf_run = (Live_Runs.sample_run ''33333333-3333-4333-8333-333333333333'' 1 ''w'' 0)
     \<lparr>run_camera_id := ''22222222-2222-4222-8222-222222222222'', run_traceparent := trace_parent sample_ids,
       run_tracestate := None\<rparr>"

definition sample_identity_env :: identity_env where
  "sample_identity_env =
     \<lparr>ie_match = sample_match_settings, ie_vote = (\<lambda>_. Inl KeyError), ie_store = sample_store,
      ie_events = sample_event_settings, ie_uuid5 = (\<lambda>s. s), ie_persist = sample_env\<rparr>"

theorem camera_commands_sound_witness:
  "\<exists>q j. command_queue_init 4 = Inr q
    \<and> j = write_one (identity_pass sample_identity_env (request_stop sample_ids 5
          (camera_job_of q 2 (camera_start_command sample_live sample_wf_run ''rtsp://cam/1'') [] [] [] initial_events
             \<lparr>cd_cameras = [], cd_runs = []\<rparr>)))
    \<and> list_all (\<lambda>c. wf_message (command_message c)) (jb_written j) \<and> length (jb_written j) = 1"
proof -
  obtain q where q: "command_queue_init 4 = Inr q" by (simp add: command_queue_init_def)
  let ?start = "camera_start_command sample_live sample_wf_run ''rtsp://cam/1''"
  let ?t = "\<lparr>ct_run = sample_wf_run, ct_holder = (''w'', ''t''), ct_lease_seconds = 30, ct_metrics = True,
    ct_identity = True, ct_work_capacity = 4\<rparr>"
  let ?fresh = "camera_job_of q 2 ?start [] [] [] initial_events \<lparr>cd_cameras = [], cd_runs = []\<rparr>"
  let ?j = "write_one (identity_pass sample_identity_env (request_stop sample_ids 5 ?fresh))"
  have "canonical_uuid ''22222222-2222-4222-8222-222222222222''" "canonical_uuid ''33333333-3333-4333-8333-333333333333''"
    by code_simp+
  then have "wf_header (camera_header sample_wf_run)"
    using trace_parent_valid [OF sample_live_ok(2)]
    by (simp add: wf_header_def camera_header_def sample_wf_run_def) (simp add: Live_Runs.sample_run_def new_run_def)
  then have start: "wf_message (StartCommand ?start)" by (rule camera_start_wf [OF sample_live_ok(1)])
  have vote: "voter_ok (ie_vote sample_identity_env)" by (simp add: voter_ok_def sample_identity_env_def)
  have "(camera_job_step ?t sample_identity_env)\<^sup>*\<^sup>* ?fresh ?j"
    using camera_job_step.shutdown [OF sample_live_ok(2), of 5 ?t sample_identity_env ?fresh]
      camera_job_step.identity [of ?t sample_identity_env "request_stop sample_ids 5 ?fresh"]
      camera_job_step.writer [of ?t sample_identity_env "identity_pass sample_identity_env (request_stop sample_ids 5 ?fresh)"]
    by simp
  from camera_commands_sound [OF q start _ vote blank_services this]
  have "list_all (\<lambda>c. wf_message (command_message c)) (jb_written ?j)" by simp
  moreover have "length (jb_written ?j) = 1"
    using q by (auto simp: request_stop_def send_stop_def supervisor_stop_def camera_job_of_def identity_pass_def write_one_def
        command_queue_init_def get_pass_def get_nowait_def)
  ultimately show ?thesis using q by blast
qed

end
