(* ===== verification/Camera_Service.thy ===== *)
theory Camera_Service
  imports Camera_Supervisor
begin

text \<open>
  The camera API (\<open>src/backend/app/services/live_camera_service.py\<close>): registering, starting, stopping
  and deleting cameras and showing them with their latest run and events. The name of a violated
  constraint, which the database driver reports, is a parameter; it is given the constraints that
  the attempted change violates.
\<close>

section \<open>Operations\<close>

record camera_view =
  cv_camera_id :: string
  cv_name :: string
  cv_desired_state :: string
  cv_runtime_state :: string
  cv_output_url :: "string option"
  cv_created_at :: time
  cv_updated_at :: time

record camera_output =
  co_host :: string
  co_port :: int

definition camera_snapshot :: "camera_output \<Rightarrow> live_camera \<Rightarrow> live_camera_run option \<Rightarrow> camera_view" where
  "camera_snapshot out c run =
     \<lparr>cv_camera_id = camera_id c, cv_name = camera_name c, cv_desired_state = desired_state c,
      cv_runtime_state = (case run of None \<Rightarrow> ''STOPPED'' | Some r \<Rightarrow> run_state r),
      cv_output_url =
        (case run of
           None \<Rightarrow> None
         | Some r \<Rightarrow>
             (case output_path r of
                None \<Rightarrow> None
              | Some p \<Rightarrow>
                  if p = [] then None
                  else Some (''rtsp://'' @ co_host out @ '':'' @ str_int (co_port out)
                         @ (if take 1 p = ''/'' then p else CHR ''/'' # p)))),
      cv_created_at = camera_created_at c, cv_updated_at = camera_updated_at c\<rparr>"

definition not_found :: service_error where
  "not_found = ServiceError ''CAMERA_NOT_FOUND'' 404"

definition required_camera :: "string \<Rightarrow> camera_db \<Rightarrow> live_camera service_result" where
  "required_camera cid db =
     (case camera_get cid (cd_cameras db) of None \<Rightarrow> Inl not_found | Some c \<Rightarrow> Inr c)"

definition kept :: "cameras \<Rightarrow> cameras" where
  "kept cs = filter (\<lambda>c. deleted_at c = None) cs"

definition violated_by_create :: "string \<Rightarrow> string \<Rightarrow> string \<Rightarrow> cameras \<Rightarrow> string list" where
  "violated_by_create cid name fp cs =
     (if cid \<in> camera_id ` set cs then [''live_camera_pkey''] else [])
     @ (if name \<in> camera_name ` set (kept cs) then [''uq_live_camera_active_name''] else [])
     @ (if fp \<in> uri_fingerprint ` set (kept cs) then [''uq_live_camera_active_uri_fingerprint''] else [])"

definition register_camera ::
  "camera_output \<Rightarrow> fernet option \<Rightarrow> (string list \<Rightarrow> string option) \<Rightarrow> string \<Rightarrow> time \<Rightarrow> string \<Rightarrow> string \<Rightarrow> camera_db \<Rightarrow>
   camera_db \<times> camera_view service_result"
where
  "register_camera out cipher diag cid now name uri db =
     (case cipher of
        None \<Rightarrow> (db, Inl (ServiceError ''LIVE_URI_ENCRYPTION_UNAVAILABLE'' 503))
      | Some f \<Rightarrow>
          (let selected = py_strip name
           in if selected = [] then (db, Inl (ServiceError ''CAMERA_NAME_INVALID'' 422))
              else case (cipher_encrypt f uri, fingerprint f uri) of
                (Inl e, _) \<Rightarrow> (db, Inl (Unhandled e))
              | (Inr _, Inl e) \<Rightarrow> (db, Inl (Unhandled e))
              | (Inr ct, Inr fp) \<Rightarrow>
                  (case camera_create cid selected ct fp now (cd_cameras db) of
                     Inr cs \<Rightarrow> (db\<lparr>cd_cameras := cs\<rparr>, Inr (camera_snapshot out (last cs) None))
                   | Inl _ \<Rightarrow>
                       (db, Inl (ServiceError
                          (if diag (violated_by_create cid selected fp (cd_cameras db)) = Some ''uq_live_camera_active_name''
                           then ''CAMERA_NAME_CONFLICT'' else ''CAMERA_URI_CONFLICT'') 409)))))"

definition list_cameras :: "camera_output \<Rightarrow> camera_db \<Rightarrow> camera_view list" where
  "list_cameras out db =
     map (\<lambda>c. camera_snapshot out c (latest_for_camera (camera_id c) (cd_runs db))) (list_active (cd_cameras db))"

definition get_camera :: "camera_output \<Rightarrow> string \<Rightarrow> camera_db \<Rightarrow> camera_view service_result" where
  "get_camera out cid db =
     (case required_camera cid db of
        Inl e \<Rightarrow> Inl e | Inr c \<Rightarrow> Inr (camera_snapshot out c (latest_for_camera cid (cd_runs db))))"

definition violated_by_start :: "string \<Rightarrow> cameras \<Rightarrow> string list" where
  "violated_by_start cid cs =
     (if \<exists>c\<in>set (kept cs). camera_id c \<noteq> cid \<and> desired_state c = ''running'' then [''uq_live_single_running''] else [])"

definition start_camera ::
  "camera_output \<Rightarrow> (string list \<Rightarrow> string option) \<Rightarrow> string \<times> string \<Rightarrow> time \<Rightarrow> string \<Rightarrow> string option \<Rightarrow> string option \<Rightarrow>
   camera_db \<Rightarrow> camera_db \<times> camera_view service_result"
where
  "start_camera out diag ids now cid traceparent tracestate db =
     (let parent = (case traceparent of None \<Rightarrow> trace_parent ids | Some [] \<Rightarrow> trace_parent ids | Some tp \<Rightarrow> tp)
      in case validate_trace_context parent tracestate of
           Inl _ \<Rightarrow> (db, Inl (ServiceError ''INVALID_TRACE_CONTEXT'' 422))
         | Inr _ \<Rightarrow>
             (case set_desired cid ''running'' (Some parent) tracestate now (cd_cameras db) of
                Inl e \<Rightarrow>
                  (db, Inl (if diag (violated_by_start cid (cd_cameras db)) = Some ''uq_live_single_running''
                            then ServiceError ''LIVE_CAMERA_LIMIT_REACHED'' 409 else Unhandled e))
              | Inr (cs, False) \<Rightarrow> (db, Inl not_found)
              | Inr (cs, True) \<Rightarrow>
                  let db' = db\<lparr>cd_cameras := cs\<rparr>
                  in (db', get_camera out cid db')))"

definition stop_camera :: "camera_output \<Rightarrow> time \<Rightarrow> string \<Rightarrow> camera_db \<Rightarrow> camera_db \<times> camera_view service_result" where
  "stop_camera out now cid db =
     (case set_desired cid ''stopped'' None None now (cd_cameras db) of
        Inl e \<Rightarrow> (db, Inl (Unhandled e))
      | Inr (cs, False) \<Rightarrow> (db, Inl not_found)
      | Inr (cs, True) \<Rightarrow> let db' = db\<lparr>cd_cameras := cs\<rparr> in (db', get_camera out cid db'))"

definition delete_camera :: "time \<Rightarrow> time \<Rightarrow> string \<Rightarrow> camera_db \<Rightarrow> camera_db \<times> string service_result" where
  "delete_camera deletion now cid db =
     (case soft_delete cid deletion now (cd_cameras db) of
        Inl e \<Rightarrow> (db, Inl (Unhandled e))
      | Inr (cs, False) \<Rightarrow> (db, Inl not_found)
      | Inr (cs, True) \<Rightarrow> (db\<lparr>cd_cameras := cs\<rparr>, Inr cid))"

definition camera_events :: "string \<Rightarrow> int \<Rightarrow> detection_event list \<Rightarrow> camera_db \<Rightarrow> detection_event list service_result" where
  "camera_events cid limit evs db =
     (case required_camera cid db of
        Inl e \<Rightarrow> Inl e | Inr _ \<Rightarrow> lift_py (list_page cid limit None None evs))"

record camera_health =
  ch_run_id :: "string option"
  ch_generation :: "int option"
  ch_desired_state :: string
  ch_runtime_state :: string
  ch_first_frame_at :: "time option"
  ch_last_frame_at :: "time option"
  ch_reconnect_count :: int
  ch_metrics :: pydict
  ch_output_url :: "string option"
  ch_error_code :: "string option"

definition health_camera :: "camera_output \<Rightarrow> string \<Rightarrow> camera_db \<Rightarrow> camera_health service_result" where
  "health_camera out cid db =
     (case required_camera cid db of
        Inl e \<Rightarrow> Inl e
      | Inr c \<Rightarrow>
          let run = latest_for_camera cid (cd_runs db); view = camera_snapshot out c run
          in Inr \<lparr>ch_run_id = map_option run_id run, ch_generation = map_option run_generation run,
                  ch_desired_state = desired_state c, ch_runtime_state = cv_runtime_state view,
                  ch_first_frame_at = Option.bind run first_frame_at,
                  ch_last_frame_at = Option.bind run last_frame_at,
                  ch_reconnect_count = (case run of None \<Rightarrow> 0 | Some r \<Rightarrow> reconnect_count r),
                  ch_metrics = (case run of None \<Rightarrow> [] | Some r \<Rightarrow> run_metrics r),
                  ch_output_url = cv_output_url view, ch_error_code = Option.bind run run_error_code\<rparr>)"

definition event_snapshot_error :: "string \<Rightarrow> string \<Rightarrow> detection_event list \<Rightarrow> camera_db \<Rightarrow> service_error" where
  "event_snapshot_error cid eid evs db =
     (case required_camera cid db of
        Inl e \<Rightarrow> e
      | Inr _ \<Rightarrow>
          (case event_get cid eid evs of
             None \<Rightarrow> ServiceError ''LIVE_EVENT_NOT_FOUND'' 404
           | Some _ \<Rightarrow> ServiceError ''LIVE_SNAPSHOT_NOT_AVAILABLE'' 409))"

section \<open>Supervisors only make the transactions of the specification\<close>

lemma fenced_runs_step:
  assumes "fenced_tx (runs_tx (run_update (op, now) k h)) j = (j', r)" and "supervisor_op op"
  shows "camera_step\<^sup>*\<^sup>* (jb_db j) (jb_db j')"
  using assms by (auto simp: fenced_tx_def runs_tx_def split: sum.splits prod.splits intro!: camera_step.update)

lemma update_as_op:
  "renew k h now e = run_update (RenewRun e, now) k h"
  "st \<notin> {''STOPPED'', ''FAILED''} \<Longrightarrow> update_state k h now (only_state st) = run_update (StateRun (only_state st), now) k h"
  "update_metrics k h now m = run_update (MetricsRun m, now) k h"
  "finish k h now st code err = run_update (FinishRun st code err, now) k h"
  by (auto simp: fun_eq_iff only_state_def TERMINAL_STATES_def)

lemma camera_event_steps:
  assumes "camera_event t now j m = (j', r)"
  shows "camera_step\<^sup>*\<^sup>* (jb_db j) (jb_db j')"
proof (cases m)
  case (StateEvent e)
  show ?thesis
  proof (cases "state_state e \<in> {''STOPPED'', ''FAILED''}")
    case False
    with assms StateEvent have "fenced_tx (runs_tx (run_update (StateRun (only_state (state_state e)), now) (run_id (ct_run t)) (ct_holder t))) j = (j', r)"
      by (simp add: camera_event_def persist_state_def update_as_op(2) del: run_update.simps)
    then show ?thesis by (rule fenced_runs_step) (use False in \<open>simp add: only_state_def\<close>)
  qed (use assms StateEvent in \<open>auto simp: camera_event_def\<close>)
next
  case (MetricsEvent e)
  let ?j = "if ct_metrics t then export_metrics (run_id (ct_run t)) (counters e) j else j"
  have "fenced_tx (runs_tx (run_update (MetricsRun (metrics_dict e), now) (run_id (ct_run t)) (ct_holder t))) ?j = (j', r)"
    using assms MetricsEvent by (simp add: camera_event_def persist_metrics_def update_as_op(3))
  then have "camera_step\<^sup>*\<^sup>* (jb_db ?j) (jb_db j')" by (rule fenced_runs_step) simp
  moreover have "jb_db ?j = jb_db j" using export_metrics_fields [of "run_id (ct_run t)" "counters e" j] by auto
  ultimately show ?thesis by simp
qed (use assms in \<open>auto simp: camera_event_def enqueue_work_def split: if_splits\<close>)

lemma process_identity_event_db [simp]: "jb_db (process_identity_event ie m j) = jb_db j"
  by (simp add: process_identity_event_def Let_def split: live_message.splits prod.splits)

lemma stop_db [simp]: "jb_db (send_stop ids clock reason j) = jb_db j" "jb_db (stop_if_unwanted ids clock w j) = jb_db j"
  by (simp_all add: send_stop_def supervisor_stop_def stop_if_unwanted_def)

lemma camera_job_steps:
  assumes "camera_job_step t ie j j'"
  shows "camera_step\<^sup>*\<^sup>* (jb_db j) (jb_db j')"
  using assms
proof cases
  case (event m now r)
  then show ?thesis by (blast intro: camera_event_steps)
next
  case (monitor ids clock now r)
  obtain j1 q where tx: "fenced_tx (runs_tx (run_update (RenewRun (now + seconds (ct_lease_seconds t)), now)
      (run_id (ct_run t)) (ct_holder t))) j = (j1, q)" by fastforce
  from fenced_runs_step [OF this] have "camera_step\<^sup>*\<^sup>* (jb_db j) (jb_db j1)" by simp
  with monitor(3) tx show ?thesis by (auto simp: monitor_camera_def update_as_op(1) Let_def split: sum.splits)
next
  case identity
  then show ?thesis by (simp add: identity_pass_def split: list.splits)
next
  case (others db)
  then show ?thesis by auto
qed (simp_all add: request_stop_def)

lemma end_camera_steps:
  assumes "end_camera t now outcome db = Inr (db', b)"
  shows "camera_step\<^sup>*\<^sup>* db db'"
proof (cases outcome)
  case (Some oc)
  obtain st code msg where oc: "oc = (st, code, msg)" by (cases oc)
  with assms Some obtain c where
    "runs_tx (run_update (FinishRun st code (sanitized msg), now) (run_id (ct_run t)) (ct_holder t)) db = Inr (db', c)"
    by (auto simp: end_camera_def finish_camera_def update_as_op(4) split: sum.splits simp del: run_update.simps)
  then show ?thesis
    by (auto simp: runs_tx_def simp del: run_update.simps split: sum.splits
        intro!: r_into_rtranclp [of camera_step] camera_step.update [where op = "FinishRun st code (sanitized msg)"])
qed (use assms in \<open>simp add: end_camera_def\<close>)


section \<open>What a run never records\<close>

definition plain_run :: "live_camera_run \<Rightarrow> bool" where
  "plain_run r =
     (output_path r = None \<and> first_frame_at r = None \<and> last_frame_at r = None \<and> reconnect_count r = 0
      \<and> sanitized_error r \<in> range sanitized)"

lemma insert_run_plain:
  "insert_run run rs = Inr (rs', n) \<Longrightarrow> plain_run run \<Longrightarrow> list_all plain_run rs \<Longrightarrow> list_all plain_run rs'"
  by (auto simp: insert_run_def split: if_splits)

lemma new_run_plain: "plain_run (new_run rid c gen w tok now ls fresh)"
  by (auto simp: plain_run_def new_run_def sanitized_def intro!: range_eqI [of _ _ None])

lemma row_update_plain:
  "list_all plain_run rs \<Longrightarrow> (\<And>r. plain_run r \<Longrightarrow> plain_run (f r)) \<Longrightarrow> list_all plain_run (row_update key k f rs)"
  by (auto simp: list_all_iff row_update_def)

lemma run_row_plain:
  assumes "supervisor_op op" and "plain_run r"
  shows "plain_run (run_row op now r)"
proof (cases op)
  case (StateRun u)
  with assms(1) obtain st where "u = only_state st" by auto
  with assms(2) StateRun show ?thesis by (simp add: plain_run_def apply_state_def only_state_def if_some_def)
qed (use assms in \<open>auto simp: plain_run_def finish_row_def\<close>)

lemma run_rows:
  "(\<lambda>r. r\<lparr>run_lease_expires_at := Some e\<rparr>) = run_row (RenewRun e) now" "apply_state u = run_row (StateRun u) now"
  "(\<lambda>r. r\<lparr>run_metrics := m\<rparr>) = run_row (MetricsRun m) now"
  "finish_row now st code err = run_row (FinishRun st code err) now"
  by (simp_all add: fun_eq_iff)

lemma run_update_rows:
  assumes "run_update (op, now) k h rs = Inr (rs', b)"
  shows "rs' = rs \<or> rs' = row_update run_id k (run_row op now) rs"
  using assms
  by (cases op)
     (auto simp: renew_def update_state_def update_metrics_def finish_def fenced_update_def run_rows [where now = now]
        simp del: run_row.simps split: option.splits if_splits)

lemma camera_step_plain:
  assumes "camera_step db db'" and "list_all plain_run (cd_runs db)"
  shows "list_all plain_run (cd_runs db')"
  using assms(1)
proof cases
  case (claim locked a rs n)
  have "list_all plain_run (row_update run_id k (expire_run now) (cd_runs db))" for k now
    by (rule row_update_plain [OF assms(2)]) (simp add: plain_run_def expire_run_def)
  with assms(2) claim(2) show ?thesis
    by (auto simp: claim(1) claim_run_def Let_def intro: insert_run_plain [OF _ new_run_plain] split: option.splits if_splits)
next
  case (update op now k h rs b)
  have "list_all plain_run (row_update run_id k (run_row op now) (cd_runs db))"
    by (rule row_update_plain [OF assms(2)]) (rule run_row_plain [OF update(2)])
  with assms(2) run_update_rows [OF update(3)] show ?thesis by (auto simp: update(1))
qed (use assms(2) in simp_all)

text \<open>
  The address of a camera's annotated stream is never shown, nor when its first or last frame
  arrived or how often it reconnected: the supervisor does not handle the worker's \<open>output_ready\<close>
  event and passes nothing but the state when it records one, so in every state that the API and
  the supervisors can reach these columns are empty. What a run records of an error is redacted.
\<close>

theorem camera_output_never_shown:
  assumes "camera_step\<^sup>*\<^sup>* \<lparr>cd_cameras = [], cd_runs = []\<rparr> db"
  shows "list_all (\<lambda>v. cv_output_url v = None) (list_cameras out db)
    \<and> (case health_camera out cid db of
         Inl _ \<Rightarrow> True
       | Inr h \<Rightarrow> ch_output_url h = None \<and> ch_first_frame_at h = None \<and> ch_last_frame_at h = None
           \<and> ch_reconnect_count h = 0)
    \<and> (\<forall>r\<in>set (cd_runs db). \<forall>e. sanitized_error r = Some e \<longrightarrow> (\<exists>m. e = redact_live_text m))"
proof -
  have plain: "list_all plain_run (cd_runs db)"
    using assms by (induction rule: rtranclp_induct) (auto intro: camera_step_plain)
  then have redacted: "\<exists>m. e = redact_live_text m" if "r \<in> set (cd_runs db)" "sanitized_error r = Some e" for r e
    using that by (fastforce simp: list_all_iff plain_run_def sanitized_def split: option.splits if_splits)
  have latest: "case latest_for_camera c (cd_runs db) of None \<Rightarrow> True | Some r \<Rightarrow> plain_run r" for c
    using plain latest_row_Some [of run_camera_id run_generation c "cd_runs db"]
    by (auto simp: latest_for_camera_def list_all_iff split: option.splits)
  have url: "cv_output_url (camera_snapshot out c (latest_for_camera k (cd_runs db))) = None" for c k
    using latest [of k] by (auto simp: camera_snapshot_def plain_run_def split: option.splits)
  have "case health_camera out cid db of
         Inl _ \<Rightarrow> True
       | Inr h \<Rightarrow> ch_output_url h = None \<and> ch_first_frame_at h = None \<and> ch_last_frame_at h = None
           \<and> ch_reconnect_count h = 0"
    using latest [of cid]
    by (cases "latest_for_camera cid (cd_runs db)")
       (auto simp: health_camera_def Let_def plain_run_def camera_snapshot_def split: sum.splits)
  with redacted url show ?thesis by (auto simp: list_cameras_def list_all_iff)
qed

section \<open>Starting a camera\<close>

lemma one_running:
  assumes "distinct (map camera_id cs)" and "c0 \<in> set cs" and "camera_id c0 = cid"
  shows "length (filter (\<lambda>c. camera_id c = cid \<or> R c) cs) \<le> 1 \<longleftrightarrow> (\<forall>c\<in>set cs. R c \<longrightarrow> camera_id c = cid)"
proof
  assume le: "length (filter (\<lambda>c. camera_id c = cid \<or> R c) cs) \<le> 1"
  have "c = c0" if "c \<in> set cs" "R c" for c
  proof -
    have "{c, c0} \<subseteq> set (filter (\<lambda>c. camera_id c = cid \<or> R c) cs)" using that assms by auto
    then have "card {c, c0} \<le> 1" using le by (meson List.finite_set card_length card_mono le_trans)
    then show ?thesis by (cases "c = c0") auto
  qed
  with assms(3) show "\<forall>c\<in>set cs. R c \<longrightarrow> camera_id c = cid" by blast
next
  assume "\<forall>c\<in>set cs. R c \<longrightarrow> camera_id c = cid"
  then have "filter (\<lambda>c. camera_id c = cid \<or> R c) cs = filter (\<lambda>c. camera_id c = cid) cs"
    by (intro filter_cong) auto
  moreover have "length (filter (\<lambda>c. camera_id c = cid) cs) \<le> 1"
  proof -
    have "distinct (filter (\<lambda>i. i = cid) (map camera_id cs))" using assms(1) by simp
    moreover have "set (filter (\<lambda>i. i = cid) (map camera_id cs)) \<subseteq> {cid}" by auto
    ultimately have "length (filter (\<lambda>i. i = cid) (map camera_id cs)) \<le> card {cid}"
      by (metis card_mono distinct_card finite.emptyI finite_insert)
    then show ?thesis by (simp add: filter_map comp_def)
  qed
  ultimately show "length (filter (\<lambda>c. camera_id c = cid \<or> R c) cs) \<le> 1" by simp
qed

definition started :: "string \<Rightarrow> string option \<Rightarrow> string option \<Rightarrow> time \<Rightarrow> cameras \<Rightarrow> cameras" where
  "started cid tp ts now cs =
     row_update camera_id cid (touch now (\<lambda>c. c\<lparr>desired_state := ''running'', desired_traceparent := tp,
       desired_tracestate := ts\<rparr>)) cs"

lemma touch_fields [simp]:
  assumes "\<And>c. camera_id (f c) = camera_id c \<and> camera_name (f c) = camera_name c \<and> uri_fingerprint (f c) = uri_fingerprint c
    \<and> deleted_at (f c) = deleted_at c \<and> is_active (f c) = is_active c"
  shows "camera_id (touch now f c) = camera_id c" "camera_name (touch now f c) = camera_name c"
    "uri_fingerprint (touch now f c) = uri_fingerprint c" "deleted_at (touch now f c) = deleted_at c"
    "is_active (touch now f c) = is_active c" "desired_state (touch now f c) = desired_state (f c)"
  using assms [of c] by (auto simp: touch_def)

lemma started_ok:
  assumes "cameras_ok cs" and "camera_get cid cs = Some c0"
  shows "cameras_ok (started cid tp ts now cs) \<longleftrightarrow> violated_by_start cid cs = []"
proof -
  let ?f = "\<lambda>c. if camera_id c = cid then touch now (\<lambda>c. c\<lparr>desired_state := ''running'', desired_traceparent := tp,
    desired_tracestate := ts\<rparr>) c else c"
  have eq: "started cid tp ts now cs = map ?f cs" by (simp add: started_def row_update_def)
  have c0: "c0 \<in> set cs" "camera_id c0 = cid" "deleted_at c0 = None"
    using assms(2) by (auto simp: camera_get_def find_Some_iff in_set_conv_nth)
  have kept: "filter (\<lambda>c. deleted_at c = None) (map ?f cs) = map ?f (kept cs)"
    by (simp add: kept_def filter_map comp_def)
  have "map camera_id (map ?f xs) = map camera_id xs" "map camera_name (map ?f xs) = map camera_name xs"
    "map uri_fingerprint (map ?f xs) = map uri_fingerprint xs" for xs by (induction xs) auto
  moreover have "length (filter (\<lambda>c. desired_state c = ''running'') (map ?f (kept cs)))
      = length (filter (\<lambda>c. camera_id c = cid \<or> desired_state c = ''running'') (kept cs))"
    by (simp add: filter_map comp_def) (rule arg_cong [of _ _ length], rule filter_cong, auto)
  moreover have "distinct (map camera_id (kept cs))" "c0 \<in> set (kept cs)"
    using assms(1) c0 by (auto simp: cameras_ok_def kept_def Let_def distinct_map_filter)
  from one_running [OF this c0(2), of "\<lambda>c. desired_state c = ''running''"]
  have "length (filter (\<lambda>c. camera_id c = cid \<or> desired_state c = ''running'') (kept cs)) \<le> 1
      \<longleftrightarrow> violated_by_start cid cs = []" by (auto simp: violated_by_start_def)
  moreover have "list_all (\<lambda>c. desired_state c \<in> {''stopped'', ''running''}) (map ?f cs)"
    using assms(1) by (auto simp: cameras_ok_def Let_def list_all_iff)
  ultimately show ?thesis
    using assms(1) unfolding eq cameras_ok_def Let_def kept by (simp add: kept_def del: map_map)
qed

text \<open>
  What starting a camera does, case by case: an invalid trace context, an unknown camera and a
  second running camera are refused and change nothing; otherwise the camera is wanted running
  with that trace context, and it is the only one.
\<close>

theorem start_camera_result:
  assumes "cameras_ok (cd_cameras db)" and "\<And>x. diag [x] = Some x"
    and "parent = (if traceparent = None \<or> traceparent = Some [] then trace_parent ids else the traceparent)"
  shows "start_camera out diag ids now cid traceparent tracestate db =
    (if \<not> valid_trace_context parent tracestate then (db, Inl (ServiceError ''INVALID_TRACE_CONTEXT'' 422))
     else if camera_get cid (cd_cameras db) = None then (db, Inl (ServiceError ''CAMERA_NOT_FOUND'' 404))
     else if \<exists>c\<in>set (cd_cameras db). deleted_at c = None \<and> camera_id c \<noteq> cid \<and> desired_state c = ''running''
     then (db, Inl (ServiceError ''LIVE_CAMERA_LIMIT_REACHED'' 409))
     else let db' = db\<lparr>cd_cameras := started cid (Some parent) tracestate now (cd_cameras db)\<rparr>
          in (db', get_camera out cid db'))"
proof -
  have parent: "(case traceparent of None \<Rightarrow> trace_parent ids | Some [] \<Rightarrow> trace_parent ids | Some tp \<Rightarrow> tp) = parent"
    by (auto simp: assms(3) split: option.splits list.splits)
  have viol: "violated_by_start cid (cd_cameras db) = (if \<exists>c\<in>set (cd_cameras db). deleted_at c = None \<and> camera_id c \<noteq> cid
      \<and> desired_state c = ''running'' then [''uq_live_single_running''] else [])"
    by (auto simp: violated_by_start_def kept_def)
  have set_desired: "set_desired cid ''running'' (Some parent) tracestate now (cd_cameras db) =
    (case camera_get cid (cd_cameras db) of None \<Rightarrow> Inr (cd_cameras db, False)
     | Some _ \<Rightarrow> if violated_by_start cid (cd_cameras db) = []
         then Inr (started cid (Some parent) tracestate now (cd_cameras db), True) else Inl (OtherError ''IntegrityError''))"
    using started_ok [OF assms(1)]
    by (auto simp: set_desired_def checked_def started_def split: option.splits)
  show ?thesis
    using assms(2)
    by (auto simp: start_camera_def parent set_desired viol valid_trace_context_def is_ok_def not_found_def Let_def
        split: sum.splits option.splits)
qed

section \<open>Witnesses\<close>

abbreviation sample_cdb :: camera_db where
  "sample_cdb \<equiv> \<lparr>cd_cameras = [Live_Runs.sample_camera], cd_runs = []\<rparr>"

definition sample_supervisor :: supervisor where
  "sample_supervisor = \<lparr>sp_sequence = 2, sp_counters = [], sp_totals = [], sp_tracks = [], sp_events = initial_events\<rparr>"

lemma sample_processed:
  "\<exists>db'. process_one_camera sample_live None (\<lambda>_. []) True True (\<lambda>_. False) (sample_run_claim ''r1'' ''w1'' 0)
     sample_supervisor (\<lambda>_ _ j. (j, MonitorLost)) 5 sample_cdb = Inr (db', True)"
proof -
  let ?r = "Live_Runs.sample_run ''r1'' 1 ''w1'' 0"
  have id: "run_id ?r = ''r1''" by (simp add: Live_Runs.sample_run_def new_run_def)
  have rc: "run_constraints (finish_row 5 ''FAILED'' code err ?r)" for code err
    by (simp add: Live_Runs.sample_run_def new_run_def run_constraints_def finish_row_def RUN_STATES_def)
  have fin: "\<exists>p. finish ''r1'' h 5 ''FAILED'' code err [?r] = Inr p" for h code err
    by (auto simp: finish_def TERMINAL_STATES_def fenced_update_def row_get_def id rc)
  have "\<exists>db'. end_camera t 5 (Some (''FAILED'', code, err)) (sample_cdb\<lparr>cd_runs := [?r]\<rparr>) = Inr (db', True)"
    if "ct_run t = ?r" for t code err
    using fin [of "ct_holder t" code "sanitized err"]
    by (auto simp: end_camera_def finish_camera_def runs_tx_def that id)
  then show ?thesis
    by (simp add: process_one_camera_def sample_first_claim Let_def split: option.splits)
qed


abbreviation fresh_camera :: live_camera where
  "fresh_camera \<equiv> Live_Runs.sample_camera\<lparr>desired_state := ''stopped''\<rparr>"

lemma sample_camera_created:
  "camera_create ''c1'' ''door'' ''x'' ''f'' 0 [] = Inr [fresh_camera]"
  by (simp add: camera_create_def checked_def cameras_ok_def Live_Runs.sample_camera_def)

theorem camera_output_never_shown_witness:
  "list_all (\<lambda>v. cv_output_url v = None)
     (list_cameras \<lparr>co_host = ''h'', co_port = 8554\<rparr> \<lparr>cd_cameras = [fresh_camera], cd_runs = []\<rparr>)"
proof -
  have "camera_step \<lparr>cd_cameras = [], cd_runs = []\<rparr> \<lparr>cd_cameras = [fresh_camera], cd_runs = []\<rparr>"
    using camera_step.create [of "''c1''" "''door''" "''x''" "''f''" 0 "\<lparr>cd_cameras = [], cd_runs = []\<rparr>"] sample_camera_created
    by simp
  from camera_output_never_shown [OF r_into_rtranclp [of camera_step, OF this]] show ?thesis by blast
qed

definition first_constraint :: "string list \<Rightarrow> string option" where
  "first_constraint xs = (case xs of [] \<Rightarrow> None | x # _ \<Rightarrow> Some x)"

theorem start_camera_result_witness:
  "fst (start_camera \<lparr>co_host = ''h'', co_port = 8554\<rparr> first_constraint sample_ids 7 ''c1'' None None
      \<lparr>cd_cameras = [fresh_camera], cd_runs = []\<rparr>)
    = \<lparr>cd_cameras = started ''c1'' (Some (trace_parent sample_ids)) None 7 [fresh_camera], cd_runs = []\<rparr>"
proof -
  let ?db = "\<lparr>cd_cameras = [fresh_camera], cd_runs = []\<rparr> :: camera_db"
  have ok: "cameras_ok (cd_cameras ?db)" by (simp add: cameras_ok_def Live_Runs.sample_camera_def)
  have diag: "first_constraint [x] = Some x" for x by (simp add: first_constraint_def)
  have "camera_get ''c1'' [fresh_camera] \<noteq> None" by (simp add: camera_get_def Live_Runs.sample_camera_def)
  then show ?thesis
    using start_camera_result [OF ok diag, of "trace_parent sample_ids" None sample_ids "\<lparr>co_host = ''h'', co_port = 8554\<rparr>" 7 "''c1''" None]
      trace_parent_valid [OF sample_live_ok(2)]
    by (auto simp: Let_def)
qed

end
