(* ===== verification/Object_Store.thy ===== *)
theory Object_Store
  imports Py_Values
begin

text \<open>
  The object store adapter, \<open>src/backend/app/infrastructure/object_storage/minio_adapter.py\<close>: the
  checks on keys, media types, sizes and snapshot images before a call of the MinIO client, and the
  translation of its errors. The client is a parameter: each of its calls maps the state of the store
  to a new one and an answer. A file on disk is its content.
\<close>

section \<open>The client\<close>

text \<open>\<open>S3Error\<close> carries the code of the server's error response; any other exception of the client
  carries a text and passes through the adapter.\<close>

datatype client_exc = S3Error string | ClientError string

datatype object_exc =
    ObjectNotFoundError
  | ObjectStorageError string
  | ObjectValidationError string
  | ObjectClientError client_exc

definition object_code :: "object_exc \<Rightarrow> string option" where
  "object_code e =
     (case e of
        ObjectNotFoundError \<Rightarrow> Some ''OBJECT_NOT_FOUND''
      | ObjectStorageError _ \<Rightarrow> Some ''OBJECT_STORAGE_ERROR''
      | ObjectValidationError _ \<Rightarrow> Some ''OBJECT_VALIDATION_ERROR''
      | ObjectClientError _ \<Rightarrow> None)"

record object_stat =
  os_size :: "int option"
  os_etag :: "string option"
  os_metadata :: "(string \<times> string) list"

type_synonym ('s, 'a) client_call = "'s \<Rightarrow> 's \<times> (client_exc + 'a)"

record 's minio =
  mc_put :: "string \<Rightarrow> string \<Rightarrow> bytes \<Rightarrow> string \<Rightarrow> (string \<times> string) list \<Rightarrow> ('s, unit) client_call"
  mc_stat :: "string \<Rightarrow> string \<Rightarrow> ('s, object_stat) client_call"
  mc_get :: "string \<Rightarrow> string \<Rightarrow> (int \<times> int) option \<Rightarrow> ('s, bytes) client_call"
  mc_remove :: "string \<Rightarrow> string \<Rightarrow> ('s, unit) client_call"
  mc_sha256 :: "bytes \<Rightarrow> string"

record minio_settings =
  minio_bucket_faces :: string
  minio_bucket_videos :: string
  minio_bucket_live :: string
  aligned_sample_max_bytes :: nat
  video_max_upload_bytes :: nat

record object_info =
  oi_bucket :: string
  oi_object_key :: string
  oi_size :: int
  oi_etag :: string
  oi_metadata :: "(string \<times> string) list"
  oi_sha256 :: "string option"

section \<open>Checks\<close>

definition ALLOWED_MEDIA_TYPES :: "string list" where
  "ALLOWED_MEDIA_TYPES = [''image/jpeg'', ''image/png'', ''image/webp'']"

definition uuid_segment :: "string \<Rightarrow> bool" where
  "uuid_segment s = canonical_uuid (py_lower s)"

text \<open>
  \<open>OBJECT_KEY_PATTERN\<close> is used with \<open>match\<close>, where a final \<open>$\<close> also matches before a line feed at the
  end; the other two patterns must match the whole key.
\<close>

definition face_key :: "string \<Rightarrow> bool" where
  "face_key key =
     (case split_on (CHR ''/'') key of
        [a, f, s, b] \<Rightarrow>
          a = ''faces'' \<and> uuid_segment f \<and> uuid_segment s \<and> (b = ''aligned'' \<or> b = ''aligned'' @ [char_of (10::nat)])
      | _ \<Rightarrow> False)"

definition live_key :: "string \<Rightarrow> bool" where
  "live_key key =
     (case split_on (CHR ''/'') key of
        [a, c, e, b] \<Rightarrow> a = ''live'' \<and> uuid_segment c \<and> uuid_segment e \<and> b = ''aligned''
      | _ \<Rightarrow> False)"

definition prefix_char :: "char \<Rightarrow> bool" where
  "prefix_char c =
     (let n = char_code c in (48 \<le> n \<and> n \<le> 57) \<or> (65 \<le> n \<and> n \<le> 90) \<or> (97 \<le> n \<and> n \<le> 122) \<or> n \<in> {45, 95})"

definition prefix_segment :: "string \<Rightarrow> bool" where
  "prefix_segment s = (s \<noteq> [] \<and> prefix_char (hd s) \<and> list_all (\<lambda>c. prefix_char c \<or> c = CHR ''.'') (tl s))"

definition video_key :: "string \<Rightarrow> bool" where
  "video_key key =
     (case rev (split_on (CHR ''/'') key) of
        b # u # prefixes \<Rightarrow> b = ''source'' \<and> uuid_segment u \<and> prefixes \<noteq> [] \<and> list_all prefix_segment prefixes
      | _ \<Rightarrow> False)"

definition validate_object_key :: "string \<Rightarrow> object_exc + unit" where
  "validate_object_key key = ensure (face_key key) (ObjectValidationError ''Invalid object key format'')"

definition validate_media_type :: "string \<Rightarrow> object_exc + unit" where
  "validate_media_type t =
     ensure (t \<in> set ALLOWED_MEDIA_TYPES) (ObjectValidationError (''Unsupported media type: '' @ t))"

definition validate_size :: "minio_settings \<Rightarrow> bytes \<Rightarrow> object_exc + unit" where
  "validate_size cfg data =
     ensure (length data \<le> aligned_sample_max_bytes cfg) (ObjectValidationError ''Aligned sample exceeds size limit'')"

definition validate_live_key :: "string \<Rightarrow> object_exc + unit" where
  "validate_live_key key = ensure (live_key key) (ObjectValidationError ''Invalid live snapshot key format'')"

definition validate_video_key :: "string \<Rightarrow> object_exc + unit" where
  "validate_video_key key = ensure (video_key key) (ObjectValidationError ''Invalid video object key format'')"

text \<open>
  The walk over the segments of a JPEG image up to its first frame header, which holds the size of
  the image. A byte that is not a marker is skipped; a segment's own length says where the next one
  begins.
\<close>

definition SOF_MARKERS :: "byte set" where
  "SOF_MARKERS = {0xC0, 0xC1, 0xC2, 0xC3, 0xC5, 0xC6, 0xC7, 0xC9, 0xCA, 0xCB, 0xCD, 0xCE, 0xCF}"

definition be16 :: "bytes \<Rightarrow> nat \<Rightarrow> nat" where
  "be16 data i = unat (data ! i) * 256 + unat (data ! (i + 1))"

function scan_jpeg :: "bytes \<Rightarrow> nat \<Rightarrow> object_exc + unit" where
  "scan_jpeg data i =
     (if i + 8 < length data then
        if data ! i \<noteq> 0xFF then scan_jpeg data (i + 1)
        else if data ! (i + 1) \<in> SOF_MARKERS then
          ensure ((be16 data (i + 7), be16 data (i + 5)) = (112, 112)) (ObjectValidationError ''Live snapshot must be 112x112'')
        else if be16 data (i + 2) < 2 then Inl (ObjectValidationError ''Live snapshot dimensions are unavailable'')
        else scan_jpeg data (i + 2 + be16 data (i + 2))
      else Inl (ObjectValidationError ''Live snapshot dimensions are unavailable''))"
  by pat_completeness auto

termination
  by (relation "measure (\<lambda>(data, i). length data - i)") auto

declare scan_jpeg.simps [simp del]

definition LIVE_SNAPSHOT_MAX_BYTES :: nat where
  "LIVE_SNAPSHOT_MAX_BYTES = 512 * 1024"

definition validate_live_snapshot :: "string \<Rightarrow> bytes \<Rightarrow> object_exc + unit" where
  "validate_live_snapshot key data =
     rbind (validate_live_key key) (\<lambda>_.
     if length data > LIVE_SNAPSHOT_MAX_BYTES then Inl (ObjectValidationError ''Live snapshot exceeds size limit'')
     else if length data < 4 \<or> take 2 data \<noteq> [0xFF, 0xD8] \<or> drop (length data - 2) data \<noteq> [0xFF, 0xD9]
     then Inl (ObjectValidationError ''Live snapshot is not a JPEG'')
     else scan_jpeg data 2)"

section \<open>Operations\<close>

type_synonym ('s, 'a) store_call = "'s \<Rightarrow> 's \<times> (object_exc + 'a)"

definition checked_call :: "object_exc + unit \<Rightarrow> ('s, 'a) store_call \<Rightarrow> ('s, 'a) store_call" where
  "checked_call v call s = (case v of Inl e \<Rightarrow> (s, Inl e) | Inr _ \<Rightarrow> call s)"

text \<open>The error clauses: what becomes of a client's exception, with and without the test for a missing key.\<close>

definition untranslated :: "('s, 'a) client_call \<Rightarrow> ('s, 'a) store_call" where
  "untranslated call s =
     (case call s of (s', Inl e) \<Rightarrow> (s', Inl (ObjectClientError e)) | (s', Inr x) \<Rightarrow> (s', Inr x))"

definition translated :: "('s, 'a) client_call \<Rightarrow> ('s, 'a) store_call" where
  "translated call s =
     (case call s of
        (s', Inl (S3Error code)) \<Rightarrow> (s', Inl (ObjectStorageError code))
      | (s', Inl e) \<Rightarrow> (s', Inl (ObjectClientError e))
      | (s', Inr x) \<Rightarrow> (s', Inr x))"

definition translated_missing :: "('s, 'a) client_call \<Rightarrow> ('s, 'a) store_call" where
  "translated_missing call s =
     (case call s of
        (s', Inl (S3Error code)) \<Rightarrow> (s', Inl (if code = ''NoSuchKey'' then ObjectNotFoundError else ObjectStorageError code))
      | (s', Inl e) \<Rightarrow> (s', Inl (ObjectClientError e))
      | (s', Inr x) \<Rightarrow> (s', Inr x))"

definition then_call :: "('s, 'a) store_call \<Rightarrow> ('a \<Rightarrow> ('s, 'b) store_call) \<Rightarrow> ('s, 'b) store_call" where
  "then_call m f s = (case m s of (s', Inl e) \<Rightarrow> (s', Inl e) | (s', Inr x) \<Rightarrow> f x s')"

definition sha_of :: "(string \<times> string) list \<Rightarrow> string option" where
  "sha_of meta =
     (case map_of meta ''X-Amz-Meta-Sha256'' of
        Some (c # cs) \<Rightarrow> Some (c # cs)
      | _ \<Rightarrow> map_of meta ''x-amz-meta-sha256'')"

definition info_of :: "string \<Rightarrow> string \<Rightarrow> object_stat \<Rightarrow> object_info" where
  "info_of bucket key st =
     \<lparr>oi_bucket = bucket, oi_object_key = key, oi_size = (case os_size st of None \<Rightarrow> 0 | Some n \<Rightarrow> n),
      oi_etag = (case os_etag st of None \<Rightarrow> [] | Some e \<Rightarrow> e), oi_metadata = os_metadata st,
      oi_sha256 = sha_of (os_metadata st)\<rparr>"

definition stat_in :: "'s minio \<Rightarrow> string \<Rightarrow> string \<Rightarrow> ('s, object_info) store_call" where
  "stat_in mc bucket key =
     then_call (translated_missing (mc_stat mc bucket key)) (\<lambda>st s. (s, Inr (info_of bucket key st)))"

definition upload_aligned_sample ::
  "'s minio \<Rightarrow> minio_settings \<Rightarrow> string \<Rightarrow> bytes \<Rightarrow> string \<Rightarrow> string \<Rightarrow> ('s, string) store_call"
where
  "upload_aligned_sample mc cfg key data media_type sample_id =
     checked_call (validate_object_key key)
     (checked_call (validate_media_type media_type)
     (checked_call (validate_size cfg data)
     (then_call
        (untranslated (mc_put mc (minio_bucket_faces cfg) key data media_type
           [(''X-Amz-Meta-Sample-Id'', sample_id), (''X-Amz-Meta-Sha256'', mc_sha256 mc data)]))
        (\<lambda>_ s. (s, Inr (mc_sha256 mc data))))))"

definition stat_aligned_sample :: "'s minio \<Rightarrow> minio_settings \<Rightarrow> string \<Rightarrow> ('s, object_info) store_call" where
  "stat_aligned_sample mc cfg key =
     checked_call (validate_object_key key) (stat_in mc (minio_bucket_faces cfg) key)"

definition get_aligned_sample :: "'s minio \<Rightarrow> minio_settings \<Rightarrow> string \<Rightarrow> ('s, bytes \<times> object_info) store_call" where
  "get_aligned_sample mc cfg key =
     checked_call (validate_object_key key)
     (then_call (stat_aligned_sample mc cfg key) (\<lambda>info.
      then_call (translated_missing (mc_get mc (minio_bucket_faces cfg) key None)) (\<lambda>data s. (s, Inr (data, info)))))"

definition delete_aligned_sample :: "'s minio \<Rightarrow> minio_settings \<Rightarrow> string \<Rightarrow> ('s, unit) store_call" where
  "delete_aligned_sample mc cfg key =
     checked_call (validate_object_key key) (translated (mc_remove mc (minio_bucket_faces cfg) key))"

definition stat_live_snapshot :: "'s minio \<Rightarrow> minio_settings \<Rightarrow> string \<Rightarrow> ('s, object_info) store_call" where
  "stat_live_snapshot mc cfg key =
     checked_call (validate_live_key key) (stat_in mc (minio_bucket_live cfg) key)"

definition upload_live_snapshot ::
  "'s minio \<Rightarrow> minio_settings \<Rightarrow> string \<Rightarrow> bytes \<Rightarrow> string \<Rightarrow> ('s, object_info) store_call"
where
  "upload_live_snapshot mc cfg key data event_id =
     checked_call (validate_live_snapshot key data)
     (then_call
        (translated (mc_put mc (minio_bucket_live cfg) key data ''image/jpeg''
           [(''X-Amz-Meta-Event-Id'', event_id), (''X-Amz-Meta-Sha256'', mc_sha256 mc data)]))
        (\<lambda>_. stat_live_snapshot mc cfg key))"

definition get_live_snapshot :: "'s minio \<Rightarrow> minio_settings \<Rightarrow> string \<Rightarrow> ('s, bytes \<times> object_info) store_call" where
  "get_live_snapshot mc cfg key =
     then_call (stat_live_snapshot mc cfg key) (\<lambda>info.
     then_call (translated_missing (mc_get mc (minio_bucket_live cfg) key None)) (\<lambda>data s. (s, Inr (data, info))))"

definition delete_live_snapshot :: "'s minio \<Rightarrow> minio_settings \<Rightarrow> string \<Rightarrow> ('s, unit) store_call" where
  "delete_live_snapshot mc cfg key =
     checked_call (validate_live_key key) (translated (mc_remove mc (minio_bucket_live cfg) key))"

definition stat_video :: "'s minio \<Rightarrow> minio_settings \<Rightarrow> string \<Rightarrow> ('s, object_info) store_call" where
  "stat_video mc cfg key = checked_call (validate_video_key key) (stat_in mc (minio_bucket_videos cfg) key)"

definition upload_video ::
  "'s minio \<Rightarrow> minio_settings \<Rightarrow> string \<Rightarrow> bytes \<Rightarrow> string \<Rightarrow> string \<Rightarrow> ('s, object_info) store_call"
where
  "upload_video mc cfg key content media_type sha256 =
     checked_call (validate_video_key key)
     (checked_call (ensure (0 < length content \<and> length content \<le> video_max_upload_bytes cfg)
         (ObjectValidationError ''Video size is outside the configured limit''))
     (then_call
        (translated (mc_put mc (minio_bucket_videos cfg) key content media_type [(''X-Amz-Meta-Sha256'', sha256)]))
        (\<lambda>_. stat_video mc cfg key)))"

definition download_video :: "'s minio \<Rightarrow> minio_settings \<Rightarrow> string \<Rightarrow> ('s, bytes) store_call" where
  "download_video mc cfg key =
     checked_call (validate_video_key key) (translated_missing (mc_get mc (minio_bucket_videos cfg) key None))"

definition read_video_range :: "'s minio \<Rightarrow> minio_settings \<Rightarrow> string \<Rightarrow> int \<Rightarrow> int \<Rightarrow> ('s, bytes) store_call" where
  "read_video_range mc cfg key offset n =
     checked_call (validate_video_key key)
     (checked_call (ensure (0 \<le> offset \<and> 0 < n) (ObjectValidationError ''Invalid video byte range''))
       (translated_missing (mc_get mc (minio_bucket_videos cfg) key (Some (offset, n)))))"

definition delete_video :: "'s minio \<Rightarrow> minio_settings \<Rightarrow> string \<Rightarrow> ('s, unit) store_call" where
  "delete_video mc cfg key =
     checked_call (validate_video_key key) (translated (mc_remove mc (minio_bucket_videos cfg) key))"

end
