(* ===== verification/Vector_Store.thy ===== *)
theory Vector_Store
  imports Object_Store
begin

text \<open>
  The vector index adapter, \<open>src/backend/app/infrastructure/vector_store/qdrant_adapter.py\<close>: the checks
  on vectors and payloads, the one-time setup of the collection, and the calls of the Qdrant client,
  which is a parameter that maps the state of the index to a new one and an answer. Telemetry spans are
  left out.
\<close>

section \<open>The client\<close>

datatype vector_exc =
    VectorStoreError string
  | VectorValidationError string
  | VectorClientError client_exc

definition vector_code :: "vector_exc \<Rightarrow> string option" where
  "vector_code e =
     (case e of
        VectorStoreError _ \<Rightarrow> Some ''VECTOR_STORE_ERROR''
      | VectorValidationError _ \<Rightarrow> Some ''VECTOR_VALIDATION_ERROR''
      | VectorClientError _ \<Rightarrow> None)"

datatype vector_config = NoVectors | NamedVectors | SingleVector int string

record vector_point =
  pt_id :: string
  pt_vector :: "pyfloat list"
  pt_payload :: pydict

record scored_point =
  sp_id :: string
  sp_score :: real
  sp_payload :: "pydict option"

text \<open>A filter lists the payload fields a point must match.\<close>

type_synonym point_filter = "(string \<times> pyval) list"

record 's qdrant =
  qc_collection_exists :: "('s, bool) client_call"
  qc_create_collection :: "int \<Rightarrow> string \<Rightarrow> ('s, unit) client_call"
  qc_get_collection :: "('s, vector_config) client_call"
  qc_create_payload_index :: "string \<Rightarrow> ('s, unit) client_call"
  qc_upsert :: "vector_point \<Rightarrow> ('s, unit) client_call"
  qc_set_payload :: "string \<Rightarrow> pydict \<Rightarrow> ('s, unit) client_call"
  qc_delete :: "string \<Rightarrow> ('s, unit) client_call"
  qc_retrieve :: "string \<Rightarrow> ('s, vector_point list) client_call"
  qc_query_points :: "pyfloat list \<Rightarrow> point_filter option \<Rightarrow> int \<Rightarrow> ('s, scored_point list) client_call"
  qc_query_batch :: "pyfloat list list \<Rightarrow> point_filter option \<Rightarrow> int \<Rightarrow> ('s, scored_point list list) client_call"

record qdrant_settings =
  qdrant_vector_size :: int
  qdrant_distance :: string

text \<open>The state the adapter threads: the index, and whether the setup has been done.\<close>

record 's vector_state =
  vi_index :: 's
  vi_setup_complete :: bool

type_synonym ('s, 'a) vector_call = "'s vector_state \<Rightarrow> 's vector_state \<times> (vector_exc + 'a)"

definition on_index :: "('s, 'a) client_call \<Rightarrow> ('s, 'a) vector_call" where
  "on_index call v =
     (case call (vi_index v) of
        (s, Inl e) \<Rightarrow> (v\<lparr>vi_index := s\<rparr>, Inl (VectorClientError e))
      | (s, Inr x) \<Rightarrow> (v\<lparr>vi_index := s\<rparr>, Inr x))"

definition vbind :: "('s, 'a) vector_call \<Rightarrow> ('a \<Rightarrow> ('s, 'b) vector_call) \<Rightarrow> ('s, 'b) vector_call" where
  "vbind m f v = (case m v of (v', Inl e) \<Rightarrow> (v', Inl e) | (v', Inr x) \<Rightarrow> f x v')"

definition vcheck :: "vector_exc + unit \<Rightarrow> ('s, 'a) vector_call \<Rightarrow> ('s, 'a) vector_call" where
  "vcheck c call v = (case c of Inl e \<Rightarrow> (v, Inl e) | Inr _ \<Rightarrow> call v)"

definition vreturn :: "'a \<Rightarrow> ('s, 'a) vector_call" where
  "vreturn x v = (v, Inr x)"

section \<open>Checks\<close>

definition EXPECTED_DIMENSION :: nat where
  "EXPECTED_DIMENSION = 512"

definition L2_TOLERANCE :: real where
  "L2_TOLERANCE = 1 / 100000"

definition ALLOWED_PAYLOAD_KEYS :: "string list" where
  "ALLOWED_PAYLOAD_KEYS = [''sample_id'', ''face_id'', ''active'', ''embedding_model_version'', ''preprocess_version'']"

definition payload_value :: "pydict \<Rightarrow> string \<Rightarrow> pyval" where
  "payload_value d k = (case map_of d (PStr k) of None \<Rightarrow> PNone | Some v \<Rightarrow> v)"

definition validate_payload :: "pydict \<Rightarrow> vector_exc + unit" where
  "validate_payload d =
     (if unknown_fields ALLOWED_PAYLOAD_KEYS d \<noteq> [] then Inl (VectorValidationError ''Forbidden payload keys'')
      else if payload_value d ''sample_id'' = PNone \<or> payload_value d ''face_id'' = PNone
      then Inl (VectorValidationError ''Payload must contain sample_id and face_id'')
      else Inr ())"

fun fin_value :: "pyfloat \<Rightarrow> real option" where
  "fin_value (Fin x) = Some x"
| "fin_value _ = None"

definition is_finite :: "pyfloat \<Rightarrow> bool" where
  "is_finite x = (fin_value x \<noteq> None)"

definition fin_norm :: "pyfloat list \<Rightarrow> real" where
  "fin_norm xs = sqrt (sum_list (map (\<lambda>x. case fin_value x of None \<Rightarrow> 0 | Some r \<Rightarrow> r * r) xs))"

definition validate_vector :: "pyfloat list \<Rightarrow> vector_exc + unit" where
  "validate_vector xs =
     (if length xs \<noteq> EXPECTED_DIMENSION then Inl (VectorValidationError ''Vector dimension must be 512'')
      else if \<not> list_all is_finite xs then Inl (VectorValidationError ''Vector contains non-finite values'')
      else if fin_norm xs = 0 then Inl (VectorValidationError ''Vector must be non-zero'')
      else if \<bar>fin_norm xs - 1\<bar> > L2_TOLERANCE then Inl (VectorValidationError ''Vector must be L2-normalized'')
      else Inr ())"

section \<open>Setup\<close>

definition PAYLOAD_INDEXES :: "string list" where
  "PAYLOAD_INDEXES = [''active'', ''embedding_model_version'', ''preprocess_version'']"

text \<open>Index creation is best effort: its exceptions are dropped.\<close>

fun ensure_payload_indexes :: "'s qdrant \<Rightarrow> string list \<Rightarrow> 's \<Rightarrow> 's" where
  "ensure_payload_indexes qc [] s = s"
| "ensure_payload_indexes qc (f # fs) s = ensure_payload_indexes qc fs (fst (qc_create_payload_index qc f s))"

definition check_config :: "qdrant_settings \<Rightarrow> vector_config \<Rightarrow> vector_exc + unit" where
  "check_config cfg c =
     (case c of
        NoVectors \<Rightarrow> Inl (VectorStoreError ''Collection has no vector configuration'')
      | NamedVectors \<Rightarrow> Inl (VectorStoreError ''Named vectors are not supported'')
      | SingleVector n distance \<Rightarrow>
          if n \<noteq> qdrant_vector_size cfg then Inl (VectorStoreError ''Collection vector size mismatch'')
          else if distance \<noteq> qdrant_distance cfg then Inl (VectorStoreError ''Collection distance mismatch'')
          else Inr ())"

definition finish_setup :: "'s qdrant \<Rightarrow> ('s, unit) vector_call" where
  "finish_setup qc v =
     (v\<lparr>vi_index := ensure_payload_indexes qc PAYLOAD_INDEXES (vi_index v), vi_setup_complete := True\<rparr>, Inr ())"

definition vector_setup :: "'s qdrant \<Rightarrow> qdrant_settings \<Rightarrow> ('s, unit) vector_call" where
  "vector_setup qc cfg v =
     (if vi_setup_complete v then (v, Inr ())
      else vbind (on_index (qc_collection_exists qc)) (\<lambda>exists.
        if \<not> exists
        then vbind (on_index (qc_create_collection qc (qdrant_vector_size cfg) (qdrant_distance cfg)))
               (\<lambda>_. finish_setup qc)
        else vbind (on_index (qc_get_collection qc)) (\<lambda>c.
               vcheck (check_config cfg c) (finish_setup qc))) v)"

section \<open>Operations\<close>

definition sample_payload :: "string \<Rightarrow> string \<Rightarrow> bool \<Rightarrow> string \<Rightarrow> string \<Rightarrow> pydict" where
  "sample_payload sid fid act model preprocess =
     [(PStr ''sample_id'', PStr sid), (PStr ''face_id'', PStr fid), (PStr ''active'', PBool act),
      (PStr ''embedding_model_version'', PStr model), (PStr ''preprocess_version'', PStr preprocess)]"

definition vector_upsert ::
  "'s qdrant \<Rightarrow> qdrant_settings \<Rightarrow> string \<Rightarrow> string \<Rightarrow> pyfloat list \<Rightarrow> bool \<Rightarrow> string \<Rightarrow> string \<Rightarrow> ('s, unit) vector_call"
where
  "vector_upsert qc cfg sid fid xs act model preprocess =
     vcheck (validate_vector xs)
     (vcheck (validate_payload (sample_payload sid fid act model preprocess))
     (vbind (vector_setup qc cfg) (\<lambda>_.
        on_index (qc_upsert qc
          \<lparr>pt_id = sid, pt_vector = xs, pt_payload = sample_payload sid fid act model preprocess\<rparr>))))"

definition vector_set_active :: "'s qdrant \<Rightarrow> qdrant_settings \<Rightarrow> string \<Rightarrow> bool \<Rightarrow> ('s, unit) vector_call" where
  "vector_set_active qc cfg sid act =
     vbind (vector_setup qc cfg) (\<lambda>_. on_index (qc_set_payload qc sid [(PStr ''active'', PBool act)]))"

definition vector_activate :: "'s qdrant \<Rightarrow> qdrant_settings \<Rightarrow> string \<Rightarrow> ('s, unit) vector_call" where
  "vector_activate qc cfg sid = vector_set_active qc cfg sid True"

definition vector_deactivate :: "'s qdrant \<Rightarrow> qdrant_settings \<Rightarrow> string \<Rightarrow> ('s, unit) vector_call" where
  "vector_deactivate qc cfg sid = vector_set_active qc cfg sid False"

definition vector_delete :: "'s qdrant \<Rightarrow> qdrant_settings \<Rightarrow> string \<Rightarrow> ('s, unit) vector_call" where
  "vector_delete qc cfg sid = vbind (vector_setup qc cfg) (\<lambda>_. on_index (qc_delete qc sid))"

definition vector_get :: "'s qdrant \<Rightarrow> qdrant_settings \<Rightarrow> string \<Rightarrow> ('s, vector_point option) vector_call" where
  "vector_get qc cfg sid =
     vbind (vector_setup qc cfg) (\<lambda>_. vbind (on_index (qc_retrieve qc sid)) (\<lambda>points.
       vreturn (case points of [] \<Rightarrow> None | p # _ \<Rightarrow> Some p)))"

definition vector_exists :: "'s qdrant \<Rightarrow> qdrant_settings \<Rightarrow> string \<Rightarrow> ('s, bool) vector_call" where
  "vector_exists qc cfg sid =
     vbind (vector_setup qc cfg) (\<lambda>_. vbind (on_index (qc_retrieve qc sid)) (\<lambda>points. vreturn (points \<noteq> [])))"

definition search_filter :: "bool \<Rightarrow> string option \<Rightarrow> string option \<Rightarrow> point_filter option" where
  "search_filter filter_active model preprocess =
     (let conditions =
        (if filter_active then [(''active'', PBool True)] else [])
        @ (case model of None \<Rightarrow> [] | Some m \<Rightarrow> [(''embedding_model_version'', PStr m)])
        @ (case preprocess of None \<Rightarrow> [] | Some p \<Rightarrow> [(''preprocess_version'', PStr p)])
      in if conditions = [] then None else Some conditions)"

definition vector_search ::
  "'s qdrant \<Rightarrow> qdrant_settings \<Rightarrow> pyfloat list \<Rightarrow> int \<Rightarrow> bool \<Rightarrow> string option \<Rightarrow> string option \<Rightarrow>
   ('s, scored_point list) vector_call"
where
  "vector_search qc cfg xs top_k filter_active model preprocess =
     vcheck (validate_vector xs)
     (vbind (vector_setup qc cfg) (\<lambda>_.
        on_index (qc_query_points qc xs (search_filter filter_active model preprocess) top_k)))"

definition vector_search_batch ::
  "'s qdrant \<Rightarrow> qdrant_settings \<Rightarrow> pyfloat list list \<Rightarrow> int \<Rightarrow> bool \<Rightarrow> string option \<Rightarrow> string option \<Rightarrow>
   ('s, scored_point list list) vector_call"
where
  "vector_search_batch qc cfg vectors top_k filter_active model preprocess =
     vcheck (rbind (mapM validate_vector vectors) (\<lambda>_. Inr ()))
     (if vectors = [] then vreturn []
      else vbind (vector_setup qc cfg) (\<lambda>_.
        on_index (qc_query_batch qc vectors (search_filter filter_active model preprocess) top_k)))"

section \<open>What reaches the index\<close>

lemma validate_vector_Inr:
  "validate_vector xs = Inr u \<longleftrightarrow>
     length xs = 512 \<and> list_all is_finite xs \<and> fin_norm xs \<noteq> 0 \<and> \<bar>fin_norm xs - 1\<bar> \<le> L2_TOLERANCE"
  by (auto simp: validate_vector_def EXPECTED_DIMENSION_def)

lemma sample_payload_valid [simp]: "validate_payload (sample_payload sid fid act model preprocess) = Inr ()"
  by (simp add: validate_payload_def sample_payload_def unknown_fields_Nil ALLOWED_PAYLOAD_KEYS_def payload_value_def)

lemma vbind_Inr: "vbind m f v = (v', Inr y) \<longleftrightarrow> (\<exists>v1 x. m v = (v1, Inr x) \<and> f x v1 = (v', Inr y))"
  by (auto simp: vbind_def split: prod.splits sum.splits)

lemma vcheck_Inr: "vcheck c call v = (v', Inr y) \<longleftrightarrow> (\<exists>u. c = Inr u) \<and> call v = (v', Inr y)"
  by (auto simp: vcheck_def split: sum.splits)

lemma on_index_Inr:
  "on_index call v = (v', Inr x) \<longleftrightarrow> (\<exists>s. call (vi_index v) = (s, Inr x) \<and> v' = v\<lparr>vi_index := s\<rparr>)"
  by (auto simp: on_index_def split: prod.splits sum.splits)

text \<open>A vector that was stored has 512 finite entries and unit length, up to the tolerance.\<close>

lemma vector_upsert_Inr:
  assumes "vector_upsert qc cfg sid fid xs act model preprocess v = (v', Inr u)"
  obtains v1 s where "validate_vector xs = Inr ()" and "vector_setup qc cfg v = (v1, Inr ())"
    and "qc_upsert qc \<lparr>pt_id = sid, pt_vector = xs, pt_payload = sample_payload sid fid act model preprocess\<rparr>
           (vi_index v1) = (s, Inr ())"
    and "v' = v1\<lparr>vi_index := s\<rparr>"
  using assms by (auto simp: vector_upsert_def vcheck_Inr vbind_Inr on_index_Inr)

end
