(* ===== verification/Face_Samples.thy ===== *)
theory Face_Samples
  imports Face_Matching Processes Vector_Store
begin

text \<open>
  Storing a face sample: the \<open>face_sample\<close>, \<open>recognition_result\<close> and \<open>process_event\<close> tables of
  \<open>src/backend/app/infrastructure/database/models.py\<close> with their repositories
  (\<open>sample_repository.py\<close>, \<open>result_repository.py\<close>, \<open>event_repository.py\<close>),
  \<open>src/backend/app/services/face_sample_persistence_service.py\<close>, which takes a sample through the object
  store and the vector index, and \<open>src/backend/app/services/storage_reconciliation_service.py\<close>, which
  compares the three stores. The identifier of an event is never read and left out; a call reads the
  server's clock once.
\<close>

section \<open>Tables\<close>

record face_sample =
  fs_sample_id :: string
  fs_face_id :: string
  fs_state :: string
  fs_bucket :: string
  fs_object_key :: string
  fs_media_type :: string
  fs_sha256 :: string
  fs_detector_version :: string
  fs_embedding_model_version :: string
  fs_alignment_version :: string
  fs_preprocess_version :: string
  fs_is_active :: bool
  fs_bounding_box :: pydict
  fs_landmarks :: "pydict option"
  fs_quality :: "pydict option"
  fs_failure_code :: "string option"

definition SAMPLE_STATES :: "string list" where
  "SAMPLE_STATES = [''pending'', ''blob_ready'', ''indexed'', ''active'', ''inactive'', ''failed'']"

definition samples_ok :: "face_identity list \<Rightarrow> face_sample list \<Rightarrow> bool" where
  "samples_ok ids ss =
     (distinct (map fs_sample_id ss) \<and> distinct (map (\<lambda>s. (fs_bucket s, fs_object_key s)) ss)
      \<and> list_all (\<lambda>s. fs_state s \<in> set SAMPLE_STATES \<and> fs_face_id s \<in> fi_face_id ` set ids) ss)"

record recognition_result =
  rr_result_id :: string
  rr_process_id :: string
  rr_detection_ordinal :: int
  rr_face_id :: string
  rr_status_snapshot :: string
  rr_name_snapshot :: "string option"
  rr_metadata_snapshot :: pydict
  rr_bounding_box :: pydict
  rr_detector_confidence :: pyfloat
  rr_match_confidence :: real
  rr_matched_sample_id :: "string option"
  rr_created_at :: time

definition RESULT_STATUSES :: "string list" where
  "RESULT_STATUSES = [''known'', ''anonymous'', ''new_anonymous'']"

record process_event =
  pe_process_id :: string
  pe_event_type :: string
  pe_details :: pydict
  pe_created_at :: time

text \<open>The registry: the tables, the two stores, and the number of identifiers generated so far.\<close>

record ('o, 'v) registry =
  rg_identities :: "face_identity list"
  rg_samples :: "face_sample list"
  rg_processes :: processes
  rg_results :: "recognition_result list"
  rg_events :: "process_event list"
  rg_objects :: 'o
  rg_vectors :: "'v vector_state"
  rg_generated :: nat

definition results_ok :: "('o, 'v, 'x) registry_scheme \<Rightarrow> recognition_result list \<Rightarrow> bool" where
  "results_ok g rs =
     (distinct (map rr_result_id rs) \<and> distinct (map (\<lambda>r. (rr_process_id r, rr_detection_ordinal r)) rs)
      \<and> list_all (\<lambda>r. rr_status_snapshot r \<in> set RESULT_STATUSES
           \<and> rr_process_id r \<in> pr_process_id ` set (rg_processes g)
           \<and> rr_face_id r \<in> fi_face_id ` set (rg_identities g)
           \<and> (case rr_matched_sample_id r of None \<Rightarrow> True | Some s \<Rightarrow> s \<in> fs_sample_id ` set (rg_samples g))) rs)"

section \<open>Repositories\<close>

definition create_pending :: "face_identity list \<Rightarrow> string \<Rightarrow> string \<Rightarrow> face_sample list \<Rightarrow> face_sample list result" where
  "create_pending ids sid fid ss =
     checked (samples_ok ids) (ss @
       [\<lparr>fs_sample_id = sid, fs_face_id = fid, fs_state = ''pending'', fs_bucket = '''',
         fs_object_key = ''pending/'' @ sid, fs_media_type = '''', fs_sha256 = '''', fs_detector_version = '''',
         fs_embedding_model_version = '''', fs_alignment_version = '''', fs_preprocess_version = '''',
         fs_is_active = True, fs_bounding_box = [], fs_landmarks = None, fs_quality = None,
         fs_failure_code = None\<rparr>])"

definition sample_get :: "string \<Rightarrow> face_sample list \<Rightarrow> face_sample option" where
  "sample_get sid ss = row_get fs_sample_id sid ss"

record blob_values =
  bv_bucket :: string
  bv_object_key :: string
  bv_media_type :: string
  bv_sha256 :: string
  bv_detector_version :: string
  bv_embedding_model_version :: string
  bv_alignment_version :: string
  bv_preprocess_version :: string
  bv_bounding_box :: pydict
  bv_landmarks :: "pydict option"
  bv_quality :: "pydict option"

definition blob_row :: "blob_values \<Rightarrow> face_sample \<Rightarrow> face_sample" where
  "blob_row b s =
     s\<lparr>fs_state := ''blob_ready'', fs_bucket := bv_bucket b, fs_object_key := bv_object_key b,
       fs_media_type := bv_media_type b, fs_sha256 := bv_sha256 b, fs_detector_version := bv_detector_version b,
       fs_embedding_model_version := bv_embedding_model_version b, fs_alignment_version := bv_alignment_version b,
       fs_preprocess_version := bv_preprocess_version b, fs_bounding_box := bv_bounding_box b,
       fs_landmarks := bv_landmarks b, fs_quality := bv_quality b\<rparr>"

definition update_blob_ready ::
  "face_identity list \<Rightarrow> string \<Rightarrow> blob_values \<Rightarrow> face_sample list \<Rightarrow> face_sample list result" where
  "update_blob_ready ids sid b ss = checked (samples_ok ids) (row_update fs_sample_id sid (blob_row b) ss)"

definition active_row :: "face_sample \<Rightarrow> face_sample" where
  "active_row s = s\<lparr>fs_state := ''active'', fs_is_active := True\<rparr>"

definition set_active :: "string \<Rightarrow> face_sample list \<Rightarrow> face_sample list \<times> face_sample option" where
  "set_active sid ss =
     (row_update fs_sample_id sid active_row ss, map_option active_row (sample_get sid ss))"

definition inactive_row :: "face_sample \<Rightarrow> face_sample" where
  "inactive_row s = s\<lparr>fs_state := ''inactive'', fs_is_active := False\<rparr>"

definition set_inactive :: "string \<Rightarrow> face_sample list \<Rightarrow> face_sample list" where
  "set_inactive sid = row_update fs_sample_id sid inactive_row"

definition failed_row :: "string \<Rightarrow> face_sample \<Rightarrow> face_sample" where
  "failed_row code s = s\<lparr>fs_state := ''failed'', fs_failure_code := Some code, fs_is_active := False\<rparr>"

definition set_failed :: "string \<Rightarrow> string \<Rightarrow> face_sample list \<Rightarrow> face_sample list" where
  "set_failed sid code = row_update fs_sample_id sid (failed_row code)"

definition list_by_face :: "string \<Rightarrow> bool \<Rightarrow> face_sample list \<Rightarrow> face_sample list" where
  "list_by_face fid active_only ss = filter (\<lambda>s. fs_face_id s = fid \<and> (active_only \<longrightarrow> fs_is_active s)) ss"

definition list_active_by_model :: "string \<Rightarrow> string \<Rightarrow> face_sample list \<Rightarrow> face_sample list" where
  "list_active_by_model model preprocess ss =
     filter (\<lambda>s. fs_is_active s \<and> fs_state s = ''active'' \<and> fs_embedding_model_version s = model
        \<and> fs_preprocess_version s = preprocess) ss"

definition deactivate_by_face :: "string \<Rightarrow> face_sample list \<Rightarrow> face_sample list \<times> string list" where
  "deactivate_by_face fid ss =
     (let sids = map fs_sample_id (list_by_face fid True ss)
      in (map (\<lambda>s. if fs_sample_id s \<in> set sids then inactive_row s else s) ss, sids))"

definition result_create ::
  "recognition_result \<Rightarrow> ('o, 'v, 'x) registry_scheme \<Rightarrow> ('o, 'v, 'x) registry_scheme result" where
  "result_create r g =
     rbind (checked (results_ok g) (rg_results g @ [r])) (\<lambda>rs. Inr (g\<lparr>rg_results := rs\<rparr>))"

definition results_by_process :: "string \<Rightarrow> recognition_result list \<Rightarrow> recognition_result list" where
  "results_by_process pid rs = sort_key rr_detection_ordinal (filter (\<lambda>r. rr_process_id r = pid) rs)"

definition results_by_face :: "string \<Rightarrow> recognition_result list \<Rightarrow> recognition_result list" where
  "results_by_face fid rs = sort_key (\<lambda>r. - rr_created_at r) (filter (\<lambda>r. rr_face_id r = fid) rs)"

definition event_create ::
  "string \<Rightarrow> string \<Rightarrow> pydict \<Rightarrow> time \<Rightarrow> ('o, 'v, 'x) registry_scheme \<Rightarrow> ('o, 'v, 'x) registry_scheme result" where
  "event_create pid etype details now g =
     (if pid \<in> pr_process_id ` set (rg_processes g)
      then Inr (g\<lparr>rg_events := rg_events g @
             [\<lparr>pe_process_id = pid, pe_event_type = etype, pe_details = details, pe_created_at = now\<rparr>]\<rparr>)
      else Inl (OtherError ''IntegrityError''))"

definition events_by_process :: "string \<Rightarrow> process_event list \<Rightarrow> process_event list" where
  "events_by_process pid es = filter (\<lambda>e. pe_process_id e = pid) es"

text \<open>\<open>_log_event\<close> of the services: an event that cannot be stored is dropped.\<close>

definition log_event ::
  "string \<Rightarrow> string \<Rightarrow> pydict \<Rightarrow> time \<Rightarrow> ('o, 'v, 'x) registry_scheme \<Rightarrow> ('o, 'v, 'x) registry_scheme" where
  "log_event pid etype details now g =
     (case event_create pid etype details now g of Inl _ \<Rightarrow> g | Inr g' \<Rightarrow> g')"

section \<open>Persisting a sample\<close>

text \<open>
  The exceptions of the face services by the class an \<open>except\<close> clause tests: errors of the program
  with their code, the failure of an image worker, and everything else.
\<close>

datatype face_exc =
    ValidationExc string
  | NotFoundExc
  | StorageExc
  | VectorStoreExc
  | InferenceExc
  | FinalizationExc
  | GpuExc
  | RawExc

definition exc_code :: "face_exc \<Rightarrow> string" where
  "exc_code e =
     (case e of
        ValidationExc code \<Rightarrow> code
      | NotFoundExc \<Rightarrow> ''NOT_FOUND''
      | StorageExc \<Rightarrow> ''STORAGE_ERROR''
      | VectorStoreExc \<Rightarrow> ''VECTOR_STORE_ERROR''
      | InferenceExc \<Rightarrow> ''INFERENCE_ERROR''
      | FinalizationExc \<Rightarrow> ''PG_FINALIZATION_ERROR''
      | GpuExc \<Rightarrow> ''INFERENCE_ERROR''
      | RawExc \<Rightarrow> ''INTERNAL_ERROR'')"

record ('o, 'v) face_env =
  fv_minio :: "'o minio"
  fv_minio_settings :: minio_settings
  fv_qdrant :: "'v qdrant"
  fv_qdrant_settings :: qdrant_settings
  fv_detector_version :: string
  fv_model_version :: string
  fv_alignment_version :: string
  fv_preprocess_version :: string
  fv_match_settings :: match_settings
  fv_fresh :: "nat \<Rightarrow> string"
  fv_now :: time

record persist_args =
  pa_process_id :: string
  pa_face_id :: string
  pa_sample_id :: string
  pa_aligned_bytes :: bytes
  pa_media_type :: string
  pa_vector :: "pyfloat list"
  pa_bounding_box :: pydict
  pa_landmarks :: "pydict option"
  pa_quality :: "pydict option"
  pa_identity_status :: string
  pa_name :: "string option"
  pa_metadata :: "pydict option"
  pa_manage_process :: bool

definition aligned_key :: "persist_args \<Rightarrow> string" where
  "aligned_key a = ''faces/'' @ pa_face_id a @ ''/'' @ pa_sample_id a @ ''/aligned''"

type_synonym ('o, 'v, 'x, 'a) face_call = "('o, 'v, 'x) registry_scheme \<Rightarrow> ('o, 'v, 'x) registry_scheme \<times> (face_exc + 'a)"

definition fbind :: "('o, 'v, 'x, 'a) face_call \<Rightarrow> ('a \<Rightarrow> ('o, 'v, 'x, 'b) face_call) \<Rightarrow> ('o, 'v, 'x, 'b) face_call" where
  "fbind m f g = (case m g of (g', Inl e) \<Rightarrow> (g', Inl e) | (g', Inr x) \<Rightarrow> f x g')"

text \<open>One transaction: an exception rolls it back.\<close>

definition transaction :: "(('o, 'v, 'x) registry_scheme \<Rightarrow> (('o, 'v, 'x) registry_scheme \<times> 'a) result) \<Rightarrow> ('o, 'v, 'x, 'a) face_call" where
  "transaction tx g = (case tx g of Inl _ \<Rightarrow> (g, Inl RawExc) | Inr (g', x) \<Rightarrow> (g', Inr x))"

definition ensure_identity_and_sample ::
  "persist_args \<Rightarrow> ('o, 'v, 'x) registry_scheme \<Rightarrow> (('o, 'v, 'x) registry_scheme \<times> face_sample option) result" where
  "ensure_identity_and_sample a g =
     rbind (case get_by_id (pa_face_id a) (rg_identities g) of
              Some i \<Rightarrow> Inr (rg_identities g)
            | None \<Rightarrow> identity_create (pa_face_id a) (pa_identity_status a) (pa_name a)
                (Some (case pa_metadata a of None \<Rightarrow> [] | Some m \<Rightarrow> m)) (rg_identities g)) (\<lambda>ids.
     case sample_get (pa_sample_id a) (rg_samples g) of
       Some s \<Rightarrow> Inr (g\<lparr>rg_identities := ids\<rparr>, Some s)
     | None \<Rightarrow>
         rbind (create_pending ids (pa_sample_id a) (pa_face_id a) (rg_samples g)) (\<lambda>ss.
           Inr (g\<lparr>rg_identities := ids, rg_samples := ss\<rparr>, None)))"

definition record_failure :: "('o, 'v) face_env \<Rightarrow> persist_args \<Rightarrow> string \<Rightarrow> ('o, 'v, 'x) registry_scheme \<Rightarrow> ('o, 'v, 'x) registry_scheme" where
  "record_failure env a code g =
     log_event (pa_process_id a) ''sample_persistence_failed''
       [(PStr ''sample_id'', PStr (pa_sample_id a)), (PStr ''error_code'', PStr code)] (fv_now env)
       (g\<lparr>rg_samples := set_failed (pa_sample_id a) code (rg_samples g),
          rg_processes := process_fail (pa_process_id a) code (fv_now env) (rg_processes g)\<rparr>)"

definition persist_event :: "('o, 'v) face_env \<Rightarrow> persist_args \<Rightarrow> string \<Rightarrow> ('o, 'v, 'x) registry_scheme \<Rightarrow> ('o, 'v, 'x) registry_scheme" where
  "persist_event env a etype g =
     log_event (pa_process_id a) etype
       [(PStr ''sample_id'', PStr (pa_sample_id a)), (PStr ''object_key'', PStr (aligned_key a))] (fv_now env) g"

definition store_object :: "('o, 'v) face_env \<Rightarrow> persist_args \<Rightarrow> ('o, 'v, 'x, string) face_call" where
  "store_object env a g =
     (case then_call
             (upload_aligned_sample (fv_minio env) (fv_minio_settings env) (aligned_key a) (pa_aligned_bytes a)
                (pa_media_type a) (pa_sample_id a))
             (\<lambda>sha. then_call (stat_aligned_sample (fv_minio env) (fv_minio_settings env) (aligned_key a))
                (\<lambda>_ s. (s, Inr sha)))
             (rg_objects g) of
        (s, Inl e) \<Rightarrow>
          (record_failure env a (case object_code e of None \<Rightarrow> ''STORAGE_ERROR'' | Some c \<Rightarrow> c) (g\<lparr>rg_objects := s\<rparr>),
           Inl StorageExc)
      | (s, Inr sha) \<Rightarrow> (g\<lparr>rg_objects := s\<rparr>, Inr sha))"

definition blob_of :: "('o, 'v) face_env \<Rightarrow> persist_args \<Rightarrow> string \<Rightarrow> blob_values" where
  "blob_of env a sha =
     \<lparr>bv_bucket = minio_bucket_faces (fv_minio_settings env), bv_object_key = aligned_key a,
      bv_media_type = pa_media_type a, bv_sha256 = sha, bv_detector_version = fv_detector_version env,
      bv_embedding_model_version = fv_model_version env, bv_alignment_version = fv_alignment_version env,
      bv_preprocess_version = fv_preprocess_version env, bv_bounding_box = pa_bounding_box a,
      bv_landmarks = pa_landmarks a, bv_quality = pa_quality a\<rparr>"

definition record_blob :: "('o, 'v) face_env \<Rightarrow> persist_args \<Rightarrow> string \<Rightarrow> ('o, 'v, 'x, unit) face_call" where
  "record_blob env a sha =
     transaction (\<lambda>g. rbind (update_blob_ready (rg_identities g) (pa_sample_id a) (blob_of env a sha) (rg_samples g))
       (\<lambda>ss. Inr (g\<lparr>rg_samples := ss\<rparr>, ())))"

definition store_vector :: "('o, 'v) face_env \<Rightarrow> persist_args \<Rightarrow> ('o, 'v, 'x, unit) face_call" where
  "store_vector env a g =
     (case vector_upsert (fv_qdrant env) (fv_qdrant_settings env) (pa_sample_id a) (pa_face_id a) (pa_vector a) True
             (fv_model_version env) (fv_preprocess_version env) (rg_vectors g) of
        (v, Inl e) \<Rightarrow>
          (record_failure env a (case vector_code e of None \<Rightarrow> ''VECTOR_STORE_ERROR'' | Some c \<Rightarrow> c) (g\<lparr>rg_vectors := v\<rparr>),
           Inl VectorStoreExc)
      | (v, Inr _) \<Rightarrow> (g\<lparr>rg_vectors := v\<rparr>, Inr ()))"

text \<open>The failure is recorded in a session of its own while the outer one has changed nothing.\<close>

definition activate_sample :: "('o, 'v) face_env \<Rightarrow> persist_args \<Rightarrow> ('o, 'v, 'x, face_sample) face_call" where
  "activate_sample env a g =
     (case set_active (pa_sample_id a) (rg_samples g) of
        (_, None) \<Rightarrow> (record_failure env a ''PG_FINALIZATION_ERROR'' g, Inl FinalizationExc)
      | (ss, Some s) \<Rightarrow>
          (g\<lparr>rg_samples := ss,
             rg_processes := (if pa_manage_process a
                then process_complete (pa_process_id a) 1 [] (fv_now env) (rg_processes g) else rg_processes g)\<rparr>,
           Inr s))"

definition start_process :: "string \<Rightarrow> string \<Rightarrow> time \<Rightarrow> ('o, 'v, 'x, unit) face_call" where
  "start_process pid ptype now =
     transaction (\<lambda>g. rbind (process_create pid ptype ''started'' 0 None [] now (rg_processes g))
       (\<lambda>ps. Inr (g\<lparr>rg_processes := ps\<rparr>, ())))"

definition persist_new :: "('o, 'v) face_env \<Rightarrow> persist_args \<Rightarrow> ('o, 'v, 'x, face_sample) face_call" where
  "persist_new env a =
     fbind (if pa_manage_process a then start_process (pa_process_id a) ''enroll'' (fv_now env) else (\<lambda>g. (g, Inr ()))) (\<lambda>_.
     fbind (store_object env a) (\<lambda>sha.
     fbind (record_blob env a sha) (\<lambda>_.
     fbind (\<lambda>g. (persist_event env a ''sample_blob_ready'' g, Inr ())) (\<lambda>_.
     fbind (store_vector env a) (\<lambda>_.
     fbind (activate_sample env a) (\<lambda>s.
       \<lambda>g. (persist_event env a ''sample_active'' g, Inr s)))))))"

definition persist_sample :: "('o, 'v) face_env \<Rightarrow> persist_args \<Rightarrow> ('o, 'v, 'x, face_sample) face_call" where
  "persist_sample env a =
     fbind (transaction (ensure_identity_and_sample a)) (\<lambda>existing.
       case existing of
         Some s \<Rightarrow> if fs_state s = ''active'' then (\<lambda>g. (g, Inr s)) else persist_new env a
       | None \<Rightarrow> persist_new env a)"

section \<open>Reconciling the stores\<close>

record mismatch =
  mm_sample_id :: string
  mm_face_id :: string
  mm_object_key :: string
  mm_issues :: "string list"

definition object_issues :: "object_exc + object_info \<Rightarrow> face_sample \<Rightarrow> string list" where
  "object_issues r s =
     (case r of
        Inl ObjectNotFoundError \<Rightarrow> [''missing_object'']
      | Inl _ \<Rightarrow> [''object_store_error'']
      | Inr info \<Rightarrow> if oi_sha256 info \<noteq> Some (fs_sha256 s) then [''checksum_mismatch''] else [])"

definition vector_issues :: "vector_exc + vector_point option \<Rightarrow> face_sample \<Rightarrow> string list" where
  "vector_issues r s =
     (case r of
        Inl _ \<Rightarrow> [''vector_store_error'']
      | Inr None \<Rightarrow> [''missing_vector'']
      | Inr (Some p) \<Rightarrow>
          (if payload_value (pt_payload p) ''active'' \<noteq> PBool True then [''inactive_vector''] else [])
          @ (if payload_value (pt_payload p) ''embedding_model_version'' \<noteq> PStr (fs_embedding_model_version s)
             then [''model_version_mismatch''] else [])
          @ (if payload_value (pt_payload p) ''preprocess_version'' \<noteq> PStr (fs_preprocess_version s)
             then [''preprocess_version_mismatch''] else []))"

definition repair :: "('o, 'v) face_env \<Rightarrow> string \<Rightarrow> ('o, 'v, 'x) registry_scheme \<Rightarrow> ('o, 'v, 'x) registry_scheme" where
  "repair env sid g =
     g\<lparr>rg_samples := set_inactive sid (rg_samples g),
       rg_vectors := fst (vector_delete (fv_qdrant env) (fv_qdrant_settings env) sid (rg_vectors g))\<rparr>"

fun storage_pass ::
  "('o, 'v) face_env \<Rightarrow> bool \<Rightarrow> face_sample list \<Rightarrow> ('o, 'v, 'x) registry_scheme \<Rightarrow> ('o, 'v, 'x) registry_scheme \<times> mismatch list" where
  "storage_pass env dry_run [] g = (g, [])"
| "storage_pass env dry_run (s # ss) g =
     (case stat_aligned_sample (fv_minio env) (fv_minio_settings env) (fs_object_key s) (rg_objects g) of
        (objs, ores) \<Rightarrow>
          (case vector_get (fv_qdrant env) (fv_qdrant_settings env) (fs_sample_id s) (rg_vectors g) of
             (vecs, vres) \<Rightarrow>
               let issues = object_issues ores s @ vector_issues vres s;
                   g1 = g\<lparr>rg_objects := objs, rg_vectors := vecs\<rparr>;
                   g2 = (if issues \<noteq> [] \<and> \<not> dry_run then repair env (fs_sample_id s) g1 else g1);
                   (g3, rest) = storage_pass env dry_run ss g2
               in (g3, (if issues = [] then []
                        else [\<lparr>mm_sample_id = fs_sample_id s, mm_face_id = fs_face_id s,
                               mm_object_key = fs_object_key s, mm_issues = issues\<rparr>]) @ rest)))"

definition or_default :: "string option \<Rightarrow> string \<Rightarrow> string" where
  "or_default given fallback = (case given of None \<Rightarrow> fallback | Some v \<Rightarrow> if v = [] then fallback else v)"

definition storage_reconcile ::
  "('o, 'v) face_env \<Rightarrow> string option \<Rightarrow> string option \<Rightarrow> bool \<Rightarrow> ('o, 'v, 'x) registry_scheme \<Rightarrow>
   ('o, 'v, 'x) registry_scheme \<times> mismatch list"
where
  "storage_reconcile env model preprocess dry_run g =
     storage_pass env dry_run
       (list_active_by_model (or_default model (fv_model_version env)) (or_default preprocess (fv_preprocess_version env))
          (rg_samples g)) g"

end
