(* ===== verification/Py_Numbers.thy ===== *)
theory Py_Numbers
  imports Py_Values
begin

text \<open>
  Numbers read from text and from dynamically typed values: Python's \<open>int(str)\<close> and \<open>float(str)\<close>,
  \<open>int()\<close> and \<open>float()\<close> of a value, and \<open>bytes()\<close> of a value, as the video and image worker
  decoders, the video probe and the range parser use them. As everywhere, floats are exact reals and
  rounding is not modelled; a decimal text beyond the largest double is infinite.
\<close>

section \<open>Decimal text\<close>

definition dec_digit :: "char \<Rightarrow> bool" where
  "dec_digit c = (48 \<le> char_code c \<and> char_code c \<le> 57)"

definition number_space :: "char \<Rightarrow> bool" where
  "number_space c = (let n = char_code c in (9 \<le> n \<and> n \<le> 13) \<or> n \<in> {32, 133, 160})"

definition number_strip :: "string \<Rightarrow> string" where
  "number_strip s = rev (dropWhile number_space (rev (dropWhile number_space s)))"

text \<open>Digits in groups: a single underscore may stand between two digits.\<close>

fun digits_after :: "nat \<Rightarrow> string \<Rightarrow> nat option" where
  "digits_after acc [] = Some acc"
| "digits_after acc (c # cs) =
     (if dec_digit c then digits_after (10 * acc + (char_code c - 48)) cs
      else if c = CHR ''_'' \<and> cs \<noteq> [] \<and> dec_digit (hd cs) then digits_after acc cs
      else None)"

definition digits_of :: "string \<Rightarrow> nat option" where
  "digits_of s = (if s \<noteq> [] \<and> dec_digit (hd s) then digits_after 0 s else None)"

definition digit_count :: "string \<Rightarrow> nat" where
  "digit_count s = length (filter dec_digit s)"

definition split_sign :: "string \<Rightarrow> int \<times> string" where
  "split_sign s =
     (case s of
        [] \<Rightarrow> (1, s)
      | c # cs \<Rightarrow> if c = CHR ''-'' then (- 1, cs) else if c = CHR ''+'' then (1, cs) else (1, s))"

text \<open>The interpreter refuses to convert more than 4300 digits.\<close>

definition int_of_text :: "string \<Rightarrow> int result" where
  "int_of_text s =
     (let (sign, t) = split_sign (number_strip s)
      in case digits_of t of
           None \<Rightarrow> Inl (ValueError ''invalid literal for int()'')
         | Some n \<Rightarrow>
             if digit_count t > 4300 then Inl (ValueError ''Exceeds the limit (4300 digits)'')
             else Inr (sign * int n))"

definition exponent_of :: "string option \<Rightarrow> int option" where
  "exponent_of e =
     (case e of
        None \<Rightarrow> Some 0
      | Some t \<Rightarrow> map_option (\<lambda>n. fst (split_sign t) * int n) (digits_of (snd (split_sign t))))"

definition cut_at :: "char set \<Rightarrow> string \<Rightarrow> string \<times> string option" where
  "cut_at cs s =
     (takeWhile (\<lambda>c. c \<notin> cs) s,
      case dropWhile (\<lambda>c. c \<notin> cs) s of [] \<Rightarrow> None | _ # rest \<Rightarrow> Some rest)"

definition mantissa_of :: "string \<Rightarrow> real option" where
  "mantissa_of s =
     (case cut_at {CHR ''.''} s of
        (i, None) \<Rightarrow> map_option real (digits_of i)
      | (i, Some f) \<Rightarrow>
          (case (if i = [] then Some 0 else digits_of i, if f = [] then Some 0 else digits_of f) of
             (Some m, Some n) \<Rightarrow>
               if i = [] \<and> f = [] then None else Some (real m + real n / 10 ^ digit_count f)
           | _ \<Rightarrow> None))"

definition shift10 :: "int \<Rightarrow> real \<Rightarrow> real" where
  "shift10 e x = (if 0 \<le> e then x * 10 ^ nat e else x / 10 ^ nat (- e))"

definition float_range :: "real \<Rightarrow> pyfloat" where
  "float_range x =
     (if x \<ge> 2 ^ 1024 - 2 ^ 970 then PosInf else if x \<le> - (2 ^ 1024 - 2 ^ 970) then NegInf else Fin x)"

definition float_of_text :: "string \<Rightarrow> pyfloat result" where
  "float_of_text s =
     (let (sign, t) = split_sign (number_strip s)
      in if py_lower t \<in> {''inf'', ''infinity''} then Inr (if sign = 1 then PosInf else NegInf)
         else if py_lower t = ''nan'' then Inr NaN
         else let (m, e) = cut_at {CHR ''e'', CHR ''E''} t
              in case (mantissa_of m, exponent_of e) of
                   (Some x, Some k) \<Rightarrow> Inr (float_range (of_int sign * shift10 k x))
                 | _ \<Rightarrow> Inl (ValueError ''could not convert string to float''))"

section \<open>Conversions of values\<close>

definition truncate_real :: "real \<Rightarrow> int" where
  "truncate_real x = (if x < 0 then \<lceil>x\<rceil> else \<lfloor>x\<rfloor>)"

text \<open>\<open>int(value)\<close> and \<open>float(value)\<close>.\<close>

fun py_int :: "pyval \<Rightarrow> int result" where
  "py_int (PBool b) = Inr (of_bool b)"
| "py_int (PInt i) = Inr i"
| "py_int (PFloat (Fin x)) = Inr (truncate_real x)"
| "py_int (PFloat NaN) = Inl (ValueError ''cannot convert float NaN to integer'')"
| "py_int (PFloat _) = Inl OverflowError"
| "py_int (PStr s) = int_of_text s"
| "py_int (PBytes bs) = int_of_text (map (\<lambda>b. char_of (unat b)) bs)"
| "py_int _ = Inl TypeError"

fun py_float :: "pyval \<Rightarrow> pyfloat result" where
  "py_float (PBool b) = Inr (Fin (of_bool b))"
| "py_float (PInt i) = rbind (float_of_int i) (\<lambda>x. Inr (Fin x))"
| "py_float (PFloat x) = Inr x"
| "py_float (PStr s) = float_of_text s"
| "py_float (PBytes bs) = float_of_text (map (\<lambda>b. char_of (unat b)) bs)"
| "py_float _ = Inl TypeError"

text \<open>
  \<open>bytes(value)\<close>: a copy of a bytes object, as many zero bytes as an integer says, or the bytes an
  iterable of integers lists.
\<close>

fun byte_of :: "pyval \<Rightarrow> byte result" where
  "byte_of (PInt i) =
     (if 0 \<le> i \<and> i < 256 then Inr (of_int i) else Inl (ValueError ''bytes must be in range(0, 256)''))"
| "byte_of (PBool b) = Inr (of_bool b)"
| "byte_of _ = Inl TypeError"

definition zero_bytes :: "int \<Rightarrow> bytes result" where
  "zero_bytes n =
     (if n < - (2 ^ 63) \<or> 2 ^ 63 \<le> n then Inl OverflowError
      else if n < 0 then Inl (ValueError ''negative count'')
      else Inr (replicate (nat n) 0))"

fun py_bytes :: "pyval \<Rightarrow> bytes result" where
  "py_bytes (PBytes bs) = Inr bs"
| "py_bytes (PInt n) = zero_bytes n"
| "py_bytes (PBool b) = zero_bytes (of_bool b)"
| "py_bytes (PList vs) = mapM byte_of vs"
| "py_bytes (PDict d) = mapM byte_of (map fst d)"
| "py_bytes _ = Inl TypeError"

text \<open>\<open>str(value)\<close>; the representation of floats, bytes and containers is a parameter.\<close>

fun py_str :: "(pyval \<Rightarrow> string) \<Rightarrow> pyval \<Rightarrow> string" where
  "py_str repr (PStr s) = s"
| "py_str repr (PInt i) = str_int i"
| "py_str repr (PBool b) = (if b then ''True'' else ''False'')"
| "py_str repr PNone = ''None''"
| "py_str repr v = repr v"

text \<open>Equality with an integer: booleans and floats compare by value.\<close>

fun equals_int :: "int \<Rightarrow> pyval \<Rightarrow> bool" where
  "equals_int n (PInt i) = (i = n)"
| "equals_int n (PBool b) = (of_bool b = n)"
| "equals_int n (PFloat (Fin x)) = (x = of_int n)"
| "equals_int n _ = False"

text \<open>A subscript with a text key on a value of any type.\<close>

fun py_item :: "pyval \<Rightarrow> string \<Rightarrow> pyval result" where
  "py_item (PDict d) k = getitem d k"
| "py_item v k = Inl TypeError"

section \<open>Laws\<close>

text \<open>The text of an integer reads back as the integer.\<close>

lemma digits_after_append:
  "digits_after acc (xs @ ys) = Some r \<longleftrightarrow> (\<exists>m. digits_after acc xs = Some m \<and> digits_after m ys = Some r)"
  if "list_all dec_digit xs"
  using that by (induction xs arbitrary: acc) auto

lemma digit_char [simp]:
  assumes "d < 10"
  shows "dec_digit (char_of (48 + d))" "char_code (char_of (48 + d)) = 48 + d"
  using assms by (simp_all add: dec_digit_def char_code_def)

lemma nat_digits_digits: "list_all dec_digit (nat_digits n) \<and> nat_digits n \<noteq> []"
  by (induction n rule: nat_digits.induct) (subst nat_digits.simps, simp)+

lemma digits_after_nat: "digits_after 0 (nat_digits n) = Some n"
proof (induction n rule: nat_digits.induct)
  case (1 n)
  show ?case
  proof (cases "n < 10")
    case True
    then show ?thesis by (simp add: nat_digits.simps)
  next
    case False
    have "digits_after 0 (nat_digits (n div 10) @ [char_of (48 + n mod 10)]) = Some n"
      using 1 False nat_digits_digits [of "n div 10"] by (subst digits_after_append) auto
    with False show ?thesis by (subst nat_digits.simps) simp
  qed
qed

lemma digits_of_nat: "digits_of (nat_digits n) = Some n"
proof -
  obtain c cs where "nat_digits n = c # cs" "dec_digit c"
    using nat_digits_digits [of n] by (cases "nat_digits n") auto
  with digits_after_nat [of n] show ?thesis by (simp add: digits_of_def)
qed

lemma digits_of_Some: "digits_of s = Some n \<Longrightarrow> s \<noteq> []"
  by (auto simp: digits_of_def split: if_splits)

lemma int_of_text_error: "int_of_text s = Inl e \<Longrightarrow> \<exists>m. e = ValueError m"
  by (auto simp: int_of_text_def Let_def split: prod.splits option.splits if_splits)

lemma float_of_text_error: "float_of_text s = Inl e \<Longrightarrow> \<exists>m. e = ValueError m"
  by (auto simp: float_of_text_def Let_def split: prod.splits option.splits if_splits)

end
