(* ===== verification/Gpu_Protocol.thy ===== *)
theory Gpu_Protocol
  imports Py_Numbers
begin

text \<open>
  The image worker's wire protocol and its client: \<open>src/backend/app/infrastructure/gpu/protocol.py\<close>,
  \<open>contracts.py\<close> and \<open>worker_pool.py\<close>. MessagePack is a parameter whose decoder may raise; a worker
  is seen through the bytes it answers on its socket before it closes or the connection fails.
\<close>

section \<open>Data\<close>

record image_request =
  ir_request_id :: string
  ir_encoded_jpeg :: bytes
  ir_protocol_version :: int

record gpu_face =
  gf_ordinal :: int
  gf_x :: pyfloat
  gf_y :: pyfloat
  gf_width :: pyfloat
  gf_height :: pyfloat
  gf_landmarks_xy :: "pyfloat list"
  gf_detector_confidence :: pyfloat
  gf_embedding :: "pyfloat list"
  gf_aligned_jpeg :: bytes

record image_result =
  im_request_id :: string
  im_status :: string
  im_error_code :: string
  im_faces :: "gpu_face list"

definition GPU_PROTOCOL_VERSION :: int where
  "GPU_PROTOCOL_VERSION = 1"

definition GPU_HEADER_SIZE :: nat where
  "GPU_HEADER_SIZE = 4"

definition MAX_UPLOAD_BYTES :: nat where
  "MAX_UPLOAD_BYTES = 10 * 1024 * 1024"

definition GPU_MAX_FRAME_BYTES :: nat where
  "GPU_MAX_FRAME_BYTES = MAX_UPLOAD_BYTES + 16 * 1024 * 1024"

section \<open>What \<open>UUID(text)\<close> accepts\<close>

fun remove_all :: "string \<Rightarrow> string \<Rightarrow> string" where
  "remove_all p [] = []"
| "remove_all p (c # cs) =
     (if p \<noteq> [] \<and> take (length p) (c # cs) = p then remove_all p (drop (length p - 1) cs)
      else c # remove_all p cs)"

definition hex_digit :: "char \<Rightarrow> bool" where
  "hex_digit c = lower_hex (py_lower_char c)"

fun hex_after :: "string \<Rightarrow> bool" where
  "hex_after [] = True"
| "hex_after (c # cs) =
     (if hex_digit c then hex_after cs
      else c = CHR ''_'' \<and> cs \<noteq> [] \<and> hex_digit (hd cs) \<and> hex_after cs)"

definition hex_number :: "string \<Rightarrow> bool" where
  "hex_number s =
     (let t = snd (split_sign (number_strip s));
          u = (if py_lower (take 2 t) = ''0x'' then (if take 1 (drop 2 t) = ''_'' then drop 3 t else drop 2 t)
               else t)
      in u \<noteq> [] \<and> hex_digit (hd u) \<and> hex_after u)"

definition strip_braces :: "string \<Rightarrow> string" where
  "strip_braces s =
     (let brace = (\<lambda>c. c \<in> set ''{}'') in rev (dropWhile brace (rev (dropWhile brace s))))"

definition uuid_text :: "string \<Rightarrow> bool" where
  "uuid_text s =
     (let h = filter (\<lambda>c. c \<noteq> CHR ''-'') (strip_braces (remove_all ''uuid:'' (remove_all ''urn:'' s)))
      in length h = 32 \<and> hex_number h)"

text \<open>\<open>UUID(value)\<close>: a value without \<open>replace\<close> raises AttributeError; None and bytes, TypeError.\<close>

fun new_uuid :: "pyval \<Rightarrow> string result" where
  "new_uuid (PStr s) = (if uuid_text s then Inr s else Inl (ValueError ''badly formed hexadecimal UUID string''))"
| "new_uuid PNone = Inl TypeError"
| "new_uuid (PBytes _) = Inl TypeError"
| "new_uuid _ = Inl (OtherError ''AttributeError'')"

section \<open>Requests\<close>

definition request_payload :: "image_request \<Rightarrow> pydict" where
  "request_payload r =
     [(PStr ''protocol_version'', PInt (ir_protocol_version r)),
      (PStr ''request_id'', PStr (ir_request_id r)),
      (PStr ''encoded_jpeg'', PBytes (ir_encoded_jpeg r))]"

definition encode_request :: "(pyval \<Rightarrow> bytes) \<Rightarrow> image_request \<Rightarrow> bytes result" where
  "encode_request packb r =
     (let payload = packb (PDict (request_payload r))
      in if length payload \<ge> 2 ^ 32 then Inl (OtherError ''struct.error'')
         else Inr (pack_be32 (length payload) @ payload))"

definition jpeg_start :: "bytes \<Rightarrow> bool" where
  "jpeg_start bs = (take 2 bs = [0xff, 0xd8])"

definition decode_request :: "(bytes \<Rightarrow> pyval result) \<Rightarrow> bytes \<Rightarrow> image_request result" where
  "decode_request unpackb frame =
     (if length frame < GPU_HEADER_SIZE then Inl (ValueError ''TRUNCATED_FRAME'')
      else let payload_size = unpack_be32 (take GPU_HEADER_SIZE frame)
      in if payload_size > GPU_MAX_FRAME_BYTES then Inl (ValueError ''FRAME_TOO_LARGE'')
      else if length frame - GPU_HEADER_SIZE < payload_size then Inl (ValueError ''TRUNCATED_FRAME'')
      else rbind (unpackb (take payload_size (drop GPU_HEADER_SIZE frame))) (\<lambda>payload.
           rbind (py_item payload ''protocol_version'') (\<lambda>version.
           if \<not> equals_int GPU_PROTOCOL_VERSION version
           then Inl (ValueError ''UNSUPPORTED_PROTOCOL_VERSION'')
           else rbind (py_item payload ''request_id'') (\<lambda>rid.
           case new_uuid rid of
             Inl _ \<Rightarrow> Inl (ValueError ''INVALID_REQUEST_ID'')
           | Inr request_id \<Rightarrow>
               rbind (py_item payload ''encoded_jpeg'') (\<lambda>jpeg.
               case jpeg of
                 PBytes bs \<Rightarrow>
                   if jpeg_start bs
                   then Inr \<lparr>ir_request_id = request_id, ir_encoded_jpeg = bs,
                             ir_protocol_version = GPU_PROTOCOL_VERSION\<rparr>
                   else Inl (ValueError ''UNSUPPORTED_MEDIA_TYPE'')
               | _ \<Rightarrow> Inl (ValueError ''UNSUPPORTED_MEDIA_TYPE''))))))"

section \<open>Results\<close>

definition float_list :: "pyval \<Rightarrow> pyfloat list result" where
  "float_list v = rbind (py_iter v) (mapM py_float)"

definition decode_face :: "pyval \<Rightarrow> gpu_face result" where
  "decode_face f =
     rbind (rbind (py_item f ''ordinal'') py_int) (\<lambda>ordinal.
     rbind (rbind (py_item f ''x'') py_float) (\<lambda>x.
     rbind (rbind (py_item f ''y'') py_float) (\<lambda>y.
     rbind (rbind (py_item f ''width'') py_float) (\<lambda>width.
     rbind (rbind (py_item f ''height'') py_float) (\<lambda>height.
     rbind (rbind (py_item f ''landmarks_xy'') float_list) (\<lambda>landmarks.
     rbind (rbind (py_item f ''detector_confidence'') py_float) (\<lambda>confidence.
     rbind (rbind (py_item f ''embedding'') float_list) (\<lambda>embedding.
     rbind (rbind (py_item f ''aligned_jpeg'') py_bytes) (\<lambda>aligned.
       Inr \<lparr>gf_ordinal = ordinal, gf_x = x, gf_y = y, gf_width = width, gf_height = height,
            gf_landmarks_xy = landmarks, gf_detector_confidence = confidence,
            gf_embedding = embedding, gf_aligned_jpeg = aligned\<rparr>)))))))))"

definition caught_by_decoder :: "py_exc \<Rightarrow> bool" where
  "caught_by_decoder e = (case e of ValueError _ \<Rightarrow> True | KeyError \<Rightarrow> True | TypeError \<Rightarrow> True | _ \<Rightarrow> False)"

definition decode_result :: "(bytes \<Rightarrow> pyval result) \<Rightarrow> (pyval \<Rightarrow> string) \<Rightarrow> bytes \<Rightarrow> image_result result" where
  "decode_result unpackb repr frame =
     (if length frame < GPU_HEADER_SIZE then Inl (ValueError ''TRUNCATED_FRAME'')
      else let payload_size = unpack_be32 (take GPU_HEADER_SIZE frame)
      in if payload_size > GPU_MAX_FRAME_BYTES \<or> length frame - GPU_HEADER_SIZE < payload_size
         then Inl (ValueError ''INVALID_RESULT_FRAME'')
      else rbind (unpackb (take payload_size (drop GPU_HEADER_SIZE frame))) (\<lambda>payload.
        case payload of
          PDict d \<Rightarrow>
            if \<not> (case map_of d (PStr ''protocol_version'') of
                     None \<Rightarrow> False | Some v \<Rightarrow> equals_int GPU_PROTOCOL_VERSION v)
            then Inl (ValueError ''UNSUPPORTED_PROTOCOL_VERSION'')
            else (case rbind (rbind (getitem d ''request_id'') new_uuid) (\<lambda>rid.
                         rbind (rbind (getitem d ''faces'') py_iter) (\<lambda>items.
                         rbind (mapM decode_face items) (\<lambda>faces. Inr (rid, faces)))) of
                    Inl e \<Rightarrow> Inl (if caught_by_decoder e then ValueError ''INVALID_RESULT_PAYLOAD'' else e)
                  | Inr (rid, faces) \<Rightarrow>
                      rbind (getitem d ''status'') (\<lambda>status.
                      rbind (getitem d ''error_code'') (\<lambda>code.
                        Inr \<lparr>im_request_id = rid, im_status = py_str repr status,
                             im_error_code = py_str repr code, im_faces = faces\<rparr>)))
        | _ \<Rightarrow> Inl (OtherError ''AttributeError'')))"

section \<open>The client\<close>

datatype gpu_exc = GpuWorkerError string | GpuOther py_exc

text \<open>
  What a connection attempt gives: the bytes the worker answered, or the text of the operating
  system's error. \<open>shortfall\<close> tells what happens to a read beyond the answer: the worker has closed
  the socket, or the connection fails with the given text.
\<close>

record gpu_reply =
  gr_bytes :: bytes
  gr_shortfall :: "string option"

type_synonym gpu_workers = "string \<Rightarrow> bytes \<Rightarrow> string + gpu_reply"

definition read_exact :: "gpu_reply \<Rightarrow> nat \<Rightarrow> gpu_exc + bytes \<times> gpu_reply" where
  "read_exact r n =
     (if n \<le> length (gr_bytes r)
      then Inr (take n (gr_bytes r), r\<lparr>gr_bytes := drop n (gr_bytes r)\<rparr>)
      else Inl (GpuWorkerError
             (case gr_shortfall r of
                None \<Rightarrow> ''GPU worker closed the socket''
              | Some m \<Rightarrow> ''GPU worker unavailable: '' @ m)))"

definition next_path :: "string list \<Rightarrow> nat \<Rightarrow> string \<times> nat" where
  "next_path paths counter = (paths ! (counter mod length paths), counter + 1)"

definition unavailable :: "(py_exc \<Rightarrow> string) \<Rightarrow> py_exc \<Rightarrow> gpu_exc" where
  "unavailable str_exc e =
     (case e of
        ValueError _ \<Rightarrow> GpuWorkerError (''GPU worker unavailable: '' @ str_exc e)
      | _ \<Rightarrow> GpuOther e)"

definition check_result :: "string \<Rightarrow> image_result \<Rightarrow> gpu_exc + image_result" where
  "check_result request_id result =
     (if im_request_id result \<noteq> request_id
      then Inl (GpuWorkerError ''GPU worker returned a mismatched request ID'')
      else if im_status result \<noteq> ''OK''
      then Inl (GpuWorkerError (if im_error_code result = [] then ''GPU worker failed'' else im_error_code result))
      else Inr result)"

definition read_reply ::
  "(bytes \<Rightarrow> pyval result) \<Rightarrow> (pyval \<Rightarrow> string) \<Rightarrow> (py_exc \<Rightarrow> string) \<Rightarrow> gpu_reply \<Rightarrow> gpu_exc + image_result" where
  "read_reply unpackb repr str_exc reply =
     rbind (read_exact reply GPU_HEADER_SIZE) (\<lambda>(head, rest).
       let payload_size = unpack_be32 head
       in if payload_size > GPU_MAX_FRAME_BYTES then Inl (GpuWorkerError ''GPU worker response is too large'')
          else rbind (read_exact rest payload_size) (\<lambda>(body, _).
                 case decode_result unpackb repr (head @ body) of
                   Inl e \<Rightarrow> Inl (unavailable str_exc e)
                 | Inr result \<Rightarrow> Inr result))"

definition pool_process ::
  "(pyval \<Rightarrow> bytes) \<Rightarrow> (bytes \<Rightarrow> pyval result) \<Rightarrow> (pyval \<Rightarrow> string) \<Rightarrow> (py_exc \<Rightarrow> string) \<Rightarrow> gpu_workers \<Rightarrow>
   string list \<Rightarrow> bytes \<Rightarrow> string \<Rightarrow> nat \<Rightarrow> (gpu_exc + image_result) \<times> nat"
where
  "pool_process packb unpackb repr str_exc workers paths jpeg request_id counter =
     (let (path, counter') = next_path paths counter
      in (case encode_request packb \<lparr>ir_request_id = request_id, ir_encoded_jpeg = jpeg,
                                     ir_protocol_version = GPU_PROTOCOL_VERSION\<rparr> of
            Inl e \<Rightarrow> Inl (unavailable str_exc e)
          | Inr frame \<Rightarrow>
              (case workers path (pack_be32 1 @ frame) of
                 Inl m \<Rightarrow> Inl (GpuWorkerError (''GPU worker unavailable: '' @ m))
               | Inr reply \<Rightarrow>
                   rbind (read_reply unpackb repr str_exc reply) (check_result request_id)),
          counter'))"

section \<open>Round trip\<close>

text \<open>A request the client sends is the request the worker side decodes.\<close>

theorem gpu_request_roundtrip:
  assumes "unpackb (packb (PDict (request_payload r))) = Inr (PDict (request_payload r))"
    and "encode_request packb r = Inr frame" and "length frame \<le> GPU_HEADER_SIZE + GPU_MAX_FRAME_BYTES"
    and "ir_protocol_version r = GPU_PROTOCOL_VERSION" and "uuid_text (ir_request_id r)"
    and "jpeg_start (ir_encoded_jpeg r)"
  shows "decode_request unpackb (frame @ rest) = Inr r"
proof -
  let ?p = "packb (PDict (request_payload r))"
  have f: "frame = pack_be32 (length ?p) @ ?p" and n: "length ?p < 2 ^ 32"
    using assms(2) by (simp_all add: encode_request_def Let_def split: if_splits)
  have "unpack_be32 (take 4 (frame @ rest)) = length ?p" "take (length ?p) (drop 4 (frame @ rest)) = ?p"
    by (simp_all add: f unpack_pack_be32 [OF n])
  moreover have "length ?p \<le> GPU_MAX_FRAME_BYTES" using assms(3) by (simp add: f GPU_HEADER_SIZE_def)
  ultimately show ?thesis
    using assms(1,4-6) by (simp add: decode_request_def GPU_HEADER_SIZE_def f request_payload_def
        GPU_PROTOCOL_VERSION_def Let_def)
qed

text \<open>
  What the client returns was decoded from the answer of the worker whose turn it was, carries the
  identifier of the request and the status OK.
\<close>

lemma check_result_Inr:
  "check_result rid x = Inr y \<longleftrightarrow> x = y \<and> im_request_id y = rid \<and> im_status y = ''OK''"
  by (auto simp: check_result_def split: if_splits)

lemma read_reply_Inr:
  assumes "read_reply unpackb repr str_exc reply = Inr x"
  obtains n where "decode_result unpackb repr (take n (gr_bytes reply)) = Inr x"
proof -
  let ?h = "take GPU_HEADER_SIZE (gr_bytes reply)"
  from assms have "decode_result unpackb repr
      (?h @ take (unpack_be32 ?h) (drop GPU_HEADER_SIZE (gr_bytes reply))) = Inr x"
    by (auto simp: read_reply_def rbind_Inr_iff read_exact_def Let_def split: if_splits sum.splits)
  then have "decode_result unpackb repr (take (GPU_HEADER_SIZE + unpack_be32 ?h) (gr_bytes reply)) = Inr x"
    by (simp add: take_add)
  then show thesis by (rule that)
qed

theorem gpu_answer_matches:
  assumes "pool_process packb unpackb repr str_exc workers paths jpeg rid n = (Inr x, n')"
  shows "n' = n + 1 \<and> im_request_id x = rid \<and> im_status x = ''OK''
    \<and> (\<exists>frame reply k. workers (paths ! (n mod length paths)) frame = Inr reply
         \<and> decode_result unpackb repr (take k (gr_bytes reply)) = Inr x)"
proof -
  from assms obtain frame reply where n': "n' = n + 1"
    and w: "workers (paths ! (n mod length paths)) frame = Inr reply"
    and r: "rbind (read_reply unpackb repr str_exc reply) (check_result rid) = Inr x"
    by (auto simp: pool_process_def next_path_def Let_def split: sum.splits)
  from r have "read_reply unpackb repr str_exc reply = Inr x" "im_request_id x = rid" "im_status x = ''OK''"
    by (auto simp: rbind_Inr_iff check_result_Inr)
  then show ?thesis using read_reply_Inr [of unpackb repr str_exc reply x] n' w by metis
qed

end
