(* ===== verification/Face_Registry.thy ===== *)
theory Face_Registry
  imports Face_Samples Gpu_Protocol
begin

text \<open>
  The face API's services: \<open>src/backend/app/services/enrollment_service.py\<close>, \<open>recognition_service.py\<close>,
  \<open>identity_service.py\<close> and \<open>process_query_service.py\<close>, with the call of the matcher on the vector index
  (\<open>face_matcher.py\<close>). The image worker's answer to a request is an argument: it is what the pool of
  \<open>Gpu_Protocol\<close> returns. Metadata that reaches a service has been parsed.
\<close>

section \<open>Shared steps\<close>

definition fresh_id :: "('o, 'v) face_env \<Rightarrow> ('o, 'v, 'x, string) face_call" where
  "fresh_id env g = (g\<lparr>rg_generated := rg_generated g + 1\<rparr>, Inr (fv_fresh env (rg_generated g)))"

definition given_or_fresh :: "('o, 'v) face_env \<Rightarrow> string option \<Rightarrow> ('o, 'v, 'x, string) face_call" where
  "given_or_fresh env given =
     (case given of None \<Rightarrow> fresh_id env | Some s \<Rightarrow> if s = [] then fresh_id env else (\<lambda>g. (g, Inr s)))"

definition gpu_answer :: "gpu_exc + image_result \<Rightarrow> face_exc + image_result" where
  "gpu_answer r =
     (case r of Inl (GpuWorkerError _) \<Rightarrow> Inl GpuExc | Inl (GpuOther _) \<Rightarrow> Inl RawExc | Inr x \<Rightarrow> Inr x)"

definition answered :: "face_exc + 'a \<Rightarrow> ('o, 'v, 'x, 'a) face_call" where
  "answered r g = (g, r)"

definition box_of :: "gpu_face \<Rightarrow> pydict" where
  "box_of d =
     [(PStr ''x'', PFloat (gf_x d)), (PStr ''y'', PFloat (gf_y d)), (PStr ''width'', PFloat (gf_width d)),
      (PStr ''height'', PFloat (gf_height d))]"

definition landmarks_of :: "pyfloat list \<Rightarrow> face_exc + pydict" where
  "landmarks_of xs =
     (if length xs < 10 then Inl RawExc
      else Inr [(PStr ''points'',
        PList (map (\<lambda>i. PList [PFloat (xs ! (2 * i)), PFloat (xs ! (2 * i + 1))]) [0..<5]))])"

definition require_aligned_face_evidence :: "bytes \<Rightarrow> face_exc + bytes" where
  "require_aligned_face_evidence data = (if data = [] then Inl InferenceExc else Inr data)"

text \<open>A payload the index returns was written by the adapter, so its \<open>face_id\<close> is text or missing.\<close>

definition hit_of :: "scored_point \<Rightarrow> vector_hit" where
  "hit_of p =
     \<lparr>hit_face_id = (case sp_payload p of
        None \<Rightarrow> None
      | Some d \<Rightarrow> (case payload_value d ''face_id'' of PStr s \<Rightarrow> Some s | _ \<Rightarrow> None)),
      hit_sample_id = sp_id p, hit_score = sp_score p\<rparr>"

definition match_face :: "('o, 'v) face_env \<Rightarrow> pyfloat list \<Rightarrow> ('o, 'v, 'x, face_match option) face_call" where
  "match_face env embedding g =
     (case vector_search_batch (fv_qdrant env) (fv_qdrant_settings env) [embedding] 10 True
             (Some (fv_model_version env)) (Some (fv_preprocess_version env)) (rg_vectors g) of
        (v, Inl _) \<Rightarrow> (g\<lparr>rg_vectors := v\<rparr>, Inl RawExc)
      | (v, Inr []) \<Rightarrow> (g\<lparr>rg_vectors := v\<rparr>, Inl RawExc)
      | (v, Inr (hits # _)) \<Rightarrow>
          (g\<lparr>rg_vectors := v\<rparr>, Inr (face_match_of (fv_match_settings env) (rg_identities g) (map hit_of hits))))"

definition fail_process ::
  "('o, 'v) face_env \<Rightarrow> string \<Rightarrow> string \<Rightarrow> string \<Rightarrow> ('o, 'v, 'x) registry_scheme \<Rightarrow> ('o, 'v, 'x) registry_scheme" where
  "fail_process env pid etype code g =
     log_event pid etype [(PStr ''error_code'', PStr code)] (fv_now env)
       (g\<lparr>rg_processes := process_fail pid code (fv_now env) (rg_processes g)\<rparr>)"

definition reject_request :: "('o, 'v) face_env \<Rightarrow> string \<Rightarrow> string \<Rightarrow> string \<Rightarrow> string \<Rightarrow> ('o, 'v, 'x, unit) face_call" where
  "reject_request env pid ptype etype code =
     fbind (transaction (\<lambda>g. rbind (process_create pid ptype ''started'' 0 None [] (fv_now env) (rg_processes g))
              (\<lambda>ps. Inr (g\<lparr>rg_processes := process_fail pid code (fv_now env) ps\<rparr>, ()))))
       (\<lambda>_ g. (log_event pid etype [(PStr ''error_code'', PStr code)] (fv_now env) g, Inr ()))"

record face_view =
  fw_face_id :: string
  fw_status :: string
  fw_name :: "string option"
  fw_metadata :: "pydict option"
  fw_bounding_box :: pydict
  fw_confidence :: real

record face_answer =
  fa_process_id :: string
  fa_faces :: "face_view list"

text \<open>The details stored with a completed process, and those of its event.\<close>

definition faces_detail :: "(string \<times> string) list \<Rightarrow> pyval" where
  "faces_detail fs = PList (map (\<lambda>(f, s). PDict [(PStr ''face_id'', PStr f), (PStr ''status'', PStr s)]) fs)"

definition process_details :: "string \<Rightarrow> (string \<times> string) list \<Rightarrow> pydict" where
  "process_details operation fs =
     [(PStr ''operation'', PStr operation), (PStr ''face_count'', PInt (int (length fs))),
      (PStr ''faces'', faces_detail fs)]"

definition sample_args ::
  "string \<Rightarrow> string \<Rightarrow> string \<Rightarrow> gpu_face \<Rightarrow> bytes \<Rightarrow> pydict \<Rightarrow> string \<Rightarrow> string option \<Rightarrow> pydict option \<Rightarrow> persist_args" where
  "sample_args pid fid sid d evidence landmarks status name metadata =
     \<lparr>pa_process_id = pid, pa_face_id = fid, pa_sample_id = sid, pa_aligned_bytes = evidence,
      pa_media_type = ''image/jpeg'', pa_vector = gf_embedding d, pa_bounding_box = box_of d,
      pa_landmarks = Some landmarks, pa_quality = None, pa_identity_status = status, pa_name = name,
      pa_metadata = metadata, pa_manage_process = False\<rparr>"

section \<open>Enrollment\<close>

definition select_face :: "gpu_face list \<Rightarrow> face_exc + gpu_face" where
  "select_face faces =
     (case faces of
        [d] \<Rightarrow> Inr d
      | [] \<Rightarrow> Inl (ValidationExc ''NO_FACE'')
      | _ \<Rightarrow> Inl (ValidationExc ''MULTIPLE_FACES''))"

definition select_identity :: "('o, 'v) face_env \<Rightarrow> pyfloat list \<Rightarrow> string option \<Rightarrow> ('o, 'v, 'x, string) face_call" where
  "select_identity env embedding face_id =
     (case face_id of
        Some fid \<Rightarrow> (\<lambda>g. case get_active_by_id fid (rg_identities g) of
            None \<Rightarrow> (g, Inl NotFoundExc)
          | Some i \<Rightarrow> (g, Inr (fi_face_id i)))
      | None \<Rightarrow>
          fbind (match_face env embedding) (\<lambda>m.
            case m of None \<Rightarrow> fresh_id env | Some x \<Rightarrow> (\<lambda>g. (g, Inr (fi_face_id (fm_identity x))))))"

definition rename_existing :: "string \<Rightarrow> string \<Rightarrow> pydict \<Rightarrow> ('o, 'v, 'x, unit) face_call" where
  "rename_existing fid name metadata =
     transaction (\<lambda>g. case get_active_by_id fid (rg_identities g) of
        None \<Rightarrow> Inr (g, ())
      | Some i \<Rightarrow> rbind (update_known fid name (Some metadata) (rg_identities g))
          (\<lambda>(ids, _). Inr (g\<lparr>rg_identities := ids\<rparr>, ())))"

definition finish_enrollment ::
  "('o, 'v) face_env \<Rightarrow> string \<Rightarrow> string \<Rightarrow> string \<Rightarrow> string \<Rightarrow> string \<Rightarrow> pydict \<Rightarrow> gpu_face \<Rightarrow> ('o, 'v, 'x, unit) face_call"
where
  "finish_enrollment env pid fid sid rid name metadata d =
     fbind (transaction (\<lambda>g.
         rbind (result_create
             \<lparr>rr_result_id = rid, rr_process_id = pid, rr_detection_ordinal = 0, rr_face_id = fid,
              rr_status_snapshot = ''known'', rr_name_snapshot = Some name, rr_metadata_snapshot = metadata,
              rr_bounding_box = box_of d, rr_detector_confidence = gf_detector_confidence d,
              rr_match_confidence = 1, rr_matched_sample_id = Some sid, rr_created_at = fv_now env\<rparr> g)
           (\<lambda>g'. Inr (g'\<lparr>rg_processes := process_complete pid 1
                  (process_details ''enroll'' [(fid, ''known'')]) (fv_now env) (rg_processes g')\<rparr>, ()))))
       (\<lambda>_ g. (log_event pid ''enrollment_completed''
                 [(PStr ''face_id'', PStr fid), (PStr ''status'', PStr ''known'')] (fv_now env) g, Inr ()))"

definition enroll_body ::
  "('o, 'v) face_env \<Rightarrow> gpu_exc + image_result \<Rightarrow> string \<Rightarrow> pydict \<Rightarrow> string option \<Rightarrow> string \<Rightarrow>
   ('o, 'v, 'x, face_answer) face_call"
where
  "enroll_body env answer name metadata face_id pid =
     fbind (answered (gpu_answer answer)) (\<lambda>result.
     fbind (answered (select_face (im_faces result))) (\<lambda>d.
     fbind (select_identity env (gf_embedding d) face_id) (\<lambda>fid.
     fbind (rename_existing fid name metadata) (\<lambda>_.
     fbind (fresh_id env) (\<lambda>sid.
     fbind (answered (require_aligned_face_evidence (gf_aligned_jpeg d))) (\<lambda>evidence.
     fbind (answered (landmarks_of (gf_landmarks_xy d))) (\<lambda>landmarks.
     fbind (persist_sample env
              (sample_args pid fid sid d evidence landmarks ''known'' (Some name) (Some metadata))) (\<lambda>_.
     fbind (fresh_id env) (\<lambda>rid.
     fbind (finish_enrollment env pid fid sid rid name metadata d) (\<lambda>_.
       answered (Inr \<lparr>fa_process_id = pid, fa_faces =
         [\<lparr>fw_face_id = fid, fw_status = ''known'', fw_name = Some name, fw_metadata = Some metadata,
           fw_bounding_box = box_of d, fw_confidence = 1\<rparr>]\<rparr>)))))))))))"

text \<open>The \<open>except\<close> clauses: the code the process is failed with, and the exception that is raised.\<close>

definition enroll_failure :: "face_exc \<Rightarrow> string \<times> face_exc" where
  "enroll_failure e =
     (case e of
        ValidationExc code \<Rightarrow> (code, e)
      | NotFoundExc \<Rightarrow> (''NOT_FOUND'', e)
      | GpuExc \<Rightarrow> (''INFERENCE_ERROR'', InferenceExc)
      | InferenceExc \<Rightarrow> (''INFERENCE_ERROR'', e)
      | RawExc \<Rightarrow> (''ENROLLMENT_ERROR'', InferenceExc)
      | _ \<Rightarrow> (''ENROLLMENT_ERROR'', e))"

definition enroll ::
  "('o, 'v) face_env \<Rightarrow> gpu_exc + image_result \<Rightarrow> string \<Rightarrow> pydict \<Rightarrow> string option \<Rightarrow> string option \<Rightarrow>
   ('o, 'v, 'x, face_answer) face_call"
where
  "enroll env answer name metadata face_id process_id =
     (if py_strip name = [] then answered (Inl (ValidationExc ''INVALID_NAME''))
      else fbind (given_or_fresh env process_id) (\<lambda>pid.
           fbind (start_process pid ''enroll'' (fv_now env)) (\<lambda>_ g.
             case enroll_body env answer (py_strip name) metadata face_id pid g of
               (g', Inr a) \<Rightarrow> (g', Inr a)
             | (g', Inl e) \<Rightarrow>
                 (fail_process env pid ''enrollment_failed'' (fst (enroll_failure e)) g', Inl (snd (enroll_failure e))))))"

section \<open>Recognition\<close>

record face_snapshot =
  sn_view :: face_view
  sn_detector_confidence :: pyfloat
  sn_matched_sample_id :: string

definition snapshot_matched :: "gpu_face \<Rightarrow> face_match \<Rightarrow> face_snapshot" where
  "snapshot_matched d m =
     (let i = fm_identity m; known = fi_lifecycle_status i = ''known''
      in \<lparr>sn_view =
            \<lparr>fw_face_id = fi_face_id i, fw_status = fi_lifecycle_status i,
             fw_name = (if known then fi_name i else None),
             fw_metadata = (if known then Some (fi_metadata i) else None),
             fw_bounding_box = box_of d, fw_confidence = fm_score m\<rparr>,
          sn_detector_confidence = gf_detector_confidence d, sn_matched_sample_id = fm_sample_id m\<rparr>)"

definition snapshot_new :: "gpu_face \<Rightarrow> string \<Rightarrow> string \<Rightarrow> face_snapshot" where
  "snapshot_new d fid sid =
     \<lparr>sn_view =
        \<lparr>fw_face_id = fid, fw_status = ''new_anonymous'', fw_name = None, fw_metadata = None,
         fw_bounding_box = box_of d, fw_confidence = 0\<rparr>,
      sn_detector_confidence = gf_detector_confidence d, sn_matched_sample_id = sid\<rparr>"

definition recognize_face :: "('o, 'v) face_env \<Rightarrow> string \<Rightarrow> gpu_face \<Rightarrow> ('o, 'v, 'x, face_snapshot) face_call" where
  "recognize_face env pid d =
     fbind (match_face env (gf_embedding d)) (\<lambda>m.
       case m of
         Some x \<Rightarrow> answered (Inr (snapshot_matched d x))
       | None \<Rightarrow>
           fbind (fresh_id env) (\<lambda>fid.
           fbind (fresh_id env) (\<lambda>sid.
           fbind (answered (require_aligned_face_evidence (gf_aligned_jpeg d))) (\<lambda>evidence.
           fbind (answered (landmarks_of (gf_landmarks_xy d))) (\<lambda>landmarks.
           fbind (persist_sample env (sample_args pid fid sid d evidence landmarks ''anonymous'' None None)) (\<lambda>_.
             answered (Inr (snapshot_new d fid sid))))))))"

fun recognize_faces :: "('o, 'v) face_env \<Rightarrow> string \<Rightarrow> gpu_face list \<Rightarrow> ('o, 'v, 'x, face_snapshot list) face_call" where
  "recognize_faces env pid [] = answered (Inr [])"
| "recognize_faces env pid (d # ds) =
     fbind (recognize_face env pid d) (\<lambda>s. fbind (recognize_faces env pid ds) (\<lambda>ss. answered (Inr (s # ss))))"

definition result_of :: "('o, 'v) face_env \<Rightarrow> string \<Rightarrow> string \<Rightarrow> nat \<Rightarrow> face_snapshot \<Rightarrow> recognition_result" where
  "result_of env pid rid n s =
     (let v = sn_view s
      in \<lparr>rr_result_id = rid, rr_process_id = pid, rr_detection_ordinal = int n, rr_face_id = fw_face_id v,
          rr_status_snapshot = fw_status v, rr_name_snapshot = fw_name v,
          rr_metadata_snapshot = (case fw_metadata v of None \<Rightarrow> [] | Some m \<Rightarrow> m),
          rr_bounding_box = fw_bounding_box v, rr_detector_confidence = sn_detector_confidence s,
          rr_match_confidence = fw_confidence v, rr_matched_sample_id = Some (sn_matched_sample_id s),
          rr_created_at = fv_now env\<rparr>)"

fun store_results ::
  "('o, 'v) face_env \<Rightarrow> string \<Rightarrow> nat \<Rightarrow> face_snapshot list \<Rightarrow> ('o, 'v, 'x) registry_scheme \<Rightarrow> ('o, 'v, 'x) registry_scheme result" where
  "store_results env pid n [] g = Inr g"
| "store_results env pid n (s # ss) g =
     rbind (result_create (result_of env pid (fv_fresh env (rg_generated g)) n s)
              (g\<lparr>rg_generated := rg_generated g + 1\<rparr>))
       (store_results env pid (n + 1) ss)"

definition face_pairs :: "face_snapshot list \<Rightarrow> (string \<times> string) list" where
  "face_pairs ss = map (\<lambda>s. (fw_face_id (sn_view s), fw_status (sn_view s))) ss"

definition finish_recognition :: "('o, 'v) face_env \<Rightarrow> string \<Rightarrow> face_snapshot list \<Rightarrow> ('o, 'v, 'x, unit) face_call" where
  "finish_recognition env pid ss =
     fbind (transaction (\<lambda>g. rbind (store_results env pid 0 ss g) (\<lambda>g'.
         Inr (g'\<lparr>rg_processes := process_complete pid (int (length ss))
                (process_details ''recognize'' (face_pairs ss)) (fv_now env) (rg_processes g')\<rparr>, ()))))
       (\<lambda>_ g. (log_event pid ''recognition_completed''
                 [(PStr ''face_count'', PInt (int (length ss))), (PStr ''faces'', faces_detail (face_pairs ss))]
                 (fv_now env) g, Inr ()))"

definition recognize_body :: "('o, 'v) face_env \<Rightarrow> gpu_exc + image_result \<Rightarrow> string \<Rightarrow> ('o, 'v, 'x, face_answer) face_call" where
  "recognize_body env answer pid =
     fbind (answered (gpu_answer answer)) (\<lambda>result.
     fbind (recognize_faces env pid (im_faces result)) (\<lambda>ss.
     fbind (finish_recognition env pid ss) (\<lambda>_.
       answered (Inr \<lparr>fa_process_id = pid, fa_faces = map sn_view ss\<rparr>))))"

definition recognize_failure :: "face_exc \<Rightarrow> string \<times> face_exc" where
  "recognize_failure e =
     (case e of
        GpuExc \<Rightarrow> (''INFERENCE_ERROR'', InferenceExc)
      | RawExc \<Rightarrow> (''INTERNAL_ERROR'', InferenceExc)
      | _ \<Rightarrow> (exc_code e, e))"

definition recognize ::
  "('o, 'v) face_env \<Rightarrow> gpu_exc + image_result \<Rightarrow> string option \<Rightarrow> ('o, 'v, 'x, face_answer) face_call" where
  "recognize env answer process_id =
     fbind (given_or_fresh env process_id) (\<lambda>pid.
     fbind (start_process pid ''recognize'' (fv_now env)) (\<lambda>_ g.
       case recognize_body env answer pid g of
         (g', Inr a) \<Rightarrow> (g', Inr a)
       | (g', Inl e) \<Rightarrow>
           (fail_process env pid ''recognition_failed'' (fst (recognize_failure e)) g', Inl (snd (recognize_failure e)))))"

section \<open>Identities\<close>

record identity_view =
  iv_process_id :: "string option"
  iv_face_id :: string
  iv_status :: string
  iv_name :: "string option"
  iv_metadata :: "pydict option"
  iv_is_active :: bool
  iv_sample_count :: nat

definition identity_dict :: "face_identity \<Rightarrow> nat \<Rightarrow> string option \<Rightarrow> identity_view" where
  "identity_dict i n pid =
     (let known = fi_lifecycle_status i = ''known''
      in \<lparr>iv_process_id = pid, iv_face_id = fi_face_id i, iv_status = fi_lifecycle_status i,
          iv_name = (if known then fi_name i else None), iv_metadata = (if known then Some (fi_metadata i) else None),
          iv_is_active = fi_is_active i, iv_sample_count = n\<rparr>)"

definition get_identity :: "string \<Rightarrow> string option \<Rightarrow> ('o, 'v, 'x, identity_view) face_call" where
  "get_identity fid pid g =
     (case get_active_by_id fid (rg_identities g) of
        None \<Rightarrow> (g, Inl NotFoundExc)
      | Some i \<Rightarrow> (g, Inr (identity_dict i (length (list_by_face fid True (rg_samples g))) pid)))"

definition open_process :: "('o, 'v) face_env \<Rightarrow> string \<Rightarrow> string \<Rightarrow> ('o, 'v, 'x) registry_scheme \<Rightarrow> ('o, 'v, 'x) registry_scheme result" where
  "open_process env pid ptype g =
     rbind (process_create pid ptype ''started'' 0 None [] (fv_now env) (rg_processes g)) (\<lambda>ps.
       Inr (g\<lparr>rg_processes := ps\<rparr>))"

definition settle_single ::
  "('o, 'v) face_env \<Rightarrow> string \<Rightarrow> string \<Rightarrow> face_identity \<Rightarrow> ('o, 'v, 'x) registry_scheme \<Rightarrow> ('o, 'v, 'x) registry_scheme" where
  "settle_single env pid operation i g =
     g\<lparr>rg_processes := process_complete pid 1
         (process_details operation [(fi_face_id i, fi_lifecycle_status i)]) (fv_now env) (rg_processes g)\<rparr>"

definition settle_missing :: "('o, 'v) face_env \<Rightarrow> string \<Rightarrow> ('o, 'v, 'x) registry_scheme \<Rightarrow> ('o, 'v, 'x) registry_scheme" where
  "settle_missing env pid g = g\<lparr>rg_processes := process_fail pid ''NOT_FOUND'' (fv_now env) (rg_processes g)\<rparr>"

definition update_identity_tx ::
  "('o, 'v) face_env \<Rightarrow> string \<Rightarrow> string \<Rightarrow> string \<Rightarrow> pydict \<Rightarrow> ('o, 'v, 'x) registry_scheme \<Rightarrow>
   (('o, 'v, 'x) registry_scheme \<times> identity_view option) result"
where
  "update_identity_tx env pid fid name metadata g =
     rbind (open_process env pid ''update'' g) (\<lambda>g1.
     rbind (update_known fid name (Some metadata) (rg_identities g1)) (\<lambda>(ids, found).
       case found of
         None \<Rightarrow> Inr (settle_missing env pid g1, None)
       | Some i \<Rightarrow>
           Inr (settle_single env pid ''update'' i (g1\<lparr>rg_identities := ids\<rparr>),
                Some (identity_dict i (length (list_by_face fid True (rg_samples g1))) (Some pid)))))"

definition update_identity ::
  "('o, 'v) face_env \<Rightarrow> string \<Rightarrow> string \<Rightarrow> pydict \<Rightarrow> ('o, 'v, 'x, identity_view) face_call" where
  "update_identity env fid name metadata =
     (if py_strip name = [] then answered (Inl (ValidationExc ''INVALID_NAME''))
      else fbind (fresh_id env) (\<lambda>pid.
           fbind (transaction (update_identity_tx env pid fid (py_strip name) metadata)) (\<lambda>r.
             case r of
               None \<Rightarrow> answered (Inl NotFoundExc)
             | Some v \<Rightarrow> (\<lambda>g. (log_event pid ''identity_updated'' [(PStr ''face_id'', PStr fid)] (fv_now env) g, Inr v)))))"

definition delete_identity_tx ::
  "('o, 'v) face_env \<Rightarrow> string \<Rightarrow> string \<Rightarrow> ('o, 'v, 'x) registry_scheme \<Rightarrow>
   (('o, 'v, 'x) registry_scheme \<times> string list option) result"
where
  "delete_identity_tx env pid fid g =
     rbind (open_process env pid ''delete'' g) (\<lambda>g1.
     rbind (identity_soft_delete fid (fv_now env) (rg_identities g1)) (\<lambda>(ids, found).
       case found of
         None \<Rightarrow> Inr (settle_missing env pid g1, None)
       | Some i \<Rightarrow>
           (case deactivate_by_face fid (rg_samples g1) of (ss, sids) \<Rightarrow>
              Inr (settle_single env pid ''delete'' i (g1\<lparr>rg_identities := ids, rg_samples := ss\<rparr>), Some sids))))"

text \<open>The vectors are deactivated after the commit; the first failure leaves the rest as they are.\<close>

fun deactivate_vectors :: "('o, 'v) face_env \<Rightarrow> string list \<Rightarrow> ('o, 'v, 'x, unit) face_call" where
  "deactivate_vectors env [] g = (g, Inr ())"
| "deactivate_vectors env (sid # sids) g =
     (case vector_deactivate (fv_qdrant env) (fv_qdrant_settings env) sid (rg_vectors g) of
        (v, Inl _) \<Rightarrow> (g\<lparr>rg_vectors := v\<rparr>, Inl RawExc)
      | (v, Inr _) \<Rightarrow> deactivate_vectors env sids (g\<lparr>rg_vectors := v\<rparr>))"

definition delete_identity :: "('o, 'v) face_env \<Rightarrow> string \<Rightarrow> ('o, 'v, 'x, string) face_call" where
  "delete_identity env fid =
     fbind (fresh_id env) (\<lambda>pid.
     fbind (transaction (delete_identity_tx env pid fid)) (\<lambda>r.
       case r of
         None \<Rightarrow> answered (Inl NotFoundExc)
       | Some sids \<Rightarrow>
           fbind (deactivate_vectors env sids) (\<lambda>_ g.
             (log_event pid ''identity_deleted''
                [(PStr ''face_id'', PStr fid), (PStr ''sample_count'', PInt (int (length sids)))] (fv_now env) g,
              Inr pid))))"

definition identity_history :: "string \<Rightarrow> ('o, 'v, 'x) registry_scheme \<Rightarrow> face_exc + (string \<times> time \<times> string) list" where
  "identity_history fid g =
     (case get_by_id fid (rg_identities g) of
        None \<Rightarrow> Inl NotFoundExc
      | Some _ \<Rightarrow> Inr (map (\<lambda>r. (rr_process_id r, rr_created_at r, rr_status_snapshot r)) (results_by_face fid (rg_results g))))"

section \<open>Processes\<close>

record process_view =
  pw_process :: process_record
  pw_faces :: "face_view list"
  pw_events :: "(string \<times> pydict \<times> time) list"

definition result_view :: "recognition_result \<Rightarrow> face_view" where
  "result_view r =
     \<lparr>fw_face_id = rr_face_id r, fw_status = rr_status_snapshot r, fw_name = rr_name_snapshot r,
      fw_metadata = (if rr_status_snapshot r = ''known'' then Some (rr_metadata_snapshot r) else None),
      fw_bounding_box = rr_bounding_box r, fw_confidence = rr_match_confidence r\<rparr>"

definition query_process :: "string \<Rightarrow> ('o, 'v, 'x) registry_scheme \<Rightarrow> face_exc + process_view" where
  "query_process pid g =
     (case row_get pr_process_id pid (rg_processes g) of
        None \<Rightarrow> Inl NotFoundExc
      | Some p \<Rightarrow>
          Inr \<lparr>pw_process = p, pw_faces = map result_view (results_by_process pid (rg_results g)),
               pw_events = map (\<lambda>e. (pe_event_type e, pe_details e, pe_created_at e))
                 (events_by_process pid (rg_events g))\<rparr>)"

end
