(* ===== verification/Face_Steps.thy ===== *)
theory Face_Steps
  imports Face_Registry
begin

text \<open>
  The transactions of the face services as a step relation on the registry, the refinement of the
  services by it, and what holds in every reachable registry: whatever interleaving of enrollments,
  recognitions, updates and deletions, each is a sequence of these steps.
\<close>

section \<open>Transactions\<close>

inductive registry_step :: "('o, 'v) face_env \<Rightarrow> ('o, 'v) registry \<Rightarrow> ('o, 'v) registry \<Rightarrow> bool" for env where
  step_stores: "registry_step env g (g\<lparr>rg_objects := objs, rg_vectors := vecs, rg_generated := n\<rparr>)"
| step_event: "event_create pid etype details now g = Inr g' \<Longrightarrow> registry_step env g g'"
| step_open: "process_create pid ptype ''started'' 0 None [] now (rg_processes g) = Inr ps \<Longrightarrow>
    registry_step env g (g\<lparr>rg_processes := ps\<rparr>)"
| step_reject: "process_create pid ptype ''started'' 0 None [] now (rg_processes g) = Inr ps \<Longrightarrow>
    registry_step env g (g\<lparr>rg_processes := process_fail pid code now ps\<rparr>)"
| step_fail: "registry_step env g (g\<lparr>rg_processes := process_fail pid code now (rg_processes g)\<rparr>)"
| step_ensure: "ensure_identity_and_sample a g = Inr (g', x) \<Longrightarrow> registry_step env g g'"
| step_blob: "update_blob_ready (rg_identities g) sid b (rg_samples g) = Inr ss \<Longrightarrow>
    registry_step env g (g\<lparr>rg_samples := ss\<rparr>)"
| step_active: "set_active sid (rg_samples g) = (ss, Some s) \<Longrightarrow>
    ps = (if managed then process_complete pid 1 [] now (rg_processes g) else rg_processes g) \<Longrightarrow>
    registry_step env g (g\<lparr>rg_samples := ss, rg_processes := ps\<rparr>)"
| step_failed: "registry_step env g
    (g\<lparr>rg_samples := set_failed sid code (rg_samples g), rg_processes := process_fail pid code now (rg_processes g)\<rparr>)"
| step_inactive: "registry_step env g (g\<lparr>rg_samples := set_inactive sid (rg_samples g)\<rparr>)"
| step_rename: "update_known fid name (Some metadata) (rg_identities g) = Inr (ids, found) \<Longrightarrow>
    registry_step env g (g\<lparr>rg_identities := ids\<rparr>)"
| step_update: "update_identity_tx env pid fid name metadata g = Inr (g', x) \<Longrightarrow> registry_step env g g'"
| step_delete: "delete_identity_tx env pid fid g = Inr (g', y) \<Longrightarrow> registry_step env g g'"
| step_enrolled: "result_create r g = Inr g' \<Longrightarrow>
    registry_step env g (g'\<lparr>rg_processes := process_complete pid n details now (rg_processes g')\<rparr>)"
| step_recognized: "store_results env pid m ss g = Inr g' \<Longrightarrow>
    registry_step env g (g'\<lparr>rg_processes := process_complete pid n details now (rg_processes g')\<rparr>)"

abbreviation registry_steps :: "('o, 'v) face_env \<Rightarrow> ('o, 'v) registry \<Rightarrow> ('o, 'v) registry \<Rightarrow> bool" where
  "registry_steps env \<equiv> (registry_step env)\<^sup>*\<^sup>*"

text \<open>A call that only performs steps, and how such calls compose.\<close>

definition stepping :: "('o, 'v) face_env \<Rightarrow> ('o, 'v, unit, 'a) face_call \<Rightarrow> bool" where
  "stepping env m = (\<forall>g. registry_steps env g (fst (m g)))"

lemma steppingD: "stepping env m \<Longrightarrow> m g = (g', r) \<Longrightarrow> registry_steps env g g'"
  by (metis fst_conv stepping_def)

lemma steppingI: "(\<And>g g' r. m g = (g', r) \<Longrightarrow> registry_steps env g g') \<Longrightarrow> stepping env m"
  by (metis prod.collapse stepping_def)

lemma stepping_fbind [intro]:
  assumes "stepping env m" and "\<And>x. stepping env (f x)"
  shows "stepping env (fbind m f)"
proof (rule steppingI)
  fix g g' r
  assume b: "fbind m f g = (g', r)"
  obtain g1 r1 where m: "m g = (g1, r1)" by fastforce
  have m': "registry_steps env g g1" using steppingD [OF assms(1) m] .
  show "registry_steps env g g'"
  proof (cases r1)
    case (Inl e)
    with b m m' show ?thesis by (simp add: fbind_def)
  next
    case (Inr x)
    with b m have "f x g1 = (g', r)" by (simp add: fbind_def)
    from steppingD [OF assms(2) this] m' show ?thesis by (rule rtranclp_trans [rotated])
  qed
qed

lemma stepping_answered [intro, simp]: "stepping env (answered r)"
  by (simp add: stepping_def answered_def)

lemma stepping_return [intro, simp]: "stepping env (\<lambda>g. (g, r))"
  by (simp add: stepping_def)

lemma stepping_transaction:
  assumes "\<And>g g' x. tx g = Inr (g', x) \<Longrightarrow> registry_step env g g'"
  shows "stepping env (transaction tx)"
  using assms by (auto simp: stepping_def transaction_def split: sum.splits)

lemma stores_steps: "registry_step env g (g\<lparr>rg_objects := objs\<rparr>)" "registry_step env g (g\<lparr>rg_vectors := vecs\<rparr>)"
  "registry_step env g (g\<lparr>rg_generated := n\<rparr>)"
  using step_stores [where g = g and env = env and objs = objs and vecs = "rg_vectors g" and n = "rg_generated g"]
    step_stores [where g = g and env = env and objs = "rg_objects g" and vecs = vecs and n = "rg_generated g"]
    step_stores [where g = g and env = env and objs = "rg_objects g" and vecs = "rg_vectors g" and n = n] by simp_all

lemma step_first: "registry_step env a b \<Longrightarrow> registry_steps env b c \<Longrightarrow> registry_steps env a c"
  by (rule converse_rtranclp_into_rtranclp)

lemma log_event_steps [intro]: "registry_steps env g (log_event pid etype details now g)"
  by (auto simp: log_event_def intro: step_event split: sum.splits)

lemma stepping_log [intro]: "stepping env (\<lambda>g. (log_event pid etype details now g, r))"
  by (auto simp: stepping_def)

lemma stepping_fresh [intro]: "stepping env (fresh_id env)"
  by (auto simp: stepping_def fresh_id_def intro: stores_steps)

lemma stepping_given [intro]: "stepping env (given_or_fresh env given)"
  by (auto simp: given_or_fresh_def split: option.splits)

lemma stepping_match [intro]: "stepping env (match_face env embedding)"
  by (auto simp: stepping_def match_face_def intro: stores_steps split: prod.splits sum.splits list.splits)

lemma stepping_start [intro]: "stepping env (start_process pid ptype now)"
  unfolding start_process_def by (rule stepping_transaction) (auto simp: rbind_Inr_iff intro: step_open)

section \<open>The services refine the transactions\<close>

lemma record_failure_steps [intro]:
  "registry_steps env g (record_failure env a code g)"
  unfolding record_failure_def
  by (rule step_first [OF step_failed]) (rule log_event_steps)

lemma stepping_store_object [intro]: "stepping env (store_object env a)"
  by (auto simp: stepping_def store_object_def split: prod.splits sum.splits
      intro: step_first [OF stores_steps(1)] stores_steps)

lemma stepping_store_vector [intro]: "stepping env (store_vector env a)"
  by (auto simp: stepping_def store_vector_def split: prod.splits sum.splits
      intro: step_first [OF stores_steps(2)] stores_steps)

lemma stepping_record_blob [intro]: "stepping env (record_blob env a sha)"
  unfolding record_blob_def by (rule stepping_transaction) (auto simp: rbind_Inr_iff intro: step_blob)

lemma stepping_activate [intro]: "stepping env (activate_sample env a)"
proof (rule steppingI)
  fix g g' :: "('a, 'b) registry" and r
  assume h: "activate_sample env a g = (g', r)"
  obtain ss os where s: "set_active (pa_sample_id a) (rg_samples g) = (ss, os)" by fastforce
  show "registry_steps env g g'"
  proof (cases os)
    case None
    with h s show ?thesis by (auto simp: activate_sample_def)
  next
    case (Some x)
    from step_active [OF s [unfolded Some] refl, of env "pa_manage_process a" "pa_process_id a" "fv_now env"] h s Some
    show ?thesis by (auto simp: activate_sample_def split: if_splits)
  qed
qed

lemma stepping_persist [intro]: "stepping env (persist_sample env a)"
proof -
  have new: "stepping env (persist_new env a)"
    unfolding persist_new_def persist_event_def by (intro stepping_fbind) (auto split: if_splits)
  have "stepping env (transaction (ensure_identity_and_sample a))"
    by (rule stepping_transaction) (rule step_ensure)
  then show ?thesis unfolding persist_sample_def
    by (rule stepping_fbind) (auto simp: new split: option.splits)
qed

lemma stepping_rename [intro]: "stepping env (rename_existing fid name metadata)"
  unfolding rename_existing_def
proof (rule stepping_transaction)
  fix g g' :: "('a, 'b) registry" and x
  assume h: "(case get_active_by_id fid (rg_identities g) of None \<Rightarrow> Inr (g, ())
     | Some i \<Rightarrow> rbind (update_known fid name (Some metadata) (rg_identities g))
         (\<lambda>(ids, _). Inr (g\<lparr>rg_identities := ids\<rparr>, ()))) = Inr (g', x)"
  show "registry_step env g g'"
  proof (cases "get_active_by_id fid (rg_identities g)")
    case None
    with h stores_steps(3) [of env g "rg_generated g"] show ?thesis by simp
  next
    case (Some i)
    with h show ?thesis by (auto simp: rbind_Inr_iff intro: step_rename)
  qed
qed

lemma stepping_select [intro]: "stepping env (select_identity env embedding face_id)"
proof (cases face_id)
  case None
  have "stepping env (case m of None \<Rightarrow> fresh_id env | Some x \<Rightarrow> (\<lambda>g. (g, Inr (fi_face_id (fm_identity x)))))" for m
    by (cases m) auto
  then show ?thesis by (auto simp: select_identity_def None)
next
  case (Some fid)
  then show ?thesis by (auto simp: select_identity_def stepping_def split: option.splits)
qed

lemma stepping_finish_enrollment [intro]: "stepping env (finish_enrollment env pid fid sid rid name metadata d)"
  unfolding finish_enrollment_def
  by (intro stepping_fbind stepping_log stepping_transaction) (auto simp: rbind_Inr_iff intro: step_enrolled)

lemma stepping_finish_recognition [intro]: "stepping env (finish_recognition env pid ss)"
  unfolding finish_recognition_def
  by (intro stepping_fbind stepping_log stepping_transaction) (auto simp: rbind_Inr_iff intro: step_recognized)

lemma fail_process_steps [intro]: "registry_steps env g (fail_process env pid etype code g)"
  unfolding fail_process_def
  by (rule step_first [OF step_fail]) (rule log_event_steps)

lemma stepping_guarded:
  assumes "stepping env body"
  shows "stepping env (\<lambda>g. case body g of (g', Inr a) \<Rightarrow> (g', Inr a)
    | (g', Inl e) \<Rightarrow> (fail_process env pid etype (code e) g', Inl (raised e)))"
proof (rule steppingI)
  fix g g' r
  assume h: "(case body g of (g', Inr a) \<Rightarrow> (g', Inr a)
    | (g', Inl e) \<Rightarrow> (fail_process env pid etype (code e) g', Inl (raised e))) = (g', r)"
  obtain g1 r1 where b: "body g = (g1, r1)" by fastforce
  from steppingD [OF assms b] h b show "registry_steps env g g'"
    by (cases r1) (auto intro: rtranclp_trans)
qed

lemma stepping_enroll_body [intro]: "stepping env (enroll_body env answer name metadata face_id pid)"
  unfolding enroll_body_def by (intro stepping_fbind) auto

lemma stepping_recognize_face [intro]: "stepping env (recognize_face env pid d)"
proof -
  have "stepping env (case m of Some x \<Rightarrow> answered (Inr (snapshot_matched d x))
       | None \<Rightarrow>
           fbind (fresh_id env) (\<lambda>fid. fbind (fresh_id env) (\<lambda>sid.
           fbind (answered (require_aligned_face_evidence (gf_aligned_jpeg d))) (\<lambda>evidence.
           fbind (answered (landmarks_of (gf_landmarks_xy d))) (\<lambda>landmarks.
           fbind (persist_sample env (sample_args pid fid sid d evidence landmarks ''anonymous'' None None)) (\<lambda>_.
             answered (Inr (snapshot_new d fid sid))))))))" for m
  proof (cases m)
    case None
    show ?thesis unfolding None option.case by (intro stepping_fbind) auto
  qed simp
  then show ?thesis unfolding recognize_face_def by (intro stepping_fbind) auto
qed

lemma stepping_recognize_faces [intro]: "stepping env (recognize_faces env pid ds)"
  by (induction ds) auto

lemma stepping_recognize_body [intro]: "stepping env (recognize_body env answer pid)"
  unfolding recognize_body_def by (intro stepping_fbind) auto

lemma stepping_enroll [intro]: "stepping env (enroll env answer name metadata face_id process_id)"
  unfolding enroll_def by (auto intro!: stepping_fbind stepping_guarded)

lemma stepping_recognize [intro]: "stepping env (recognize env answer process_id)"
  unfolding recognize_def by (auto intro!: stepping_fbind stepping_guarded)

lemma stepping_update [intro]: "stepping env (update_identity env fid name metadata)"
proof -
  have "stepping env (transaction (update_identity_tx env pid fid (py_strip name) metadata))" for pid
    by (rule stepping_transaction) (rule step_update)
  moreover have "stepping env (case r of None \<Rightarrow> answered (Inl NotFoundExc)
      | Some v \<Rightarrow> (\<lambda>g. (log_event pid etype details now g, Inr v)))" for r pid etype details now
    by (cases r) auto
  ultimately show ?thesis unfolding update_identity_def by (auto intro!: stepping_fbind)
qed

lemma stepping_deactivate [intro]: "stepping env (deactivate_vectors env sids)"
proof (induction sids)
  case (Cons sid sids)
  show ?case
    by (auto simp: stepping_def split: prod.splits sum.splits
        intro: step_first [OF stores_steps(2)] Cons [unfolded stepping_def, rule_format] stores_steps)
qed (simp add: stepping_def)

lemma stepping_delete [intro]: "stepping env (delete_identity env fid)"
proof -
  have "stepping env (transaction (delete_identity_tx env pid fid))" for pid
    by (rule stepping_transaction) (rule step_delete)
  moreover have "stepping env (case r of None \<Rightarrow> answered (Inl NotFoundExc)
      | Some sids \<Rightarrow> fbind (deactivate_vectors env sids) (\<lambda>_ g. (log_event pid etype (details sids) now g, Inr pid)))"
    for r pid etype details now
    by (cases r) (auto intro!: stepping_fbind)
  ultimately show ?thesis unfolding delete_identity_def by (intro stepping_fbind) auto
qed

lemma stepping_reject [intro]: "stepping env (reject_request env pid ptype etype code)"
  unfolding reject_request_def
  by (intro stepping_fbind stepping_log stepping_transaction) (auto simp: rbind_Inr_iff intro: step_reject)

section \<open>What every step keeps\<close>

definition face_ids :: "('o, 'v) registry \<Rightarrow> string set" where
  "face_ids g = fi_face_id ` set (rg_identities g)"

definition process_ids :: "('o, 'v) registry \<Rightarrow> string list" where
  "process_ids g = map pr_process_id (rg_processes g)"

definition sample_ids :: "('o, 'v) registry \<Rightarrow> string set" where
  "sample_ids g = fs_sample_id ` set (rg_samples g)"

definition registry_ok :: "('o, 'v) registry \<Rightarrow> bool" where
  "registry_ok g =
     (identities_ok (rg_identities g) \<and> samples_ok (rg_identities g) (rg_samples g)
      \<and> results_ok g (rg_results g) \<and> distinct (process_ids g) \<and> list_all process_ok (rg_processes g)
      \<and> (\<forall>e \<in> set (rg_events g). pe_process_id e \<in> set (process_ids g)))"

lemma checked_Inr [simp]: "checked ok rows = Inr rs \<longleftrightarrow> ok rows \<and> rs = rows"
  by (auto simp: checked_def)

text \<open>Tables only grow in their keys, so references stay valid.\<close>

lemma samples_ok_mono:
  "samples_ok ids ss \<Longrightarrow> fi_face_id ` set ids \<subseteq> fi_face_id ` set ids' \<Longrightarrow> samples_ok ids' ss"
  by (auto simp: samples_ok_def list_all_iff)

lemma results_ok_mono:
  assumes "results_ok g rs" and "set (process_ids g) \<subseteq> set (process_ids g')" and "face_ids g \<subseteq> face_ids g'"
    and "sample_ids g \<subseteq> sample_ids g'"
  shows "results_ok g' rs"
proof -
  let ?ok = "\<lambda>h r. rr_status_snapshot r \<in> set RESULT_STATUSES
     \<and> rr_process_id r \<in> pr_process_id ` set (rg_processes h) \<and> rr_face_id r \<in> fi_face_id ` set (rg_identities h)
     \<and> (case rr_matched_sample_id r of None \<Rightarrow> True | Some s \<Rightarrow> s \<in> fs_sample_id ` set (rg_samples h))"
  have sub: "pr_process_id ` set (rg_processes g) \<subseteq> pr_process_id ` set (rg_processes g')"
    "fi_face_id ` set (rg_identities g) \<subseteq> fi_face_id ` set (rg_identities g')"
    "fs_sample_id ` set (rg_samples g) \<subseteq> fs_sample_id ` set (rg_samples g')"
    using assms(2-4) by (simp_all add: process_ids_def face_ids_def sample_ids_def)
  have "?ok g' r" if "?ok g r" for r
    using that sub by (cases "rr_matched_sample_id r"; simp; blast)
  with assms(1) show ?thesis unfolding results_ok_def list_all_iff by blast
qed

lemma samples_ok_rows:
  assumes "samples_ok ids ss" and "\<And>s. fs_sample_id (f s) = fs_sample_id s" and "\<And>s. fs_face_id (f s) = fs_face_id s"
    and "\<And>s. fs_bucket (f s) = fs_bucket s" and "\<And>s. fs_object_key (f s) = fs_object_key s"
    and "\<And>s. fs_state s \<in> set SAMPLE_STATES \<Longrightarrow> fs_state (f s) \<in> set SAMPLE_STATES"
  shows "samples_ok ids (map f ss)"
  using assms by (auto simp: samples_ok_def list_all_iff comp_def)

lemma samples_ok_row_update:
  assumes "samples_ok ids ss" and "\<And>s. fs_sample_id (f s) = fs_sample_id s" and "\<And>s. fs_face_id (f s) = fs_face_id s"
    and "\<And>s. fs_bucket (f s) = fs_bucket s" and "\<And>s. fs_object_key (f s) = fs_object_key s"
    and "\<And>s. fs_state (f s) \<in> set SAMPLE_STATES"
  shows "samples_ok ids (row_update fs_sample_id k f ss)"
  unfolding row_update_def by (rule samples_ok_rows [OF assms(1)]) (use assms(2-) in auto)

lemma sample_rows [simp]:
  "fs_sample_id (active_row s) = fs_sample_id s" "fs_sample_id (inactive_row s) = fs_sample_id s"
  "fs_sample_id (failed_row c s) = fs_sample_id s" "fs_sample_id (blob_row b s) = fs_sample_id s"
  "fs_face_id (active_row s) = fs_face_id s" "fs_face_id (inactive_row s) = fs_face_id s"
  "fs_face_id (failed_row c s) = fs_face_id s" "fs_face_id (blob_row b s) = fs_face_id s"
  by (simp_all add: active_row_def inactive_row_def failed_row_def blob_row_def)

lemma samples_ok_updates:
  assumes "samples_ok ids ss"
  shows "set_active sid ss = (ss', os) \<Longrightarrow> samples_ok ids ss'" and "samples_ok ids (set_inactive sid ss)"
    and "samples_ok ids (set_failed sid code ss)" and "deactivate_by_face fid ss = (ss'', sids) \<Longrightarrow> samples_ok ids ss''"
proof -
  show "samples_ok ids (set_inactive sid ss)" unfolding set_inactive_def
    by (rule samples_ok_row_update [OF assms]) (simp_all add: inactive_row_def SAMPLE_STATES_def)
  show "samples_ok ids (set_failed sid code ss)" unfolding set_failed_def
    by (rule samples_ok_row_update [OF assms]) (simp_all add: failed_row_def SAMPLE_STATES_def)
  show "samples_ok ids ss'" if "set_active sid ss = (ss', os)"
  proof -
    have "samples_ok ids (row_update fs_sample_id sid active_row ss)"
      by (rule samples_ok_row_update [OF assms]) (simp_all add: active_row_def SAMPLE_STATES_def)
    with that show ?thesis by (simp add: set_active_def)
  qed
  show "samples_ok ids ss''" if "deactivate_by_face fid ss = (ss'', sids)"
  proof -
    have "samples_ok ids (map (\<lambda>s. if fs_sample_id s \<in> set sids then inactive_row s else s) ss)"
      by (rule samples_ok_rows [OF assms]) (simp_all add: inactive_row_def SAMPLE_STATES_def)
    with that show ?thesis by (auto simp: deactivate_by_face_def Let_def)
  qed
qed

lemma sample_ids_updates:
  "set_active sid ss = (ss', os) \<Longrightarrow> map fs_sample_id ss' = map fs_sample_id ss"
  "map fs_sample_id (set_inactive sid ss) = map fs_sample_id ss"
  "map fs_sample_id (set_failed sid code ss) = map fs_sample_id ss"
  "deactivate_by_face fid ss = (ss'', sids) \<Longrightarrow> map fs_sample_id ss'' = map fs_sample_id ss"
  "update_blob_ready ids sid b ss = Inr ss' \<Longrightarrow> map fs_sample_id ss' = map fs_sample_id ss"
  by (auto simp: set_active_def set_inactive_def set_failed_def update_blob_ready_def deactivate_by_face_def Let_def
      row_update_keys)

lemma process_ops_ids [simp]:
  "map pr_process_id (process_fail pid code now ps) = map pr_process_id ps"
  "map pr_process_id (process_complete pid n details now ps) = map pr_process_id ps"
  by (simp_all add: process_fail_def process_complete_def row_update_keys)

lemma process_create_Inr:
  "process_create pid ptype ''started'' n c d now ps = Inr ps' \<Longrightarrow>
     pid \<notin> pr_process_id ` set ps \<and> map pr_process_id ps' = map pr_process_id ps @ [pid]"
  by (auto simp: process_create_def split: if_splits)

lemma identity_changes:
  assumes "identities_ok ids"
  shows "identity_create fid st name m ids = Inr ids' \<Longrightarrow> identities_ok ids' \<and> map fi_face_id ids' = map fi_face_id ids @ [fid]"
    and "update_known fid name' m ids = Inr (ids', found) \<Longrightarrow> identities_ok ids' \<and> map fi_face_id ids' = map fi_face_id ids"
    and "identity_soft_delete fid now ids = Inr (ids', found) \<Longrightarrow> identities_ok ids' \<and> map fi_face_id ids' = map fi_face_id ids"
  using assms
  by (auto simp: identity_create_def update_known_def identity_soft_delete_def active_update_def rbind_Inr_iff
      split: option.splits)

lemma registry_ok_tables:
  assumes "registry_ok g" and "identities_ok (rg_identities g')" and "samples_ok (rg_identities g') (rg_samples g')"
    and "face_ids g \<subseteq> face_ids g'" and "sample_ids g \<subseteq> sample_ids g'" and "set (process_ids g) \<subseteq> set (process_ids g')"
    and "distinct (process_ids g')" and "list_all process_ok (rg_processes g')"
    and "rg_results g' = rg_results g" and "rg_events g' = rg_events g"
  shows "registry_ok g'"
  using assms results_ok_mono [OF _ assms(6,4,5)] by (auto simp: registry_ok_def)

lemmas key_sets = face_ids_def sample_ids_def process_ids_def

lemma registry_ok_processes:
  assumes "registry_ok g" and "map pr_process_id ps = map pr_process_id (rg_processes g)" and "list_all process_ok ps"
  shows "registry_ok (g\<lparr>rg_processes := ps\<rparr>)"
  using assms by (intro registry_ok_tables [OF assms(1)]) (auto simp: registry_ok_def key_sets)

lemma registry_ok_samples:
  assumes "registry_ok g" and "samples_ok (rg_identities g) ss" and "map fs_sample_id ss = map fs_sample_id (rg_samples g)"
    and "map pr_process_id ps = map pr_process_id (rg_processes g)" and "list_all process_ok ps"
  shows "registry_ok (g\<lparr>rg_samples := ss, rg_processes := ps\<rparr>)"
proof (rule registry_ok_tables [OF assms(1)])
  have "set (map fs_sample_id ss) = set (map fs_sample_id (rg_samples g))" by (simp only: assms(3))
  then show "sample_ids g \<subseteq> sample_ids (g\<lparr>rg_samples := ss, rg_processes := ps\<rparr>)" by (simp add: key_sets)
qed (use assms in \<open>auto simp: registry_ok_def key_sets\<close>)

lemma registry_ok_identities:
  assumes "registry_ok g" and "identities_ok ids" and "map fi_face_id ids = map fi_face_id (rg_identities g)"
  shows "registry_ok (g\<lparr>rg_identities := ids\<rparr>)"
proof -
  have s: "fi_face_id ` set ids = fi_face_id ` set (rg_identities g)"
    using arg_cong [OF assms(3), of set] by simp
  show ?thesis
    by (rule registry_ok_tables [OF assms(1)])
       (use assms s samples_ok_mono [of "rg_identities g" "rg_samples g" ids] in \<open>auto simp: registry_ok_def key_sets\<close>)
qed

lemma registry_ok_open:
  assumes "registry_ok g" and "process_create pid ptype ''started'' 0 None [] now (rg_processes g) = Inr ps"
  shows "registry_ok (g\<lparr>rg_processes := ps\<rparr>)"
  using assms process_create_Inr [OF assms(2)] process_ops_ok(4) [OF _ assms(2)]
  by (intro registry_ok_tables [OF assms(1)]) (auto simp: registry_ok_def key_sets)

lemma process_rows_ok:
  assumes "registry_ok g"
  shows "list_all process_ok (process_fail pid code now (rg_processes g))"
    and "list_all process_ok (process_complete pid n details now (rg_processes g))"
  using assms process_ops_ok by (auto simp: registry_ok_def)

lemma registry_ok_ensure:
  assumes ok: "registry_ok g" and h: "ensure_identity_and_sample a g = Inr (g', x)"
  shows "registry_ok g' \<and> rg_processes g' = rg_processes g \<and> (\<exists>new. rg_identities g' = rg_identities g @ new)"
proof -
  from h obtain ids where ids: "(case get_by_id (pa_face_id a) (rg_identities g) of
       Some i \<Rightarrow> Inr (rg_identities g)
     | None \<Rightarrow> identity_create (pa_face_id a) (pa_identity_status a) (pa_name a)
         (Some (case pa_metadata a of None \<Rightarrow> [] | Some m \<Rightarrow> m)) (rg_identities g)) = Inr ids"
    and s: "(case sample_get (pa_sample_id a) (rg_samples g) of
       Some s \<Rightarrow> Inr (g\<lparr>rg_identities := ids\<rparr>, Some s)
     | None \<Rightarrow> rbind (create_pending ids (pa_sample_id a) (pa_face_id a) (rg_samples g))
         (\<lambda>ss. Inr (g\<lparr>rg_identities := ids, rg_samples := ss\<rparr>, None))) = Inr (g', x)"
    by (auto simp: ensure_identity_and_sample_def rbind_Inr_iff)
  have idok: "identities_ok ids" "\<exists>new. ids = rg_identities g @ new"
    using ids ok by (auto simp: registry_ok_def identity_create_def split: option.splits)
  then have sub: "fi_face_id ` set (rg_identities g) \<subseteq> fi_face_id ` set ids" by auto
  have old: "samples_ok ids (rg_samples g)" using ok samples_ok_mono [OF _ sub] by (simp add: registry_ok_def)
  have "registry_ok g'"
  proof (rule registry_ok_tables [OF ok])
    show "samples_ok (rg_identities g') (rg_samples g')" "sample_ids g \<subseteq> sample_ids g'"
      using s old by (auto simp: rbind_Inr_iff create_pending_def key_sets split: option.splits)
  qed (use s idok ok sub in \<open>auto simp: rbind_Inr_iff registry_ok_def key_sets split: option.splits\<close>)
  with s idok show ?thesis by (auto simp: rbind_Inr_iff split: option.splits)
qed

lemma results_ok_tables:
  assumes "rg_processes g' = rg_processes g" and "rg_identities g' = rg_identities g" and "rg_samples g' = rg_samples g"
  shows "results_ok g' rs = results_ok g rs"
  using assms by (simp add: results_ok_def cong: option.case_cong)

lemma registry_ok_result:
  assumes "registry_ok g" and "result_create r g = Inr g'"
  shows "registry_ok g' \<and> rg_processes g' = rg_processes g \<and> rg_identities g' = rg_identities g"
proof -
  from assms(2) have g': "g' = g\<lparr>rg_results := rg_results g @ [r]\<rparr>" "results_ok g (rg_results g @ [r])"
    by (auto simp: result_create_def rbind_Inr_iff)
  with assms(1) results_ok_tables [of g' g] show ?thesis by (simp add: registry_ok_def process_ids_def)
qed

lemma registry_ok_generated: "registry_ok (g\<lparr>rg_objects := ob, rg_vectors := v, rg_generated := n\<rparr>) = registry_ok g"
  using results_ok_tables [of "g\<lparr>rg_objects := ob, rg_vectors := v, rg_generated := n\<rparr>" g]
  by (simp add: registry_ok_def process_ids_def)

lemma registry_ok_supply: "registry_ok (g\<lparr>rg_generated := n\<rparr>) = registry_ok g"
  using results_ok_tables [of "g\<lparr>rg_generated := n\<rparr>" g] by (simp add: registry_ok_def process_ids_def)

lemma registry_ok_results:
  assumes "registry_ok g" and "store_results env pid m ss g = Inr g'"
  shows "registry_ok g' \<and> rg_processes g' = rg_processes g \<and> rg_identities g' = rg_identities g"
  using assms
proof (induction ss arbitrary: m g)
  case (Cons s ss)
  from Cons.prems(2) obtain g1 where
    c: "result_create (result_of env pid (fv_fresh env (rg_generated g)) m s) (g\<lparr>rg_generated := rg_generated g + 1\<rparr>) = Inr g1"
    and r: "store_results env pid (m + 1) ss g1 = Inr g'" by (auto simp: rbind_Inr_iff)
  have g0: "registry_ok (g\<lparr>rg_generated := rg_generated g + 1\<rparr>)" using Cons.prems(1) by (simp only: registry_ok_supply)
  from Cons.IH [OF _ r] registry_ok_result [OF g0 c] show ?case by simp
qed simp

text \<open>An identity that has been deleted stays deleted, and is no longer found among the active ones.\<close>

definition retired :: "string \<Rightarrow> ('o, 'v) registry \<Rightarrow> bool" where
  "retired fid g = (\<exists>i \<in> set (rg_identities g). fi_face_id i = fid \<and> \<not> fi_is_active i)"

lemma retired_not_active:
  assumes "registry_ok g" and "retired fid g"
  shows "i \<in> set (rg_identities g) \<Longrightarrow> fi_is_active i \<Longrightarrow> fi_face_id i \<noteq> fid"
    and "get_active_by_id fid (rg_identities g) = None"
proof -
  from assms obtain d where d: "d \<in> set (rg_identities g)" "fi_face_id d = fid" "\<not> fi_is_active d"
    by (auto simp: retired_def)
  have "i = d" if "i \<in> set (rg_identities g)" "fi_face_id i = fid" for i
    using assms(1) that d by (auto simp: registry_ok_def identities_ok_def distinct_map inj_on_def)
  with d(3) show "i \<in> set (rg_identities g) \<Longrightarrow> fi_is_active i \<Longrightarrow> fi_face_id i \<noteq> fid"
    and "get_active_by_id fid (rg_identities g) = None"
    by (auto simp: get_active_by_id_def find_None_iff)
qed

lemma retired_active_update:
  assumes "active_update fid' f ids = Inr (ids', found)" and "i \<in> set ids" and "\<not> fi_is_active i"
  shows "i \<in> set ids'"
  using assms by (auto simp: active_update_def rbind_Inr_iff image_iff split: option.splits)

lemma retired_mono:
  "retired fid g \<Longrightarrow> (\<And>i. i \<in> set (rg_identities g) \<Longrightarrow> \<not> fi_is_active i \<Longrightarrow> i \<in> set (rg_identities g')) \<Longrightarrow> retired fid g'"
  by (auto simp: retired_def)

text \<open>What one step keeps: the invariant, deletions, and the records of processes.\<close>

definition keeps :: "('o, 'v) registry \<Rightarrow> ('o, 'v) registry \<Rightarrow> bool" where
  "keeps g g' =
     (registry_ok g' \<and> (\<forall>fid. retired fid g \<longrightarrow> retired fid g') \<and> set (process_ids g) \<subseteq> set (process_ids g'))"

lemma keepsI:
  assumes "registry_ok g'" and "\<And>i. i \<in> set (rg_identities g) \<Longrightarrow> \<not> fi_is_active i \<Longrightarrow> i \<in> set (rg_identities g')"
    and "set (process_ids g) \<subseteq> set (process_ids g')"
  shows "keeps g g'"
  using assms by (auto simp: keeps_def intro: retired_mono)

lemma keeps_update_tx:
  assumes ok: "registry_ok g" and h: "update_identity_tx env pid fid name metadata g = Inr (g', x)"
  shows "keeps g g'"
proof -
  from h obtain g1 ids found where o: "open_process env pid ''update'' g = Inr g1"
    and u: "update_known fid name (Some metadata) (rg_identities g1) = Inr (ids, found)"
    and g': "g' = (case found of None \<Rightarrow> settle_missing env pid g1
       | Some i \<Rightarrow> settle_single env pid ''update'' i (g1\<lparr>rg_identities := ids\<rparr>))"
    by (auto simp: update_identity_tx_def rbind_Inr_iff split: option.splits)
  from o obtain ps where c: "process_create pid ''update'' ''started'' 0 None [] (fv_now env) (rg_processes g) = Inr ps"
    and g1: "g1 = g\<lparr>rg_processes := ps\<rparr>" by (auto simp: open_process_def rbind_Inr_iff)
  have ok1: "registry_ok g1" using registry_ok_open [OF ok c] by (simp add: g1)
  have ids: "identities_ok ids \<and> map fi_face_id ids = map fi_face_id (rg_identities g1)"
    using identity_changes(2) [OF _ u] ok1 by (simp add: registry_ok_def)
  have ok2: "registry_ok (g1\<lparr>rg_identities := ids\<rparr>)" using ids by (intro registry_ok_identities [OF ok1]) auto
  have old: "i \<in> set ids" if "i \<in> set (rg_identities g)" "\<not> fi_is_active i" for i
    using retired_active_update [OF u [unfolded update_known_def]] that by (simp add: g1)
  have same: "process_ids g' = process_ids g1"
    by (cases found) (simp_all add: g' settle_missing_def settle_single_def process_ids_def)
  show ?thesis
  proof (rule keepsI)
    show "registry_ok g'"
      using registry_ok_processes [OF ok1] registry_ok_processes [OF ok2] process_rows_ok [OF ok1]
      by (cases found) (auto simp: g' settle_missing_def settle_single_def)
    show "i \<in> set (rg_identities g')" if "i \<in> set (rg_identities g)" "\<not> fi_is_active i" for i
      using that old by (cases found) (auto simp: g' settle_missing_def settle_single_def g1)
    show "set (process_ids g) \<subseteq> set (process_ids g')"
      using process_create_Inr [OF c] same by (auto simp: process_ids_def g1)
  qed
qed

lemma keeps_delete_tx:
  assumes ok: "registry_ok g" and h: "delete_identity_tx env pid fid g = Inr (g', y)"
  shows "keeps g g' \<and> (y \<noteq> None \<longrightarrow> retired fid g')"
proof -
  from h obtain g1 ids found ss sids where o: "open_process env pid ''delete'' g = Inr g1"
    and u: "identity_soft_delete fid (fv_now env) (rg_identities g1) = Inr (ids, found)"
    and d: "deactivate_by_face fid (rg_samples g1) = (ss, sids)"
    and g': "g' = (case found of None \<Rightarrow> settle_missing env pid g1
       | Some i \<Rightarrow> settle_single env pid ''delete'' i (g1\<lparr>rg_identities := ids, rg_samples := ss\<rparr>))"
    and y: "y = map_option (\<lambda>_. sids) found"
    by (cases "deactivate_by_face fid (rg_samples g)")
       (auto simp: delete_identity_tx_def rbind_Inr_iff open_process_def split: option.splits prod.splits)
  from o obtain ps where c: "process_create pid ''delete'' ''started'' 0 None [] (fv_now env) (rg_processes g) = Inr ps"
    and g1: "g1 = g\<lparr>rg_processes := ps\<rparr>" by (auto simp: open_process_def rbind_Inr_iff)
  have ok1: "registry_ok g1" using registry_ok_open [OF ok c] by (simp add: g1)
  have ids: "identities_ok ids \<and> map fi_face_id ids = map fi_face_id (rg_identities g1)"
    using identity_changes(3) [OF _ u] ok1 by (simp add: registry_ok_def)
  have ok2: "registry_ok (g1\<lparr>rg_identities := ids\<rparr>)" using ids by (intro registry_ok_identities [OF ok1]) auto
  have ok3: "registry_ok (g1\<lparr>rg_identities := ids, rg_samples := ss, rg_processes := qs\<rparr>)"
    if "map pr_process_id qs = map pr_process_id (rg_processes g1)" "list_all process_ok qs" for qs
    using registry_ok_samples [OF ok2, of ss qs] samples_ok_updates(4) [OF _ d] sample_ids_updates(4) [OF d] that ok2
    by (simp add: registry_ok_def)
  have old: "i \<in> set ids" if "i \<in> set (rg_identities g)" "\<not> fi_is_active i" for i
    using retired_active_update [OF u [unfolded identity_soft_delete_def]] that by (simp add: g1)
  have "retired fid g'" if f: "found = Some i" for i
  proof -
    from u f obtain a where a: "get_active_by_id fid (rg_identities g1) = Some a"
      and ids': "ids = map (\<lambda>i. if fi_face_id i = fid \<and> fi_is_active i
         then i\<lparr>fi_is_active := False, fi_deleted_at := Some (fv_now env), fi_version := fi_version i + 1\<rparr> else i)
         (rg_identities g1)"
      by (auto simp: identity_soft_delete_def active_update_def rbind_Inr_iff split: option.splits)
    let ?d = "a\<lparr>fi_is_active := False, fi_deleted_at := Some (fv_now env), fi_version := fi_version a + 1\<rparr>"
    have "?d \<in> set ids" "fi_face_id ?d = fid"
      using get_active_by_id_Some [OF a] by (auto simp: ids' image_iff intro!: bexI [of _ a])
    then show ?thesis
      unfolding retired_def by (intro bexI [of _ ?d]) (simp_all add: f g' settle_single_def)
  qed
  moreover have same: "process_ids g' = process_ids g1"
    by (cases found) (simp_all add: g' settle_missing_def settle_single_def process_ids_def)
  moreover have "keeps g g'"
  proof (rule keepsI)
    show "registry_ok g'"
      using registry_ok_processes [OF ok1] ok3 process_rows_ok [OF ok1]
      by (cases found) (auto simp: g' settle_missing_def settle_single_def)
    show "i \<in> set (rg_identities g')" if "i \<in> set (rg_identities g)" "\<not> fi_is_active i" for i
      using that old by (cases found) (auto simp: g' settle_missing_def settle_single_def g1)
    show "set (process_ids g) \<subseteq> set (process_ids g')"
      using process_create_Inr [OF c] same by (auto simp: process_ids_def g1)
  qed
  ultimately show ?thesis using y by auto
qed

lemma registry_step_keeps:
  assumes "registry_step env g g'" and ok: "registry_ok g"
  shows "keeps g g'"
  using assms(1)
proof cases
  case (step_stores objs vecs n)
  have "registry_ok g'" using ok unfolding step_stores by (simp only: registry_ok_generated)
  then show ?thesis by (intro keepsI) (simp_all add: step_stores process_ids_def)
next
  case (step_event pid etype details now)
  then have "registry_ok g'"
    using ok results_ok_tables [of g' g] by (auto simp: event_create_def registry_ok_def process_ids_def split: if_splits)
  with step_event show ?thesis by (intro keepsI) (auto simp: event_create_def process_ids_def split: if_splits)
next
  case (step_open pid ptype now ps)
  with registry_ok_open [OF ok step_open(2)] process_create_Inr [OF step_open(2)] show ?thesis
    by (intro keepsI) (auto simp: process_ids_def)
next
  case (step_reject pid ptype now ps code)
  let ?g = "g\<lparr>rg_processes := ps\<rparr>"
  have o: "registry_ok ?g" using registry_ok_open [OF ok step_reject(2)] .
  have "registry_ok (?g\<lparr>rg_processes := process_fail pid code now (rg_processes ?g)\<rparr>)"
    using process_rows_ok(1) [OF o] by (intro registry_ok_processes [OF o]) simp_all
  with process_create_Inr [OF step_reject(2)] show ?thesis
    by (intro keepsI) (auto simp: step_reject(1) process_ids_def simp flip: set_map)
next
  case (step_fail pid code now)
  have "registry_ok g'" unfolding step_fail using process_rows_ok(1) [OF ok] by (intro registry_ok_processes [OF ok]) simp_all
  then show ?thesis by (intro keepsI) (simp_all add: step_fail process_ids_def flip: set_map)
next
  case (step_ensure a x)
  with registry_ok_ensure [OF ok step_ensure] show ?thesis by (intro keepsI) (auto simp: process_ids_def)
next
  case (step_blob sid b ss)
  have "samples_ok (rg_identities g) ss" using step_blob(2) by (auto simp: update_blob_ready_def)
  then have "registry_ok (g\<lparr>rg_samples := ss, rg_processes := rg_processes g\<rparr>)"
    using ok sample_ids_updates(5) [OF step_blob(2)]
    by (intro registry_ok_samples [OF ok]) (auto simp: registry_ok_def)
  then show ?thesis by (intro keepsI) (simp_all add: step_blob(1) process_ids_def)
next
  case (step_active sid ss s ps managed pid now)
  have ps: "map pr_process_id ps = map pr_process_id (rg_processes g)" "list_all process_ok ps"
    using step_active(3) process_rows_ok(2) [OF ok] ok by (auto simp: registry_ok_def)
  have "registry_ok g'" unfolding step_active(1)
    using ok samples_ok_updates(1) [OF _ step_active(2)] sample_ids_updates(1) [OF step_active(2)] ps
    by (intro registry_ok_samples [OF ok]) (auto simp: registry_ok_def)
  with ps(1) show ?thesis by (intro keepsI) (simp_all add: step_active(1) process_ids_def flip: set_map)
next
  case (step_failed sid code pid now)
  have "registry_ok g'" unfolding step_failed
    using ok samples_ok_updates(3) sample_ids_updates(3) process_rows_ok(1) [OF ok]
    by (intro registry_ok_samples [OF ok]) (auto simp: registry_ok_def)
  then show ?thesis by (intro keepsI) (simp_all add: step_failed process_ids_def flip: set_map)
next
  case (step_inactive sid)
  have "registry_ok (g\<lparr>rg_samples := set_inactive sid (rg_samples g), rg_processes := rg_processes g\<rparr>)"
    using ok samples_ok_updates(2) sample_ids_updates(2)
    by (intro registry_ok_samples [OF ok]) (auto simp: registry_ok_def)
  then show ?thesis by (intro keepsI) (simp_all add: step_inactive process_ids_def)
next
  case (step_rename fid name metadata ids found)
  have "registry_ok g'" unfolding step_rename(1)
    using ok identity_changes(2) [OF _ step_rename(2)] by (intro registry_ok_identities [OF ok]) (auto simp: registry_ok_def)
  with retired_active_update [OF step_rename(2) [unfolded update_known_def]] show ?thesis
    by (intro keepsI) (simp_all add: step_rename(1) process_ids_def)
next
  case (step_update pid fid name metadata x)
  from keeps_update_tx [OF ok this] show ?thesis .
next
  case (step_delete pid fid y)
  from keeps_delete_tx [OF ok this] show ?thesis ..
next
  case (step_enrolled r g1 pid n details now)
  from registry_ok_result [OF ok step_enrolled(2)]
  have o: "registry_ok g1" and same: "rg_processes g1 = rg_processes g" "rg_identities g1 = rg_identities g" by auto
  have "registry_ok g'" unfolding step_enrolled(1)
    using process_rows_ok(2) [OF o] by (intro registry_ok_processes [OF o]) simp_all
  with same show ?thesis by (intro keepsI) (simp_all add: step_enrolled(1) process_ids_def flip: set_map)
next
  case (step_recognized pid m ss g1 n details now)
  from registry_ok_results [OF ok step_recognized(2)]
  have o: "registry_ok g1" and same: "rg_processes g1 = rg_processes g" "rg_identities g1 = rg_identities g" by auto
  have "registry_ok g'" unfolding step_recognized(1)
    using process_rows_ok(2) [OF o] by (intro registry_ok_processes [OF o]) simp_all
  with same show ?thesis by (intro keepsI) (simp_all add: step_recognized(1) process_ids_def flip: set_map)
qed

lemma registry_steps_keep:
  assumes "registry_steps env g g'" and "registry_ok g"
  shows "keeps g g'"
  using assms(1)
proof (induction rule: rtranclp_induct)
  case base
  with assms(2) show ?case by (auto intro: keepsI)
next
  case (step g1 g2)
  then have "keeps g1 g2" by (intro registry_step_keeps) (simp_all add: keeps_def)
  with step.IH show ?case by (auto simp: keeps_def)
qed

lemma stepping_keeps: "stepping env m \<Longrightarrow> m g = (g', r) \<Longrightarrow> registry_ok g \<Longrightarrow> keeps g g'"
  by (rule registry_steps_keep [OF steppingD])

end
