(* ===== verification/Face_Outcomes.thy ===== *)
theory Face_Outcomes
  imports Face_Properties
begin

text \<open>
  What a request to the face API leaves behind: the process record and the results that a later query
  shows, and the state of a sample after it has been taken through the object store and the vector
  index. The frame lemmas say which part of the registry a step leaves alone.
\<close>

section \<open>Frames\<close>

definition leaves :: "(('o, 'v) registry \<Rightarrow> 'b) \<Rightarrow> ('o, 'v, unit, 'a) face_call \<Rightarrow> bool" where
  "leaves f m = (\<forall>g. f (fst (m g)) = f g)"

lemma leavesD: "leaves f m \<Longrightarrow> m g = (g', r) \<Longrightarrow> f g' = f g"
  by (metis fst_conv leaves_def)

lemma leavesI: "(\<And>g g' r. m g = (g', r) \<Longrightarrow> f g' = f g) \<Longrightarrow> leaves f m"
  by (metis leaves_def prod.collapse)

lemma leaves_fbind [intro]:
  assumes "leaves f m" and "\<And>x. leaves f (k x)"
  shows "leaves f (fbind m k)"
proof (rule leavesI)
  fix g g' r
  assume h: "fbind m k g = (g', r)"
  obtain g1 r1 where m: "m g = (g1, r1)" by fastforce
  with h leavesD [OF assms(1) m] leavesD [OF assms(2)] show "f g' = f g"
    by (cases r1) (auto simp: fbind_def)
qed

lemma leaves_answered [intro, simp]: "leaves f (answered r)"
  by (simp add: leaves_def answered_def)

lemma leaves_return [intro, simp]: "leaves f (\<lambda>g. (g, r))"
  by (simp add: leaves_def)

lemma leaves_transaction:
  "(\<And>g g' x. tx g = Inr (g', x) \<Longrightarrow> f g' = f g) \<Longrightarrow> leaves f (transaction tx)"
  by (auto simp: leaves_def transaction_def split: sum.splits)

lemma log_event_tables [simp]:
  "rg_results (log_event pid etype details now g) = rg_results g"
  "rg_processes (log_event pid etype details now g) = rg_processes g"
  "rg_identities (log_event pid etype details now g) = rg_identities g"
  "rg_samples (log_event pid etype details now g) = rg_samples g"
  by (auto simp: log_event_def event_create_def split: sum.splits if_splits)

lemma leaves_log:
  "leaves rg_results (\<lambda>g. (log_event pid etype details now g, r))"
  "leaves rg_identities (\<lambda>g. (log_event pid etype details now g, r))"
  "leaves rg_samples (\<lambda>g. (log_event pid etype details now g, r))"
  by (simp_all add: leaves_def)

lemma record_failure_tables [simp]:
  "rg_results (record_failure env a code g) = rg_results g"
  "rg_identities (record_failure env a code g) = rg_identities g"
  by (simp_all add: record_failure_def)

lemma leaves_store:
  "leaves rg_results (store_object env a)" "leaves rg_identities (store_object env a)"
  "leaves rg_results (store_vector env a)" "leaves rg_identities (store_vector env a)"
  by (auto simp: leaves_def store_object_def store_vector_def split: prod.splits sum.splits)

lemma leaves_record_blob:
  "leaves rg_results (record_blob env a sha)" "leaves rg_identities (record_blob env a sha)"
  unfolding record_blob_def by (rule leaves_transaction; auto simp: rbind_Inr_iff)+

lemma leaves_start:
  "leaves rg_results (start_process pid ptype now)" "leaves rg_identities (start_process pid ptype now)"
  "leaves rg_samples (start_process pid ptype now)"
  unfolding start_process_def by (rule leaves_transaction; auto simp: rbind_Inr_iff)+

lemma leaves_activate:
  "leaves rg_results (activate_sample env a)" "leaves rg_identities (activate_sample env a)"
  by (auto simp: leaves_def activate_sample_def split: prod.splits option.splits)

lemma leaves_persist_new:
  "leaves rg_results (persist_new env a)" "leaves rg_identities (persist_new env a)"
  unfolding persist_new_def persist_event_def
  by (intro leaves_fbind; simp add: leaves_store leaves_record_blob leaves_start leaves_activate leaves_log)+

lemma leaves_persist: "leaves rg_results (persist_sample env a)"
proof -
  have "leaves rg_results (transaction (ensure_identity_and_sample a))"
    by (rule leaves_transaction) (auto simp: ensure_identity_and_sample_def rbind_Inr_iff split: option.splits)
  then show ?thesis unfolding persist_sample_def
    by (rule leaves_fbind) (auto simp: leaves_persist_new split: option.splits)
qed

lemma leaves_requests:
  "leaves rg_results (fresh_id env)" "leaves rg_results (given_or_fresh env given)"
  "leaves rg_results (match_face env embedding)" "leaves rg_results (rename_existing fid name metadata)"
  "leaves rg_samples (fresh_id env)" "leaves rg_identities (fresh_id env)" "leaves rg_processes (fresh_id env)"
  "leaves rg_processes (given_or_fresh env given)" "leaves rg_identities (given_or_fresh env given)"
proof -
  show "leaves rg_results (rename_existing fid name metadata)" unfolding rename_existing_def
    by (rule leaves_transaction) (auto simp: rbind_Inr_iff split: option.splits)
qed (auto simp: leaves_def fresh_id_def given_or_fresh_def match_face_def split: option.splits prod.splits sum.splits list.splits)

lemma leaves_select: "leaves rg_results (select_identity env embedding face_id)"
proof (cases face_id)
  case None
  have "leaves rg_results (case m of None \<Rightarrow> fresh_id env | Some x \<Rightarrow> (\<lambda>g. (g, Inr (fi_face_id (fm_identity x)))))" for m
    by (cases m) (auto simp: leaves_requests)
  with leaves_requests(3) show ?thesis by (auto simp: select_identity_def None)
next
  case (Some fid)
  then show ?thesis by (auto simp: select_identity_def leaves_def split: option.splits)
qed

lemma leaves_recognize_face: "leaves rg_results (recognize_face env pid d)"
proof -
  have "leaves rg_results (case m of Some x \<Rightarrow> answered (Inr (snapshot_matched d x))
       | None \<Rightarrow>
           fbind (fresh_id env) (\<lambda>fid. fbind (fresh_id env) (\<lambda>sid.
           fbind (answered (require_aligned_face_evidence (gf_aligned_jpeg d))) (\<lambda>evidence.
           fbind (answered (landmarks_of (gf_landmarks_xy d))) (\<lambda>landmarks.
           fbind (persist_sample env (sample_args pid fid sid d evidence landmarks ''anonymous'' None None)) (\<lambda>_.
             answered (Inr (snapshot_new d fid sid))))))))" for m
  proof (cases m)
    case None
    show ?thesis unfolding None option.case by (intro leaves_fbind leaves_requests leaves_persist leaves_answered)
  qed simp
  with leaves_requests(3) show ?thesis unfolding recognize_face_def by blast
qed

lemma leaves_recognize_faces: "leaves rg_results (recognize_faces env pid ds)"
  by (induction ds) (auto intro!: leaves_recognize_face)

section \<open>What is recorded\<close>

text \<open>A snapshot shows a name and metadata of known identities only, so a stored result shows the same.\<close>

lemma result_view_snapshot:
  assumes "recognize_face env pid d g = (g', Inr s)"
  shows "result_view (result_of env pid rid n s) = sn_view s"
proof -
  from assms consider m where "s = snapshot_matched d m" | fid sid where "s = snapshot_new d fid sid"
    by (auto simp: recognize_face_def fbind_Inr split: option.splits)
  then show ?thesis
    by cases (simp_all add: snapshot_matched_def snapshot_new_def result_view_def result_of_def Let_def)
qed

lemma result_views_snapshots:
  "recognize_faces env pid ds g = (g', Inr ss) \<Longrightarrow> s \<in> set ss \<Longrightarrow> result_view (result_of env pid rid n s) = sn_view s"
proof (induction ds arbitrary: g ss)
  case (Cons d ds)
  from Cons.prems(1) obtain g1 s0 ss0 where "recognize_face env pid d g = (g1, Inr s0)"
    "recognize_faces env pid ds g1 = (g', Inr ss0)" "ss = s0 # ss0" by (auto simp: fbind_Inr)
  with Cons show ?case by (auto simp: result_view_snapshot)
qed simp

lemma store_results_Inr:
  assumes "store_results env pid n ss g = Inr g'"
  shows "rg_processes g' = rg_processes g \<and> rg_events g' = rg_events g
    \<and> (\<exists>rs. rg_results g' = rg_results g @ rs \<and> length rs = length ss
        \<and> (\<forall>i < length ss. \<exists>rid. rs ! i = result_of env pid rid (n + i) (ss ! i)))"
  using assms
proof (induction ss arbitrary: n g)
  case (Cons s ss)
  from Cons.prems obtain g1 where
    c: "result_create (result_of env pid (fv_fresh env (rg_generated g)) n s) (g\<lparr>rg_generated := rg_generated g + 1\<rparr>) = Inr g1"
    and r: "store_results env pid (n + 1) ss g1 = Inr g'" by (auto simp: rbind_Inr_iff)
  from Cons.IH [OF r] obtain rs where rs: "rg_results g' = rg_results g1 @ rs" "length rs = length ss"
    "\<forall>i < length ss. \<exists>rid. rs ! i = result_of env pid rid (n + 1 + i) (ss ! i)"
    and same: "rg_processes g' = rg_processes g1" "rg_events g' = rg_events g1" by blast
  let ?rs = "result_of env pid (fv_fresh env (rg_generated g)) n s # rs"
  have "\<exists>rid. ?rs ! i = result_of env pid rid (n + i) ((s # ss) ! i)" if "i < length (s # ss)" for i
    using that rs(3) by (cases i) auto
  then show ?case using c rs same
    by (intro conjI exI [of _ ?rs]) (auto simp: result_create_def rbind_Inr_iff)
qed simp

definition recorded :: "string \<Rightarrow> face_exc + face_answer \<Rightarrow> ('o, 'v) registry \<Rightarrow> bool" where
  "recorded pid r g =
     (\<exists>v. query_process pid g = Inr v \<and>
        (case r of
           Inr a \<Rightarrow> fa_process_id a = pid \<and> pr_status (pw_process v) = ''completed''
             \<and> pr_face_count (pw_process v) = int (length (fa_faces a)) \<and> pw_faces v = fa_faces a
         | Inl _ \<Rightarrow> pr_status (pw_process v) = ''failed'' \<and> pr_error_code (pw_process v) \<noteq> None \<and> pw_faces v = []))"

definition fresh_results :: "string \<Rightarrow> ('o, 'v) registry \<Rightarrow> bool" where
  "fresh_results pid g = (\<forall>r \<in> set (rg_results g). rr_process_id r \<noteq> pid)"

lemma no_results [simp]: "fresh_results pid g \<Longrightarrow> filter (\<lambda>r. rr_process_id r = pid) (rg_results g) = []"
  by (auto simp: fresh_results_def filter_empty_conv)

lemma process_row: "pid \<in> set (process_ids g) \<Longrightarrow> \<exists>p. row_get pr_process_id pid (rg_processes g) = Some p"
  using row_get_None [of pr_process_id pid "rg_processes g"] by (auto simp: process_ids_def)

lemma recorded_failure:
  assumes "pid \<in> set (process_ids g)" and "fresh_results pid g"
  shows "recorded pid (Inl e) (fail_process env pid etype code g)"
  using process_row [OF assms(1)] assms(2)
  by (auto simp: recorded_def fail_process_def query_process_def process_get results_by_process_def)

lemma results_of_new:
  assumes "fresh_results pid g" and "rg_results g' = rg_results g @ rs" and "length rs = length ss"
    and "\<And>i. i < length ss \<Longrightarrow> \<exists>rid. rs ! i = result_of env pid rid i (ss ! i)"
  shows "results_by_process pid (rg_results g') = rs"
proof -
  have r: "rr_process_id (rs ! i) = pid \<and> rr_detection_ordinal (rs ! i) = int i" if "i < length rs" for i
    using assms(4) [of i] that by (auto simp: assms(3) result_of_def Let_def)
  then have "filter (\<lambda>r. rr_process_id r = pid) rs = rs" by (auto simp: filter_id_conv in_set_conv_nth)
  moreover have "sorted (map rr_detection_ordinal rs)" using r by (auto simp: sorted_iff_nth_mono)
  ultimately show ?thesis
    using assms(1,2) by (simp add: results_by_process_def sort_key_id_if_sorted)
qed

lemma finish_recognition_recorded:
  assumes "finish_recognition env pid ss g = (g', Inr u)" and "pid \<in> set (process_ids g)" and "fresh_results pid g"
    and view: "\<And>s rid n. s \<in> set ss \<Longrightarrow> result_view (result_of env pid rid n s) = sn_view s"
  shows "recorded pid (Inr \<lparr>fa_process_id = pid, fa_faces = map sn_view ss\<rparr>) g'"
proof -
  from assms(1) obtain g1 where st: "store_results env pid 0 ss g = Inr g1"
    and g': "g' = log_event pid ''recognition_completed''
         [(PStr ''face_count'', PInt (int (length ss))), (PStr ''faces'', faces_detail (face_pairs ss))] (fv_now env)
         (g1\<lparr>rg_processes := process_complete pid (int (length ss))
            (process_details ''recognize'' (face_pairs ss)) (fv_now env) (rg_processes g1)\<rparr>)"
    by (auto simp: finish_recognition_def fbind_Inr transaction_def rbind_Inr_iff split: sum.splits)
  from store_results_Inr [OF st] obtain rs where same: "rg_processes g1 = rg_processes g"
    and rs: "rg_results g1 = rg_results g @ rs" "length rs = length ss"
    and nth: "\<And>i. i < length ss \<Longrightarrow> \<exists>rid. rs ! i = result_of env pid rid i (ss ! i)" by auto
  have res: "results_by_process pid (rg_results g') = rs"
    by (rule results_of_new [OF assms(3) _ rs(2) nth]) (simp_all add: g' rs(1))
  have "map result_view rs = map sn_view ss"
  proof (rule nth_equalityI)
    show "map result_view rs ! i = map sn_view ss ! i" if "i < length (map result_view rs)" for i
      using that rs(2) nth [of i] view [of "ss ! i"] by auto
  qed (simp add: rs(2))
  with res process_row [OF assms(2)] show ?thesis
    by (auto simp: recorded_def query_process_def g' same process_get)
qed

lemma leaves_failed_finish:
  "finish_recognition env pid ss g = (g', Inl e) \<Longrightarrow> g' = g"
  "finish_enrollment env pid fid sid rid name metadata d g = (g', Inl e) \<Longrightarrow> g' = g"
  by (auto simp: finish_recognition_def finish_enrollment_def fbind_def transaction_def split: prod.splits sum.splits)

lemma fbind_Inl:
  "fbind m k g = (g', Inl e) \<longleftrightarrow> m g = (g', Inl e) \<or> (\<exists>g1 x. m g = (g1, Inr x) \<and> k x g1 = (g', Inl e))"
  by (auto simp: fbind_def split: prod.splits sum.splits)

lemma answered_Inl [simp]: "answered r g = (g', Inl e) \<longleftrightarrow> g' = g \<and> r = Inl e"
  by (auto simp: answered_def)

lemma recognize_body_Inl:
  fixes g g' :: "('o, 'v) registry"
  assumes "recognize_body env answer pid g = (g', Inl e)"
  shows "rg_results g' = rg_results g"
proof -
  from assms consider "g' = g" | ds where "recognize_faces env pid ds g = (g', Inl e)"
    | ds g1 ss where "recognize_faces env pid ds g = (g1, Inr ss)" "finish_recognition env pid ss g1 = (g', Inl e)"
    by (auto simp: recognize_body_def fbind_Inl)
  then show ?thesis
  proof cases
    case 3
    then have "g' = g1" by (intro leaves_failed_finish(1))
    with leavesD [OF leaves_recognize_faces 3(1)] show ?thesis by simp
  qed (simp_all add: leavesD [OF leaves_recognize_faces])
qed

lemma recognize_body_recorded:
  assumes "registry_ok g" and "recognize_body env answer pid g = (g', r)" and "pid \<in> set (process_ids g)"
    and "fresh_results pid g"
  shows "case r of Inr a \<Rightarrow> recorded pid r g' | Inl e \<Rightarrow> pid \<in> set (process_ids g') \<and> fresh_results pid g'"
proof (cases r)
  case (Inl e)
  have "keeps g g'" using stepping_keeps [OF stepping_recognize_body assms(2,1)] .
  moreover have "rg_results g' = rg_results g" using recognize_body_Inl assms(2) Inl by blast
  ultimately show ?thesis using assms(3,4) by (auto simp: Inl keeps_def fresh_results_def)
next
  case (Inr a)
  from assms(2) obtain ds g1 ss where r: "recognize_faces env pid ds g = (g1, Inr ss)"
    and f: "finish_recognition env pid ss g1 = (g', Inr ())" and a: "a = \<lparr>fa_process_id = pid, fa_faces = map sn_view ss\<rparr>"
    unfolding Inr recognize_body_Inr by auto
  have "pid \<in> set (process_ids g1)"
    using stepping_keeps [OF stepping_recognize_faces r assms(1)] assms(3) by (auto simp: keeps_def)
  moreover have "fresh_results pid g1"
    using leavesD [OF leaves_recognize_faces r] assms(4) by (simp add: fresh_results_def)
  ultimately show ?thesis
    using finish_recognition_recorded [OF f _ _ result_views_snapshots [OF r]] by (simp add: Inr a)
qed

text \<open>Enrollment up to the sample, and from there.\<close>

lemma fbind_assoc: "fbind (fbind m f) k = fbind m (\<lambda>x. fbind (f x) k)"
  by (rule ext) (simp add: fbind_def split: prod.splits sum.splits)

lemma fbind_answered: "fbind (answered (Inr x)) k = k x"
  by (rule ext) (simp add: fbind_def answered_def)

definition enroll_sample ::
  "('o, 'v) face_env \<Rightarrow> gpu_exc + image_result \<Rightarrow> string \<Rightarrow> pydict \<Rightarrow> string option \<Rightarrow> string \<Rightarrow>
   ('o, 'v, unit, gpu_face \<times> string \<times> string) face_call"
where
  "enroll_sample env answer name metadata face_id pid =
     fbind (answered (gpu_answer answer)) (\<lambda>result.
     fbind (answered (select_face (im_faces result))) (\<lambda>d.
     fbind (select_identity env (gf_embedding d) face_id) (\<lambda>fid.
     fbind (rename_existing fid name metadata) (\<lambda>_.
     fbind (fresh_id env) (\<lambda>sid.
     fbind (answered (require_aligned_face_evidence (gf_aligned_jpeg d))) (\<lambda>evidence.
     fbind (answered (landmarks_of (gf_landmarks_xy d))) (\<lambda>landmarks.
     fbind (persist_sample env
              (sample_args pid fid sid d evidence landmarks ''known'' (Some name) (Some metadata))) (\<lambda>_.
       answered (Inr (d, fid, sid))))))))))"

definition enrolled_answer :: "string \<Rightarrow> string \<Rightarrow> string \<Rightarrow> pydict \<Rightarrow> gpu_face \<Rightarrow> face_answer" where
  "enrolled_answer pid fid name metadata d =
     \<lparr>fa_process_id = pid, fa_faces =
        [\<lparr>fw_face_id = fid, fw_status = ''known'', fw_name = Some name, fw_metadata = Some metadata,
          fw_bounding_box = box_of d, fw_confidence = 1\<rparr>]\<rparr>"

lemma enroll_body_split:
  "enroll_body env answer name metadata face_id pid =
     fbind (enroll_sample env answer name metadata face_id pid) (\<lambda>(d, fid, sid).
     fbind (fresh_id env) (\<lambda>rid.
     fbind (finish_enrollment env pid fid sid rid name metadata d) (\<lambda>_.
       answered (Inr (enrolled_answer pid fid name metadata d)))))"
  by (simp add: enroll_body_def enroll_sample_def fbind_assoc fbind_answered enrolled_answer_def)

lemma stepping_enroll_sample [intro]: "stepping env (enroll_sample env answer name metadata face_id pid)"
  unfolding enroll_sample_def by (intro stepping_fbind) auto

lemma leaves_enroll_sample: "leaves rg_results (enroll_sample env answer name metadata face_id pid)"
  unfolding enroll_sample_def
  by (intro leaves_fbind leaves_answered leaves_select leaves_requests leaves_persist)

lemma finish_enrollment_recorded:
  assumes "finish_enrollment env pid fid sid rid name metadata d g = (g', Inr u)" and "pid \<in> set (process_ids g)"
    and "fresh_results pid g"
  shows "recorded pid (Inr (enrolled_answer pid fid name metadata d)) g'"
  using assms process_row [OF assms(2)]
  by (auto simp: finish_enrollment_def fbind_Inr transaction_def rbind_Inr_iff result_create_def recorded_def
      query_process_def process_get results_by_process_def result_view_def enrolled_answer_def split: sum.splits)

lemma fresh_id_registry:
  "fresh_id env g = (g', r) \<Longrightarrow> registry_ok g \<Longrightarrow> registry_ok g' \<and> process_ids g' = process_ids g"
  by (auto simp: fresh_id_def registry_ok_supply process_ids_def)

lemma enroll_body_recorded:
  fixes g g' :: "('o, 'v) registry"
  assumes "registry_ok g" and "enroll_body env answer name metadata face_id pid g = (g', r)"
    and "pid \<in> set (process_ids g)" and "fresh_results pid g"
  shows "case r of Inr a \<Rightarrow> recorded pid r g' | Inl e \<Rightarrow> pid \<in> set (process_ids g') \<and> fresh_results pid g'"
proof -
  obtain g1 r1 where s: "enroll_sample env answer name metadata face_id pid g = (g1, r1)" by fastforce
  have k: "pid \<in> set (process_ids g1)" "registry_ok g1"
    using stepping_keeps [OF stepping_enroll_sample s assms(1)] assms(3) by (auto simp: keeps_def)
  have n: "fresh_results pid g1" using leavesD [OF leaves_enroll_sample s] assms(4) by (simp add: fresh_results_def)
  show ?thesis
  proof (cases r1)
    case (Inl e)
    with s assms(2) have "g' = g1" "r = Inl e" by (auto simp: enroll_body_split fbind_def)
    with k n show ?thesis by simp
  next
    case (Inr x)
    obtain d fid sid where x: "x = (d, fid, sid)" by (cases x)
    obtain g2 rid where f: "fresh_id env g1 = (g2, Inr rid)" by (simp add: fresh_id_def)
    have k2: "pid \<in> set (process_ids g2)" using fresh_id_registry [OF f k(2)] k(1) by simp
    have n2: "fresh_results pid g2" using leavesD [OF leaves_requests(1) f] n by (simp add: fresh_results_def)
    obtain g3 r3 where fin: "finish_enrollment env pid fid sid rid name metadata d g2 = (g3, r3)" by fastforce
    with assms(2) s f have r: "g' = g3"
      "r = (case r3 of Inl e \<Rightarrow> Inl e | Inr _ \<Rightarrow> Inr (enrolled_answer pid fid name metadata d))"
      by (auto simp: enroll_body_split fbind_def Inr x answered_def split: sum.splits)
    show ?thesis
    proof (cases r3)
      case (Inl e)
      with fin leaves_failed_finish(2) have "g3 = g2" by blast
      with k2 n2 r Inl show ?thesis by simp
    next
      case (Inr u)
      with finish_enrollment_recorded [OF fin [unfolded Inr] k2 n2] r show ?thesis by simp
    qed
  qed
qed

lemma started_process:
  assumes "registry_ok g" and "given_or_fresh env given g = (g1, Inr pid)" and "pid \<notin> set (process_ids g)"
    and "ptype \<in> set PROCESS_TYPES"
  shows "\<exists>g2. start_process pid ptype (fv_now env) g1 = (g2, Inr ()) \<and> registry_ok g2 \<and> pid \<in> set (process_ids g2)
    \<and> fresh_results pid g2"
proof -
  have same: "rg_processes g1 = rg_processes g" "rg_results g1 = rg_results g"
    using leavesD [OF leaves_requests(8) assms(2)] leavesD [OF leaves_requests(2) assms(2)] by simp_all
  have ok1: "registry_ok g1" using stepping_keeps [OF stepping_given assms(2,1)] by (simp add: keeps_def)
  have res: "fresh_results pid g"
    using assms(1,3) by (auto simp: registry_ok_def results_ok_def list_all_iff fresh_results_def process_ids_def)
  from assms(3,4) obtain ps where c: "process_create pid ptype ''started'' 0 None [] (fv_now env) (rg_processes g1) = Inr ps"
    by (auto simp: process_create_def same process_ids_def PROCESS_STATUSES_def)
  then have s: "start_process pid ptype (fv_now env) g1 = (g1\<lparr>rg_processes := ps\<rparr>, Inr ())"
    by (simp add: start_process_def transaction_def)
  have "pid \<in> set (process_ids (g1\<lparr>rg_processes := ps\<rparr>))"
    using process_create_Inr [OF c] by (auto simp: process_ids_def simp flip: set_map)
  with s registry_ok_open [OF ok1 c] res show ?thesis by (simp add: fresh_results_def same)
qed

lemma requests_settled:
  assumes "registry_ok g" and "given_or_fresh env process_id g = (g1, Inr pid)" and "pid \<notin> set (process_ids g)"
  shows "(case recognize env answer process_id g of (g', r) \<Rightarrow> recorded pid r g') \<and>
    (py_strip name \<noteq> [] \<longrightarrow> (case enroll env answer name metadata face_id process_id g of (g', r) \<Rightarrow> recorded pid r g'))"
proof
  obtain g2 where s: "start_process pid ''recognize'' (fv_now env) g1 = (g2, Inr ())" and k: "registry_ok g2"
    "pid \<in> set (process_ids g2)" "fresh_results pid g2"
    using started_process [OF assms, of "''recognize''"] by (auto simp: PROCESS_TYPES_def)
  obtain g3 r where b: "recognize_body env answer pid g2 = (g3, r)" by fastforce
  show "case recognize env answer process_id g of (g', r) \<Rightarrow> recorded pid r g'"
    using recognize_body_recorded [OF k(1) b k(2,3)] assms(2) s b
    by (cases r) (auto simp: recognize_def fbind_def intro: recorded_failure)
next
  obtain g2 where s: "start_process pid ''enroll'' (fv_now env) g1 = (g2, Inr ())" and k: "registry_ok g2"
    "pid \<in> set (process_ids g2)" "fresh_results pid g2"
    using started_process [OF assms, of "''enroll''"] by (auto simp: PROCESS_TYPES_def)
  obtain g3 r where b: "enroll_body env answer (py_strip name) metadata face_id pid g2 = (g3, r)" by fastforce
  show "py_strip name \<noteq> [] \<longrightarrow> (case enroll env answer name metadata face_id process_id g of (g', r) \<Rightarrow> recorded pid r g')"
    using enroll_body_recorded [OF k(1) b k(2,3)] assms(2) s b
    by (cases r) (auto simp: enroll_def fbind_def intro: recorded_failure)
qed


section \<open>Samples\<close>

text \<open>The state of a sample's row.\<close>

definition sample_active :: "string \<Rightarrow> ('o, 'v) registry \<Rightarrow> bool" where
  "sample_active sid g = (\<exists>s. sample_get sid (rg_samples g) = Some s \<and> fs_state s = ''active'')"

lemma sample_get_update:
  assumes "\<And>s. fs_sample_id (f s) = fs_sample_id s"
  shows "sample_get sid (row_update fs_sample_id sid f ss) = map_option f (sample_get sid ss)"
  using assms by (simp add: sample_get_def row_get_update_same)

lemma record_failure_not_active: "\<not> sample_active (pa_sample_id a) (record_failure env a code g)"
  by (auto simp: sample_active_def record_failure_def set_failed_def sample_get_update failed_row_def)

text \<open>What has happened to the stores when a sample becomes active.\<close>

definition object_taken :: "('o, 'v) face_env \<Rightarrow> persist_args \<Rightarrow> string \<Rightarrow> 'o \<Rightarrow> 'o \<Rightarrow> bool" where
  "object_taken env a sha objs objs' =
     (\<exists>o1 info. upload_aligned_sample (fv_minio env) (fv_minio_settings env) (aligned_key a) (pa_aligned_bytes a)
          (pa_media_type a) (pa_sample_id a) objs = (o1, Inr sha)
        \<and> stat_aligned_sample (fv_minio env) (fv_minio_settings env) (aligned_key a) o1 = (objs', Inr info))"

definition vector_taken :: "('o, 'v) face_env \<Rightarrow> persist_args \<Rightarrow> 'v vector_state \<Rightarrow> 'v vector_state \<Rightarrow> bool" where
  "vector_taken env a vecs vecs' =
     (vector_upsert (fv_qdrant env) (fv_qdrant_settings env) (pa_sample_id a) (pa_face_id a) (pa_vector a) True
        (fv_model_version env) (fv_preprocess_version env) vecs = (vecs', Inr ()))"

lemma store_object_Inr:
  "store_object env a g = (g', Inr sha) \<longleftrightarrow>
     (\<exists>objs. object_taken env a sha (rg_objects g) objs \<and> g' = g\<lparr>rg_objects := objs\<rparr>)"
  by (auto simp: store_object_def object_taken_def then_call_def split: prod.splits sum.splits)

lemma store_vector_Inr:
  "store_vector env a g = (g', Inr u) \<longleftrightarrow>
     (\<exists>vecs. vector_taken env a (rg_vectors g) vecs \<and> g' = g\<lparr>rg_vectors := vecs\<rparr>)"
  by (auto simp: store_vector_def vector_taken_def split: prod.splits sum.splits)

lemma sample_active_samples: "rg_samples g' = rg_samples g \<Longrightarrow> sample_active sid g' = sample_active sid g"
  by (simp add: sample_active_def)

lemma transaction_Inl: "transaction tx g = (g', Inl e) \<Longrightarrow> g' = g"
  by (auto simp: transaction_def split: sum.splits)

lemma stores_fail:
  "store_object env a g = (g', Inl e) \<Longrightarrow> \<not> sample_active (pa_sample_id a) g'"
  "store_vector env a g = (g', Inl e) \<Longrightarrow> \<not> sample_active (pa_sample_id a) g'"
  "activate_sample env a g = (g', Inl e) \<Longrightarrow> \<not> sample_active (pa_sample_id a) g'"
  by (auto simp: store_object_def store_vector_def activate_sample_def record_failure_not_active
      split: prod.splits sum.splits option.splits)

definition persist_opening :: "('o, 'v) face_env \<Rightarrow> persist_args \<Rightarrow> ('o, 'v, unit, unit) face_call" where
  "persist_opening env a =
     (if pa_manage_process a then start_process (pa_process_id a) ''enroll'' (fv_now env) else (\<lambda>g. (g, Inr ())))"

lemma persist_opening_leaves:
  assumes "persist_opening env a g = (g', r)"
  shows "rg_samples g' = rg_samples g" and "rg_objects g' = rg_objects g" and "rg_vectors g' = rg_vectors g"
  using assms
  by (auto simp: persist_opening_def start_process_def transaction_def rbind_Inr_iff split: if_splits sum.splits)

lemma record_blob_Inr:
  "record_blob env a sha g = (g', Inr u) \<Longrightarrow>
     g' = g\<lparr>rg_samples := row_update fs_sample_id (pa_sample_id a) (blob_row (blob_of env a sha)) (rg_samples g)\<rparr>"
  by (auto simp: record_blob_def transaction_def rbind_Inr_iff update_blob_ready_def split: sum.splits)

lemma record_blob_Inl: "record_blob env a sha g = (g', Inl e) \<Longrightarrow> g' = g"
  unfolding record_blob_def by (rule transaction_Inl)

lemma persist_new_unfold:
  "persist_new env a =
     fbind (persist_opening env a) (\<lambda>_. fbind (store_object env a) (\<lambda>sha. fbind (record_blob env a sha) (\<lambda>_.
     fbind (\<lambda>g. (persist_event env a ''sample_blob_ready'' g, Inr ())) (\<lambda>_. fbind (store_vector env a) (\<lambda>_.
     fbind (activate_sample env a) (\<lambda>s. \<lambda>g. (persist_event env a ''sample_active'' g, Inr s)))))))"
  by (simp add: persist_new_def persist_opening_def)

lemma persist_new_Inl:
  fixes g g' :: "('o, 'v) registry"
  assumes "persist_new env a g = (g', Inl e)" and "\<not> sample_active (pa_sample_id a) g"
  shows "\<not> sample_active (pa_sample_id a) g'"
proof -
  from assms(1) consider "persist_opening env a g = (g', Inl e)"
    | g1 where "store_object env a g1 = (g', Inl e)"
    | g1 g2 sha where "persist_opening env a g = (g1, Inr ())" "store_object env a g1 = (g2, Inr sha)"
        "record_blob env a sha g2 = (g', Inl e)"
    | g1 where "store_vector env a g1 = (g', Inl e)"
    | g1 where "activate_sample env a g1 = (g', Inl e)"
    by (auto simp: persist_new_unfold fbind_Inl)
  then show ?thesis
  proof cases
    case 1
    with persist_opening_leaves(1) assms(2) sample_active_samples show ?thesis by blast
  next
    case 3
    then have "rg_samples g' = rg_samples g"
      using persist_opening_leaves(1) [OF 3(1)] record_blob_Inl [OF 3(3)] by (auto simp: store_object_Inr)
    with assms(2) sample_active_samples show ?thesis by blast
  qed (simp_all add: stores_fail)
qed

definition stored_sample :: "('o, 'v) face_env \<Rightarrow> persist_args \<Rightarrow> string \<Rightarrow> face_sample \<Rightarrow> bool" where
  "stored_sample env a sha s =
     (fs_sample_id s = pa_sample_id a \<and> fs_state s = ''active'' \<and> fs_is_active s \<and> fs_object_key s = aligned_key a
      \<and> fs_bucket s = minio_bucket_faces (fv_minio_settings env) \<and> fs_sha256 s = sha
      \<and> fs_embedding_model_version s = fv_model_version env \<and> fs_preprocess_version s = fv_preprocess_version env)"

lemma sample_event_tables [simp]:
  "rg_samples (persist_event env a etype g) = rg_samples g" "rg_objects (persist_event env a etype g) = rg_objects g"
  "rg_vectors (persist_event env a etype g) = rg_vectors g"
  by (auto simp: persist_event_def log_event_def event_create_def split: sum.splits if_splits)

lemma persist_new_Inr:
  fixes g g' :: "('o, 'v) registry"
  assumes "persist_new env a g = (g', Inr s)"
  shows "sample_get (pa_sample_id a) (rg_samples g') = Some s
    \<and> (\<exists>sha. stored_sample env a sha s \<and> object_taken env a sha (rg_objects g) (rg_objects g')
         \<and> vector_taken env a (rg_vectors g) (rg_vectors g'))"
proof -
  let ?sid = "pa_sample_id a"
  from assms obtain g1 g2 sha g3 g4 g5 where o: "persist_opening env a g = (g1, Inr ())"
    and st: "store_object env a g1 = (g2, Inr sha)" and rb: "record_blob env a sha g2 = (g3, Inr ())"
    and v: "store_vector env a (persist_event env a ''sample_blob_ready'' g3) = (g4, Inr ())"
    and act: "activate_sample env a g4 = (g5, Inr s)" and g': "g' = persist_event env a ''sample_active'' g5"
    by (auto simp: persist_new_unfold fbind_Inr)
  note same = persist_opening_leaves [OF o]
  from act obtain s0 where s0: "sample_get ?sid (rg_samples g4) = Some s0" and s: "s = active_row s0"
    and g5: "rg_samples g5 = row_update fs_sample_id ?sid active_row (rg_samples g4)"
      "rg_objects g5 = rg_objects g4" "rg_vectors g5 = rg_vectors g4"
    by (auto simp: activate_sample_def set_active_def split: prod.splits option.splits)
  from v obtain vecs where vecs: "vector_taken env a (rg_vectors g3) vecs"
    and g4: "rg_samples g4 = rg_samples g3" "rg_objects g4 = rg_objects g3" "rg_vectors g4 = vecs"
    by (auto simp: store_vector_Inr)
  from st obtain objs where objs: "object_taken env a sha (rg_objects g1) objs" and g2: "g2 = g1\<lparr>rg_objects := objs\<rparr>"
    by (auto simp: store_object_Inr)
  note g3 = record_blob_Inr [OF rb]
  from s0 obtain p where p: "s0 = blob_row (blob_of env a sha) p" and id: "fs_sample_id p = ?sid"
    by (auto simp: g4 g3 sample_get_update) (auto simp: sample_get_def dest: row_get_Some)
  have "stored_sample env a sha s"
    by (simp add: stored_sample_def s active_row_def p blob_row_def blob_of_def id)
  moreover have "sample_get ?sid (rg_samples g') = Some s" using s0 by (simp add: g' g5 sample_get_update s)
  ultimately show ?thesis using objs vecs same g3 g2 g4 g5 by (auto simp: g')
qed

lemma find_append_case: "find P (xs @ ys) = (case find P xs of None \<Rightarrow> find P ys | Some x \<Rightarrow> Some x)"
  by (induction xs) auto

lemma ensure_tables:
  fixes g g' :: "('o, 'v) registry"
  assumes "ensure_identity_and_sample a g = Inr (g', x)"
  shows "rg_objects g' = rg_objects g" and "rg_vectors g' = rg_vectors g"
    and "get_by_id (pa_face_id a) (rg_identities g) \<noteq> None \<Longrightarrow> rg_identities g' = rg_identities g"
    and "case x of Some s \<Rightarrow> sample_get (pa_sample_id a) (rg_samples g) = Some s \<and> rg_samples g' = rg_samples g
      | None \<Rightarrow> \<not> sample_active (pa_sample_id a) g'"
  using assms
  by (auto simp: ensure_identity_and_sample_def rbind_Inr_iff create_pending_def sample_get_def row_get_def
      find_append_case sample_active_def split: option.splits)


section \<open>A failed enrollment\<close>

lemma persist_keeps_identities:
  fixes g g' :: "('o, 'v) registry"
  assumes "get_by_id (pa_face_id a) (rg_identities g) \<noteq> None" and "persist_sample env a g = (g', r)"
  shows "rg_identities g' = rg_identities g"
proof (cases "ensure_identity_and_sample a g")
  case (Inl e)
  with assms show ?thesis by (auto simp: persist_sample_def fbind_def transaction_def)
next
  case (Inr p)
  obtain g0 x where p: "p = (g0, x)" by fastforce
  have "rg_identities g0 = rg_identities g" using ensure_tables(3) [OF Inr [unfolded p]] assms(1) by blast
  moreover have "persist_new env a g0 = (g', r) \<or> g' = g0"
    using assms(2) Inr p
    by (auto simp: persist_sample_def fbind_def transaction_def split: option.splits if_splits)
  ultimately show ?thesis using leavesD [OF leaves_persist_new(2)] by metis
qed

definition known_as :: "string \<Rightarrow> string \<Rightarrow> pydict \<Rightarrow> ('o, 'v) registry \<Rightarrow> bool" where
  "known_as fid name metadata g =
     (\<exists>i. get_active_by_id fid (rg_identities g) = Some i \<and> fi_lifecycle_status i = ''known''
        \<and> fi_name i = Some name \<and> fi_metadata i = metadata)"

lemma known_as_identities: "rg_identities g' = rg_identities g \<Longrightarrow> known_as fid name metadata g' = known_as fid name metadata g"
  by (simp add: known_as_def)

lemma find_map_first:
  "find P xs = Some x \<Longrightarrow> (\<And>y. P y \<Longrightarrow> P (f y)) \<Longrightarrow> find P (map (\<lambda>y. if P y then f y else y) xs) = Some (f x)"
  by (induction xs) (auto split: if_splits)

lemma rename_known_as:
  assumes "get_active_by_id fid (rg_identities g) \<noteq> None" and "rename_existing fid name metadata g = (g', Inr u)"
  shows "known_as fid name metadata g'"
proof -
  from assms obtain i where i: "find (\<lambda>i. fi_face_id i = fid \<and> fi_is_active i) (rg_identities g) = Some i"
    by (auto simp: get_active_by_id_def)
  from assms obtain found where "update_known fid name (Some metadata) (rg_identities g) = Inr (rg_identities g', found)"
    by (auto simp: rename_existing_def transaction_def rbind_Inr_iff split: sum.splits option.splits)
  then have "rg_identities g' = map (\<lambda>i. if fi_face_id i = fid \<and> fi_is_active i
      then i\<lparr>fi_lifecycle_status := ''known'', fi_name := Some name, fi_metadata := metadata, fi_version := fi_version i + 1\<rparr>
      else i) (rg_identities g)"
    using i by (auto simp: update_known_def active_update_def get_active_by_id_def rbind_Inr_iff)
  with find_map_first [OF i, of "\<lambda>i. i\<lparr>fi_lifecycle_status := ''known'', fi_name := Some name, fi_metadata := metadata,
      fi_version := fi_version i + 1\<rparr>"] show ?thesis
    by (simp add: known_as_def get_active_by_id_def)
qed

definition store_failure :: "face_exc \<Rightarrow> bool" where
  "store_failure e = (e = StorageExc \<or> e = VectorStoreExc \<or> e = FinalizationExc)"

lemma request_checks_no_store_failure:
  "gpu_answer x = Inl e \<Longrightarrow> \<not> store_failure e" "select_face ds = Inl e \<Longrightarrow> \<not> store_failure e"
  "require_aligned_face_evidence bs = Inl e \<Longrightarrow> \<not> store_failure e" "landmarks_of fs = Inl e \<Longrightarrow> \<not> store_failure e"
  "select_identity env em (Some fid) g = (g', Inl e) \<Longrightarrow> \<not> store_failure e"
  "rename_existing fid name metadata g = (g', Inl e) \<Longrightarrow> \<not> store_failure e"
  "finish_enrollment env pid fid sid rid name metadata d g = (g', Inl e) \<Longrightarrow> \<not> store_failure e"
  "start_process p t n g = (g', Inl e) \<Longrightarrow> \<not> store_failure e"
  by (auto simp: start_process_def gpu_answer_def select_face_def require_aligned_face_evidence_def landmarks_of_def select_identity_def
      rename_existing_def finish_enrollment_def transaction_def fbind_def store_failure_def
      split: sum.splits gpu_exc.splits list.splits if_splits option.splits prod.splits)

lemma guarded_Inl:
  "(case m of (g', Inr a) \<Rightarrow> (g', Inr a) | (g', Inl e) \<Rightarrow> (f e g', Inl (h e))) = (k, Inl x) \<longleftrightarrow>
     (\<exists>g1 e. m = (g1, Inl e) \<and> k = f e g1 \<and> x = h e)"
  by (auto split: prod.splits sum.splits)

lemma given_or_fresh_Inl [simp]: "given_or_fresh env given g \<noteq> (g', Inl e)"
  by (auto simp: given_or_fresh_def fresh_id_def split: option.splits)

lemma invalid_name_no_store_failure [simp]: "\<not> store_failure (ValidationExc c)"
  by (simp add: store_failure_def)

lemma generated_identities: "rg_identities (g\<lparr>rg_generated := n\<rparr>) = rg_identities g"
  by simp

lemma sample_args_face: "pa_face_id (sample_args pid fid sid d evidence landmarks status name metadata) = fid"
  by (simp add: sample_args_def)

lemma enroll_body_store_failure:
  fixes g g' :: "('o, 'v) registry"
  assumes "enroll_body env answer name metadata (Some fid) pid g = (g', Inl e)" and "store_failure e"
    and "get_active_by_id fid (rg_identities g) \<noteq> None"
  shows "known_as fid name metadata g'"
proof -
  have "\<exists>r. enroll_sample env answer name metadata (Some fid) pid g = (g', Inl e)"
    using assms(1,2)
    by (auto simp: enroll_body_split fbind_Inl fresh_id_def dest: request_checks_no_store_failure(7) split: prod.splits)
  then obtain em g1 g2 f sid d ev lm where sel: "select_identity env em (Some fid) g = (g1, Inr f)"
    and ren: "rename_existing f name metadata g1 = (g2, Inr ())"
    and per: "persist_sample env (sample_args pid f sid d ev lm ''known'' (Some name) (Some metadata))
        (g2\<lparr>rg_generated := rg_generated g2 + 1\<rparr>) = (g', Inl e)"
    using assms(2)
    by (auto simp: enroll_sample_def fbind_Inl fresh_id_def dest: request_checks_no_store_failure)
  from sel have f: "f = fid" "g1 = g"
    by (auto simp: select_identity_def dest: get_active_by_id_Some split: option.splits)
  have k: "known_as fid name metadata g2" using rename_known_as [OF _ ren] assms(3) f by simp
  then have "get_by_id f (rg_identities g2) \<noteq> None" unfolding f(1)
    by (auto simp: known_as_def get_by_id_def row_get_None dest!: get_active_by_id_Some)
  then have "rg_identities g' = rg_identities (g2\<lparr>rg_generated := rg_generated g2 + 1\<rparr>)"
    using persist_keeps_identities [OF _ per] 
    by (simp only: sample_args_face generated_identities not_False_eq_True simp_thms)
  then have "rg_identities g' = rg_identities g2" by (simp only: generated_identities)
  with known_as_identities k show ?thesis by blast
qed

text \<open>
  C37. An enrollment for a given identity that fails because a store does not take its sample has already
  renamed the identity: the caller is told that the enrollment failed, and the identity is known under
  the new name and metadata all the same.
\<close>

theorem failed_enrollment_renames:
  fixes g g' :: "('o, 'v) registry"
  assumes "get_active_by_id fid (rg_identities g) \<noteq> None"
    and "enroll env answer name metadata (Some fid) process_id g = (g', Inl e)"
    and "e = StorageExc \<or> e = VectorStoreExc \<or> e = FinalizationExc"
  shows "\<exists>i. get_active_by_id fid (rg_identities g') = Some i \<and> fi_lifecycle_status i = ''known''
    \<and> fi_name i = Some (py_strip name) \<and> fi_metadata i = metadata"
proof -
  have e: "store_failure e" using assms(3) by (simp add: store_failure_def)
  from assms(2) e obtain g1 pid g2 g3 e0 where gv: "given_or_fresh env process_id g = (g1, Inr pid)"
    and st: "start_process pid ''enroll'' (fv_now env) g1 = (g2, Inr ())"
    and b: "enroll_body env answer (py_strip name) metadata (Some fid) pid g2 = (g3, Inl e0)"
    and e0: "e = snd (enroll_failure e0)"
    and g': "g' = fail_process env pid ''enrollment_failed'' (fst (enroll_failure e0)) g3"
    by (auto simp: enroll_def fbind_Inl guarded_Inl
        dest: request_checks_no_store_failure(8) split: if_splits)
  have "store_failure e0"
    using e e0 by (cases e0) (auto simp: enroll_failure_def store_failure_def)
  moreover have "get_active_by_id fid (rg_identities g2) \<noteq> None"
    using leavesD [OF leaves_requests(9) gv] leavesD [OF leaves_start(2) st] assms(1) by simp
  ultimately have "known_as fid (py_strip name) metadata g3" using enroll_body_store_failure [OF b] by blast
  then show ?thesis by (simp add: known_as_def g' fail_process_def)
qed

section \<open>A repair run during an outage\<close>

lemma storage_pass_outage:
  fixes g :: "('o, 'v) registry"
  assumes "\<And>s k. \<exists>s' e. stat_aligned_sample (fv_minio env) (fv_minio_settings env) k s = (s', Inl e)"
  shows "rg_samples (fst (storage_pass env False ss g)) =
      map (\<lambda>r. if fs_sample_id r \<in> fs_sample_id ` set ss then inactive_row r else r) (rg_samples g)
    \<and> map mm_sample_id (snd (storage_pass env False ss g)) = map fs_sample_id ss"
proof (induction ss arbitrary: g)
  case (Cons s ss)
  obtain objs e where st: "stat_aligned_sample (fv_minio env) (fv_minio_settings env) (fs_object_key s) (rg_objects g) = (objs, Inl e)"
    using assms by blast
  obtain vecs vres where v: "vector_get (fv_qdrant env) (fv_qdrant_settings env) (fs_sample_id s) (rg_vectors g) = (vecs, vres)"
    by fastforce
  let ?g = "repair env (fs_sample_id s) (g\<lparr>rg_objects := objs, rg_vectors := vecs\<rparr>)"
  obtain g3 rest where rest: "storage_pass env False ss ?g = (g3, rest)" by fastforce
  have issue: "object_issues (Inl e) s @ vector_issues vres s \<noteq> []" by (cases e) (simp_all add: object_issues_def)
  have samples: "rg_samples ?g = row_update fs_sample_id (fs_sample_id s) inactive_row (rg_samples g)"
    by (simp add: repair_def set_inactive_def)
  show ?case
    using Cons.IH [of ?g] issue
    by (simp add: st v rest samples Let_def row_update_def comp_def) (auto simp: inactive_row_def)
qed simp

text \<open>
  A repair run of the storage reconciliation cannot tell an outage from a loss: while the object store
  answers no request, every active sample of the model is reported and taken out of service, whether or
  not its object and its vector are intact.
\<close>

theorem outage_deactivates_samples:
  fixes g :: "('o, 'v) registry"
  assumes "\<And>s b k. \<exists>s' e. mc_stat (fv_minio env) b k s = (s', Inl e)"
    and "storage_reconcile env model preprocess False g = (g', ms)"
  shows "map mm_sample_id ms = map fs_sample_id (list_active_by_model
      (or_default model (fv_model_version env)) (or_default preprocess (fv_preprocess_version env)) (rg_samples g))
    \<and> list_active_by_model (or_default model (fv_model_version env)) (or_default preprocess (fv_preprocess_version env))
        (rg_samples g') = []"
proof -
  let ?l = "list_active_by_model (or_default model (fv_model_version env)) (or_default preprocess (fv_preprocess_version env))"
  have st: "\<exists>s' e. stat_aligned_sample (fv_minio env) (fv_minio_settings env) k s = (s', Inl e)" for s k
  proof -
    obtain s' e where "mc_stat (fv_minio env) (minio_bucket_faces (fv_minio_settings env)) k s = (s', Inl e)"
      using assms(1) by blast
    then show ?thesis
      by (cases "validate_object_key k")
         (auto simp: stat_aligned_sample_def checked_call_def stat_in_def then_call_def translated_missing_def
           split: client_exc.splits)
  qed
  have "rg_samples g' = map (\<lambda>r. if fs_sample_id r \<in> fs_sample_id ` set (?l (rg_samples g)) then inactive_row r else r) (rg_samples g)"
    and "map mm_sample_id ms = map fs_sample_id (?l (rg_samples g))"
    using storage_pass_outage [OF st] assms(2) unfolding storage_reconcile_def by (metis fst_conv snd_conv)+
  then show ?thesis by (auto simp: list_active_by_model_def filter_empty_conv inactive_row_def)
qed

end
