(* ===== verification/Face_Witnesses.thy ===== *)
theory Face_Witnesses
  imports Face_Outcomes
begin

text \<open>
  Concrete inputs on which the theorems on the face services apply: a registry with one known identity,
  and stores that answer every call at once.
\<close>

definition ready_minio :: "unit minio" where
  "ready_minio =
     \<lparr>mc_put = \<lambda>_ _ _ _ _ s. (s, Inr ()),
      mc_stat = \<lambda>_ _ s. (s, Inr \<lparr>os_size = Some 1, os_etag = None, os_metadata = []\<rparr>),
      mc_get = \<lambda>_ _ _ s. (s, Inr []), mc_remove = \<lambda>_ _ s. (s, Inr ()), mc_sha256 = \<lambda>_. ''d''\<rparr>"

definition ready_qdrant :: "unit qdrant" where
  "ready_qdrant =
     \<lparr>qc_collection_exists = \<lambda>s. (s, Inr False), qc_create_collection = \<lambda>_ _ s. (s, Inr ()),
      qc_get_collection = \<lambda>s. (s, Inr NoVectors), qc_create_payload_index = \<lambda>_ s. (s, Inr ()),
      qc_upsert = \<lambda>_ s. (s, Inr ()), qc_set_payload = \<lambda>_ _ s. (s, Inr ()), qc_delete = \<lambda>_ s. (s, Inr ()),
      qc_retrieve = \<lambda>_ s. (s, Inr []), qc_query_points = \<lambda>_ _ _ s. (s, Inr []),
      qc_query_batch = \<lambda>vs _ _ s. (s, Inr (map (\<lambda>_. []) vs))\<rparr>"

definition ready_env :: "unit minio \<Rightarrow> (unit, unit) face_env" where
  "ready_env minio =
     \<lparr>fv_minio = minio,
      fv_minio_settings = \<lparr>minio_bucket_faces = ''faces'', minio_bucket_videos = ''videos'', minio_bucket_live = ''live'',
        aligned_sample_max_bytes = 100, video_max_upload_bytes = 100\<rparr>,
      fv_qdrant = ready_qdrant, fv_qdrant_settings = \<lparr>qdrant_vector_size = 512, qdrant_distance = ''Cosine''\<rparr>,
      fv_detector_version = ''1'', fv_model_version = ''m'', fv_alignment_version = ''1'', fv_preprocess_version = ''p'',
      fv_match_settings = sample_match_settings, fv_fresh = \<lambda>_. ''n'', fv_now = 5\<rparr>"

definition one_identity :: "(unit, unit) registry" where
  "one_identity =
     \<lparr>rg_identities = [sample_identity], rg_samples = [], rg_processes = [], rg_results = [], rg_events = [],
      rg_objects = (), rg_vectors = \<lparr>vi_index = (), vi_setup_complete = True\<rparr>, rg_generated = 0\<rparr>"

lemma one_identity_ok: "registry_ok one_identity"
  by (simp add: registry_ok_def one_identity_def identities_ok_def identity_constraints_def sample_identity_def
      samples_ok_def results_ok_def process_ids_def)

definition plain_face :: gpu_face where
  "plain_face =
     \<lparr>gf_ordinal = 0, gf_x = Fin 0, gf_y = Fin 0, gf_width = Fin 1, gf_height = Fin 1,
      gf_landmarks_xy = replicate 10 (Fin 0), gf_detector_confidence = Fin 1, gf_embedding = [], gf_aligned_jpeg = [1]\<rparr>"

definition one_face :: "gpu_exc + image_result" where
  "one_face = Inr \<lparr>im_request_id = ''q'', im_status = ''OK'', im_error_code = [], im_faces = [plain_face]\<rparr>"


lemma deletes_one_identity:
  "\<exists>g1. delete_identity (ready_env ready_minio) ''f'' one_identity = (g1, Inr ''n'')"
  by (simp add: delete_identity_def fbind_def fresh_id_def transaction_def delete_identity_tx_def open_process_def
      process_create_def one_identity_def ready_env_def PROCESS_TYPES_def PROCESS_STATUSES_def sample_delete
      deactivate_by_face_def list_by_face_def sample_match_settings_def)

theorem deleted_face_never_returned_witness:
  "\<forall>b. snd (enroll (ready_env ready_minio) one_face ''Bob'' [] (Some ''f'') (Some ''q'')
     (fst (delete_identity (ready_env ready_minio) ''f'' one_identity))) \<noteq> Inr b"
proof -
  obtain g1 where d: "delete_identity (ready_env ready_minio) ''f'' one_identity = (g1, Inr ''n'')"
    using deletes_one_identity by blast
  have n: "fv_fresh (ready_env ready_minio) k \<noteq> ''f''" for k by (simp add: ready_env_def)
  show ?thesis
    using deleted_face_never_returned [OF one_identity_ok d rtranclp.rtrancl_refl n] by (simp add: d)
qed


definition one_sample :: persist_args where
  "one_sample =
     sample_args ''q'' ''f'' ''n'' plain_face [1] [] ''known'' (Some ''Bob'') (Some [])"


lemma ready_env_fields [simp]:
  "fv_minio (ready_env m) = m" "fv_now (ready_env m) = 5" "fv_fresh (ready_env m) = (\<lambda>_. ''n'')"
  by (simp_all add: ready_env_def)

lemma refused_key: "upload_aligned_sample m c ''faces/f/n/aligned'' bs t sid objs =
   (objs, Inl (ObjectValidationError ''Invalid object key format''))"
proof -
  have "\<not> face_key ''faces/f/n/aligned''" by (simp add: face_key_def uuid_segment_def canonical_uuid_def py_lower_def)
  then show ?thesis
    by (simp add: upload_aligned_sample_def checked_call_def validate_object_key_def ensure_def)
qed

lemma refused_sample:
  assumes "aligned_key a = ''faces/f/n/aligned''" and "\<not> pa_manage_process a"
    and "ensure_identity_and_sample a g = Inr (g1, None)"
  shows "\<exists>g'. persist_sample (ready_env ready_minio) a g = (g', Inl StorageExc)"
  using assms
  by (simp add: persist_sample_def fbind_def transaction_def persist_new_def store_object_def then_call_def refused_key)

lemma store_refuses:
  "snd (enroll (ready_env ready_minio) one_face ''Bob'' [] (Some ''f'') (Some ''q'') one_identity) = Inl StorageExc"
proof -
  let ?env = "ready_env ready_minio"
  let ?renamed = "sample_identity\<lparr>fi_name := Some ''Bob'', fi_version := 2\<rparr>"
  let ?p = "\<lparr>pr_process_id = ''q'', pr_process_type = ''enroll'', pr_status = ''started'', pr_face_count = 0,
    pr_error_code = None, pr_details = [], pr_created_at = 5, pr_completed_at = None\<rparr>"
  let ?g = "one_identity\<lparr>rg_processes := [?p]\<rparr>"
  let ?g2 = "?g\<lparr>rg_identities := [?renamed]\<rparr>"
  have st: "start_process ''q'' ''enroll'' 5 one_identity = (?g, Inr ())"
    by (simp add: start_process_def transaction_def process_create_def one_identity_def PROCESS_TYPES_def PROCESS_STATUSES_def)
  have sel: "select_identity ?env em (Some ''f'') ?g = (?g, Inr ''f'')" for em
    by (simp add: select_identity_def get_active_by_id_def one_identity_def sample_identity_def)
  have ren: "rename_existing ''f'' ''Bob'' [] ?g = (?g2, Inr ())"
    by (simp add: rename_existing_def transaction_def get_active_by_id_def one_identity_def sample_identity_def
        update_known_def active_update_def checked_def identities_ok_def identity_constraints_def)
  let ?a = "\<lambda>ev lm. sample_args ''q'' ''f'' ''n'' plain_face ev lm ''known'' (Some ''Bob'') (Some [])"
  obtain lm where lm: "landmarks_of (gf_landmarks_xy plain_face) = Inr lm"
    by (simp add: landmarks_of_def plain_face_def)
  have ev: "require_aligned_face_evidence (gf_aligned_jpeg plain_face) = Inr [1]"
    by (simp add: require_aligned_face_evidence_def plain_face_def)
  have "\<exists>g'. persist_sample ?env (?a [1] lm) (?g2\<lparr>rg_generated := 1\<rparr>) = (g', Inl StorageExc)"
    by (rule refused_sample)
       (simp_all add: sample_args_def aligned_key_def ensure_identity_and_sample_def one_identity_def get_by_id_def
         row_get_def sample_identity_def sample_get_def create_pending_def checked_def samples_ok_def SAMPLE_STATES_def)
  then obtain g' where per: "persist_sample ?env (?a [1] lm) (?g2\<lparr>rg_generated := 1\<rparr>) = (g', Inl StorageExc)" ..
  have fresh: "fresh_id ?env ?g2 = (?g2\<lparr>rg_generated := 1\<rparr>, Inr ''n'')"
    by (simp add: fresh_id_def one_identity_def)
  have "enroll_body ?env one_face ''Bob'' [] (Some ''f'') ''q'' ?g = (g', Inl StorageExc)"
    by (simp only: enroll_body_def fbind_def answered_def gpu_answer_def one_face_def select_face_def sel ren fresh
        ev lm per prod.case sum.case list.case image_result.simps)
  then show ?thesis
    by (auto simp: enroll_def fbind_def given_or_fresh_def st py_strip_def is_space_def char_code_def enroll_failure_def
        split: prod.splits sum.splits)
qed

theorem failed_enrollment_renames_witness:
  "\<exists>i. get_active_by_id ''f'' (rg_identities (fst (enroll (ready_env ready_minio) one_face ''Bob'' [] (Some ''f'') (Some ''q'')
       one_identity))) = Some i \<and> fi_name i = Some (py_strip ''Bob'')"
proof -
  obtain g' where e: "enroll (ready_env ready_minio) one_face ''Bob'' [] (Some ''f'') (Some ''q'') one_identity = (g', Inl StorageExc)"
    using store_refuses by (metis prod.collapse)
  have "get_active_by_id ''f'' (rg_identities one_identity) \<noteq> None"
    by (simp add: get_active_by_id_def one_identity_def sample_identity_def)
  from failed_enrollment_renames [OF this e] e show ?thesis by auto
qed

definition lost_minio :: "unit minio" where
  "lost_minio = ready_minio\<lparr>mc_stat := \<lambda>_ _ s. (s, Inl (ClientError ''timed out''))\<rparr>"

definition one_active :: face_sample where
  "one_active =
     \<lparr>fs_sample_id = ''n'', fs_face_id = ''f'', fs_state = ''active'', fs_bucket = ''faces'', fs_object_key = ''k'',
      fs_media_type = ''image/jpeg'', fs_sha256 = ''d'', fs_detector_version = ''1'', fs_embedding_model_version = ''m'',
      fs_alignment_version = ''1'', fs_preprocess_version = ''p'', fs_is_active = True, fs_bounding_box = [],
      fs_landmarks = None, fs_quality = None, fs_failure_code = None\<rparr>"

theorem outage_deactivates_samples_witness:
  "map mm_sample_id (snd (storage_reconcile (ready_env lost_minio) None None False (one_identity\<lparr>rg_samples := [one_active]\<rparr>)))
     = [''n'']"
proof -
  have "\<exists>s' e. mc_stat (fv_minio (ready_env lost_minio)) b k s = (s', Inl e)" for s b k
    by (simp add: ready_env_def lost_minio_def)
  from outage_deactivates_samples [OF this surjective_pairing] show ?thesis
    by (simp add: one_active_def list_active_by_model_def or_default_def ready_env_def)
qed

end
