(* ===== verification/Video_Protocol.thy ===== *)
theory Video_Protocol
  imports Video_Tracking Py_Numbers
begin

text \<open>
  The native video worker's event stream: the decoder of
  \<open>src/backend/app/infrastructure/video/protocol.py\<close> and the reader and exit handling of
  \<open>src/backend/app/infrastructure/video/native_runner.py\<close>. The MessagePack decoder is a parameter that
  may raise; the process is seen through the bytes it writes and its exit code.
\<close>

section \<open>Events\<close>

record video_progress =
  vp_decoded_frame :: int
  vp_processed_frames :: int
  vp_total_frames :: int
  vp_progress_percent :: real

record video_completed =
  vc_decoded_frames :: int
  vc_processed_frames :: int
  vc_track_count :: int

datatype video_event =
    VideoProgress video_progress
  | VideoTrackOutput track_output
  | VideoCompleted video_completed
  | VideoFailed string string

definition VIDEO_PROTOCOL_VERSION :: int where
  "VIDEO_PROTOCOL_VERSION = 1"

definition VIDEO_HEADER_SIZE :: nat where
  "VIDEO_HEADER_SIZE = 4"

definition MAX_EVENT_BYTES :: nat where
  "MAX_EVENT_BYTES = 64 * 1024 * 1024"

section \<open>The decoder\<close>

definition is_number :: "pyval \<Rightarrow> bool" where
  "is_number v = (case v of PStr _ \<Rightarrow> True | PInt _ \<Rightarrow> True | PFloat _ \<Rightarrow> True | _ \<Rightarrow> False)"

definition video_finite :: "pyval \<Rightarrow> real result" where
  "video_finite v =
     (if \<not> is_number v then Inl (ValueError ''INVALID_NUMERIC_VALUE'')
      else rbind (py_float v) (\<lambda>x.
        case x of Fin r \<Rightarrow> Inr r | _ \<Rightarrow> Inl (ValueError ''NON_FINITE_VALUE'')))"

definition non_negative :: "pyval \<Rightarrow> int result" where
  "non_negative v =
     (if \<not> is_number v then Inl (ValueError ''INVALID_INTEGER_VALUE'')
      else rbind (py_int v) (\<lambda>i. if i < 0 then Inl (ValueError ''NEGATIVE_VALUE'') else Inr i))"

definition finite_item :: "pyval \<Rightarrow> string \<Rightarrow> real result" where
  "finite_item v k = rbind (py_item v k) video_finite"

definition count_item :: "pyval \<Rightarrow> string \<Rightarrow> int result" where
  "count_item v k = rbind (py_item v k) non_negative"

definition decode_progress :: "pyval \<Rightarrow> video_event result" where
  "decode_progress p =
     rbind (finite_item p ''progress_percent'') (\<lambda>progress.
     if progress < 0 \<or> progress > 100 then Inl (ValueError ''INVALID_PROGRESS'')
     else rbind (count_item p ''decoded_frame'') (\<lambda>decoded.
     rbind (count_item p ''processed_frames'') (\<lambda>processed.
     rbind (count_item p ''total_frames'') (\<lambda>total.
       Inr (VideoProgress \<lparr>vp_decoded_frame = decoded, vp_processed_frames = processed,
              vp_total_frames = total, vp_progress_percent = progress\<rparr>)))))"

definition decode_detection :: "pyval \<Rightarrow> video_detection result" where
  "decode_detection item =
     rbind (count_item item ''frame'') (\<lambda>frame.
     rbind (finite_item item ''timestamp'') (\<lambda>timestamp.
     rbind (finite_item item ''x'') (\<lambda>x.
     rbind (finite_item item ''y'') (\<lambda>y.
     rbind (finite_item item ''width'') (\<lambda>width.
     rbind (finite_item item ''height'') (\<lambda>height.
     rbind (finite_item item ''detector_confidence'') (\<lambda>confidence.
     rbind (rbind (rbind (py_item item ''landmarks'') py_iter) (mapM video_finite)) (\<lambda>landmarks.
       Inr \<lparr>det_frame = frame, det_timestamp = timestamp, det_x = x, det_y = y, det_width = width,
            det_height = height, detector_confidence = confidence, det_landmarks = landmarks\<rparr>))))))))"

definition decode_track :: "pyval \<Rightarrow> video_event result" where
  "decode_track p =
     rbind (rbind (rbind (py_item p ''embedding'') py_iter) (mapM video_finite)) (\<lambda>embedding.
     if length embedding \<noteq> 512 then Inl (ValueError ''INVALID_EMBEDDING'')
     else rbind (rbind (rbind (py_item p ''detections'') py_iter) (mapM decode_detection)) (\<lambda>detections.
     if list_ex (\<lambda>d. length (det_landmarks d) \<noteq> 10) detections then Inl (ValueError ''INVALID_LANDMARKS'')
     else rbind (count_item p ''tracker_id'') (\<lambda>tracker.
     rbind (rbind (py_item p ''representative_jpeg'') py_bytes) (\<lambda>jpeg.
       Inr (VideoTrackOutput \<lparr>to_tracker_id = tracker, to_embedding = embedding, to_jpeg = jpeg,
              to_detections = detections\<rparr>)))))"

definition decode_completed :: "pyval \<Rightarrow> video_event result" where
  "decode_completed p =
     rbind (count_item p ''decoded_frames'') (\<lambda>decoded.
     rbind (count_item p ''processed_frames'') (\<lambda>processed.
     rbind (count_item p ''track_count'') (\<lambda>tracks.
       Inr (VideoCompleted \<lparr>vc_decoded_frames = decoded, vc_processed_frames = processed,
              vc_track_count = tracks\<rparr>))))"

definition decode_failure :: "(pyval \<Rightarrow> string) \<Rightarrow> pyval \<Rightarrow> video_event result" where
  "decode_failure repr p =
     rbind (py_item p ''error_code'') (\<lambda>code.
     rbind (py_item p ''message'') (\<lambda>message. Inr (VideoFailed (py_str repr code) (py_str repr message))))"

definition decode_video_payload :: "(pyval \<Rightarrow> string) \<Rightarrow> pyval \<Rightarrow> video_event result" where
  "decode_video_payload repr p =
     (case p of
        PDict d \<Rightarrow>
          if \<not> (case map_of d (PStr ''protocol_version'') of
                   None \<Rightarrow> False | Some v \<Rightarrow> equals_int VIDEO_PROTOCOL_VERSION v)
          then Inl (ValueError ''UNSUPPORTED_PROTOCOL_VERSION'')
          else rbind (getitem d ''event_type'') (\<lambda>t.
            if t = PStr ''progress'' then decode_progress p
            else if t = PStr ''track'' then decode_track p
            else if t = PStr ''completed'' then decode_completed p
            else if t = PStr ''failed'' then decode_failure repr p
            else Inl (ValueError ''UNKNOWN_EVENT_TYPE''))
      | _ \<Rightarrow> Inl (OtherError ''AttributeError''))"

definition event_payload_error :: "py_exc \<Rightarrow> bool" where
  "event_payload_error e =
     (e \<in> {KeyError, TypeError, OtherError ''ExtraData'', OtherError ''FormatError'', OtherError ''StackError''})"

definition decode_video_event ::
  "(bytes \<Rightarrow> pyval result) \<Rightarrow> (pyval \<Rightarrow> string) \<Rightarrow> bytes \<Rightarrow> video_event result" where
  "decode_video_event unpackb repr frame =
     (if length frame < VIDEO_HEADER_SIZE then Inl (ValueError ''TRUNCATED_FRAME'')
      else let payload_size = unpack_be32 (take VIDEO_HEADER_SIZE frame)
      in if payload_size > MAX_EVENT_BYTES then Inl (ValueError ''FRAME_TOO_LARGE'')
         else if length frame \<noteq> VIDEO_HEADER_SIZE + payload_size then Inl (ValueError ''TRUNCATED_FRAME'')
         else case rbind (unpackb (drop VIDEO_HEADER_SIZE frame)) (decode_video_payload repr) of
                Inl e \<Rightarrow> Inl (if event_payload_error e then ValueError ''INVALID_EVENT_PAYLOAD'' else e)
              | Inr event \<Rightarrow> Inr event)"

section \<open>The reader\<close>

datatype video_exc =
    NativeVideoCancelled
  | NativeVideoTimeout
  | NativeVideoFailed string string
  | VideoLeaseLost string
  | VideoError py_exc

text \<open>
  The handler updates a state of its own and may raise. Every iteration consumes at least the
  length prefix, so the loop ends.
\<close>

function video_loop ::
  "(bytes \<Rightarrow> pyval result) \<Rightarrow> (pyval \<Rightarrow> string) \<Rightarrow> ('s \<Rightarrow> video_event \<Rightarrow> 's \<times> (video_exc + unit)) \<Rightarrow>
   video_completed option \<Rightarrow> 's \<Rightarrow> bytes \<Rightarrow> 's \<times> (video_exc + video_completed option)"
where
  "video_loop unpackb repr on_event completed s stdout =
     (if length stdout < VIDEO_HEADER_SIZE then
        (s, if stdout = [] then Inr completed else Inl (VideoError (ValueError ''TRUNCATED_FRAME'')))
      else let payload_size = unpack_be32 (take VIDEO_HEADER_SIZE stdout);
               frame = take (VIDEO_HEADER_SIZE + payload_size) stdout
      in if payload_size > MAX_EVENT_BYTES then (s, Inl (VideoError (ValueError ''FRAME_TOO_LARGE'')))
         else if length stdout < VIDEO_HEADER_SIZE + payload_size
         then (s, Inl (VideoError (OtherError ''IncompleteReadError'')))
         else case decode_video_event unpackb repr frame of
           Inl e \<Rightarrow> (s, Inl (VideoError e))
         | Inr (VideoFailed code message) \<Rightarrow> (s, Inl (NativeVideoFailed code message))
         | Inr event \<Rightarrow>
             (case on_event s event of
                (s', Inl e) \<Rightarrow> (s', Inl e)
              | (s', Inr _) \<Rightarrow>
                  video_loop unpackb repr on_event
                    (case event of VideoCompleted c \<Rightarrow> Some c | _ \<Rightarrow> completed) s'
                    (drop (VIDEO_HEADER_SIZE + payload_size) stdout)))"
  by pat_completeness auto

termination
  by (relation "measure (\<lambda>(_, _, _, _, _, stdout). length stdout)") (auto simp: VIDEO_HEADER_SIZE_def)

declare video_loop.simps [simp del]

definition read_video_events ::
  "(bytes \<Rightarrow> pyval result) \<Rightarrow> (pyval \<Rightarrow> string) \<Rightarrow> ('s \<Rightarrow> video_event \<Rightarrow> 's \<times> (video_exc + unit)) \<Rightarrow> 's \<Rightarrow>
   bytes \<Rightarrow> 's \<times> (video_exc + video_completed option)" where
  "read_video_events unpackb repr on_event s stdout = video_loop unpackb repr on_event None s stdout"

text \<open>What the runner makes of the end of the events and of the worker's exit code.\<close>

definition runner_result :: "int \<Rightarrow> video_exc + video_completed option \<Rightarrow> video_exc + video_completed" where
  "runner_result return_code events =
     rbind events (\<lambda>completed.
       if return_code \<noteq> 0 then
         Inl (if return_code = 3 then NativeVideoCancelled
              else VideoError (OtherError (''Native video worker exited with code '' @ str_int return_code)))
       else case completed of
              None \<Rightarrow> Inl (VideoError (OtherError ''Native video worker exited without a completed event''))
            | Some c \<Rightarrow> Inr c)"
section \<open>What the decoder lets through\<close>

fun wf_video_event :: "video_event \<Rightarrow> bool" where
  "wf_video_event (VideoProgress p) =
     (0 \<le> vp_progress_percent p \<and> vp_progress_percent p \<le> 100 \<and> 0 \<le> vp_decoded_frame p
      \<and> 0 \<le> vp_processed_frames p \<and> 0 \<le> vp_total_frames p)"
| "wf_video_event (VideoTrackOutput t) =
     (0 \<le> to_tracker_id t \<and> length (to_embedding t) = 512
      \<and> (\<forall>d \<in> set (to_detections t). 0 \<le> det_frame d \<and> length (det_landmarks d) = 10))"
| "wf_video_event (VideoCompleted c) =
     (0 \<le> vc_decoded_frames c \<and> 0 \<le> vc_processed_frames c \<and> 0 \<le> vc_track_count c)"
| "wf_video_event (VideoFailed code message) = True"

lemma non_negative_Inr: "non_negative v = Inr i \<Longrightarrow> 0 \<le> i"
  by (auto simp: non_negative_def rbind_Inr_iff split: if_splits)

lemma count_item_Inr: "count_item v k = Inr i \<Longrightarrow> 0 \<le> i"
  by (auto simp: count_item_def rbind_Inr_iff dest: non_negative_Inr)

lemma decode_progress_wf: "decode_progress p = Inr e \<Longrightarrow> wf_video_event e"
  by (auto simp: decode_progress_def rbind_Inr_iff dest!: count_item_Inr split: if_splits)

lemma decode_completed_wf: "decode_completed p = Inr e \<Longrightarrow> wf_video_event e"
  by (auto simp: decode_completed_def rbind_Inr_iff dest!: count_item_Inr)

lemma decode_detection_frame: "decode_detection v = Inr d \<Longrightarrow> 0 \<le> det_frame d"
  by (auto simp: decode_detection_def rbind_Inr_iff dest!: count_item_Inr)

lemma decode_track_wf:
  assumes "decode_track p = Inr e"
  shows "wf_video_event e"
proof -
  from assms obtain em items ds n j where em: "length em = 512"
    and ds: "mapM decode_detection items = Inr ds" "\<not> list_ex (\<lambda>d. length (det_landmarks d) \<noteq> 10) ds"
    and n: "0 \<le> n"
    and e: "e = VideoTrackOutput \<lparr>to_tracker_id = n, to_embedding = em, to_jpeg = j, to_detections = ds\<rparr>"
    by (auto simp: decode_track_def rbind_Inr_iff dest: count_item_Inr split: if_splits)
  have "list_all (\<lambda>d. 0 \<le> det_frame d) ds"
    using mapM_Inr_all [OF ds(1), of "\<lambda>d. 0 \<le> det_frame d"] decode_detection_frame by blast
  with ds(2) em n show ?thesis by (auto simp: e list_all_iff list_ex_iff)
qed

lemma decode_video_event_Inr:
  assumes "decode_video_event unpackb repr frame = Inr e"
  obtains p where "unpackb (drop VIDEO_HEADER_SIZE frame) = Inr p" and "decode_video_payload repr p = Inr e"
    and "length frame = VIDEO_HEADER_SIZE + unpack_be32 (take VIDEO_HEADER_SIZE frame)"
    and "unpack_be32 (take VIDEO_HEADER_SIZE frame) \<le> MAX_EVENT_BYTES"
  using assms
  by (auto simp: decode_video_event_def Let_def rbind_Inr_iff split: if_splits sum.splits)

lemma decode_video_payload_cases:
  assumes "decode_video_payload repr p = Inr e"
  obtains "decode_progress p = Inr e" | "decode_track p = Inr e" | "decode_completed p = Inr e"
    | "decode_failure repr p = Inr e"
  using assms by (auto simp: decode_video_payload_def rbind_Inr_iff split: pyval.splits if_splits)

text \<open>
  C35. Whatever bytes the native video worker writes, an event that passes the decoder is well formed:
  a progress report lies between 0 and 100 percent, every count and frame number is not negative, a
  track has an embedding of 512 finite numbers and ten landmark coordinates in each detection.
\<close>

theorem decoded_video_event_wf:
  assumes "decode_video_event unpackb repr frame = Inr e"
  shows "wf_video_event e"
proof -
  from assms obtain p where "decode_video_payload repr p = Inr e" by (rule decode_video_event_Inr)
  then show ?thesis
  proof (cases rule: decode_video_payload_cases)
    case 4
    then show ?thesis by (auto simp: decode_failure_def rbind_Inr_iff)
  qed (auto intro: decode_progress_wf decode_track_wf decode_completed_wf)
qed

section \<open>What the reader delivers\<close>

text \<open>The reference: the handler applied to a list of events, until it raises.\<close>

fun handle_all :: "('s \<Rightarrow> video_event \<Rightarrow> 's \<times> (video_exc + unit)) \<Rightarrow> 's \<Rightarrow> video_event list \<Rightarrow> 's \<times> (video_exc + unit)" where
  "handle_all on_event s [] = (s, Inr ())"
| "handle_all on_event s (e # es) =
     (case on_event s e of (s', Inl x) \<Rightarrow> (s', Inl x) | (s', Inr _) \<Rightarrow> handle_all on_event s' es)"

fun next_completed :: "video_completed option \<Rightarrow> video_event \<Rightarrow> video_completed option" where
  "next_completed c (VideoCompleted c') = Some c'"
| "next_completed c _ = c"

fun is_failure :: "video_event \<Rightarrow> bool" where
  "is_failure (VideoFailed code message) = True"
| "is_failure _ = False"

lemma next_completed_case: "next_completed c e = (case e of VideoCompleted c' \<Rightarrow> Some c' | _ \<Rightarrow> c)"
  by (cases e) auto

lemma video_loop_frame:
  assumes "decode_video_event unpackb repr f = Inr e" and "\<not> is_failure e"
  shows "video_loop unpackb repr on_event c s (f @ rest) =
    (case on_event s e of (s', Inl x) \<Rightarrow> (s', Inl x)
     | (s', Inr _) \<Rightarrow> video_loop unpackb repr on_event (next_completed c e) s' rest)"
proof -
  obtain len: "length f = VIDEO_HEADER_SIZE + unpack_be32 (take VIDEO_HEADER_SIZE f)"
    and max: "unpack_be32 (take VIDEO_HEADER_SIZE f) \<le> MAX_EVENT_BYTES"
    using assms(1) by (rule decode_video_event_Inr)
  then have "take VIDEO_HEADER_SIZE (f @ rest) = take VIDEO_HEADER_SIZE f" by simp
  with assms len max show ?thesis
    by (subst video_loop.simps)
       (auto simp: Let_def next_completed_case split: video_event.splits)
qed

definition decodes_to ::
  "(bytes \<Rightarrow> pyval result) \<Rightarrow> (pyval \<Rightarrow> string) \<Rightarrow> bytes list \<Rightarrow> video_event list \<Rightarrow> bool" where
  "decodes_to unpackb repr = list_all2 (\<lambda>f e. decode_video_event unpackb repr f = Inr e)"

lemma video_loop_frames:
  assumes "decodes_to unpackb repr fs es" and "\<not> list_ex is_failure es"
    and "handle_all on_event s es = (s', Inr u)"
  shows "video_loop unpackb repr on_event c s (concat fs) = (s', Inr (foldl next_completed c es))"
  using assms unfolding decodes_to_def
proof (induction fs es arbitrary: s c rule: list_all2_induct)
  case Nil
  then show ?case by (simp add: video_loop.simps VIDEO_HEADER_SIZE_def)
next
  case (Cons f fs e es)
  then show ?case by (auto simp: video_loop_frame split: prod.splits sum.splits)
qed

lemma video_loop_split:
  assumes "video_loop unpackb repr on_event c s stdout = (s', Inr r)"
  shows "\<exists>fs es. stdout = concat fs \<and> decodes_to unpackb repr fs es \<and> \<not> list_ex is_failure es
    \<and> handle_all on_event s es = (s', Inr ()) \<and> r = foldl next_completed c es"
  using assms
proof (induction unpackb repr on_event c s stdout arbitrary: s' r rule: video_loop.induct)
  case (1 unpackb repr on_event c s stdout)
  show ?case
  proof (cases "length stdout < VIDEO_HEADER_SIZE")
    case True
    have "stdout = [] \<and> s = s' \<and> r = c"
      using "1.prems" True by (subst (asm) video_loop.simps) (simp split: if_splits)
    then show ?thesis by (intro exI [of _ "[]"]) (simp add: decodes_to_def)
  next
    case False
    define n where "n = unpack_be32 (take VIDEO_HEADER_SIZE stdout)"
    define f where "f = take (VIDEO_HEADER_SIZE + n) stdout"
    have st: "stdout = f @ drop (VIDEO_HEADER_SIZE + n) stdout" by (simp add: f_def)
    from "1.prems" False obtain e where len: "\<not> length stdout < VIDEO_HEADER_SIZE + n" "\<not> n > MAX_EVENT_BYTES"
      and e: "decode_video_event unpackb repr f = Inr e" "\<not> is_failure e"
      by (subst (asm) video_loop.simps)
         (auto simp: Let_def n_def f_def split: if_splits sum.splits video_event.splits)
    from "1.prems" obtain s1 u where h: "on_event s e = (s1, Inr u)"
      and rec: "video_loop unpackb repr on_event (next_completed c e) s1 (drop (VIDEO_HEADER_SIZE + n) stdout) = (s', Inr r)"
      by (subst (asm) st, subst (asm) video_loop_frame [OF e]) (auto split: prod.splits sum.splits)
    have "\<exists>fs es. drop (VIDEO_HEADER_SIZE + n) stdout = concat fs \<and> decodes_to unpackb repr fs es
        \<and> \<not> list_ex is_failure es \<and> handle_all on_event s1 es = (s', Inr ())
        \<and> r = foldl next_completed (next_completed c e) es"
      using "1.IH" [OF False n_def] len e h rec
      by (cases e) (auto simp: f_def)
    then obtain fs es where rest: "drop (VIDEO_HEADER_SIZE + n) stdout = concat fs" "decodes_to unpackb repr fs es"
      "\<not> list_ex is_failure es" "handle_all on_event s1 es = (s', Inr ())"
      "r = foldl next_completed (next_completed c e) es" by blast
    then show ?thesis
      using st e h by (intro exI [of _ "f # fs"] exI [of _ "e # es"]) (simp add: decodes_to_def)
  qed
qed

text \<open>
  C22. The events of the native video worker reach the handler exactly as written: reading its output
  succeeds if and only if the output is a sequence of whole frames that all decode, none of them
  reports a failure and the handler accepts them one after the other; it then returns the last
  completion report.
\<close>

theorem video_events_delivered:
  "read_video_events unpackb repr on_event s stdout = (s', Inr c) \<longleftrightarrow>
     (\<exists>fs es. stdout = concat fs \<and> decodes_to unpackb repr fs es \<and> \<not> list_ex is_failure es
        \<and> handle_all on_event s es = (s', Inr ()) \<and> c = foldl next_completed None es)"
  unfolding read_video_events_def using video_loop_split video_loop_frames by (metis (no_types, lifting))

end
