(* ===== verification/Video_Jobs.thy ===== *)
theory Video_Jobs
  imports Processes
begin

text \<open>
  The video job queue: the \<open>video_job\<close> table of
  \<open>src/backend/app/infrastructure/database/models.py\<close> and every operation of
  \<open>src/backend/app/infrastructure/database/repositories/video_job_repository.py\<close>. A worker claims
  a job under a lease (worker id, token, expiry), renews it, and settles it. Row locks held by
  other transactions are a parameter of the queries that skip them.
\<close>

section \<open>The table\<close>

text \<open>
  The columns of the table, less \<open>updated_at\<close>, which the server stamps on every update and no code
  reads.
\<close>

record video_job =
  job_id :: string
  vj_process_id :: string
  vj_status :: string
  stage :: string
  progress_percent :: real
  cancellation_requested :: bool
  attempt_count :: int
  max_attempts :: int
  available_at :: time
  worker_id :: "string option"
  lease_token :: "string option"
  lease_expires_at :: "time option"
  vj_error_code :: "string option"
  source_bucket :: string
  source_object_key :: string
  source_content_type :: string
  source_size :: int
  source_sha256 :: string
  source_retention_until :: time
  source_deleted_at :: "time option"
  container_format :: string
  video_codec :: string
  duration_seconds :: real
  fps :: real
  frame_width :: int
  frame_height :: int
  total_frames :: int
  processed_frames :: int
  person_count :: int
  sampling :: pydict
  vj_created_at :: time
  started_at :: "time option"
  vj_completed_at :: "time option"
  cancelled_at :: "time option"

type_synonym jobs = "video_job list"

definition JOB_STATUSES :: "string list" where
  "JOB_STATUSES =
     [''pending'', ''processing'', ''cancelling'', ''cancelled'', ''completed'', ''failed'']"

definition active :: "video_job \<Rightarrow> bool" where
  "active j = (vj_status j \<in> {''processing'', ''cancelling''})"

definition job_constraints :: "video_job \<Rightarrow> bool" where
  "job_constraints j =
     (vj_status j \<in> set JOB_STATUSES \<and> 0 \<le> progress_percent j \<and> progress_percent j \<le> 100 \<and>
      0 \<le> attempt_count j \<and> 0 < max_attempts j)"

section \<open>Operations\<close>

definition job_create :: "video_job \<Rightarrow> jobs \<Rightarrow> jobs result" where
  "job_create j js =
     (if job_id j \<in> job_id ` set js \<or> vj_process_id j \<in> vj_process_id ` set js
         \<or> source_object_key j \<in> source_object_key ` set js \<or> \<not> job_constraints j
      then Inl (OtherError ''IntegrityError'') else Inr (js @ [j]))"

definition clear_lease :: "video_job \<Rightarrow> video_job" where
  "clear_lease j = j\<lparr>worker_id := None, lease_token := None, lease_expires_at := None\<rparr>"

definition active_count :: "time \<Rightarrow> jobs \<Rightarrow> nat" where
  "active_count now js = length (filter (\<lambda>j. active j \<and> sql_ge (lease_expires_at j) now) js)"

definition claimable :: "time \<Rightarrow> video_job \<Rightarrow> bool" where
  "claimable now j =
     (attempt_count j < max_attempts j \<and>
      ((vj_status j = ''pending'' \<and> available_at j \<le> now) \<or>
       (vj_status j = ''processing'' \<and> sql_less (lease_expires_at j) now)))"

definition start_claim :: "string \<Rightarrow> string \<Rightarrow> time \<Rightarrow> int \<Rightarrow> video_job \<Rightarrow> video_job" where
  "start_claim wid token now lease_seconds j =
     j\<lparr>vj_status := ''processing'', stage := ''starting'', worker_id := Some wid,
       lease_token := Some token, lease_expires_at := Some (now + seconds lease_seconds),
       attempt_count := attempt_count j + 1,
       started_at := (case started_at j of None \<Rightarrow> Some now | Some t \<Rightarrow> Some t)\<rparr>"

definition claim_next ::
  "(string \<Rightarrow> bool) \<Rightarrow> string \<Rightarrow> string \<Rightarrow> time \<Rightarrow> int \<Rightarrow> int \<Rightarrow> jobs \<Rightarrow> jobs \<times> video_job option" where
  "claim_next locked wid token now lease_seconds max_concurrent js =
     (if int (active_count now js) \<ge> max_concurrent then (js, None)
      else case select_first (\<lambda>j. claimable now j \<and> \<not> locked (job_id j)) vj_created_at js of
        None \<Rightarrow> (js, None)
      | Some j \<Rightarrow>
          (row_update job_id (job_id j) (start_claim wid token now lease_seconds) js,
           Some (start_claim wid token now lease_seconds j)))"

definition exhausted :: "time \<Rightarrow> video_job \<Rightarrow> bool" where
  "exhausted now j =
     (active j \<and> sql_less (lease_expires_at j) now \<and> attempt_count j \<ge> max_attempts j)"

definition settle :: "time \<Rightarrow> video_job \<Rightarrow> video_job" where
  "settle now j =
     clear_lease
       (if vj_status j = ''cancelling''
        then j\<lparr>vj_status := ''cancelled'', stage := ''cancelled'', cancelled_at := Some now\<rparr>
        else j\<lparr>vj_status := ''failed'', stage := ''failed'',
               vj_error_code := Some ''VIDEO_JOB_ATTEMPTS_EXHAUSTED'',
               vj_completed_at := Some now\<rparr>)"

definition settle_exhausted ::
  "(string \<Rightarrow> bool) \<Rightarrow> time \<Rightarrow> jobs \<Rightarrow> jobs \<times> (string \<times> string) list" where
  "settle_exhausted locked now js =
     (let hit = (\<lambda>j. exhausted now j \<and> \<not> locked (job_id j))
      in (map (\<lambda>j. if hit j then settle now j else j) js,
          map (\<lambda>j. (vj_process_id j, vj_status (settle now j)))
            (sort_key vj_created_at (filter hit js))))"

definition lock_owned :: "string \<Rightarrow> string \<Rightarrow> string \<Rightarrow> time \<Rightarrow> jobs \<Rightarrow> video_job option" where
  "lock_owned jid wid token now js =
     find (\<lambda>j. job_id j = jid \<and> worker_id j = Some wid \<and> lease_token j = Some token \<and> active j
            \<and> \<not> cancellation_requested j \<and> sql_ge (lease_expires_at j) now) js"

definition owns_active_lease :: "video_job option \<Rightarrow> string \<Rightarrow> string \<Rightarrow> time \<Rightarrow> bool" where
  "owns_active_lease oj wid token now =
     (case oj of
        None \<Rightarrow> False
      | Some j \<Rightarrow> active j \<and> worker_id j = Some wid \<and> lease_token j = Some token
          \<and> sql_ge (lease_expires_at j) now)"

definition holds :: "video_job option \<Rightarrow> string \<Rightarrow> string \<Rightarrow> bool" where
  "holds oj wid token =
     (case oj of None \<Rightarrow> False | Some j \<Rightarrow> worker_id j = Some wid \<and> lease_token j = Some token)"

definition renew_lease ::
  "string \<Rightarrow> string \<Rightarrow> string \<Rightarrow> time \<Rightarrow> time \<Rightarrow> jobs \<Rightarrow> jobs \<times> bool" where
  "renew_lease jid wid token expires_at now js =
     (if \<not> owns_active_lease (row_get job_id jid js) wid token now then (js, False)
      else (row_update job_id jid (\<lambda>j. j\<lparr>lease_expires_at := Some expires_at\<rparr>) js, True))"

definition update_progress ::
  "string \<Rightarrow> string \<Rightarrow> string \<Rightarrow> string \<Rightarrow> real \<Rightarrow> int \<Rightarrow> time \<Rightarrow> jobs \<Rightarrow> jobs \<times> bool" where
  "update_progress jid wid token stg percent frames now js =
     (if \<not> owns_active_lease (row_get job_id jid js) wid token now then (js, False)
      else (row_update job_id jid
              (\<lambda>j. j\<lparr>stage := stg, progress_percent := max 0 (min 100 percent),
                     processed_frames := max (processed_frames j) frames\<rparr>) js, True))"

definition cancel_row :: "time \<Rightarrow> video_job \<Rightarrow> video_job" where
  "cancel_row now j =
     (if vj_status j = ''pending'' then
        j\<lparr>cancellation_requested := True, vj_status := ''cancelled'', stage := ''cancelled'',
          cancelled_at := Some now\<rparr>
      else if vj_status j = ''processing'' then
        j\<lparr>cancellation_requested := True, vj_status := ''cancelling'', stage := ''cancelling''\<rparr>
      else j)"

definition request_cancel :: "string \<Rightarrow> time \<Rightarrow> jobs \<Rightarrow> jobs \<times> video_job option" where
  "request_cancel jid now js =
     (case row_get job_id jid js of
        None \<Rightarrow> (js, None)
      | Some j \<Rightarrow> (row_update job_id jid (cancel_row now) js, Some (cancel_row now j)))"

definition complete ::
  "string \<Rightarrow> string \<Rightarrow> string \<Rightarrow> int \<Rightarrow> int \<Rightarrow> time \<Rightarrow> jobs \<Rightarrow> jobs \<times> bool" where
  "complete jid wid token persons frames now js =
     (if \<not> holds (row_get job_id jid js) wid token then (js, False)
      else (row_update job_id jid
              (\<lambda>j. clear_lease (j\<lparr>vj_status := ''completed'', stage := ''completed'',
                     progress_percent := 100, person_count := persons,
                     processed_frames := max (processed_frames j) frames,
                     vj_completed_at := Some now\<rparr>)) js, True))"

definition fail :: "string \<Rightarrow> string \<Rightarrow> string \<Rightarrow> string \<Rightarrow> time \<Rightarrow> jobs \<Rightarrow> jobs \<times> bool" where
  "fail jid wid token code now js =
     (if \<not> holds (row_get job_id jid js) wid token then (js, False)
      else (row_update job_id jid
              (\<lambda>j. clear_lease (j\<lparr>vj_status := ''failed'', stage := ''failed'',
                     vj_error_code := Some code, vj_completed_at := Some now\<rparr>)) js, True))"

definition mark_cancelled :: "string \<Rightarrow> string \<Rightarrow> string \<Rightarrow> time \<Rightarrow> jobs \<Rightarrow> jobs \<times> bool" where
  "mark_cancelled jid wid token now js =
     (if \<not> holds (row_get job_id jid js) wid token then (js, False)
      else (row_update job_id jid
              (\<lambda>j. clear_lease (j\<lparr>vj_status := ''cancelled'', stage := ''cancelled'',
                     cancelled_at := Some now\<rparr>)) js, True))"

definition release_for_retry ::
  "string \<Rightarrow> string \<Rightarrow> string \<Rightarrow> time \<Rightarrow> string \<Rightarrow> jobs \<Rightarrow> jobs \<times> bool" where
  "release_for_retry jid wid token avail code js =
     (if \<not> holds (row_get job_id jid js) wid token then (js, False)
      else (row_update job_id jid
              (\<lambda>j. clear_lease (j\<lparr>vj_status := ''pending'', stage := ''queued'',
                     available_at := avail, vj_error_code := Some code\<rparr>)) js, True))"

definition claim_expired_sources :: "(string \<Rightarrow> bool) \<Rightarrow> time \<Rightarrow> nat \<Rightarrow> jobs \<Rightarrow> video_job list" where
  "claim_expired_sources locked now limit js =
     select_limit (\<lambda>j. source_deleted_at j = None \<and> source_retention_until j \<le> now
                      \<and> \<not> locked (job_id j))
       source_retention_until limit js"

text \<open>\<open>VideoJobService.cleanup_expired_sources\<close>: \<open>delete_ok\<close> says which deletions the object store
  carries out; a failed deletion leaves the row for a later pass.\<close>

definition cleanup_expired_sources ::
  "(string \<Rightarrow> bool) \<Rightarrow> (string \<Rightarrow> bool) \<Rightarrow> time \<Rightarrow> nat \<Rightarrow> jobs \<Rightarrow> jobs \<times> nat" where
  "cleanup_expired_sources delete_ok locked now limit js =
     (let gone = filter (\<lambda>j. delete_ok (source_object_key j))
                   (claim_expired_sources locked now limit js)
      in (map (\<lambda>j. if job_id j \<in> job_id ` set gone then j\<lparr>source_deleted_at := Some now\<rparr> else j) js,
          length gone))"

section \<open>Operations of a worker\<close>

text \<open>The operations that carry a worker's credentials; the last argument is the clock.\<close>

datatype job_op =
    RenewOp time
  | ProgressOp string real int
  | CompleteOp int int
  | FailOp string
  | MarkCancelledOp
  | ReleaseOp time string

fun job_act :: "job_op \<times> time \<Rightarrow> string \<Rightarrow> string \<times> string \<Rightarrow> jobs \<Rightarrow> jobs \<times> bool" where
  "job_act (RenewOp expires, now) k (w, t) js = renew_lease k w t expires now js"
| "job_act (ProgressOp stg percent frames, now) k (w, t) js =
     update_progress k w t stg percent frames now js"
| "job_act (CompleteOp persons frames, now) k (w, t) js = complete k w t persons frames now js"
| "job_act (FailOp code, now) k (w, t) js = fail k w t code now js"
| "job_act (MarkCancelledOp, now) k (w, t) js = mark_cancelled k w t now js"
| "job_act (ReleaseOp avail code, now) k (w, t) js = release_for_retry k w t avail code js"

fun op_row :: "job_op \<times> time \<Rightarrow> video_job \<Rightarrow> video_job" where
  "op_row (RenewOp expires, now) j = j\<lparr>lease_expires_at := Some expires\<rparr>"
| "op_row (ProgressOp stg percent frames, now) j =
     j\<lparr>stage := stg, progress_percent := max 0 (min 100 percent),
       processed_frames := max (processed_frames j) frames\<rparr>"
| "op_row (CompleteOp persons frames, now) j =
     clear_lease (j\<lparr>vj_status := ''completed'', stage := ''completed'', progress_percent := 100,
       person_count := persons, processed_frames := max (processed_frames j) frames,
       vj_completed_at := Some now\<rparr>)"
| "op_row (FailOp code, now) j =
     clear_lease (j\<lparr>vj_status := ''failed'', stage := ''failed'', vj_error_code := Some code,
       vj_completed_at := Some now\<rparr>)"
| "op_row (MarkCancelledOp, now) j =
     clear_lease (j\<lparr>vj_status := ''cancelled'', stage := ''cancelled'', cancelled_at := Some now\<rparr>)"
| "op_row (ReleaseOp avail code, now) j =
     clear_lease (j\<lparr>vj_status := ''pending'', stage := ''queued'', available_at := avail,
       vj_error_code := Some code\<rparr>)"

definition needs_live :: "job_op \<Rightarrow> bool" where
  "needs_live op = (case op of RenewOp _ \<Rightarrow> True | ProgressOp _ _ _ \<Rightarrow> True | _ \<Rightarrow> False)"

lemma job_act_eq:
  "job_act (op, now) k (w, t) js =
     (if (if needs_live op then owns_active_lease (row_get job_id k js) w t now
          else holds (row_get job_id k js) w t)
      then (row_update job_id k (op_row (op, now)) js, True) else (js, False))"
proof -
  have "op_row (op, now) = (\<lambda>j. op_row (op, now) j)" by simp
  then show ?thesis
    by (cases op)
       (simp_all add: renew_lease_def update_progress_def complete_def fail_def
          mark_cancelled_def release_for_retry_def needs_live_def)
qed

definition holder :: "video_job \<Rightarrow> (string \<times> string) option" where
  "holder j =
     (case (worker_id j, lease_token j) of (Some w, Some t) \<Rightarrow> Some (w, t) | _ \<Rightarrow> None)"

lemma op_row_id [simp]: "job_id (op_row p j) = job_id j"
  by (cases p; cases "fst p") (auto simp: clear_lease_def)

lemma op_row_holder: "holder (op_row p j) = holder j \<or> holder (op_row p j) = None"
  by (cases p; cases "fst p") (auto simp: clear_lease_def holder_def)

lemma owns_holds: "owns_active_lease oj w t now \<Longrightarrow> holds oj w t"
  by (auto simp: owns_active_lease_def holds_def split: option.splits)

lemma holds_holder: "holds oj w t \<longleftrightarrow> map_option holder oj = Some (Some (w, t))"
  by (auto simp: holds_def holder_def split: option.splits)

interpretation jobs: lease_fence job_id holder job_act
proof
  fix k rows and h :: "string \<times> string" and op :: "job_op \<times> time"
  obtain o1 now where op: "op = (o1, now)" by fastforce
  obtain w t where h: "h = (w, t)" by fastforce
  note eq = job_act_eq [of o1 now k w t rows, folded op h]
  show "job_act op k h rows = (rows, False)"
    if "map_option holder (row_get job_id k rows) \<noteq> Some (Some h)"
  proof -
    have "\<not> holds (row_get job_id k rows) w t" using that by (simp add: h holds_holder)
    then show ?thesis unfolding eq by (auto dest: owns_holds)
  qed
  show "row_get job_id k' (fst (job_act op k h rows)) = row_get job_id k' rows" if "k' \<noteq> k" for k'
    using that unfolding eq by (auto simp: row_get_update_other)
  show "\<exists>r. row_get job_id k rows = Some r \<and> (holder r' = holder r \<or> holder r' = None)"
    if "row_get job_id k (fst (job_act op k h rows)) = Some r'" for r'
    using that op_row_holder [of op] unfolding eq
    by (fastforce simp: row_get_update_same split: if_splits)
qed

section \<open>Invariant\<close>

text \<open>
  A job is well formed when it satisfies the table's constraints, its lease columns are set
  exactly while it is active, its attempts do not exceed their limit, and a settled job carries
  the time of its settlement.
\<close>

definition lease_set :: "video_job \<Rightarrow> bool" where
  "lease_set j = (worker_id j \<noteq> None \<and> lease_token j \<noteq> None \<and> lease_expires_at j \<noteq> None)"

definition lease_clear :: "video_job \<Rightarrow> bool" where
  "lease_clear j = (worker_id j = None \<and> lease_token j = None \<and> lease_expires_at j = None)"

definition job_ok :: "video_job \<Rightarrow> bool" where
  "job_ok j =
     (job_constraints j \<and> attempt_count j \<le> max_attempts j \<and>
      (if active j then lease_set j else lease_clear j) \<and>
      (vj_status j = ''cancelling'' \<longrightarrow> cancellation_requested j) \<and>
      (vj_status j \<in> {''completed'', ''failed''} \<longrightarrow> vj_completed_at j \<noteq> None) \<and>
      (vj_status j = ''cancelled'' \<longrightarrow> cancelled_at j \<noteq> None))"

definition jobs_ok :: "jobs \<Rightarrow> bool" where
  "jobs_ok js = (unique_keys job_id js \<and> list_all job_ok js)"

lemmas job_ok_defs = job_ok_def job_constraints_def JOB_STATUSES_def active_def lease_set_def
  lease_clear_def

lemma job_ok_numbers:
  assumes "job_ok j"
  shows "0 \<le> progress_percent j" "progress_percent j \<le> 100" "0 \<le> attempt_count j"
    "0 < max_attempts j" "attempt_count j \<le> max_attempts j"
  using assms by (simp_all add: job_ok_def job_constraints_def)

lemma job_ok_start_claim:
  assumes "job_ok j" and "claimable now j"
  shows "job_ok (start_claim w t now n j)"
  using job_ok_numbers [OF assms(1)] assms(2)
  by (simp add: job_ok_defs start_claim_def claimable_def)

lemma job_ok_settle:
  assumes "job_ok j"
  shows "job_ok (settle now j)"
  using job_ok_numbers [OF assms] by (simp add: job_ok_defs settle_def clear_lease_def)

lemma job_ok_cancel_row:
  assumes "job_ok j"
  shows "job_ok (cancel_row now j)"
proof (cases "vj_status j = ''pending'' \<or> vj_status j = ''processing''")
  case True
  then show ?thesis
    using assms job_ok_numbers [OF assms] by (elim disjE) (simp_all add: cancel_row_def job_ok_defs)
next
  case False
  with assms show ?thesis by (simp add: cancel_row_def)
qed

lemma job_ok_op_row:
  assumes "job_ok j" and "holds (Some j) w t"
  shows "job_ok (op_row (op, now) j)"
proof -
  have act: "active j" using assms by (auto simp: job_ok_def lease_clear_def holds_def split: if_splits)
  have kept: "job_ok (j\<lparr>lease_expires_at := Some e\<rparr>)"
    "job_ok (j\<lparr>stage := s, progress_percent := max 0 (min 100 p), processed_frames := f\<rparr>)" for e s p f
    using assms(1) act
    by (simp_all add: job_ok_def job_constraints_def lease_set_def active_def)
  show ?thesis
  proof (cases op)
    case (RenewOp e)
    with kept(1) show ?thesis by simp
  next
    case (ProgressOp s p f)
    with kept(2) show ?thesis by simp
  qed (use job_ok_numbers [OF assms(1)] in \<open>simp_all add: job_ok_defs clear_lease_def\<close>)
qed

lemma row_ids [simp]:
  "job_id (start_claim w t now n j) = job_id j" "job_id (settle now j) = job_id j"
  "job_id (cancel_row now j) = job_id j"
  by (simp_all add: start_claim_def settle_def clear_lease_def cancel_row_def)

text \<open>Updating the row a lookup found keeps the table's invariant when the new row is well formed.\<close>

lemma jobs_ok_update:
  assumes "jobs_ok js" and "row_get job_id k js = Some j" and "\<And>r. job_id (f r) = job_id r"
    and "job_ok j \<Longrightarrow> job_ok (f j)"
  shows "jobs_ok (row_update job_id k f js)"
proof -
  have "r = j" if "r \<in> set js" "job_id r = k" for r
    using row_get_unique [of job_id js r] assms(1,2) that by (auto simp: jobs_ok_def)
  moreover have "job_ok j"
    using row_get_Some [OF assms(2)] assms(1) by (auto simp: jobs_ok_def list_all_iff)
  ultimately show ?thesis
    using assms by (auto simp: jobs_ok_def unique_keys_row_update list_all_iff set_row_update)
qed

lemma jobs_ok_act:
  assumes "jobs_ok js"
  shows "jobs_ok (fst (job_act (op, now) k h js))"
proof -
  obtain w t where h: "h = (w, t)" by fastforce
  show ?thesis
  proof (cases "holds (row_get job_id k js) w t")
    case True
    then obtain j where j: "row_get job_id k js = Some j" by (auto simp: holds_def split: option.splits)
    have "jobs_ok (row_update job_id k (op_row (op, now)) js)"
      using True by (intro jobs_ok_update [OF assms j]) (simp_all add: j job_ok_op_row)
    with assms show ?thesis by (auto simp: h job_act_eq)
  next
    case False
    with assms show ?thesis by (auto simp: h job_act_eq dest: owns_holds)
  qed
qed

lemma jobs_ok_claim:
  assumes "jobs_ok js"
  shows "jobs_ok (fst (claim_next locked w t now n m js))"
proof (cases "select_first (\<lambda>j. claimable now j \<and> \<not> locked (job_id j)) vj_created_at js")
  case None
  with assms show ?thesis by (simp add: claim_next_def)
next
  case (Some j)
  from select_first_Some(1,2) [OF Some] have "j \<in> set js" "claimable now j" by auto
  moreover from this assms have "row_get job_id (job_id j) js = Some j"
    by (simp add: jobs_ok_def row_get_unique)
  ultimately have "jobs_ok (row_update job_id (job_id j) (start_claim w t now n) js)"
    using assms by (intro jobs_ok_update) (auto intro: job_ok_start_claim)
  with Some assms show ?thesis by (simp add: claim_next_def)
qed

lemma jobs_ok_map:
  assumes "jobs_ok js" and "\<And>r. job_id (f r) = job_id r"
    and "\<And>j. j \<in> set js \<Longrightarrow> job_ok j \<Longrightarrow> job_ok (f j)"
  shows "jobs_ok (map f js)"
  using assms by (auto simp: jobs_ok_def unique_keys_def comp_def list_all_iff)

lemma jobs_ok_settle:
  assumes "jobs_ok js"
  shows "jobs_ok (fst (settle_exhausted locked now js))"
  unfolding settle_exhausted_def Let_def fst_conv
  by (rule jobs_ok_map [OF assms]) (simp_all add: job_ok_settle)

lemma jobs_ok_cancel:
  assumes "jobs_ok js"
  shows "jobs_ok (fst (request_cancel k now js))"
  using assms jobs_ok_update [OF assms, of k _ "cancel_row now"]
  by (auto simp: request_cancel_def intro: job_ok_cancel_row split: option.splits)

lemma job_ok_source [simp]: "job_ok (j\<lparr>source_deleted_at := x\<rparr>) = job_ok j"
proof -
  have "active (j\<lparr>source_deleted_at := x\<rparr>) = active j"
    "lease_set (j\<lparr>source_deleted_at := x\<rparr>) = lease_set j"
    "lease_clear (j\<lparr>source_deleted_at := x\<rparr>) = lease_clear j"
    "job_constraints (j\<lparr>source_deleted_at := x\<rparr>) = job_constraints j"
    by (simp_all add: active_def lease_set_def lease_clear_def job_constraints_def)
  then show ?thesis by (simp add: job_ok_def)
qed

lemma jobs_ok_cleanup:
  assumes "jobs_ok js"
  shows "jobs_ok (fst (cleanup_expired_sources d locked now n js))"
  unfolding cleanup_expired_sources_def Let_def fst_conv
  by (rule jobs_ok_map [OF assms]) simp_all

lemma jobs_ok_create:
  "jobs_ok js \<Longrightarrow> job_create j js = Inr js' \<Longrightarrow> job_ok j \<Longrightarrow> jobs_ok js'"
  by (auto simp: job_create_def jobs_ok_def unique_keys_def split: if_splits)

section \<open>The queue as a state machine\<close>

text \<open>
  One step of the system: time passes, an upload creates a job, a worker polls (settling
  exhausted jobs and claiming the next one, with a clock reading that may be older than the
  current time), a client asks for cancellation, a worker acts on its job, or the retention pass
  runs. \<open>M\<close> is the configured number of concurrent jobs.
\<close>

inductive job_step :: "int \<Rightarrow> time \<times> jobs \<Rightarrow> time \<times> jobs \<Rightarrow> bool" for M :: int where
  tick: "c \<le> c' \<Longrightarrow> job_step M (c, js) (c', js)"
| create: "job_create j js = Inr js' \<Longrightarrow> vj_status j = ''pending'' \<Longrightarrow> job_ok j \<Longrightarrow>
     job_step M (c, js) (c, js')"
| settle: "now \<le> c \<Longrightarrow> job_step M (c, js) (c, fst (settle_exhausted locked now js))"
| claim: "now \<le> c \<Longrightarrow> job_step M (c, js) (c, fst (claim_next locked w t now n M js))"
| cancel: "job_step M (c, js) (c, fst (request_cancel k c js))"
| act: "job_step M (c, js) (c, fst (job_act (op, c) k h js))"
| cleanup: "job_step M (c, js) (c, fst (cleanup_expired_sources d locked c n js))"

inductive_cases job_stepE [elim!]: "job_step M (c, js) (c', js')"

inductive job_reachable :: "int \<Rightarrow> time \<times> jobs \<Rightarrow> bool" for M :: int where
  empty: "job_reachable M (c, [])"
| step: "job_reachable M s \<Longrightarrow> job_step M s s' \<Longrightarrow> job_reachable M s'"

lemma jobs_ok_step: "job_step M s s' \<Longrightarrow> jobs_ok (snd s) \<Longrightarrow> jobs_ok (snd s')"
  by (induction rule: job_step.induct)
     (auto intro: jobs_ok_create jobs_ok_settle jobs_ok_claim jobs_ok_cancel jobs_ok_act
        jobs_ok_cleanup)

lemma jobs_ok_reachable: "job_reachable M s \<Longrightarrow> jobs_ok (snd s)"
proof (induction rule: job_reachable.induct)
  case (empty c)
  then show ?case by (simp add: jobs_ok_def unique_keys_def)
next
  case (step s s')
  then show ?case by (blast intro: jobs_ok_step)
qed

subsection \<open>The concurrency bound\<close>

definition live :: "time \<Rightarrow> video_job \<Rightarrow> bool" where
  "live now j = (active j \<and> sql_ge (lease_expires_at j) now)"

lemma active_count_live: "active_count now js = length (filter (live now) js)"
  by (simp add: active_count_def live_def [abs_def])

lemma active_count_antimono:
  assumes "now \<le> c"
  shows "active_count c js \<le> active_count now js"
proof -
  have "live c j \<Longrightarrow> live now j" for j
    using assms by (auto simp: live_def dest: sql_ge_mono)
  then show ?thesis unfolding active_count_live by (induction js) (auto simp: le_Suc_eq)
qed

lemma active_count_claim:
  assumes "jobs_ok js" and "now \<le> c" and "int (active_count c js) \<le> M"
  shows "int (active_count c (fst (claim_next locked w t now n M js))) \<le> M"
proof (cases "int (active_count now js) \<ge> M
    \<or> select_first (\<lambda>j. claimable now j \<and> \<not> locked (job_id j)) vj_created_at js = None")
  case True
  with assms(3) show ?thesis by (auto simp: claim_next_def)
next
  case False
  then obtain j where "select_first (\<lambda>j. claimable now j \<and> \<not> locked (job_id j)) vj_created_at js = Some j"
    by auto
  with False have "fst (claim_next locked w t now n M js) =
      row_update job_id (job_id j) (start_claim w t now n) js"
    by (simp add: claim_next_def)
  moreover have "active_count c (row_update job_id (job_id j) (start_claim w t now n) js)
      \<le> active_count c js + 1"
    using assms(1) unfolding active_count_live jobs_ok_def by (intro count_row_update_le) simp
  moreover have "int (active_count c js) < M"
    using False active_count_antimono [OF assms(2), of js] by linarith
  ultimately show ?thesis by simp
qed

lemma live_op_row:
  assumes "if needs_live op then owns_active_lease (Some j) w t c else holds (Some j) w t"
    and "live c (op_row (op, c) j)"
  shows "live c j"
  using assms
  by (cases op)
     (auto simp: live_def active_def clear_lease_def needs_live_def owns_active_lease_def)

lemma active_count_act:
  assumes "jobs_ok js"
  shows "active_count c (fst (job_act (op, c) k h js)) \<le> active_count c js"
proof -
  obtain w t where h: "h = (w, t)" by fastforce
  have "live c r" if "r \<in> set js" "job_id r = k" "live c (op_row (op, c) r)"
    and g: "if needs_live op then owns_active_lease (row_get job_id k js) w t c
      else holds (row_get job_id k js) w t" for r
  proof -
    have "row_get job_id k js = Some r"
      using row_get_unique [of job_id js r] assms that by (auto simp: jobs_ok_def)
    with g that(3) show ?thesis using live_op_row by metis
  qed
  then show ?thesis
    unfolding h job_act_eq active_count_live by (auto intro!: count_row_update_same)
qed

lemma live_kept_rows:
  "live c (if b then settle now j else j) \<Longrightarrow> live c j"
  "live c (cancel_row now j) \<Longrightarrow> live c j"
  "live c (j\<lparr>source_deleted_at := x\<rparr>) \<Longrightarrow> live c j"
  by (auto simp: live_def settle_def clear_lease_def cancel_row_def active_def split: if_splits)

lemma active_count_bounded_step:
  assumes "job_step M (c, js) (c', js')" and "jobs_ok js" and "int (active_count c js) \<le> M"
  shows "int (active_count c' js') \<le> M"
  using assms(1)
proof cases
  case tick
  with active_count_antimono [of c c' js] assms(3) show ?thesis by simp
next
  case (create j)
  then have "js' = js @ [j]" by (auto simp: job_create_def split: if_splits)
  with create assms(3) show ?thesis by (simp add: active_count_live live_def active_def)
next
  case (settle now locked)
  have "active_count c js' \<le> active_count c js"
    unfolding settle(2) settle_exhausted_def Let_def fst_conv active_count_live
    by (rule count_map_le) (auto dest: live_kept_rows)
  with settle assms(3) show ?thesis by simp
next
  case (claim now)
  with assms(2,3) active_count_claim show ?thesis by simp
next
  case (cancel k)
  have "active_count c js' \<le> active_count c js"
    unfolding cancel(2) request_cancel_def active_count_live
    by (auto intro!: count_row_update_same dest: live_kept_rows split: option.splits)
  with cancel assms(3) show ?thesis by simp
next
  case (act op k h)
  with active_count_act [OF assms(2), of c op k h] assms(3) show ?thesis by simp
next
  case (cleanup d locked n)
  have "active_count c js' \<le> active_count c js"
    unfolding cleanup(2) cleanup_expired_sources_def Let_def fst_conv active_count_live
    by (rule count_map_le) (auto dest: live_kept_rows split: if_splits)
  with cleanup assms(3) show ?thesis by simp
qed

section \<open>Properties\<close>



lemma claim_next_Some:
  assumes "claim_next locked w t now n M js = (js', Some j')"
  obtains j where "select_first (\<lambda>j. claimable now j \<and> \<not> locked (job_id j)) vj_created_at js = Some j"
    and "int (active_count now js) < M" and "j' = start_claim w t now n j"
    and "js' = row_update job_id (job_id j) (start_claim w t now n) js"
  using assms by (auto simp: claim_next_def split: if_splits option.splits)

text \<open>
  A successful claim: the claimed row was the oldest unlocked claimable job and fewer than \<open>M\<close>
  leases were live; it is now processing under the caller's credentials until
  \<open>now + lease_seconds\<close>, with one more attempt, and no other row changed.
\<close>

theorem claim_next_correct:
  assumes "jobs_ok js" and "claim_next locked w t now n M js = (js', Some j')"
  shows "\<exists>j \<in> set js. claimable now j \<and> \<not> locked (job_id j)
      \<and> (\<forall>i \<in> set js. claimable now i \<and> \<not> locked (job_id i) \<longrightarrow> vj_created_at j \<le> vj_created_at i)
      \<and> int (active_count now js) < M
      \<and> job_id j' = job_id j \<and> row_get job_id (job_id j) js' = Some j'
      \<and> vj_status j' = ''processing'' \<and> holder j' = Some (w, t)
      \<and> lease_expires_at j' = Some (now + seconds n) \<and> attempt_count j' = attempt_count j + 1
      \<and> attempt_count j' \<le> max_attempts j'
      \<and> (\<forall>k. k \<noteq> job_id j \<longrightarrow> row_get job_id k js' = row_get job_id k js)"
proof -
  from assms(2) obtain j where sel:
      "select_first (\<lambda>j. claimable now j \<and> \<not> locked (job_id j)) vj_created_at js = Some j"
    and rest: "int (active_count now js) < M" "j' = start_claim w t now n j"
      "js' = row_update job_id (job_id j) (start_claim w t now n) js"
    by (rule claim_next_Some)
  note sel' = select_first_Some [OF sel]
  have "row_get job_id (job_id j) js = Some j"
    using assms(1) sel'(1) by (simp add: jobs_ok_def row_get_unique)
  with rest have "row_get job_id (job_id j) js' = Some j'"
    by (simp add: row_get_update_same)
  moreover have "\<forall>k. k \<noteq> job_id j \<longrightarrow> row_get job_id k js' = row_get job_id k js"
    using rest by (auto simp: row_get_update_other)
  moreover have "attempt_count j' = attempt_count j + 1 \<and> attempt_count j' \<le> max_attempts j'"
    using sel'(2) rest by (simp add: claimable_def start_claim_def)
  ultimately show ?thesis
    using sel' rest by (intro bexI [of _ j]) (auto simp: start_claim_def holder_def)
qed

text \<open>
  Claiming makes progress: when fewer than \<open>M\<close> leases are live and some claimable job is not
  locked, \<open>claim_next\<close> returns a job. In particular a job whose worker died while processing is
  handed to another worker once its lease has expired, as long as attempts are left.
\<close>

theorem claim_next_progress:
  assumes "int (active_count now js) < M" and "j \<in> set js" and "\<not> locked (job_id j)"
    and "attempt_count j < max_attempts j"
    and "vj_status j = ''pending'' \<and> available_at j \<le> now
      \<or> vj_status j = ''processing'' \<and> sql_less (lease_expires_at j) now"
  shows "\<exists>js' j'. claim_next locked w t now n M js = (js', Some j')"
proof -
  have "claimable now j" using assms(4,5) by (auto simp: claimable_def)
  with assms(2,3) have
    "select_first (\<lambda>j. claimable now j \<and> \<not> locked (job_id j)) vj_created_at js \<noteq> None"
    by (auto simp: select_first_None)
  with assms(1) show ?thesis by (auto simp: claim_next_def)
qed

text \<open>
  C2. Fencing: once a claim has handed a job to new credentials, a worker with other credentials
  is refused by every operation on that job and changes nothing, also after any further history
  of worker operations.
\<close>

theorem stale_worker_fenced:
  assumes "jobs_ok js" and "claim_next locked w t now n M js = (js', Some j')" and "h \<noteq> (w, t)"
  shows "job_act op (job_id j') h (jobs.run history js') = (jobs.run history js', False)"
proof -
  from assms(2) obtain j where sel:
      "select_first (\<lambda>j. claimable now j \<and> \<not> locked (job_id j)) vj_created_at js = Some j"
    and j': "j' = start_claim w t now n j"
    and js': "js' = row_update job_id (job_id j) (start_claim w t now n) js"
    by (rule claim_next_Some)
  have "row_get job_id (job_id j) js = Some j"
    using assms(1) select_first_Some(1) [OF sel] by (simp add: jobs_ok_def row_get_unique)
  then have "map_option holder (row_get job_id (job_id j') js') = Some (Some (w, t))"
    by (simp add: j' js' row_get_update_same start_claim_def holder_def)
  with assms(3) show ?thesis by (intro jobs.lost_refused) auto
qed

text \<open>
  After \<open>settle_exhausted\<close> no unlocked job has an expired lease and no attempts left: each such
  job is cancelled when cancellation was in progress and failed otherwise, without a lease; the
  other rows are unchanged, and exactly the settled jobs are reported.
\<close>

theorem settle_exhausted_correct:
  assumes "settle_exhausted locked now js = (js', settled)"
  shows "(\<forall>j \<in> set js'. exhausted now j \<longrightarrow> locked (job_id j))
    \<and> list_all2 (\<lambda>j j'. if exhausted now j \<and> \<not> locked (job_id j)
         then holder j' = None \<and> lease_expires_at j' = None
           \<and> vj_status j' = (if vj_status j = ''cancelling'' then ''cancelled'' else ''failed'')
         else j' = j) js js'
    \<and> set settled = {(vj_process_id j, if vj_status j = ''cancelling'' then ''cancelled'' else ''failed'')
         | j. j \<in> set js \<and> exhausted now j \<and> \<not> locked (job_id j)}"
proof -
  define hit where "hit j = (exhausted now j \<and> \<not> locked (job_id j))" for j
  have js': "js' = map (\<lambda>j. if hit j then settle now j else j) js"
    and settled: "settled = map (\<lambda>j. (vj_process_id j, vj_status (settle now j)))
       (sort_key vj_created_at (filter hit js))"
    using assms by (simp_all add: settle_exhausted_def hit_def [abs_def] Let_def)
  have row: "\<not> exhausted now (settle now j)" "holder (settle now j) = None"
    "lease_expires_at (settle now j) = None"
    "vj_status (settle now j) = (if vj_status j = ''cancelling'' then ''cancelled'' else ''failed'')" for j
    by (auto simp: settle_def clear_lease_def exhausted_def holder_def)
  have "\<forall>j \<in> set js'. exhausted now j \<longrightarrow> locked (job_id j)"
    using row(1) by (auto simp: js' hit_def)
  moreover have "list_all2 (\<lambda>j j'. if hit j
         then holder j' = None \<and> lease_expires_at j' = None
           \<and> vj_status j' = (if vj_status j = ''cancelling'' then ''cancelled'' else ''failed'')
         else j' = j) js js'"
    unfolding js' list_all2_map2 by (rule list.rel_refl) (simp add: row)
  moreover have "set settled = {(vj_process_id j, if vj_status j = ''cancelling'' then ''cancelled'' else ''failed'')
         | j. j \<in> set js \<and> hit j}"
    unfolding settled by (auto simp: row)
  ultimately show ?thesis by (simp add: hit_def)
qed

definition terminal :: "video_job \<Rightarrow> bool" where
  "terminal j = (vj_status j \<in> {''completed'', ''failed'', ''cancelled''})"

lemma terminal_idle:
  assumes "job_ok j" and "terminal j"
  shows "\<not> active j" and "holder j = None" and "\<not> claimable now j" and "\<not> exhausted now j"
    and "cancel_row now j = j"
  using assms
  by (auto simp: terminal_def job_ok_def active_def lease_clear_def holder_def claimable_def
        exhausted_def cancel_row_def)

lemma claim_next_other:
  assumes "jobs_ok js" and "row_get job_id k js = Some j" and "\<not> claimable now j"
  shows "row_get job_id k (fst (claim_next locked w t now n M js)) = Some j"
proof (cases "select_first (\<lambda>j. claimable now j \<and> \<not> locked (job_id j)) vj_created_at js")
  case None
  with assms(2) show ?thesis by (simp add: claim_next_def)
next
  case (Some i)
  note sel = select_first_Some(1,2) [OF Some]
  have "job_id i \<noteq> k"
    using row_get_unique [of job_id js i] assms sel by (auto simp: jobs_ok_def)
  with assms(2) Some show ?thesis by (simp add: claim_next_def row_get_update_other)
qed

lemma settle_exhausted_other:
  assumes "row_get job_id k js = Some j" and "\<not> exhausted now j"
  shows "row_get job_id k (fst (settle_exhausted locked now js)) = Some j"
  using assms by (simp add: settle_exhausted_def Let_def row_get_map)

lemma request_cancel_row:
  "row_get job_id k (fst (request_cancel k' now js)) =
     (if k' = k then map_option (cancel_row now) (row_get job_id k js) else row_get job_id k js)"
  by (auto simp: request_cancel_def row_get_update_same row_get_update_other split: option.splits)

lemma act_other:
  assumes "row_get job_id k js = Some j" and "holder j \<noteq> Some h \<or> k' \<noteq> k"
  shows "row_get job_id k (fst (job_act op k' h js)) = Some j"
proof (cases "k' = k")
  case True
  with assms have "job_act op k h js = (js, False)" by (intro jobs.refused) auto
  with True assms(1) show ?thesis by simp
next
  case False
  with assms(1) jobs.frame [of k k' op h js] show ?thesis by simp
qed

text \<open>
  A completed, failed or cancelled job is never touched again: every later step leaves its row
  as it is, except that the retention pass may record the deletion of its source video.
\<close>

theorem terminal_job_stable:
  assumes "job_reachable M (c, js)" and "row_get job_id k js = Some j" and "terminal j"
    and "job_step M (c, js) (c', js')"
  shows "\<exists>d. row_get job_id k js' = Some (j\<lparr>source_deleted_at := d\<rparr>)"
proof -
  have ok: "jobs_ok js" using jobs_ok_reachable [OF assms(1)] by simp
  then have "job_ok j" using row_get_Some [OF assms(2)] by (auto simp: jobs_ok_def list_all_iff)
  note idle = terminal_idle [OF this assms(3)]
  have same: ?thesis if "row_get job_id k js' = Some j"
    using that by (intro exI [of _ "source_deleted_at j"]) simp
  from assms(4) show ?thesis
  proof cases
    case (create i)
    with assms(2) have "row_get job_id k js' = Some j"
      by (auto simp: job_create_def row_get_append split: if_splits)
    then show ?thesis by (rule same)
  next
    case (cleanup d locked n)
    define gone where "gone r \<longleftrightarrow> job_id r \<in> job_id ` set (filter (\<lambda>j. d (source_object_key j))
        (claim_expired_sources locked c n js))" for r :: video_job
    define f where "f r = (if gone r then r\<lparr>source_deleted_at := Some c\<rparr> else r)" for r
    have "js' = map f js"
      by (simp only: cleanup(2) cleanup_expired_sources_def Let_def fst_conv gone_def f_def [abs_def])
    moreover have "row_get job_id k (map f js) = map_option f (row_get job_id k js)"
      by (rule row_get_map) (simp add: f_def)
    ultimately have row: "row_get job_id k js' = Some (f j)"
      by (simp only: assms(2) option.map)
    show ?thesis
    proof (cases "gone j")
      case True
      then show ?thesis by (intro exI [of _ "Some c"]) (simp only: row f_def if_True)
    next
      case False
      then show ?thesis by (intro same) (simp only: row f_def if_False)
    qed
  next
    case (settle now locked)
    with assms(2) idle(4) show ?thesis by (intro same) (simp add: settle_exhausted_other)
  next
    case (claim now locked w t n)
    with ok assms(2) idle(3) show ?thesis by (intro same) (simp add: claim_next_other)
  next
    case (cancel k')
    with assms(2) idle(5) show ?thesis by (intro same) (simp add: request_cancel_row)
  next
    case (act op k' h)
    with assms(2) idle(2) show ?thesis by (intro same) (simp add: act_other)
  next
    case tick
    then show ?thesis by (intro same) (simp only: assms(2))
  qed
qed

section \<open>Abandoned cancellations\<close>

text \<open>
  Steps in which nobody acts with the credentials \<open>h\<close>: the worker that holds them has died.
\<close>

inductive abandoned_step ::
  "string \<times> string \<Rightarrow> time \<times> jobs \<Rightarrow> time \<times> jobs \<Rightarrow> bool" for h where
  tick: "c \<le> c' \<Longrightarrow> abandoned_step h (c, js) (c', js)"
| settle: "abandoned_step h (c, js) (c, fst (settle_exhausted locked now js))"
| claim: "abandoned_step h (c, js) (c, fst (claim_next locked w t now n M js))"
| cancel: "abandoned_step h (c, js) (c, fst (request_cancel k now js))"
| act: "h' \<noteq> h \<Longrightarrow> abandoned_step h (c, js) (c, fst (job_act op k h' js))"

definition stuck :: "string \<Rightarrow> string \<times> string \<Rightarrow> video_job \<Rightarrow> jobs \<Rightarrow> bool" where
  "stuck k h j js =
     (jobs_ok js \<and> row_get job_id k js = Some j \<and> vj_status j = ''cancelling'' \<and>
      attempt_count j < max_attempts j \<and> holder j = Some h)"

lemma stuck_step:
  assumes "abandoned_step h s s'" and "stuck k h j (snd s)"
  shows "stuck k h j (snd s')"
  using assms
proof (induction rule: abandoned_step.induct)
  case (claim c js locked w t now n M)
  then have "\<not> claimable now j" by (auto simp: stuck_def claimable_def)
  with claim show ?case by (auto simp: stuck_def claim_next_other jobs_ok_claim)
next
  case (settle c js locked now)
  then have "\<not> exhausted now j" by (auto simp: stuck_def exhausted_def)
  with settle show ?case by (auto simp: stuck_def settle_exhausted_other jobs_ok_settle)
next
  case (cancel c js k' now)
  then have "cancel_row now j = j" by (auto simp: stuck_def cancel_row_def)
  with cancel show ?case by (auto simp: stuck_def request_cancel_row jobs_ok_cancel)
next
  case (act h' c js op k')
  then have "holder j \<noteq> Some h'" by (auto simp: stuck_def)
  moreover have "jobs_ok (fst (job_act op k' h' js))"
    using act jobs_ok_act by (cases op) (auto simp: stuck_def)
  ultimately show ?case using act by (auto simp: stuck_def act_other)
qed simp

text \<open>
  C39. A job in state cancelling that has attempts left is claimed by nobody and settled by nobody:
  once its worker has died, its row stays exactly as it is, however much time passes and however
  often workers poll and clients ask again for its cancellation.
\<close>

theorem abandoned_cancelling_never_settles:
  assumes "(abandoned_step h)\<^sup>*\<^sup>* (c, js) (c', js')"
    and "jobs_ok js" and "row_get job_id k js = Some j" and "vj_status j = ''cancelling''"
    and "attempt_count j < max_attempts j" and "holder j = Some h"
  shows "row_get job_id k js' = Some j"
proof -
  have "stuck k h j (snd (c', js'))"
    using assms(1)
  proof (induction rule: rtranclp_induct)
    case base
    with assms show ?case by (simp add: stuck_def)
  next
    case (step s s')
    from stuck_step [OF step.hyps(2) step.IH] show ?case .
  qed
  then show ?thesis by (simp add: stuck_def)
qed

section \<open>Witnesses\<close>

definition sample_job :: video_job where
  "sample_job =
     \<lparr>job_id = ''j1'', vj_process_id = ''p1'', vj_status = ''pending'', stage = ''queued'',
      progress_percent = 0, cancellation_requested = False, attempt_count = 0, max_attempts = 3,
      available_at = 0, worker_id = None, lease_token = None, lease_expires_at = None,
      vj_error_code = None, source_bucket = ''b'', source_object_key = ''k1'',
      source_content_type = ''video/mp4'', source_size = 10, source_sha256 = ''s'',
      source_retention_until = 100, source_deleted_at = None, container_format = ''mp4'',
      video_codec = ''h264'', duration_seconds = 1, fps = 25, frame_width = 64,
      frame_height = 64, total_frames = 25, processed_frames = 0, person_count = 0,
      sampling = [], vj_created_at = 0, started_at = None, vj_completed_at = None,
      cancelled_at = None\<rparr>"

definition sample_claimed :: video_job where
  "sample_claimed = start_claim ''w1'' ''t1'' 5 60 sample_job"

definition sample_cancelling :: video_job where
  "sample_cancelling = cancel_row 6 sample_claimed"

lemma sample_job_ok: "job_ok sample_job"
  by (simp add: sample_job_def job_ok_defs)

lemma sample_claimable: "claimable 5 sample_job"
  by (simp add: sample_job_def claimable_def)

lemma sample_jobs_ok:
  "jobs_ok [sample_job]" "jobs_ok [sample_claimed]" "jobs_ok [sample_cancelling]"
  using sample_job_ok job_ok_start_claim [OF sample_job_ok sample_claimable] job_ok_cancel_row
  by (simp_all add: jobs_ok_def unique_keys_def sample_claimed_def sample_cancelling_def)

lemma sample_claim:
  "claim_next (\<lambda>_. False) ''w1'' ''t1'' 5 60 2 [sample_job] = ([sample_claimed], Some sample_claimed)"
proof -
  have "active_count 5 [sample_job] = 0"
    by (simp add: active_count_def active_def sample_job_def)
  then show ?thesis
    using sample_claimable
    by (simp add: claim_next_def select_first_def row_update_def sample_claimed_def)
qed

lemma sample_reachable: "job_reachable 2 (5, [sample_job])"
proof -
  have "job_create sample_job [] = Inr [sample_job]"
    using sample_job_ok by (simp add: job_create_def job_ok_def)
  moreover have "vj_status sample_job = ''pending''" by (simp add: sample_job_def)
  ultimately have "job_step 2 (5, []) (5, [sample_job])"
    using sample_job_ok by (intro job_step.create)
  then show ?thesis by (rule job_reachable.step [OF job_reachable.empty])
qed

lemma sample_reachable_claimed: "job_reachable 2 (5, [sample_claimed])"
proof -
  have "job_step 2 (5, [sample_job])
      (5, fst (claim_next (\<lambda>_. False) ''w1'' ''t1'' 5 60 2 [sample_job]))"
    by (rule job_step.claim) simp
  then show ?thesis
    unfolding sample_claim fst_conv by (rule job_reachable.step [OF sample_reachable])
qed



theorem claim_next_correct_witness:
  "row_get job_id (job_id sample_claimed) [sample_claimed] = Some sample_claimed
      \<and> vj_status sample_claimed = ''processing'' \<and> holder sample_claimed = Some (''w1'', ''t1'')
      \<and> lease_expires_at sample_claimed = Some (5 + seconds 60)"
  using claim_next_correct [OF sample_jobs_ok(1) sample_claim] by metis

theorem claim_next_progress_witness:
  "\<exists>js' j'. claim_next (\<lambda>_. False) ''w2'' ''t2'' 5 60 2 [sample_job] = (js', Some j')"
  by (rule claim_next_progress [where j = sample_job])
     (simp_all add: active_count_def active_def sample_job_def)

theorem stale_worker_fenced_witness:
  "job_act (CompleteOp 1 25, 7) (job_id sample_claimed) (''w0'', ''t0'') (jobs.run [] [sample_claimed]) =
     (jobs.run [] [sample_claimed], False)"
  by (rule stale_worker_fenced [OF sample_jobs_ok(1) sample_claim]) simp

theorem settle_exhausted_correct_witness:
  "set (snd (settle_exhausted (\<lambda>_. False) 9 [sample_claimed])) =
     {(vj_process_id j, if vj_status j = ''cancelling'' then ''cancelled'' else ''failed'')
       | j. j \<in> set [sample_claimed] \<and> exhausted 9 j \<and> \<not> False}"
  by (rule conjunct2 [OF conjunct2 [OF settle_exhausted_correct [OF prod.collapse [symmetric]]]])

theorem terminal_job_stable_witness:
  "\<exists>d. row_get job_id ''j1'' (fst (request_cancel ''j1'' 5 [cancel_row 5 sample_job])) =
     Some ((cancel_row 5 sample_job)\<lparr>source_deleted_at := d\<rparr>)"
proof (rule terminal_job_stable [where M = 2 and c = 5 and c' = 5])
  have "job_step 2 (5, [sample_job]) (5, fst (request_cancel ''j1'' 5 [sample_job]))"
    by (rule job_step.cancel)
  moreover have "fst (request_cancel ''j1'' 5 [sample_job]) = [cancel_row 5 sample_job]"
    by (simp add: request_cancel_def row_get_def row_update_def sample_job_def)
  ultimately show "job_reachable 2 (5, [cancel_row 5 sample_job])"
    using job_reachable.step [OF sample_reachable] by simp
  show "row_get job_id ''j1'' [cancel_row 5 sample_job] = Some (cancel_row 5 sample_job)"
    by (simp add: row_get_def) (simp add: sample_job_def)
  show "terminal (cancel_row 5 sample_job)"
    by (simp add: terminal_def cancel_row_def sample_job_def)
  show "job_step 2 (5, [cancel_row 5 sample_job])
      (5, fst (request_cancel ''j1'' 5 [cancel_row 5 sample_job]))"
    by (rule job_step.cancel)
qed

theorem abandoned_cancelling_never_settles_witness:
  "row_get job_id ''j1'' (fst (settle_exhausted (\<lambda>_. False) 1000000000 [sample_cancelling])) =
     Some sample_cancelling"
proof (rule abandoned_cancelling_never_settles [where h = "(''w1'', ''t1'')" and c = 7 and c' = 7])
  show "(abandoned_step (''w1'', ''t1''))\<^sup>*\<^sup>* (7, [sample_cancelling])
      (7, fst (settle_exhausted (\<lambda>_. False) 1000000000 [sample_cancelling]))"
    by (intro r_into_rtranclp abandoned_step.settle)
  show "row_get job_id ''j1'' [sample_cancelling] = Some sample_cancelling"
    by (simp add: row_get_def) (simp add: sample_cancelling_def sample_claimed_def sample_job_def)
qed (simp_all add: sample_jobs_ok,
     simp_all add: sample_cancelling_def sample_claimed_def sample_job_def start_claim_def
       cancel_row_def holder_def)

end
