(* ===== verification/Video_Results.thy ===== *)
theory Video_Results
  imports Face_Outcomes Video_Protocol Video_Jobs
begin

text \<open>
  The end of a video job: \<open>src/backend/app/services/video_result_service.py\<close> with the \<open>video_track\<close>
  table of \<open>src/backend/app/infrastructure/database/models.py\<close> and its repository
  (\<open>video_track_repository.py\<close>). The transaction that stores the result stays open while samples of
  new faces are committed through sessions of their own; its pending rows are a separate argument until
  it commits, and an exception drops them. \<open>uuid5\<close> and the extraction of a frame by ffmpeg are
  parameters.
\<close>

section \<open>Tables\<close>

record video_track =
  vt_track_id :: string
  vt_job_id :: string
  vt_track_ordinal :: int
  vt_source_tracker_ids :: "int list"
  vt_face_id :: string
  vt_recognition_result_id :: string
  vt_status_snapshot :: string
  vt_name_snapshot :: "string option"
  vt_metadata_snapshot :: pydict
  vt_identity_version_snapshot :: int
  vt_match_confidence :: real
  vt_threshold_used :: real
  vt_first_frame :: int
  vt_last_frame :: int
  vt_first_seen :: real
  vt_last_seen :: real
  vt_total_duration :: real
  vt_detection_count :: int
  vt_appearances :: "appearance list"
  vt_detections :: pyval
  vt_representative_sample_id :: "string option"
  vt_created_at :: time

text \<open>The database: the face registry, the job table and the track table.\<close>

record ('o, 'v) video_store =
  vb_registry :: "('o, 'v) registry"
  vb_jobs :: jobs
  vb_tracks :: "video_track list"

text \<open>The constraints of the track table, given the identities, results, samples and jobs it refers to.\<close>

definition tracks_ok ::
  "('o, 'v) registry \<Rightarrow> recognition_result list \<Rightarrow> jobs \<Rightarrow> video_track list \<Rightarrow> bool" where
  "tracks_ok g rs js ts =
     (distinct (map vt_track_id ts) \<and> distinct (map (\<lambda>t. (vt_job_id t, vt_track_ordinal t)) ts)
      \<and> list_all (\<lambda>t. vt_status_snapshot t \<in> set RESULT_STATUSES \<and> vt_job_id t \<in> job_id ` set js
           \<and> vt_face_id t \<in> face_ids g \<and> vt_recognition_result_id t \<in> rr_result_id ` set rs
           \<and> (case vt_representative_sample_id t of None \<Rightarrow> True | Some s \<Rightarrow> s \<in> sample_ids g)) ts)"

definition delete_for_job :: "string \<Rightarrow> video_track list \<Rightarrow> video_track list" where
  "delete_for_job jid ts = filter (\<lambda>t. vt_job_id t \<noteq> jid) ts"

definition replace_for_job ::
  "('o, 'v) registry \<Rightarrow> recognition_result list \<Rightarrow> jobs \<Rightarrow> string \<Rightarrow> video_track list \<Rightarrow> video_track list \<Rightarrow>
   video_track list result"
where
  "replace_for_job g rs js jid new ts = checked (tracks_ok g rs js) (delete_for_job jid ts @ new)"

definition list_by_job :: "string \<Rightarrow> video_track list \<Rightarrow> video_track list" where
  "list_by_job jid ts = sort_key vt_track_ordinal (filter (\<lambda>t. vt_job_id t = jid) ts)"

definition tracks_by_face :: "string \<Rightarrow> video_track list \<Rightarrow> video_track list" where
  "tracks_by_face fid ts = sort_key (\<lambda>t. - vt_created_at t) (filter (\<lambda>t. vt_face_id t = fid) ts)"

section \<open>Identities of tracks\<close>

record ('o, 'v) video_env =
  ve_face :: "('o, 'v) face_env"
  ve_uuid5 :: "string \<Rightarrow> string \<Rightarrow> string"
  ve_extract :: "real \<Rightarrow> face_exc + bytes"
  ve_reconcile_threshold :: real
  ve_max_gap :: real

text \<open>\<open>VideoIdentityVotingService.resolve\<close> with its default of eligible states.\<close>

definition vote_track ::
  "('o, 'v) face_env \<Rightarrow> canonical_track \<Rightarrow> ('o, 'v, unit, identity_decision) face_call" where
  "vote_track env track g =
     (case vector_search_batch (fv_qdrant env) (fv_qdrant_settings env)
             (map (\<lambda>t. map Fin (tt_embedding t)) (ct_source_templates track)) 10 True
             (Some (fv_model_version env)) (Some (fv_preprocess_version env)) (rg_vectors g) of
        (v, Inl _) \<Rightarrow> (g\<lparr>rg_vectors := v\<rparr>, Inl RawExc)
      | (v, Inr groups) \<Rightarrow>
          (g\<lparr>rg_vectors := v\<rparr>,
           case voting_resolve (fv_match_settings env) {''known'', ''anonymous''} (ct_source_templates track)
                  (candidates_batch (rg_identities g) 0 (map (map hit_of) groups)) of
             Inl _ \<Rightarrow> Inl RawExc
           | Inr d \<Rightarrow> Inr d))"

fun vote_tracks ::
  "('o, 'v) face_env \<Rightarrow> canonical_track list \<Rightarrow> ('o, 'v, unit, (canonical_track \<times> identity_decision) list) face_call" where
  "vote_tracks env [] = answered (Inr [])"
| "vote_tracks env (t # ts) =
     fbind (vote_track env t) (\<lambda>d. fbind (vote_tracks env ts) (\<lambda>ds. answered (Inr ((t, d) # ds))))"

definition deterministic_id ::
  "('o, 'v) video_env \<Rightarrow> string \<Rightarrow> canonical_track \<Rightarrow> nat \<Rightarrow> string \<Rightarrow> string" where
  "deterministic_id env jid track n kind =
     ve_uuid5 env jid
       (kind @ '':'' @ nat_digits n @ '':'' @ join_on (CHR '','') (map str_int (ct_source_tracker_ids track)))"

text \<open>The stretches of the video in which an identity is already placed.\<close>

type_synonym placements = "(string \<times> (real \<times> real) list) list"

definition placed :: "placements \<Rightarrow> string \<Rightarrow> (real \<times> real) list" where
  "placed a fid = (case map_of a fid of None \<Rightarrow> [] | Some l \<Rightarrow> l)"

definition blocked :: "face_match \<Rightarrow> canonical_track \<Rightarrow> placements \<Rightarrow> bool" where
  "blocked m track a =
     list_ex (\<lambda>(start, finish). ct_first_seen track \<le> finish \<and> start \<le> ct_last_seen track)
       (placed a (fi_face_id (fm_identity m)))"

definition assign :: "string \<Rightarrow> canonical_track \<Rightarrow> placements \<Rightarrow> placements" where
  "assign fid track a = dict_put fid (placed a fid @ [(ct_first_seen track, ct_last_seen track)]) a"

text \<open>\<open>max(track.detections, key=...)\<close>: the first of the most confident, earlier frames before later.\<close>

fun best_detection :: "video_detection \<Rightarrow> video_detection list \<Rightarrow> video_detection" where
  "best_detection b [] = b"
| "best_detection b (d # ds) =
     best_detection
       (if detector_confidence b < detector_confidence d
           \<or> detector_confidence b = detector_confidence d \<and> det_frame d < det_frame b then d else b) ds"

definition representative :: "canonical_track \<Rightarrow> video_detection" where
  "representative track = best_detection (hd (ct_detections track)) (tl (ct_detections track))"

definition detection_box :: "video_detection \<Rightarrow> pydict" where
  "detection_box d =
     [(PStr ''x'', PFloat (Fin (det_x d))), (PStr ''y'', PFloat (Fin (det_y d))),
      (PStr ''width'', PFloat (Fin (det_width d))), (PStr ''height'', PFloat (Fin (det_height d)))]"

definition detection_dict :: "video_detection \<Rightarrow> pyval" where
  "detection_dict d =
     PDict [(PStr ''frame'', PInt (det_frame d)), (PStr ''timestamp'', PFloat (Fin (det_timestamp d))),
       (PStr ''boundingBox'', PDict (detection_box d)),
       (PStr ''confidence'', PFloat (Fin (detector_confidence d))),
       (PStr ''landmarks'', PList (map (\<lambda>i. PDict
          [(PStr ''x'', PFloat (Fin (det_landmarks d ! (2 * i)))),
           (PStr ''y'', PFloat (Fin (det_landmarks d ! (2 * i + 1))))]) [0..<5]))]"

record track_outcome =
  oc_face_id :: string
  oc_sample_id :: string
  oc_status :: string
  oc_name :: "string option"
  oc_metadata :: pydict
  oc_identity_version :: int
  oc_confidence :: real
  oc_threshold :: real

definition matched_outcome :: "match_settings \<Rightarrow> face_match \<Rightarrow> track_outcome" where
  "matched_outcome s m =
     (let i = fm_identity m; known = fi_lifecycle_status i = ''known''
      in \<lparr>oc_face_id = fi_face_id i, oc_sample_id = fm_sample_id m,
          oc_status = (if known then ''known'' else ''anonymous''), oc_name = (if known then fi_name i else None),
          oc_metadata = (if known then fi_metadata i else []), oc_identity_version = fi_version i,
          oc_confidence = clamp_unit (fm_score m),
          oc_threshold = (if known then recognition_threshold s else anonymous_threshold s)\<rparr>)"

definition track_sample_args ::
  "string \<Rightarrow> string \<Rightarrow> string \<Rightarrow> canonical_track \<Rightarrow> bytes \<Rightarrow> persist_args" where
  "track_sample_args pid fid sid track evidence =
     \<lparr>pa_process_id = pid, pa_face_id = fid, pa_sample_id = sid, pa_aligned_bytes = evidence,
      pa_media_type = ''image/jpeg'', pa_vector = map Fin (ct_embedding track),
      pa_bounding_box = detection_box (representative track), pa_landmarks = None,
      pa_quality = Some [(PStr ''detector_confidence'', PFloat (Fin (detector_confidence (representative track))))],
      pa_identity_status = ''anonymous'', pa_name = None, pa_metadata = None, pa_manage_process = False\<rparr>"

definition identity_outcome ::
  "('o, 'v) video_env \<Rightarrow> video_job \<Rightarrow> canonical_track \<Rightarrow> identity_decision \<Rightarrow> nat \<Rightarrow>
   ('o, 'v, unit, track_outcome) face_call"
where
  "identity_outcome env job track d n =
     (case vd_match d of
        Some m \<Rightarrow> answered (Inr (matched_outcome (fv_match_settings (ve_face env)) m))
      | None \<Rightarrow>
          let fid = deterministic_id env (job_id job) track n ''face'';
              sid = deterministic_id env (job_id job) track n ''sample''
          in fbind (answered (if ct_jpeg track \<noteq> [] then Inr (ct_jpeg track)
                              else ve_extract env (ct_first_seen track))) (\<lambda>evidence.
             fbind (persist_sample (ve_face env) (track_sample_args (vj_process_id job) fid sid track evidence)) (\<lambda>_.
             answered (Inr \<lparr>oc_face_id = fid, oc_sample_id = sid, oc_status = ''new_anonymous'', oc_name = None,
               oc_metadata = [], oc_identity_version = 1,
               oc_confidence = (case vd_score d of None \<Rightarrow> 0 | Some x \<Rightarrow> x),
               oc_threshold = anonymous_threshold (fv_match_settings (ve_face env))\<rparr>))))"

section \<open>Storing the result\<close>

text \<open>The rows the open transaction holds, the faces of the answer and the placements so far.\<close>

record finalization =
  fz_results :: "recognition_result list"
  fz_tracks :: "video_track list"
  fz_faces :: "(string \<times> string) list"
  fz_assigned :: placements

definition no_rows :: finalization where
  "no_rows = \<lparr>fz_results = [], fz_tracks = [], fz_faces = [], fz_assigned = []\<rparr>"

definition track_result ::
  "('o, 'v) video_env \<Rightarrow> video_job \<Rightarrow> canonical_track \<Rightarrow> track_outcome \<Rightarrow> nat \<Rightarrow> recognition_result" where
  "track_result env job track oc n =
     \<lparr>rr_result_id = deterministic_id env (job_id job) track n ''result'', rr_process_id = vj_process_id job,
      rr_detection_ordinal = int n, rr_face_id = oc_face_id oc, rr_status_snapshot = oc_status oc,
      rr_name_snapshot = oc_name oc, rr_metadata_snapshot = oc_metadata oc,
      rr_bounding_box = detection_box (representative track),
      rr_detector_confidence = Fin (detector_confidence (representative track)),
      rr_match_confidence = oc_confidence oc, rr_matched_sample_id = Some (oc_sample_id oc),
      rr_created_at = fv_now (ve_face env)\<rparr>"

definition track_row ::
  "('o, 'v) video_env \<Rightarrow> video_job \<Rightarrow> canonical_track \<Rightarrow> track_outcome \<Rightarrow> nat \<Rightarrow> video_track" where
  "track_row env job track oc n =
     \<lparr>vt_track_id = deterministic_id env (job_id job) track n ''track'', vt_job_id = job_id job,
      vt_track_ordinal = int n, vt_source_tracker_ids = ct_source_tracker_ids track, vt_face_id = oc_face_id oc,
      vt_recognition_result_id = deterministic_id env (job_id job) track n ''result'',
      vt_status_snapshot = oc_status oc, vt_name_snapshot = oc_name oc, vt_metadata_snapshot = oc_metadata oc,
      vt_identity_version_snapshot = oc_identity_version oc, vt_match_confidence = oc_confidence oc,
      vt_threshold_used = oc_threshold oc, vt_first_frame = det_frame (hd (ct_detections track)),
      vt_last_frame = det_frame (last (ct_detections track)), vt_first_seen = ct_first_seen track,
      vt_last_seen = ct_last_seen track, vt_total_duration = ct_total_duration track,
      vt_detection_count = int (length (ct_detections track)), vt_appearances = ct_appearances track,
      vt_detections = PList (map detection_dict (ct_detections track)),
      vt_representative_sample_id = Some (oc_sample_id oc), vt_created_at = fv_now (ve_face env)\<rparr>"

definition unblocked :: "canonical_track \<Rightarrow> identity_decision \<Rightarrow> placements \<Rightarrow> identity_decision" where
  "unblocked track d a =
     (case vd_match d of
        None \<Rightarrow> d
      | Some m \<Rightarrow> if blocked m track a then \<lparr>vd_match = None, vd_score = vd_score d\<rparr> else d)"

definition add_track ::
  "('o, 'v) video_env \<Rightarrow> video_job \<Rightarrow> canonical_track \<Rightarrow> track_outcome \<Rightarrow> nat \<Rightarrow> finalization \<Rightarrow> finalization" where
  "add_track env job track oc n fz =
     \<lparr>fz_results = fz_results fz @ [track_result env job track oc n],
      fz_tracks = fz_tracks fz @ [track_row env job track oc n],
      fz_faces = fz_faces fz @ [(oc_face_id oc, oc_status oc)],
      fz_assigned = assign (oc_face_id oc) track (fz_assigned fz)\<rparr>"

fun place_tracks ::
  "('o, 'v) video_env \<Rightarrow> video_job \<Rightarrow> nat \<Rightarrow> (canonical_track \<times> identity_decision) list \<Rightarrow> finalization \<Rightarrow>
   ('o, 'v, unit, finalization) face_call"
where
  "place_tracks env job n [] fz = answered (Inr fz)"
| "place_tracks env job n ((track, d) # ps) fz =
     fbind (identity_outcome env job track (unblocked track d (fz_assigned fz)) n) (\<lambda>oc g.
       let fz' = add_track env job track oc n fz
       in if results_ok g (rg_results g @ fz_results fz') then place_tracks env job (n + 1) ps fz' g
          else (g, Inl RawExc))"

definition video_details :: "video_job \<Rightarrow> int \<Rightarrow> (string \<times> string) list \<Rightarrow> pydict" where
  "video_details job frames faces =
     [(PStr ''operation'', PStr ''video_recognize''),
      (PStr ''video'', PDict
         [(PStr ''duration'', PFloat (Fin (duration_seconds job))), (PStr ''fps'', PFloat (Fin (fps job))),
          (PStr ''width'', PInt (frame_width job)), (PStr ''height'', PInt (frame_height job)),
          (PStr ''total_frames'', PInt (total_frames job)), (PStr ''processed_frames'', PInt frames)]),
      (PStr ''person_count'', PInt (int (length faces))), (PStr ''faces'', faces_detail faces)]"

text \<open>The last statements of the transaction, on what is committed by then.\<close>

definition commit_result ::
  "('o, 'v) video_env \<Rightarrow> video_job \<Rightarrow> string \<Rightarrow> string \<Rightarrow> int \<Rightarrow> finalization \<Rightarrow> ('o, 'v) video_store \<Rightarrow>
   ('o, 'v) video_store \<times> (video_exc + (string \<times> string) list)"
where
  "commit_result env job wid token frames fz s =
     (let g = vb_registry s; rs = rg_results g @ fz_results fz
      in case replace_for_job g rs (vb_jobs s) (job_id job) (fz_tracks fz) (vb_tracks s) of
           Inl e \<Rightarrow> (s, Inl (VideoError e))
         | Inr ts \<Rightarrow>
             (case complete (job_id job) wid token (int (length (fz_tracks fz))) frames (fv_now (ve_face env)) (vb_jobs s) of
                (_, False) \<Rightarrow> (s, Inl (VideoLeaseLost ''Video job lease was lost before completion''))
              | (js, True) \<Rightarrow>
                  (\<lparr>vb_registry = g\<lparr>rg_results := rs,
                      rg_processes := process_complete (vj_process_id job) (int (length (fz_tracks fz)))
                        (video_details job frames (fz_faces fz)) (fv_now (ve_face env)) (rg_processes g)\<rparr>,
                    vb_jobs = js, vb_tracks = ts\<rparr>,
                   Inr (fz_faces fz))))"

definition on_registry :: "('o, 'v, unit, 'a) face_call \<Rightarrow> ('o, 'v) video_store \<Rightarrow> ('o, 'v) video_store \<times> (video_exc + 'a)" where
  "on_registry m s =
     (case m (vb_registry s) of
        (g, Inl e) \<Rightarrow> (s\<lparr>vb_registry := g\<rparr>, Inl (VideoError (OtherError (exc_code e))))
      | (g, Inr x) \<Rightarrow> (s\<lparr>vb_registry := g\<rparr>, Inr x))"

definition canonical_tracks ::
  "('o, 'v) video_env \<Rightarrow> track_output list \<Rightarrow> ('o, 'v, unit, canonical_track list) face_call" where
  "canonical_tracks env raws g =
     (case reconcile (ve_reconcile_threshold env) (ve_max_gap env)
             (\<lambda>k. fv_fresh (ve_face env) (rg_generated g + k)) raws of
        Inl _ \<Rightarrow> (g, Inl RawExc)
      | Inr ts \<Rightarrow> (g\<lparr>rg_generated := rg_generated g + length ts\<rparr>, Inr ts))"

definition finalize_video ::
  "('o, 'v) video_env \<Rightarrow> video_job \<Rightarrow> track_output list \<Rightarrow> string \<Rightarrow> string \<Rightarrow> int \<Rightarrow> ('o, 'v) video_store \<Rightarrow>
   ('o, 'v) video_store \<times> (video_exc + (string \<times> string) list)"
where
  "finalize_video env job raws wid token frames s =
     (case on_registry (fbind (canonical_tracks env raws) (vote_tracks (ve_face env))) s of
        (s1, Inl e) \<Rightarrow> (s1, Inl e)
      | (s1, Inr ps) \<Rightarrow>
          if lock_owned (job_id job) wid token (fv_now (ve_face env)) (vb_jobs s1) = None
          then (s1, Inl (VideoLeaseLost ''Video job lease was lost''))
          else (case on_registry (place_tracks env job 0 ps no_rows) s1 of
                  (s2, Inl e) \<Rightarrow> (s2, Inl e)
                | (s2, Inr fz) \<Rightarrow> commit_result env job wid token frames fz s2))"

section \<open>Placements\<close>

definition disjoint_tracks :: "video_track \<Rightarrow> video_track \<Rightarrow> bool" where
  "disjoint_tracks t u = (vt_last_seen t < vt_first_seen u \<or> vt_last_seen u < vt_first_seen t)"

text \<open>A later track with the same identity does not overlap an earlier one, unless its identity is new.\<close>

definition apart :: "video_track \<Rightarrow> video_track \<Rightarrow> bool" where
  "apart t u = (vt_face_id t = vt_face_id u \<and> vt_status_snapshot u \<noteq> ''new_anonymous'' \<longrightarrow> disjoint_tracks t u)"

definition spans :: "video_track list \<Rightarrow> string \<Rightarrow> (real \<times> real) list" where
  "spans ts fid = map (\<lambda>t. (vt_first_seen t, vt_last_seen t)) (filter (\<lambda>t. vt_face_id t = fid) ts)"

definition finalization_ok :: "string \<Rightarrow> finalization \<Rightarrow> bool" where
  "finalization_ok jid fz =
     ((\<forall>fid. placed (fz_assigned fz) fid = spans (fz_tracks fz) fid) \<and> sorted_wrt apart (fz_tracks fz)
      \<and> map vt_track_ordinal (fz_tracks fz) = map int [0..<length (fz_tracks fz)]
      \<and> list_all (\<lambda>t. vt_job_id t = jid) (fz_tracks fz)
      \<and> map (\<lambda>t. (vt_face_id t, vt_status_snapshot t)) (fz_tracks fz) = fz_faces fz
      \<and> map (\<lambda>r. (rr_result_id r, rr_face_id r, rr_status_snapshot r, rr_detection_ordinal r)) (fz_results fz) =
        map (\<lambda>t. (vt_recognition_result_id t, vt_face_id t, vt_status_snapshot t, vt_track_ordinal t)) (fz_tracks fz))"

lemma placed_assign:
  "placed (assign fid track a) k =
     (if k = fid then placed a fid @ [(ct_first_seen track, ct_last_seen track)] else placed a k)"
  by (auto simp: placed_def assign_def map_of_dict_put)

lemma outcome_apart:
  assumes "identity_outcome env job track (unblocked track d a) n g = (g', Inr oc)" and "oc_status oc \<noteq> ''new_anonymous''"
    and "(start, finish) \<in> set (placed a (oc_face_id oc))"
  shows "finish < ct_first_seen track \<or> ct_last_seen track < start"
proof -
  from assms(1,2) obtain m where "vd_match (unblocked track d a) = Some m"
    and oc: "oc = matched_outcome (fv_match_settings (ve_face env)) m"
    by (auto simp: identity_outcome_def fbind_Inr Let_def split: option.splits)
  then have "\<not> blocked m track a" by (auto simp: unblocked_def split: option.splits if_splits)
  with assms(3) oc show ?thesis
    by (auto simp: blocked_def matched_outcome_def Let_def list_ex_iff not_le)
qed

lemma add_track_ok:
  assumes ok: "finalization_ok (job_id job) fz" and n: "n = length (fz_tracks fz)"
    and oc: "identity_outcome env job track (unblocked track d (fz_assigned fz)) n g = (g', Inr oc)"
  shows "finalization_ok (job_id job) (add_track env job track oc n fz)"
proof -
  have "apart t (track_row env job track oc n)" if "t \<in> set (fz_tracks fz)" for t
  proof -
    have "disjoint_tracks t (track_row env job track oc n)"
      if "vt_face_id t = oc_face_id oc" "oc_status oc \<noteq> ''new_anonymous''"
    proof -
      have "(vt_first_seen t, vt_last_seen t) \<in> set (placed (fz_assigned fz) (oc_face_id oc))"
        using ok that(1) \<open>t \<in> set (fz_tracks fz)\<close> by (auto simp: finalization_ok_def spans_def)
      from outcome_apart [OF oc that(2) this] show ?thesis by (auto simp: disjoint_tracks_def track_row_def)
    qed
    then show ?thesis by (auto simp: apart_def track_row_def)
  qed
  with ok n show ?thesis
    by (auto simp: finalization_ok_def add_track_def placed_assign spans_def sorted_wrt_append track_row_def track_result_def)
qed

lemma place_tracks_ok:
  assumes "place_tracks env job n ps fz g = (g', Inr fz')" and "finalization_ok (job_id job) fz"
    and "n = length (fz_tracks fz)"
  shows "finalization_ok (job_id job) fz' \<and> length (fz_tracks fz') = n + length ps"
  using assms
proof (induction ps arbitrary: n fz g)
  case (Cons p ps)
  obtain track d where p: "p = (track, d)" by fastforce
  from Cons.prems(1) obtain oc g1 where oc: "identity_outcome env job track (unblocked track d (fz_assigned fz)) n g = (g1, Inr oc)"
    and r: "place_tracks env job (n + 1) ps (add_track env job track oc n fz) g1 = (g', Inr fz')"
    by (auto simp: p fbind_Inr Let_def split: if_splits)
  have len: "length (fz_tracks (add_track env job track oc n fz)) = n + 1" by (simp add: add_track_def Cons.prems(3))
  from Cons.IH [OF r add_track_ok [OF Cons.prems(2,3) oc]] len show ?case by simp
qed simp

lemma no_rows_ok: "finalization_ok jid no_rows"
  by (simp add: finalization_ok_def no_rows_def placed_def spans_def)

lemma list_by_job_replaced:
  assumes "finalization_ok jid fz" and "ts = delete_for_job jid old @ fz_tracks fz"
  shows "list_by_job jid ts = fz_tracks fz"
proof -
  have "filter (\<lambda>t. vt_job_id t = jid) (fz_tracks fz) = fz_tracks fz"
    using assms(1) by (auto simp: finalization_ok_def filter_id_conv list_all_iff)
  moreover have "sorted (map vt_track_ordinal (fz_tracks fz))"
    using assms(1) by (simp add: finalization_ok_def sorted_iff_nth_mono del: upt_Suc)
  moreover have "filter (\<lambda>t. vt_job_id t = jid) (delete_for_job jid old) = []"
    by (auto simp: delete_for_job_def filter_empty_conv)
  ultimately show ?thesis using assms(2) by (simp add: list_by_job_def sort_key_id_if_sorted)
qed

section \<open>What a finished job shows\<close>

lemma on_registry_Inr:
  "on_registry m s = (s', Inr x) \<longleftrightarrow> (\<exists>g. m (vb_registry s) = (g, Inr x) \<and> s' = s\<lparr>vb_registry := g\<rparr>)"
  by (auto simp: on_registry_def split: prod.splits sum.splits)

lemma on_registry_Inl:
  "on_registry m s = (s', Inl e) \<Longrightarrow> \<exists>g e'. m (vb_registry s) = (g, Inl e') \<and> s' = s\<lparr>vb_registry := g\<rparr>"
  by (auto simp: on_registry_def split: prod.splits sum.splits)

lemma finalize_video_Inr:
  assumes "finalize_video env job raws wid token frames s = (s', Inr faces)"
  obtains ps g1 g2 fz where
    "fbind (canonical_tracks env raws) (vote_tracks (ve_face env)) (vb_registry s) = (g1, Inr ps)"
    and "lock_owned (job_id job) wid token (fv_now (ve_face env)) (vb_jobs s) \<noteq> None"
    and "place_tracks env job 0 ps no_rows g1 = (g2, Inr fz)"
    and "commit_result env job wid token frames fz (s\<lparr>vb_registry := g2\<rparr>) = (s', Inr faces)"
  using assms
  by (auto simp: finalize_video_def on_registry_Inr split: prod.splits sum.splits if_splits)

lemma commit_result_Inr:
  assumes "commit_result env job wid token frames fz s = (s', Inr faces)"
  shows "faces = fz_faces fz" and "vb_tracks s' = delete_for_job (job_id job) (vb_tracks s) @ fz_tracks fz"
    and "complete (job_id job) wid token (int (length (fz_tracks fz))) frames (fv_now (ve_face env)) (vb_jobs s) =
      (vb_jobs s', True)"
    and "rg_results (vb_registry s') = rg_results (vb_registry s) @ fz_results fz"
    and "rg_processes (vb_registry s') = process_complete (vj_process_id job) (int (length (fz_tracks fz)))
      (video_details job frames (fz_faces fz)) (fv_now (ve_face env)) (rg_processes (vb_registry s))"
  using assms
  by (auto simp: commit_result_def Let_def replace_for_job_def split: sum.splits prod.splits bool.splits)

lemma complete_row:
  "complete jid wid token n frames now js = (js', True) \<Longrightarrow>
     \<exists>j. row_get job_id jid js' = Some j \<and> vj_status j = ''completed'' \<and> lease_clear j \<and> person_count j = n"
  by (auto simp: complete_def holds_def row_get_update_same clear_lease_def lease_clear_def split: if_splits option.splits)

lemma finalized_rows:
  assumes "finalize_video env job raws wid token frames s = (s', Inr faces)"
  shows "\<exists>fz. finalization_ok (job_id job) fz \<and> list_by_job (job_id job) (vb_tracks s') = fz_tracks fz
    \<and> faces = fz_faces fz \<and> set (fz_results fz) \<subseteq> set (rg_results (vb_registry s'))
    \<and> complete (job_id job) wid token (int (length (fz_tracks fz))) frames (fv_now (ve_face env)) (vb_jobs s) =
       (vb_jobs s', True)"
proof -
  from assms obtain ps g1 g2 fz where p: "place_tracks env job 0 ps no_rows g1 = (g2, Inr fz)"
    and c: "commit_result env job wid token frames fz (s\<lparr>vb_registry := g2\<rparr>) = (s', Inr faces)"
    by (rule finalize_video_Inr)
  have ok: "finalization_ok (job_id job) fz"
    using place_tracks_ok [OF p no_rows_ok] by (simp add: no_rows_def)
  note cs = commit_result_Inr [OF c]
  have "list_by_job (job_id job) (vb_tracks s') = fz_tracks fz"
    using list_by_job_replaced [OF ok] cs(2) by simp
  with ok cs(1,3,4) show ?thesis by (intro exI [of _ fz]) simp
qed

text \<open>
  C8. No person is in two places at once: of two tracks of a finished job that are attributed to the same
  identity, the later one in the result either lies before or after the other in the video, or it is the
  track for which that identity was created.
\<close>

theorem attributed_tracks_disjoint:
  assumes "finalize_video env job raws wid token frames s = (s', Inr faces)"
    and "ts = list_by_job (job_id job) (vb_tracks s')" and "i < j" and "j < length ts"
    and "vt_face_id (ts ! i) = vt_face_id (ts ! j)" and "vt_status_snapshot (ts ! j) \<noteq> ''new_anonymous''"
  shows "vt_last_seen (ts ! i) < vt_first_seen (ts ! j) \<or> vt_last_seen (ts ! j) < vt_first_seen (ts ! i)"
proof -
  obtain fz where "finalization_ok (job_id job) fz" "ts = fz_tracks fz"
    using finalized_rows [OF assms(1)] assms(2) by auto
  then have "apart (ts ! i) (ts ! j)"
    using assms(3,4) by (auto simp: finalization_ok_def sorted_wrt_iff_nth_less)
  with assms(5,6) show ?thesis by (simp add: apart_def disjoint_tracks_def)
qed

text \<open>
  C13. Finishing a job is one step for its readers: the job is completed and its lease gone, its person
  count is the number of its tracks, the tracks are numbered from 0 and show the faces of the answer in
  order, and every track has a recognition result with the same face, state and number.
\<close>

theorem finished_job_consistent:
  assumes "finalize_video env job raws wid token frames s = (s', Inr faces)"
    and "ts = list_by_job (job_id job) (vb_tracks s')"
  shows "map (\<lambda>t. (vt_face_id t, vt_status_snapshot t)) ts = faces
    \<and> map vt_track_ordinal ts = map int [0..<length ts]
    \<and> (\<exists>j. row_get job_id (job_id job) (vb_jobs s') = Some j \<and> vj_status j = ''completed'' \<and> lease_clear j
        \<and> person_count j = int (length ts))
    \<and> (\<forall>t \<in> set ts. \<exists>r \<in> set (rg_results (vb_registry s')). rr_result_id r = vt_recognition_result_id t
        \<and> rr_face_id r = vt_face_id t \<and> rr_status_snapshot r = vt_status_snapshot t
        \<and> rr_detection_ordinal r = vt_track_ordinal t)"
proof (intro conjI ballI)
  obtain fz where fz: "finalization_ok (job_id job) fz" "ts = fz_tracks fz" "faces = fz_faces fz"
    "set (fz_results fz) \<subseteq> set (rg_results (vb_registry s'))"
    and c: "complete (job_id job) wid token (int (length ts)) frames (fv_now (ve_face env)) (vb_jobs s) = (vb_jobs s', True)"
    using finalized_rows [OF assms(1)] assms(2) by auto
  show "map (\<lambda>t. (vt_face_id t, vt_status_snapshot t)) ts = faces" "map vt_track_ordinal ts = map int [0..<length ts]"
    using fz by (auto simp: finalization_ok_def)
  show "\<exists>j. row_get job_id (job_id job) (vb_jobs s') = Some j \<and> vj_status j = ''completed'' \<and> lease_clear j
      \<and> person_count j = int (length ts)" by (rule complete_row [OF c])
  fix t
  assume "t \<in> set ts"
  then have "(vt_recognition_result_id t, vt_face_id t, vt_status_snapshot t, vt_track_ordinal t) \<in>
    set (map (\<lambda>r. (rr_result_id r, rr_face_id r, rr_status_snapshot r, rr_detection_ordinal r)) (fz_results fz))"
    using fz by (auto simp: finalization_ok_def)
  with fz(4) show "\<exists>r \<in> set (rg_results (vb_registry s')). rr_result_id r = vt_recognition_result_id t
      \<and> rr_face_id r = vt_face_id t \<and> rr_status_snapshot r = vt_status_snapshot t
      \<and> rr_detection_ordinal r = vt_track_ordinal t" by force
qed

section \<open>A job that is not finished\<close>

lemma commit_result_Inl: "commit_result env job wid token frames fz s = (s', Inl e) \<Longrightarrow> s' = s"
  by (auto simp: commit_result_def Let_def split: sum.splits prod.splits bool.splits)

lemma stepping_canonical [intro]: "stepping (ve_face env) (canonical_tracks env raws)"
  by (auto simp: stepping_def canonical_tracks_def intro: stores_steps split: sum.splits)

lemma stepping_vote_track [intro]: "stepping env (vote_track env t)"
  by (auto simp: stepping_def vote_track_def intro: stores_steps split: prod.splits sum.splits)

lemma stepping_vote_tracks [intro]: "stepping env (vote_tracks env ts)"
  by (induction ts) auto

lemma stepping_outcome [intro]: "stepping (ve_face env) (identity_outcome env job track d n)"
proof (cases "vd_match d")
  case None
  then show ?thesis unfolding identity_outcome_def None option.case Let_def by (intro stepping_fbind) auto
qed (simp add: identity_outcome_def)

lemma stepping_place_tracks [intro]: "stepping (ve_face env) (place_tracks env job n ps fz)"
proof (induction ps arbitrary: n fz)
  case (Cons p ps)
  obtain track d where p: "p = (track, d)" by fastforce
  have "stepping (ve_face env) (\<lambda>g. let fz' = add_track env job track oc n fz
       in if results_ok g (rg_results g @ fz_results fz') then place_tracks env job (n + 1) ps fz' g
          else (g, Inl RawExc))" for oc
    using Cons.IH by (auto simp: stepping_def Let_def)
  then show ?case by (auto simp: p intro!: stepping_fbind)
qed simp

lemma leaves_outcome: "leaves rg_results (identity_outcome env job track d n)"
proof (cases "vd_match d")
  case None
  then show ?thesis unfolding identity_outcome_def None option.case Let_def
    by (intro leaves_fbind leaves_answered leaves_persist)
qed (simp add: identity_outcome_def)

lemma leaves_place_tracks: "leaves rg_results (place_tracks env job n ps fz)"
proof (induction ps arbitrary: n fz)
  case (Cons p ps)
  obtain track d where p: "p = (track, d)" by fastforce
  have "leaves rg_results (\<lambda>g. let fz' = add_track env job track oc n fz
       in if results_ok g (rg_results g @ fz_results fz') then place_tracks env job (n + 1) ps fz' g
          else (g, Inl RawExc))" for oc
    using Cons.IH by (auto simp: leaves_def Let_def)
  then show ?case by (auto simp: p intro!: leaves_fbind leaves_outcome)
qed simp

lemma voting_leaves:
  assumes "fbind (canonical_tracks env raws) (vote_tracks (ve_face env)) g = (g', r)"
  shows "rg_results g' = rg_results g \<and> rg_identities g' = rg_identities g \<and> rg_samples g' = rg_samples g
    \<and> registry_steps (ve_face env) g g'"
proof -
  have v: "leaves rg_results (vote_tracks e ts)" "leaves rg_identities (vote_tracks e ts)" "leaves rg_samples (vote_tracks e ts)"
    for e :: "('a, 'b) face_env" and ts
  proof (induction ts)
    case (Cons t ts)
    have t: "leaves rg_results (vote_track e t)" "leaves rg_identities (vote_track e t)" "leaves rg_samples (vote_track e t)"
      by (auto simp: leaves_def vote_track_def split: prod.splits sum.splits)
    { case 1 show ?case using Cons t by auto
    next case 2 show ?case using Cons t by auto
    next case 3 show ?case using Cons t by auto }
  qed simp_all
  have c: "leaves rg_results (canonical_tracks env raws)" "leaves rg_identities (canonical_tracks env raws)"
    "leaves rg_samples (canonical_tracks env raws)"
    by (auto simp: leaves_def canonical_tracks_def split: sum.splits)
  show ?thesis
    using leavesD [OF leaves_fbind [OF c(1) v(1)] assms] leavesD [OF leaves_fbind [OF c(2) v(2)] assms]
      leavesD [OF leaves_fbind [OF c(3) v(3)] assms]
      steppingD [OF stepping_fbind [OF stepping_canonical stepping_vote_tracks] assms] by simp
qed

text \<open>
  A job that could not be finished leaves no part of a result: the job table, the tracks and the
  recognition results are as before, and the registry has only gone through complete transactions of the
  sample service; a worker that no longer owns the job has not even stored a sample or an identity.
\<close>

theorem unfinished_job_leaves_tables:
  assumes "finalize_video env job raws wid token frames s = (s', Inl e)"
  shows "vb_jobs s' = vb_jobs s \<and> vb_tracks s' = vb_tracks s
    \<and> rg_results (vb_registry s') = rg_results (vb_registry s)
    \<and> registry_steps (ve_face env) (vb_registry s) (vb_registry s')
    \<and> (lock_owned (job_id job) wid token (fv_now (ve_face env)) (vb_jobs s) = None \<longrightarrow>
        rg_identities (vb_registry s') = rg_identities (vb_registry s) \<and> rg_samples (vb_registry s') = rg_samples (vb_registry s))"
proof -
  obtain g1 r where v: "fbind (canonical_tracks env raws) (vote_tracks (ve_face env)) (vb_registry s) = (g1, r)" by fastforce
  note l = voting_leaves [OF v]
  show ?thesis
  proof (cases "\<exists>ps. r = Inr ps \<and> lock_owned (job_id job) wid token (fv_now (ve_face env)) (vb_jobs s) \<noteq> None")
    case False
    with assms v have "s' = s\<lparr>vb_registry := g1\<rparr>"
      by (cases r) (auto simp: finalize_video_def on_registry_def)
    with l show ?thesis by simp
  next
    case True
    then obtain ps where ps: "r = Inr ps" "lock_owned (job_id job) wid token (fv_now (ve_face env)) (vb_jobs s) \<noteq> None"
      by blast
    obtain g2 q where p: "place_tracks env job 0 ps no_rows g1 = (g2, q)" by fastforce
    have "s' = s\<lparr>vb_registry := g2\<rparr>"
      using assms v ps p
      by (cases q) (auto simp: finalize_video_def on_registry_def dest: commit_result_Inl)
    moreover have "rg_results g2 = rg_results g1" using leavesD [OF leaves_place_tracks p] .
    moreover have "registry_steps (ve_face env) g1 g2" using steppingD [OF stepping_place_tracks p] .
    ultimately show ?thesis using l ps(2) by auto
  qed
qed

end
