(* ===== verification/Video_Processing.thy ===== *)
theory Video_Processing
  imports Video_Results
begin

text \<open>
  One pass of a video worker: \<open>src/backend/app/services/video_processor.py\<close> with the polling loop of
  \<open>src/backend/app/infrastructure/video/native_runner.py\<close>. What happens while the native process runs is
  a list of items in the order they take effect: events of the process, the end of its output, polls for
  cancellation, renewals of the lease, the deadline, the clock, and transactions of others. The temporary
  directory and the termination of the process leave no state behind and are left out.
\<close>

section \<open>Claiming\<close>

record worker_settings =
  video_job_lease_seconds :: int
  video_max_concurrent_jobs :: int
  video_progress_update_interval :: time

fun settle_processes :: "time \<Rightarrow> (string \<times> string) list \<Rightarrow> processes \<Rightarrow> processes" where
  "settle_processes now [] ps = ps"
| "settle_processes now ((pid, status) # xs) ps =
     settle_processes now xs
       (if status = ''cancelled'' then process_cancel pid now ps
        else process_fail pid ''VIDEO_JOB_ATTEMPTS_EXHAUSTED'' now ps)"

definition claim_video_job ::
  "worker_settings \<Rightarrow> (string \<Rightarrow> bool) \<Rightarrow> string \<Rightarrow> string \<Rightarrow> time \<Rightarrow> ('o, 'v) video_store \<Rightarrow>
   ('o, 'v) video_store \<times> video_job option"
where
  "claim_video_job cfg locked wid token now s =
     (case settle_exhausted locked now (vb_jobs s) of (js1, settled) \<Rightarrow>
      case claim_next locked wid token now (video_job_lease_seconds cfg) (video_max_concurrent_jobs cfg) js1 of (js2, job) \<Rightarrow>
        (s\<lparr>vb_jobs := js2,
           vb_registry := (vb_registry s)\<lparr>rg_processes := settle_processes now settled (rg_processes (vb_registry s))\<rparr>\<rparr>,
         job))"

section \<open>While the native process runs\<close>

datatype ('o, 'v) run_item =
    Tick time
  | Written video_event
  | ReaderFails video_exc
  | CancelPoll
  | DeadlinePassed
  | LeaseRenewal
  | Elsewhere "('o, 'v) video_store \<Rightarrow> ('o, 'v) video_store"

record ('o, 'v) video_run =
  vr_store :: "('o, 'v) video_store"
  vr_now :: time
  vr_tracks :: "track_output list"
  vr_last_progress :: "time option"
  vr_lease_lost :: bool
  vr_renewing :: bool
  vr_completed :: "video_completed option"
  vr_reader_error :: "video_exc option"

definition start_run :: "('o, 'v) video_store \<Rightarrow> time \<Rightarrow> ('o, 'v) video_run" where
  "start_run s now =
     \<lparr>vr_store = s, vr_now = now, vr_tracks = [], vr_last_progress = None, vr_lease_lost = False, vr_renewing = True,
      vr_completed = None, vr_reader_error = None\<rparr>"

definition with_jobs :: "jobs \<Rightarrow> ('o, 'v) video_run \<Rightarrow> ('o, 'v) video_run" where
  "with_jobs js r = r\<lparr>vr_store := (vr_store r)\<lparr>vb_jobs := js\<rparr>\<rparr>"

definition run_jobs :: "('o, 'v) video_run \<Rightarrow> jobs" where
  "run_jobs r = vb_jobs (vr_store r)"

definition progress_due :: "worker_settings \<Rightarrow> ('o, 'v) video_run \<Rightarrow> bool" where
  "progress_due cfg r =
     (case vr_last_progress r of
        None \<Rightarrow> True
      | Some t \<Rightarrow> \<not> vr_now r - t < video_progress_update_interval cfg)"

text \<open>The callback: tracks are collected, progress is stored at most once per interval.\<close>

definition video_on_event ::
  "worker_settings \<Rightarrow> video_job \<Rightarrow> string \<Rightarrow> string \<Rightarrow> ('o, 'v) video_run \<Rightarrow> video_event \<Rightarrow>
   ('o, 'v) video_run \<times> (video_exc + unit)"
where
  "video_on_event cfg job wid token r event =
     (case event of
        VideoTrackOutput t \<Rightarrow> (r\<lparr>vr_tracks := vr_tracks r @ [t]\<rparr>, Inr ())
      | VideoProgress p \<Rightarrow>
          if \<not> progress_due cfg r then (r, Inr ())
          else (case update_progress (job_id job) wid token ''inference'' (vp_progress_percent p) (vp_processed_frames p)
                       (vr_now r) (run_jobs r) of
                  (js, True) \<Rightarrow> (with_jobs js (r\<lparr>vr_last_progress := Some (vr_now r)\<rparr>), Inr ())
                | (js, False) \<Rightarrow>
                    (with_jobs js (r\<lparr>vr_last_progress := Some (vr_now r), vr_lease_lost := True\<rparr>),
                     Inl (VideoLeaseLost ''Video job lease was lost during progress'')))
      | _ \<Rightarrow> (r, Inr ()))"

definition cancellation_poll :: "video_job \<Rightarrow> string \<Rightarrow> string \<Rightarrow> ('o, 'v) video_run \<Rightarrow> ('o, 'v) video_run \<times> bool" where
  "cancellation_poll job wid token r =
     (if vr_lease_lost r then (r, True)
      else case row_get job_id (job_id job) (run_jobs r) of
        None \<Rightarrow> (r\<lparr>vr_lease_lost := True\<rparr>, True)
      | Some j \<Rightarrow>
          if worker_id j \<noteq> Some wid \<or> lease_token j \<noteq> Some token
             \<or> (case lease_expires_at j of None \<Rightarrow> True | Some t \<Rightarrow> t < vr_now r)
          then (r\<lparr>vr_lease_lost := True\<rparr>, True) else (r, cancellation_requested j))"

definition renew_once :: "worker_settings \<Rightarrow> video_job \<Rightarrow> string \<Rightarrow> string \<Rightarrow> ('o, 'v) video_run \<Rightarrow> ('o, 'v) video_run" where
  "renew_once cfg job wid token r =
     (if \<not> vr_renewing r then r
      else case renew_lease (job_id job) wid token (vr_now r + seconds (video_job_lease_seconds cfg)) (vr_now r) (run_jobs r) of
        (js, True) \<Rightarrow> with_jobs js r
      | (js, False) \<Rightarrow> with_jobs js (r\<lparr>vr_lease_lost := True, vr_renewing := False\<rparr>))"

text \<open>One item; the result is the exception the runner raises at it, if any.\<close>

fun take_item ::
  "worker_settings \<Rightarrow> video_job \<Rightarrow> string \<Rightarrow> string \<Rightarrow> ('o, 'v) run_item \<Rightarrow> ('o, 'v) video_run \<Rightarrow>
   ('o, 'v) video_run \<times> video_exc option"
where
  "take_item cfg job wid token (Tick t) r = (r\<lparr>vr_now := max (vr_now r) t\<rparr>, None)"
| "take_item cfg job wid token (Written event) r =
     (if vr_reader_error r \<noteq> None then (r, None)
      else case event of
        VideoFailed code message \<Rightarrow> (r\<lparr>vr_reader_error := Some (NativeVideoFailed code message)\<rparr>, None)
      | _ \<Rightarrow>
          (case video_on_event cfg job wid token r event of
             (r', Inl e) \<Rightarrow> (r'\<lparr>vr_reader_error := Some e\<rparr>, None)
           | (r', Inr _) \<Rightarrow> (r'\<lparr>vr_completed := next_completed (vr_completed r') event\<rparr>, None)))"
| "take_item cfg job wid token (ReaderFails e) r =
     (if vr_reader_error r \<noteq> None then r else r\<lparr>vr_reader_error := Some e\<rparr>, None)"
| "take_item cfg job wid token CancelPoll r =
     (case cancellation_poll job wid token r of
        (r', True) \<Rightarrow> (r', Some NativeVideoCancelled)
      | (r', False) \<Rightarrow> (r', None))"
| "take_item cfg job wid token DeadlinePassed r = (r, Some NativeVideoTimeout)"
| "take_item cfg job wid token LeaseRenewal r = (renew_once cfg job wid token r, None)"
| "take_item cfg job wid token (Elsewhere f) r = (r\<lparr>vr_store := f (vr_store r)\<rparr>, None)"

fun run_items ::
  "worker_settings \<Rightarrow> video_job \<Rightarrow> string \<Rightarrow> string \<Rightarrow> ('o, 'v) run_item list \<Rightarrow> ('o, 'v) video_run \<Rightarrow>
   ('o, 'v) video_run \<times> video_exc option"
where
  "run_items cfg job wid token [] r = (r, None)"
| "run_items cfg job wid token (i # is) r =
     (case take_item cfg job wid token i r of
        (r', Some e) \<Rightarrow> (r', Some e)
      | (r', None) \<Rightarrow> run_items cfg job wid token is r')"

definition native_video_run ::
  "worker_settings \<Rightarrow> video_job \<Rightarrow> string \<Rightarrow> string \<Rightarrow> ('o, 'v) run_item list \<Rightarrow> int \<Rightarrow> ('o, 'v) video_run \<Rightarrow>
   ('o, 'v) video_run \<times> (video_exc + video_completed)"
where
  "native_video_run cfg job wid token items code r =
     (case run_items cfg job wid token items r of
        (r', Some e) \<Rightarrow> (r', Inl e)
      | (r', None) \<Rightarrow>
          (r', runner_result code (case vr_reader_error r' of None \<Rightarrow> Inr (vr_completed r') | Some e \<Rightarrow> Inl e)))"

section \<open>The end of a pass\<close>

definition at_time :: "('o, 'v) video_env \<Rightarrow> time \<Rightarrow> ('o, 'v) video_env" where
  "at_time env now = env\<lparr>ve_face := (ve_face env)\<lparr>fv_now := now\<rparr>\<rparr>"

definition video_log ::
  "string \<Rightarrow> string \<Rightarrow> pydict \<Rightarrow> time \<Rightarrow> ('o, 'v) video_store \<Rightarrow> ('o, 'v) video_store" where
  "video_log pid etype details now s = s\<lparr>vb_registry := log_event pid etype details now (vb_registry s)\<rparr>"

definition with_processes :: "(processes \<Rightarrow> processes) \<Rightarrow> ('o, 'v) video_store \<Rightarrow> ('o, 'v) video_store" where
  "with_processes f s = s\<lparr>vb_registry := (vb_registry s)\<lparr>rg_processes := f (rg_processes (vb_registry s))\<rparr>\<rparr>"

definition handle_failure ::
  "video_job \<Rightarrow> string \<Rightarrow> string \<Rightarrow> string \<Rightarrow> time \<Rightarrow> ('o, 'v) video_store \<Rightarrow> ('o, 'v) video_store" where
  "handle_failure job wid token code now s =
     (if max_attempts job \<le> attempt_count job
      then (case fail (job_id job) wid token code now (vb_jobs s) of
              (js, True) \<Rightarrow>
                video_log (vj_process_id job) ''video_job_failed''
                  [(PStr ''job_id'', PStr (job_id job)), (PStr ''error_code'', PStr code)] now
                  (with_processes (process_fail (vj_process_id job) code now) (s\<lparr>vb_jobs := js\<rparr>))
            | (js, False) \<Rightarrow> s\<lparr>vb_jobs := js\<rparr>)
      else s\<lparr>vb_jobs := fst (release_for_retry (job_id job) wid token (now + seconds 30) code (vb_jobs s))\<rparr>)"

definition handle_cancelled ::
  "video_job \<Rightarrow> string \<Rightarrow> string \<Rightarrow> time \<Rightarrow> ('o, 'v) video_store \<Rightarrow> ('o, 'v) video_store" where
  "handle_cancelled job wid token now s =
     (case mark_cancelled (job_id job) wid token now (vb_jobs s) of
        (js, True) \<Rightarrow>
          video_log (vj_process_id job) ''video_job_cancelled'' [(PStr ''job_id'', PStr (job_id job))] now
            (with_processes (process_cancel (vj_process_id job) now) (s\<lparr>vb_jobs := js\<rparr>))
      | (js, False) \<Rightarrow> s\<lparr>vb_jobs := js\<rparr>)"

text \<open>The \<open>except\<close> clauses.\<close>

definition settle_exception ::
  "video_job \<Rightarrow> string \<Rightarrow> string \<Rightarrow> time \<Rightarrow> bool \<Rightarrow> video_exc \<Rightarrow> ('o, 'v) video_store \<Rightarrow> ('o, 'v) video_store" where
  "settle_exception job wid token now lost e s =
     (case e of
        VideoLeaseLost _ \<Rightarrow> s
      | NativeVideoCancelled \<Rightarrow> if lost then s else handle_cancelled job wid token now s
      | NativeVideoTimeout \<Rightarrow> if lost then s else handle_failure job wid token ''VIDEO_PROCESSING_TIMEOUT'' now s
      | NativeVideoFailed code _ \<Rightarrow> if lost then s else handle_failure job wid token code now s
      | VideoError _ \<Rightarrow> if lost then s else handle_failure job wid token ''VIDEO_PIPELINE_ERROR'' now s)"

definition finish_video_run ::
  "('o, 'v) video_env \<Rightarrow> video_job \<Rightarrow> string \<Rightarrow> string \<Rightarrow> ('o, 'v) video_run \<times> (video_exc + video_completed) \<Rightarrow>
   ('o, 'v) video_store"
where
  "finish_video_run env job wid token rr =
     (case rr of
        (r, Inl e) \<Rightarrow> settle_exception job wid token (vr_now r) (vr_lease_lost r) e (vr_store r)
      | (r, Inr c) \<Rightarrow>
          if vr_lease_lost r then vr_store r
          else (case finalize_video (at_time env (vr_now r)) job (vr_tracks r) wid token (vc_processed_frames c) (vr_store r) of
                  (s, Inl e) \<Rightarrow> settle_exception job wid token (vr_now r) False e s
                | (s, Inr faces) \<Rightarrow>
                    video_log (vj_process_id job) ''video_job_completed''
                      [(PStr ''job_id'', PStr (job_id job)), (PStr ''person_count'', PInt (int (length faces))),
                       (PStr ''faces'', faces_detail faces)] (vr_now r) s))"

definition download_source :: "('o, 'v) face_env \<Rightarrow> video_job \<Rightarrow> ('o, 'v) video_store \<Rightarrow> ('o, 'v) video_store \<times> (video_exc + unit)" where
  "download_source env job s =
     (case download_video (fv_minio env) (fv_minio_settings env) (source_object_key job) (rg_objects (vb_registry s)) of
        (objs, Inl _) \<Rightarrow> (s\<lparr>vb_registry := (vb_registry s)\<lparr>rg_objects := objs\<rparr>\<rparr>, Inl (VideoError (OtherError ''ObjectStorageError'')))
      | (objs, Inr _) \<Rightarrow> (s\<lparr>vb_registry := (vb_registry s)\<lparr>rg_objects := objs\<rparr>\<rparr>, Inr ()))"

definition process_one_job ::
  "('o, 'v) video_env \<Rightarrow> worker_settings \<Rightarrow> (string \<Rightarrow> bool) \<Rightarrow> string \<Rightarrow> string \<Rightarrow> ('o, 'v) run_item list \<Rightarrow> int \<Rightarrow>
   time \<Rightarrow> ('o, 'v) video_store \<Rightarrow> ('o, 'v) video_store \<times> bool"
where
  "process_one_job env cfg locked wid token items code now s =
     (case claim_video_job cfg locked wid token now s of
        (s1, None) \<Rightarrow> (s1, False)
      | (s1, Some job) \<Rightarrow>
          (case download_source (ve_face env) job s1 of
             (s2, Inl e) \<Rightarrow> (settle_exception job wid token now False e s2, True)
           | (s2, Inr _) \<Rightarrow>
               (finish_video_run env job wid token (native_video_run cfg job wid token items code (start_run s2 now)), True)))"

section \<open>A pass only performs operations of the queue\<close>

abbreviation job_steps :: "int \<Rightarrow> time \<times> jobs \<Rightarrow> time \<times> jobs \<Rightarrow> bool" where
  "job_steps M \<equiv> (job_step M)\<^sup>*\<^sup>*"

text \<open>A transaction of others only changes the job table as the queue's operations do.\<close>

definition foreign :: "int \<Rightarrow> (('o, 'v) video_store \<Rightarrow> ('o, 'v) video_store) \<Rightarrow> bool" where
  "foreign M f = (\<forall>c s. job_steps M (c, vb_jobs s) (c, vb_jobs (f s)))"

lemma act_steps: "job_act (op, c) k (wid, token) js = (js', b) \<Longrightarrow> job_steps M (c, js) (c, js')"
  using job_step.act [of M c js op k "(wid, token)"] by (metis fst_conv r_into_rtranclp)

lemma worker_act_steps:
  "update_progress k wid token stg percent frames c js = (js', b) \<Longrightarrow> job_steps M (c, js) (c, js')"
  "renew_lease k wid token expires c js = (js', b) \<Longrightarrow> job_steps M (c, js) (c, js')"
  "complete k wid token persons frames c js = (js', b) \<Longrightarrow> job_steps M (c, js) (c, js')"
  "fail k wid token code c js = (js', b) \<Longrightarrow> job_steps M (c, js) (c, js')"
  "mark_cancelled k wid token c js = (js', b) \<Longrightarrow> job_steps M (c, js) (c, js')"
  "release_for_retry k wid token avail code js = (js', b) \<Longrightarrow> job_steps M (c, js) (c, js')"
  using act_steps [of "ProgressOp stg percent frames"] act_steps [of "RenewOp expires"]
    act_steps [of "CompleteOp persons frames"] act_steps [of "FailOp code"] act_steps [of MarkCancelledOp]
    act_steps [of "ReleaseOp avail code"] by simp_all

lemma with_jobs_fields [simp]:
  "run_jobs (with_jobs js r) = js" "vr_now (with_jobs js r) = vr_now r"
  by (simp_all add: with_jobs_def run_jobs_def)

lemma run_fields [simp]:
  "run_jobs (r\<lparr>vr_now := t\<rparr>) = run_jobs r" "run_jobs (r\<lparr>vr_tracks := ts\<rparr>) = run_jobs r"
  "run_jobs (r\<lparr>vr_last_progress := lp\<rparr>) = run_jobs r" "run_jobs (r\<lparr>vr_lease_lost := l\<rparr>) = run_jobs r"
  "run_jobs (r\<lparr>vr_renewing := l\<rparr>) = run_jobs r" "run_jobs (r\<lparr>vr_completed := cm\<rparr>) = run_jobs r"
  "run_jobs (r\<lparr>vr_reader_error := er\<rparr>) = run_jobs r"
  by (simp_all add: run_jobs_def)

lemma on_event_steps:
  assumes "video_on_event cfg job wid token r event = (r', x)"
  shows "job_steps M (vr_now r, run_jobs r) (vr_now r', run_jobs r')"
proof (cases event)
  case (VideoProgress p)
  obtain js b where u: "update_progress (job_id job) wid token ''inference'' (vp_progress_percent p) (vp_processed_frames p)
      (vr_now r) (run_jobs r) = (js, b)" by fastforce
  from worker_act_steps(1) [OF u] assms VideoProgress u show ?thesis
    by (cases b) (auto simp: video_on_event_def split: if_splits)
qed (use assms in \<open>auto simp: video_on_event_def\<close>)

lemma take_item_steps:
  assumes "take_item cfg job wid token i r = (r', x)" and "\<And>f. i = Elsewhere f \<Longrightarrow> foreign M f"
  shows "job_steps M (vr_now r, run_jobs r) (vr_now r', run_jobs r')"
proof (cases i)
  case (Tick t)
  have "job_step M (vr_now r, run_jobs r) (max (vr_now r) t, run_jobs r)" by (rule job_step.tick) simp
  from r_into_rtranclp [where r = "job_step M", OF this] Tick assms(1) show ?thesis by auto
next
  case (Written event)
  obtain r1 y where e: "video_on_event cfg job wid token r event = (r1, y)" by fastforce
  from on_event_steps [OF e] e Written assms(1) show ?thesis
    by (cases event; cases y) (auto split: if_splits)
next
  case CancelPoll
  with assms(1) show ?thesis
    by (auto simp: cancellation_poll_def split: if_splits option.splits prod.splits bool.splits)
next
  case LeaseRenewal
  obtain js b where u: "renew_lease (job_id job) wid token (vr_now r + seconds (video_job_lease_seconds cfg)) (vr_now r)
      (run_jobs r) = (js, b)" by fastforce
  from worker_act_steps(2) [OF u] u LeaseRenewal assms(1) show ?thesis
    by (cases b) (auto simp: renew_once_def split: if_splits)
next
  case (Elsewhere f)
  with assms show ?thesis by (auto simp: foreign_def run_jobs_def)
qed (use assms in auto)

lemma run_items_steps:
  assumes "run_items cfg job wid token items r = (r', x)" and "\<And>f. Elsewhere f \<in> set items \<Longrightarrow> foreign M f"
  shows "job_steps M (vr_now r, run_jobs r) (vr_now r', run_jobs r')"
  using assms
proof (induction items arbitrary: r)
  case (Cons i items)
  obtain r1 y where t: "take_item cfg job wid token i r = (r1, y)" by fastforce
  have first: "job_steps M (vr_now r, run_jobs r) (vr_now r1, run_jobs r1)"
    by (rule take_item_steps [OF t]) (use Cons.prems(2) in auto)
  show ?case
  proof (cases y)
    case None
    with Cons t have "job_steps M (vr_now r1, run_jobs r1) (vr_now r', run_jobs r')" by auto
    with first show ?thesis by (rule rtranclp_trans)
  next
    case (Some e)
    with Cons.prems(1) t first show ?thesis by auto
  qed
qed simp

lemma video_log_jobs [simp]: "vb_jobs (video_log pid etype details now s) = vb_jobs s"
  by (simp add: video_log_def)

lemma with_processes_jobs [simp]: "vb_jobs (with_processes f s) = vb_jobs s"
  by (simp add: with_processes_def)

lemma handle_failure_steps: "job_steps M (now, vb_jobs s) (now, vb_jobs (handle_failure job wid token code now s))"
proof -
  obtain js b where f: "fail (job_id job) wid token code now (vb_jobs s) = (js, b)" by fastforce
  obtain js' b' where rl: "release_for_retry (job_id job) wid token (now + seconds 30) code (vb_jobs s) = (js', b')"
    by fastforce
  from worker_act_steps(4) [OF f] worker_act_steps(6) [OF rl] f rl show ?thesis
    by (cases b) (simp_all add: handle_failure_def)
qed

lemma handle_cancelled_steps: "job_steps M (now, vb_jobs s) (now, vb_jobs (handle_cancelled job wid token now s))"
proof -
  obtain js b where f: "mark_cancelled (job_id job) wid token now (vb_jobs s) = (js, b)" by fastforce
  from worker_act_steps(5) [OF f] f show ?thesis by (cases b) (simp_all add: handle_cancelled_def)
qed

lemma settle_exception_steps:
  "job_steps M (now, vb_jobs s) (now, vb_jobs (settle_exception job wid token now lost e s))"
  using handle_failure_steps handle_cancelled_steps by (cases e) (auto simp: settle_exception_def)

lemma finalize_video_steps:
  assumes "finalize_video env job raws wid token frames s = (s', x)"
  shows "job_steps M (fv_now (ve_face env), vb_jobs s) (fv_now (ve_face env), vb_jobs s')"
proof (cases x)
  case (Inl e)
  with assms unfinished_job_leaves_tables [of env job raws wid token frames s s' e] show ?thesis by simp
next
  case (Inr faces)
  with assms finalized_rows obtain n where
    "complete (job_id job) wid token n frames (fv_now (ve_face env)) (vb_jobs s) = (vb_jobs s', True)"
    by blast
  then show ?thesis by (rule worker_act_steps(3))
qed

lemma at_time_now [simp]: "fv_now (ve_face (at_time env now)) = now"
  by (simp add: at_time_def)

lemma finish_video_run_steps:
  "job_steps M (vr_now (fst rr), run_jobs (fst rr)) (vr_now (fst rr), vb_jobs (finish_video_run env job wid token rr))"
proof -
  obtain r x where rr: "rr = (r, x)" by fastforce
  show ?thesis
  proof (cases x)
    case (Inl e)
    with settle_exception_steps show ?thesis by (simp add: rr finish_video_run_def run_jobs_def)
  next
    case (Inr c)
    obtain s y where f: "finalize_video (at_time env (vr_now r)) job (vr_tracks r) wid token (vc_processed_frames c)
        (vr_store r) = (s, y)" by fastforce
    have "job_steps M (vr_now r, run_jobs r) (vr_now r, vb_jobs s)"
      using finalize_video_steps [OF f] by (simp add: run_jobs_def)
    moreover have "job_steps M (vr_now r, vb_jobs s) (vr_now r, vb_jobs (settle_exception job wid token (vr_now r) False e s))"
      for e by (rule settle_exception_steps)
    ultimately show ?thesis using f Inr
      by (cases y) (auto simp: rr finish_video_run_def run_jobs_def intro: rtranclp_trans)
  qed
qed

lemma claim_steps:
  assumes "claim_video_job cfg locked wid token now s = (s', job)"
  shows "job_steps (video_max_concurrent_jobs cfg) (now, vb_jobs s) (now, vb_jobs s')"
proof -
  let ?M = "video_max_concurrent_jobs cfg"
  obtain js1 settled where s1: "settle_exhausted locked now (vb_jobs s) = (js1, settled)" by fastforce
  obtain js2 j where s2: "claim_next locked wid token now (video_job_lease_seconds cfg) ?M js1 = (js2, j)" by fastforce
  have "job_step ?M (now, vb_jobs s) (now, js1)"
    using job_step.settle [of now now ?M "vb_jobs s" locked] s1 by simp
  moreover have "job_step ?M (now, js1) (now, js2)"
    using job_step.claim [of now now ?M js1 locked wid token "video_job_lease_seconds cfg"] s2 by simp
  moreover have "vb_jobs s' = js2" using assms s1 s2 by (auto simp: claim_video_job_def)
  ultimately show ?thesis by (simp add: converse_rtranclp_into_rtranclp)
qed


section \<open>How a job is settled\<close>

definition process_of :: "string \<Rightarrow> ('o, 'v) video_store \<Rightarrow> process_record option" where
  "process_of pid s = row_get pr_process_id pid (rg_processes (vb_registry s))"

lemma process_of_log [simp]: "process_of pid (video_log p etype details now s) = process_of pid s"
  by (simp add: process_of_def video_log_def)

lemma process_of_jobs [simp]: "process_of pid (s\<lparr>vb_jobs := js\<rparr>) = process_of pid s"
  by (simp add: process_of_def)

definition settled_code :: "video_exc \<Rightarrow> string" where
  "settled_code e =
     (case e of
        NativeVideoTimeout \<Rightarrow> ''VIDEO_PROCESSING_TIMEOUT''
      | NativeVideoFailed code _ \<Rightarrow> code
      | _ \<Rightarrow> ''VIDEO_PIPELINE_ERROR'')"


text \<open>
  C36. A cancellation that arrives after the worker's last poll abandons the job: the result is not stored
  because the job is to be cancelled, this is taken for a lost lease, and so nobody cancels the job; its
  row keeps the state \<open>cancelling\<close> and the worker's lease.
\<close>

theorem late_cancellation_abandons_job:
  fixes r :: "('o, 'v) video_run"
  assumes "row_get job_id (job_id job) (run_jobs r) = Some j" and "unique_keys job_id (run_jobs r)"
    and "cancellation_requested j" and "vj_status j = ''cancelling''" and "\<not> vr_lease_lost r"
    and "fbind (canonical_tracks (at_time env (vr_now r)) (vr_tracks r)) (vote_tracks (ve_face (at_time env (vr_now r))))
      (vb_registry (vr_store r)) = (g, Inr ps)"
  shows "row_get job_id (job_id job) (vb_jobs (finish_video_run env job wid token (r, Inr c))) = Some j"
proof -
  let ?now = "vr_now r"
  have "lock_owned (job_id job) wid token ?now (vb_jobs (vr_store r)) = None"
  proof -
    have "j' = j" if "j' \<in> set (run_jobs r)" "job_id j' = job_id job" for j'
      using row_get_unique [OF assms(2) that(1)] that(2) assms(1) by simp
    with assms(3) show ?thesis by (auto simp: lock_owned_def find_None_iff run_jobs_def)
  qed
  then have "finalize_video (at_time env ?now) job (vr_tracks r) wid token n (vr_store r) =
      ((vr_store r)\<lparr>vb_registry := g\<rparr>, Inl (VideoLeaseLost ''Video job lease was lost''))" for n
    using assms(6) by (simp add: finalize_video_def on_registry_def)
  with assms(1,5) show ?thesis by (simp add: finish_video_run_def settle_exception_def run_jobs_def)
qed

end
