(* ===== verification/Video_Requests.thy ===== *)
theory Video_Requests
  imports Video_Processing
begin

text \<open>
  The requests on video jobs: \<open>src/backend/app/services/video_job_service.py\<close>, that is the state of a job,
  its cancellation, its result, byte ranges of its source, and the appearances of a face. The retention
  pass of the same file is \<open>cleanup_expired_sources\<close> of \<open>Video_Jobs\<close>.
\<close>

datatype video_request_exc =
    JobNotFoundExc
  | JobNotCompletedExc string
  | VideoRequestExc string int
  | SourceReadExc object_exc
  | UncaughtExc py_exc

section \<open>The state of a job\<close>

record video_info =
  vf_duration :: real
  vf_fps :: real
  vf_width :: int
  vf_height :: int
  vf_total_frames :: int
  vf_processed_frames :: int
  vf_sampling :: pydict
  vf_source_available :: bool

record job_view =
  jv_job_id :: string
  jv_process_id :: string
  jv_status :: string
  jv_stage :: string
  jv_progress_percent :: real
  jv_cancellation_requested :: bool
  jv_error_code :: "string option"
  jv_video :: video_info
  jv_person_count :: int
  jv_created_at :: time
  jv_started_at :: "time option"
  jv_completed_at :: "time option"
  jv_cancelled_at :: "time option"

definition job_snapshot :: "video_job \<Rightarrow> job_view" where
  "job_snapshot j =
     \<lparr>jv_job_id = job_id j, jv_process_id = vj_process_id j, jv_status = vj_status j, jv_stage = stage j,
      jv_progress_percent = progress_percent j, jv_cancellation_requested = cancellation_requested j,
      jv_error_code = vj_error_code j,
      jv_video =
        \<lparr>vf_duration = duration_seconds j, vf_fps = fps j, vf_width = frame_width j, vf_height = frame_height j,
         vf_total_frames = total_frames j, vf_processed_frames = processed_frames j, vf_sampling = sampling j,
         vf_source_available = source_deleted_at j = None\<rparr>,
      jv_person_count = person_count j, jv_created_at = vj_created_at j, jv_started_at = started_at j,
      jv_completed_at = vj_completed_at j, jv_cancelled_at = cancelled_at j\<rparr>"

definition get_job :: "string \<Rightarrow> ('o, 'v) video_store \<Rightarrow> video_request_exc + job_view" where
  "get_job jid s =
     (case row_get job_id jid (vb_jobs s) of None \<Rightarrow> Inl JobNotFoundExc | Some j \<Rightarrow> Inr (job_snapshot j))"

definition cancel_job ::
  "string \<Rightarrow> time \<Rightarrow> ('o, 'v) video_store \<Rightarrow> ('o, 'v) video_store \<times> (video_request_exc + job_view)" where
  "cancel_job jid now s =
     (case row_get job_id jid (vb_jobs s) of
        None \<Rightarrow> (s, Inl JobNotFoundExc)
      | Some current \<Rightarrow>
          (case request_cancel jid now (vb_jobs s) of
             (js, None) \<Rightarrow> (s, Inl JobNotFoundExc)
           | (js, Some j) \<Rightarrow>
               (let s1 = s\<lparr>vb_jobs := js\<rparr>
                in (if vj_status current = ''pending'' \<and> vj_status j = ''cancelled''
                    then with_processes (process_cancel (vj_process_id j) now)
                           (s1\<lparr>vb_tracks := delete_for_job jid (vb_tracks s1)\<rparr>)
                    else s1, Inr (job_snapshot j)))))"

section \<open>The result\<close>

record person_view =
  pv_face_id :: string
  pv_track_id :: string
  pv_status :: string
  pv_name :: "string option"
  pv_metadata :: pydict
  pv_first_seen :: real
  pv_last_seen :: real
  pv_total_duration :: real
  pv_confidence :: real
  pv_appearances :: "appearance list"
  pv_detections :: pyval

record result_response =
  rp_job_id :: string
  rp_process_id :: string
  rp_status :: string
  rp_video :: video_info
  rp_person_count :: int
  rp_persons :: "person_view list"

definition person_of :: "video_track \<Rightarrow> person_view" where
  "person_of t =
     (let known = vt_status_snapshot t = ''known''
      in \<lparr>pv_face_id = vt_face_id t, pv_track_id = vt_track_id t, pv_status = vt_status_snapshot t,
          pv_name = (if known then vt_name_snapshot t else None),
          pv_metadata = (if known then vt_metadata_snapshot t else []), pv_first_seen = vt_first_seen t,
          pv_last_seen = vt_last_seen t, pv_total_duration = vt_total_duration t,
          pv_confidence = vt_match_confidence t, pv_appearances = vt_appearances t, pv_detections = vt_detections t\<rparr>)"

definition job_result :: "string \<Rightarrow> ('o, 'v) video_store \<Rightarrow> video_request_exc + result_response" where
  "job_result jid s =
     (case row_get job_id jid (vb_jobs s) of
        None \<Rightarrow> Inl JobNotFoundExc
      | Some j \<Rightarrow>
          if vj_status j \<noteq> ''completed'' then Inl (JobNotCompletedExc (vj_process_id j))
          else (let ts = list_by_job jid (vb_tracks s)
                in Inr \<lparr>rp_job_id = job_id j, rp_process_id = vj_process_id j, rp_status = vj_status j,
                        rp_video = jv_video (job_snapshot j), rp_person_count = int (length ts),
                        rp_persons = map person_of ts\<rparr>))"

section \<open>The source\<close>

definition invalid_range :: "video_request_exc + 'a" where
  "invalid_range = Inl (VideoRequestExc ''INVALID_RANGE'' 416)"

text \<open>\<open>re.fullmatch(r"bytes=(\d*)-(\d*)", text)\<close>: the two groups.\<close>

definition range_groups :: "string \<Rightarrow> (string \<times> string) option" where
  "range_groups text =
     (if take 6 text \<noteq> ''bytes='' then None
      else case split_on (CHR ''-'') (drop 6 text) of
        [a, b] \<Rightarrow> if list_all dec_digit a \<and> list_all dec_digit b then Some (a, b) else None
      | _ \<Rightarrow> None)"

definition range_number :: "string \<Rightarrow> video_request_exc + int" where
  "range_number digits = (case int_of_text digits of Inl e \<Rightarrow> Inl (UncaughtExc e) | Inr n \<Rightarrow> Inr n)"

definition check_range :: "int \<Rightarrow> int \<times> int \<Rightarrow> video_request_exc + int \<times> int" where
  "check_range sz r =
     (case r of (offset, final) \<Rightarrow>
        if offset < 0 \<or> sz \<le> offset \<or> final < offset then invalid_range
        else Inr (offset, min final (sz - 1)))"

definition parse_range :: "string option \<Rightarrow> int \<Rightarrow> video_request_exc + int \<times> int" where
  "parse_range header sz =
     (case header of
        None \<Rightarrow> Inr (0, sz - 1)
      | Some text \<Rightarrow>
          (case range_groups (py_strip text) of
             None \<Rightarrow> invalid_range
           | Some (a, b) \<Rightarrow>
               if a = [] \<and> b = [] then invalid_range
               else rbind
                 (if a = [] then rbind (range_number b) (\<lambda>n. Inr (max 0 (sz - n), sz - 1))
                  else rbind (range_number a) (\<lambda>offset.
                       if b = [] then Inr (offset, sz - 1)
                       else rbind (range_number b) (\<lambda>final. Inr (offset, final))))
                 (check_range sz)))"

record source_response =
  sr_data :: bytes
  sr_content_type :: string
  sr_status_code :: int
  sr_content_length :: int
  sr_content_range :: "(int \<times> int \<times> int) option"

definition job_source ::
  "('o, 'v) face_env \<Rightarrow> string \<Rightarrow> string option \<Rightarrow> time \<Rightarrow> ('o, 'v) video_store \<Rightarrow>
   ('o, 'v) video_store \<times> (video_request_exc + source_response)"
where
  "job_source env jid header now s =
     (case row_get job_id jid (vb_jobs s) of
        None \<Rightarrow> (s, Inl JobNotFoundExc)
      | Some j \<Rightarrow>
          if source_deleted_at j \<noteq> None \<or> source_retention_until j \<le> now
          then (s, Inl (VideoRequestExc ''VIDEO_EXPIRED'' 410))
          else (case parse_range header (source_size j) of
                  Inl e \<Rightarrow> (s, Inl e)
                | Inr (offset, final) \<Rightarrow>
                    (case read_video_range (fv_minio env) (fv_minio_settings env) (source_object_key j) offset
                            (final - offset + 1) (rg_objects (vb_registry s)) of
                       (objs, r) \<Rightarrow>
                         (s\<lparr>vb_registry := (vb_registry s)\<lparr>rg_objects := objs\<rparr>\<rparr>,
                          case r of
                            Inl e \<Rightarrow> Inl (SourceReadExc e)
                          | Inr bs \<Rightarrow>
                              Inr \<lparr>sr_data = bs, sr_content_type = source_content_type j,
                                   sr_status_code = (if header = None then 200 else 206),
                                   sr_content_length = int (length bs),
                                   sr_content_range =
                                     (if header = None then None else Some (offset, final, source_size j))\<rparr>))))"

section \<open>Appearances of a face\<close>

record appearance_view =
  av_job_id :: string
  av_process_id :: string
  av_video_url :: string
  av_track_id :: string
  av_first_seen :: real
  av_last_seen :: real
  av_intervals :: "appearance list"
  av_source_available :: bool
  av_created_at :: time

definition video_appearances :: "string \<Rightarrow> ('o, 'v) video_store \<Rightarrow> appearance_view list" where
  "video_appearances fid s =
     concat (map (\<lambda>t. case row_get job_id (vt_job_id t) (vb_jobs s) of
         None \<Rightarrow> []
       | Some j \<Rightarrow>
           [\<lparr>av_job_id = job_id j, av_process_id = vj_process_id j,
             av_video_url = ''/api/v1/videos/jobs/'' @ job_id j @ ''/video'', av_track_id = vt_track_id t,
             av_first_seen = vt_first_seen t, av_last_seen = vt_last_seen t, av_intervals = vt_appearances t,
             av_source_available = source_deleted_at j = None, av_created_at = vj_created_at j\<rparr>])
       (tracks_by_face fid (vb_tracks s)))"

section \<open>Byte ranges\<close>

lemma check_range_Inr:
  "check_range sz r = Inr (a, b) \<Longrightarrow> 0 \<le> a \<and> a < sz \<and> a \<le> b \<and> b < sz"
  by (auto simp: check_range_def invalid_range_def split: prod.splits if_splits)

lemma split_on_absent: "sep \<notin> set s \<Longrightarrow> split_on sep s = [s]"
  by (induction s) auto

lemma split_on_append: "sep \<notin> set a \<Longrightarrow> split_on sep (a @ sep # b) = a # split_on sep b"
  by (induction a) (auto split: list.splits)

lemma digit_not_special: "dec_digit c \<Longrightarrow> c \<noteq> CHR ''-'' \<and> \<not> is_space c \<and> \<not> number_space c \<and> c \<noteq> CHR ''+''"
  by (auto simp: dec_digit_def is_space_def number_space_def char_code_def Let_def)

lemma digits_plain:
  assumes "list_all dec_digit s"
  shows "CHR ''-'' \<notin> set s" and "number_strip s = s"
proof -
  have c: "c \<noteq> CHR ''-'' \<and> \<not> number_space c" if "c \<in> set s" for c
    using digit_not_special assms that by (auto simp: list_all_iff)
  then show "CHR ''-'' \<notin> set s" by auto
  have w: "dropWhile number_space t = t" if "set t = set s" for t using c that by (cases t) auto
  show "number_strip s = s" using w [of s] w [of "rev s"] by (simp add: number_strip_def)
qed

lemma py_strip_plain:
  assumes "s \<noteq> []" and "\<not> is_space (hd s)" and "\<not> is_space (last s)"
  shows "py_strip s = s"
proof -
  have w: "dropWhile is_space t = t" if "t \<noteq> []" "\<not> is_space (hd t)" for t using that by (cases t) auto
  show ?thesis using w [OF assms(1,2)] w [of "rev s"] assms by (simp add: py_strip_def hd_rev)
qed

lemma range_number_digits:
  assumes "length (nat_digits n) \<le> 4300"
  shows "range_number (nat_digits n) = Inr (int n)"
proof -
  note d = nat_digits_digits [of n]
  obtain c cs where s: "nat_digits n = c # cs" "dec_digit c" using d by (cases "nat_digits n") auto
  have "split_sign (nat_digits n) = (1, nat_digits n)" using digit_not_special [OF s(2)] by (simp add: s(1) split_sign_def)
  moreover have "digit_count (nat_digits n) \<le> 4300"
    unfolding digit_count_def using assms length_filter_le [of dec_digit "nat_digits n"] by (rule le_trans [rotated])
  ultimately show ?thesis
    using digits_plain(2) d by (simp add: range_number_def int_of_text_def digits_of_nat)
qed

lemma range_groups_text:
  assumes "list_all dec_digit a" and "list_all dec_digit b"
  shows "range_groups (py_strip (''bytes='' @ a @ ''-'' @ b)) = Some (a, b)"
proof -
  have "\<not> is_space (last (''bytes='' @ a @ ''-'' @ b))"
  proof (cases "b = []")
    case False
    then have "dec_digit (last b)" using assms(2) by (simp add: list_all_iff)
    with False digit_not_special show ?thesis by simp
  qed (simp add: is_space_def char_code_def)
  then have "py_strip (''bytes='' @ a @ ''-'' @ b) = ''bytes='' @ a @ ''-'' @ b"
    by (intro py_strip_plain) (simp_all add: is_space_def char_code_def)
  then show ?thesis
    using assms digits_plain(1) by (simp add: range_groups_def split_on_append split_on_absent)
qed

text \<open>
  C29. A byte range is answered inside the source or refused: whatever the header says, an accepted range
  lies within the source and is not empty; and the three forms of a range, from a byte to a byte, from a
  byte to the end, and the last bytes, are accepted exactly if they begin inside the source and do not end
  before they begin, and are cut at its end.
\<close>

theorem byte_range_answered:
  assumes "0 < sz" and "length (nat_digits a) \<le> 4300" and "length (nat_digits b) \<le> 4300"
  shows "(\<forall>header x y. parse_range header sz = Inr (x, y) \<longrightarrow> 0 \<le> x \<and> x \<le> y \<and> y < sz)
    \<and> parse_range (Some (''bytes='' @ nat_digits a @ ''-'' @ nat_digits b)) sz =
        (if int a < sz \<and> a \<le> b then Inr (int a, min (int b) (sz - 1)) else Inl (VideoRequestExc ''INVALID_RANGE'' 416))
    \<and> parse_range (Some (''bytes='' @ nat_digits a @ ''-'')) sz =
        (if int a < sz then Inr (int a, sz - 1) else Inl (VideoRequestExc ''INVALID_RANGE'' 416))
    \<and> parse_range (Some (''bytes=-'' @ nat_digits b)) sz =
        (if 0 < b then Inr (max 0 (sz - int b), sz - 1) else Inl (VideoRequestExc ''INVALID_RANGE'' 416))"
proof (intro conjI allI impI)
  note d = nat_digits_digits [of a] nat_digits_digits [of b] range_number_digits [OF assms(2)] range_number_digits [OF assms(3)]
  fix header x y
  assume h: "parse_range header sz = Inr (x, y)"
  then have "0 \<le> x \<and> x < sz \<and> x \<le> y \<and> y < sz"
    using assms(1)
    by (cases header) (auto simp: parse_range_def invalid_range_def rbind_Inr_iff dest: check_range_Inr split: option.splits if_splits)
  then show "0 \<le> x" "x \<le> y" "y < sz" by auto
next
  note d = nat_digits_digits [of a] nat_digits_digits [of b] range_number_digits [OF assms(2)] range_number_digits [OF assms(3)]
  show "parse_range (Some (''bytes='' @ nat_digits a @ ''-'' @ nat_digits b)) sz =
        (if int a < sz \<and> a \<le> b then Inr (int a, min (int b) (sz - 1)) else Inl (VideoRequestExc ''INVALID_RANGE'' 416))"
    using range_groups_text [of "nat_digits a" "nat_digits b"] d
    by (auto simp: parse_range_def check_range_def invalid_range_def)
  show "parse_range (Some (''bytes='' @ nat_digits a @ ''-'')) sz =
        (if int a < sz then Inr (int a, sz - 1) else Inl (VideoRequestExc ''INVALID_RANGE'' 416))"
    using range_groups_text [of "nat_digits a" "[]"] d
    by (auto simp: parse_range_def check_range_def invalid_range_def)
  show "parse_range (Some (''bytes=-'' @ nat_digits b)) sz =
        (if 0 < b then Inr (max 0 (sz - int b), sz - 1) else Inl (VideoRequestExc ''INVALID_RANGE'' 416))"
    using range_groups_text [of "[]" "nat_digits b"] d assms(1)
    by (auto simp: parse_range_def check_range_def invalid_range_def)
qed

text \<open>
  A range request is answered with exactly the bytes it names: if the object store returns the part of
  the stored source it is asked for, the answer is that part, and its length and range headers describe it.
\<close>

theorem source_range_served:
  assumes "job_source env jid header now s = (s', Inr r)" and "row_get job_id jid (vb_jobs s) = Some j"
    and "0 < source_size j" and "source_size j = int (length content)"
    and "\<And>offset n objs. mc_get (fv_minio env) (minio_bucket_videos (fv_minio_settings env)) (source_object_key j)
      (Some (offset, n)) objs = (objs, Inr (take (nat n) (drop (nat offset) content)))"
  shows "\<exists>a b. parse_range header (source_size j) = Inr (a, b)
    \<and> sr_data r = take (nat (b - a + 1)) (drop (nat a) content) \<and> sr_content_length r = b - a + 1
    \<and> sr_content_range r = (if header = None then None else Some (a, b, source_size j))
    \<and> (header = None \<longrightarrow> sr_data r = content)"
proof -
  from assms(1,2) obtain a b objs where p: "parse_range header (source_size j) = Inr (a, b)"
    and g: "read_video_range (fv_minio env) (fv_minio_settings env) (source_object_key j) a (b - a + 1)
        (rg_objects (vb_registry s)) = (objs, Inr (sr_data r))"
    and r: "sr_content_length r = int (length (sr_data r))"
      "sr_content_range r = (if header = None then None else Some (a, b, source_size j))"
    by (auto simp: job_source_def split: if_splits sum.splits prod.splits)
  have data: "sr_data r = take (nat (b - a + 1)) (drop (nat a) content)"
    using g assms(5)
    by (auto simp: read_video_range_def checked_call_def translated_missing_def split: sum.splits)
  have range: "0 \<le> a" "a \<le> b" "b < source_size j"
    using p assms(3)
    by (cases header; auto simp: parse_range_def invalid_range_def rbind_Inr_iff dest: check_range_Inr
        split: option.splits if_splits)+
  then have "nat (b - a + 1) \<le> length (drop (nat a) content)" using assms(4) by (simp add: nat_le_iff of_nat_diff)
  then have "sr_content_length r = b - a + 1" using data range(2) r(1) by (simp add: min_absorb2)
  moreover have "sr_data r = content" if "header = None"
    using that p data assms(4) by (auto simp: parse_range_def)
  ultimately show ?thesis using p data r(2) by blast
qed

section \<open>Cancellation\<close>

text \<open>
  What a cancellation does depends on the state the job is in: a waiting job is cancelled at once with
  its process and keeps no tracks, a running one is only marked for its worker, which still holds it, and
  a job that has ended is not changed.
\<close>

theorem cancel_job_effect:
  assumes "row_get job_id jid (vb_jobs s) = Some j" and "process_of (vj_process_id j) s = Some p"
    and "unique_keys job_id (vb_jobs s)" and "cancel_job jid now s = (s', r)"
  shows "\<exists>j'. row_get job_id jid (vb_jobs s') = Some j' \<and> r = Inr (job_snapshot j') \<and>
    (if vj_status j = ''pending''
     then vj_status j' = ''cancelled'' \<and> list_by_job jid (vb_tracks s') = []
       \<and> map_option pr_status (process_of (vj_process_id j) s') = Some ''cancelled''
     else if vj_status j = ''processing''
     then vj_status j' = ''cancelling'' \<and> cancellation_requested j' \<and> worker_id j' = worker_id j
       \<and> lease_token j' = lease_token j \<and> vb_tracks s' = vb_tracks s \<and> vb_registry s' = vb_registry s
     else j' = j \<and> s' = s)"
proof -
  let ?js = "row_update job_id jid (cancel_row now) (vb_jobs s)"
  have id: "job_id (cancel_row now x) = job_id x" for x by (simp add: cancel_row_def)
  have row: "row_get job_id jid ?js = Some (cancel_row now j)" using assms(1) id by (simp add: row_get_update_same)
  have same: "vj_process_id (cancel_row now j) = vj_process_id j" by (simp add: cancel_row_def)
  have p: "row_get pr_process_id (vj_process_id j) (rg_processes (vb_registry s)) = Some p"
    using assms(2) by (simp add: process_of_def)
  have gone: "list_by_job jid (delete_for_job jid ts) = []" for ts
    by (simp add: list_by_job_def delete_for_job_def filter_empty_conv)
  consider "vj_status j = ''pending''" | "vj_status j = ''processing''"
    | "vj_status j \<noteq> ''pending''" "vj_status j \<noteq> ''processing''" by blast
  then show ?thesis
  proof cases
    case 3
    have "(if job_id x = jid then cancel_row now x else x) = x" if "x \<in> set (vb_jobs s)" for x
      using row_get_unique [OF assms(3) that] assms(1) 3 by (auto simp: cancel_row_def)
    then have "?js = vb_jobs s" unfolding row_update_def by (rule map_idI)
    with 3 assms(1,4) show ?thesis by (auto simp: cancel_job_def request_cancel_def Let_def cancel_row_def)
  qed (use assms(4) row same p gone in \<open>auto simp: cancel_job_def request_cancel_def assms(1) Let_def
      with_processes_def process_of_def process_get\<close>, auto simp: cancel_row_def)
qed

end
