(* ===== verification/Video_Probe.thy ===== *)
theory Video_Probe
  imports Video_Tracking Py_Numbers "HOL-Library.Char_ord" "HOL-Library.List_Lexorder"
begin

text \<open>
  What is known of an uploaded video: the reading of ffprobe's report in
  \<open>src/backend/app/infrastructure/video/probe.py\<close> and the choice of the sampled frames,
  \<open>resolve_sampling\<close> of \<open>src/backend/app/services/video_upload_service.py\<close>. JSON decoding and the text of
  values that are neither texts nor integers are parameters; ffprobe is seen through its exit code and
  output.
\<close>

section \<open>Values\<close>

fun truthy :: "pyval \<Rightarrow> bool" where
  "truthy PNone = False"
| "truthy (PBool b) = b"
| "truthy (PInt i) = (i \<noteq> 0)"
| "truthy (PFloat f) = (f \<noteq> Fin 0)"
| "truthy (PStr s) = (s \<noteq> [])"
| "truthy (PBytes b) = (b \<noteq> [])"
| "truthy (PList l) = (l \<noteq> [])"
| "truthy (PDict d) = (d \<noteq> [])"

definition py_or :: "pyval \<Rightarrow> pyval \<Rightarrow> pyval" where
  "py_or v w = (if truthy v then v else w)"

text \<open>\<open>v.get(key, default)\<close>.\<close>

fun get_or :: "pyval \<Rightarrow> string \<Rightarrow> pyval \<Rightarrow> pyval result" where
  "get_or (PDict d) k v = Inr (case map_of d (PStr k) of None \<Rightarrow> v | Some x \<Rightarrow> x)"
| "get_or _ k v = Inl (OtherError ''AttributeError'')"

definition get_item :: "pyval \<Rightarrow> string \<Rightarrow> pyval result" where
  "get_item v k = get_or v k PNone"

text \<open>\<open>"rotation" in item\<close>.\<close>

fun contains_text :: "string \<Rightarrow> string \<Rightarrow> bool" where
  "contains_text k [] = (k = [])"
| "contains_text k (c # cs) = (take (length k) (c # cs) = k \<or> contains_text k cs)"

fun py_in :: "string \<Rightarrow> pyval \<Rightarrow> bool result" where
  "py_in k (PDict d) = Inr (PStr k \<in> fst ` set d)"
| "py_in k (PList l) = Inr (PStr k \<in> set l)"
| "py_in k (PStr s) = Inr (contains_text k s)"
| "py_in k _ = Inl TypeError"

text \<open>\<open>int(round(x))\<close> and the division and product of floats.\<close>

fun py_round :: "pyfloat \<Rightarrow> int result" where
  "py_round (Fin x) = Inr (round_half_even x)"
| "py_round NaN = Inl (ValueError ''cannot convert float NaN to integer'')"
| "py_round _ = Inl OverflowError"

definition signed_inf :: "bool \<Rightarrow> pyfloat" where
  "signed_inf negative = (if negative then NegInf else PosInf)"

fun float_div :: "pyfloat \<Rightarrow> pyfloat \<Rightarrow> pyfloat" where
  "float_div NaN _ = NaN"
| "float_div _ NaN = NaN"
| "float_div (Fin x) (Fin y) = float_range (x / y)"
| "float_div (Fin x) _ = Fin 0"
| "float_div PosInf (Fin y) = signed_inf (y < 0)"
| "float_div NegInf (Fin y) = signed_inf (0 < y)"
| "float_div _ _ = NaN"

fun float_mult :: "pyfloat \<Rightarrow> pyfloat \<Rightarrow> pyfloat" where
  "float_mult NaN _ = NaN"
| "float_mult _ NaN = NaN"
| "float_mult (Fin x) (Fin y) = float_range (x * y)"
| "float_mult (Fin x) PosInf = (if x = 0 then NaN else signed_inf (x < 0))"
| "float_mult (Fin x) NegInf = (if x = 0 then NaN else signed_inf (0 < x))"
| "float_mult PosInf (Fin y) = (if y = 0 then NaN else signed_inf (y < 0))"
| "float_mult NegInf (Fin y) = (if y = 0 then NaN else signed_inf (0 < y))"
| "float_mult PosInf PosInf = PosInf"
| "float_mult NegInf NegInf = PosInf"
| "float_mult _ _ = NegInf"

section \<open>The report\<close>

record video_metadata =
  vm_container :: string
  vm_codec :: string
  vm_duration_seconds :: real
  vm_fps :: real
  vm_width :: int
  vm_height :: int
  vm_total_frames :: int
  vm_rotation_degrees :: int

text \<open>\<open>_fraction\<close>: only an invalid number is caught; the numerator is read when the denominator is not 0.\<close>

definition fraction_parts :: "string \<Rightarrow> pyfloat result" where
  "fraction_parts s =
     (let n = takeWhile (\<lambda>c. c \<noteq> CHR ''/'') s; d = drop (length n + 1) s
      in rbind (float_of_text d) (\<lambda>y.
           if y = Fin 0 then Inr (Fin 0) else rbind (float_of_text n) (\<lambda>x. Inr (float_div x y))))"

definition fraction :: "pyval \<Rightarrow> pyfloat" where
  "fraction v =
     (case v of
        PStr s \<Rightarrow>
          if CHR ''/'' \<notin> set s then Fin 0
          else (case fraction_parts s of Inl _ \<Rightarrow> Fin 0 | Inr x \<Rightarrow> x)
      | _ \<Rightarrow> Fin 0)"

fun side_rotation :: "pyval \<Rightarrow> pyval list \<Rightarrow> pyval result" where
  "side_rotation value [] = Inr value"
| "side_rotation value (item # items) =
     rbind (py_in ''rotation'' item) (\<lambda>found.
       if found then py_item item ''rotation'' else side_rotation value items)"

definition is_text_or_number :: "pyval \<Rightarrow> bool" where
  "is_text_or_number v = (case v of PStr _ \<Rightarrow> True | PInt _ \<Rightarrow> True | PBool _ \<Rightarrow> True | PFloat _ \<Rightarrow> True | _ \<Rightarrow> False)"

definition rotation_of :: "pyval \<Rightarrow> int result" where
  "rotation_of v =
     (if \<not> is_text_or_number v then Inr 0
      else case rbind (py_float v) py_round of
        Inr n \<Rightarrow> Inr (n mod 360)
      | Inl (ValueError _) \<Rightarrow> Inr 0
      | Inl TypeError \<Rightarrow> Inr 0
      | Inl e \<Rightarrow> Inl e)"

definition rotation :: "pyval \<Rightarrow> int result" where
  "rotation stream =
     rbind (get_item stream ''tags'') (\<lambda>tags.
     rbind (get_or (py_or tags (PDict [])) ''rotate'' (PInt 0)) (\<lambda>value.
     rbind (get_item stream ''side_data_list'') (\<lambda>side.
     rbind (py_iter (py_or side (PList []))) (\<lambda>items.
     rbind (side_rotation value items) rotation_of))))"

definition preferred_containers :: "string list" where
  "preferred_containers = [''mp4'', ''mov'', ''avi'', ''matroska'']"

definition container_of :: "string \<Rightarrow> string" where
  "container_of format_name =
     (let names = filter (\<lambda>n. n \<noteq> []) (map (\<lambda>v. py_lower (py_strip v)) (split_on (CHR '','') format_name))
      in case find (\<lambda>p. p \<in> set names) preferred_containers of
           Some p \<Rightarrow> p
         | None \<Rightarrow> (case sort names of [] \<Rightarrow> [] | n # _ \<Rightarrow> n))"

fun video_stream :: "pyval list \<Rightarrow> pyval result" where
  "video_stream [] = Inl (OtherError ''StopIteration'')"
| "video_stream (item # items) =
     rbind (get_item item ''codec_type'') (\<lambda>t. if t = PStr ''video'' then Inr item else video_stream items)"

definition float_or :: "pyfloat \<Rightarrow> pyfloat \<Rightarrow> pyfloat" where
  "float_or x y = (if x \<noteq> Fin 0 then x else y)"

definition frame_count :: "pyval \<Rightarrow> pyfloat \<Rightarrow> pyfloat \<Rightarrow> int result" where
  "frame_count v duration fps =
     (case py_int v of
        Inl (ValueError _) \<Rightarrow> py_round (float_mult duration fps)
      | Inl TypeError \<Rightarrow> py_round (float_mult duration fps)
      | r \<Rightarrow> r)"

text \<open>The values the report gives, before they are judged.\<close>

record probe_values =
  pb_container :: string
  pb_codec :: string
  pb_duration :: pyfloat
  pb_fps :: pyfloat
  pb_width :: int
  pb_height :: int
  pb_total_frames :: int
  pb_rotation :: int

definition read_report :: "(pyval \<Rightarrow> string) \<Rightarrow> pyval \<Rightarrow> probe_values result" where
  "read_report repr document =
     rbind (get_item document ''streams'') (\<lambda>sv.
     rbind (py_iter (py_or sv (PList []))) (\<lambda>streams.
     rbind (video_stream streams) (\<lambda>stream.
     rbind (get_item document ''format'') (\<lambda>fv.
     rbind (get_item (py_or fv (PDict [])) ''duration'') (\<lambda>d1.
     rbind (get_item stream ''duration'') (\<lambda>d2.
     rbind (py_float (py_or d1 (py_or d2 (PInt 0)))) (\<lambda>duration.
     rbind (get_item stream ''avg_frame_rate'') (\<lambda>f1.
     rbind (get_item stream ''r_frame_rate'') (\<lambda>f2.
     let fps = float_or (fraction f1) (fraction f2) in
     rbind (get_item stream ''width'') (\<lambda>wv.
     rbind (py_int (py_or wv (PInt 0))) (\<lambda>width.
     rbind (get_item stream ''height'') (\<lambda>hv.
     rbind (py_int (py_or hv (PInt 0))) (\<lambda>height.
     rbind (rotation stream) (\<lambda>rot.
     rbind (get_item stream ''nb_frames'') (\<lambda>nv.
     rbind (frame_count nv duration fps) (\<lambda>frames.
     rbind (get_item (py_or fv (PDict [])) ''format_name'') (\<lambda>name.
     rbind (get_item stream ''codec_name'') (\<lambda>codec.
       Inr \<lparr>pb_container = container_of (py_str repr (py_or name (PStr []))),
            pb_codec = py_lower (py_str repr (py_or codec (PStr []))), pb_duration = duration, pb_fps = fps,
            pb_width = width, pb_height = height, pb_total_frames = frames, pb_rotation = rot\<rparr>))))))))))))))))))"

datatype probe_exc = ProbeError string | ProbeCrash py_exc

text \<open>The exceptions the reading translates; any other one passes.\<close>

definition report_error :: "py_exc \<Rightarrow> probe_exc" where
  "report_error e =
     (case e of
        ValueError _ \<Rightarrow> ProbeError ''VIDEO_INVALID''
      | TypeError \<Rightarrow> ProbeError ''VIDEO_INVALID''
      | OtherError t \<Rightarrow> if t = ''StopIteration'' then ProbeError ''VIDEO_INVALID'' else ProbeCrash e
      | _ \<Rightarrow> ProbeCrash e)"

definition judge_report :: "probe_values \<Rightarrow> probe_exc + video_metadata" where
  "judge_report p =
     (case (pb_duration p, pb_fps p) of
        (Fin duration, Fin fps) \<Rightarrow>
          if pb_container p = [] \<or> pb_codec p = [] \<or> duration \<le> 0 \<or> fps \<le> 0 \<or> pb_width p \<le> 0 \<or> pb_height p \<le> 0
             \<or> pb_total_frames p \<le> 0
          then Inl (ProbeError ''VIDEO_INVALID'')
          else let turned = pb_rotation p = 90 \<or> pb_rotation p = 270
               in Inr \<lparr>vm_container = pb_container p, vm_codec = pb_codec p, vm_duration_seconds = duration, vm_fps = fps,
                       vm_width = (if turned then pb_height p else pb_width p),
                       vm_height = (if turned then pb_width p else pb_height p),
                       vm_total_frames = pb_total_frames p, vm_rotation_degrees = pb_rotation p\<rparr>
      | _ \<Rightarrow> Inl (ProbeError ''VIDEO_INVALID''))"

definition parse_probe_payload ::
  "(bytes \<Rightarrow> pyval result) \<Rightarrow> (pyval \<Rightarrow> string) \<Rightarrow> bytes \<Rightarrow> probe_exc + video_metadata" where
  "parse_probe_payload loads repr report =
     (case rbind (loads report) (read_report repr) of
        Inl e \<Rightarrow> Inl (report_error e)
      | Inr p \<Rightarrow> judge_report p)"

datatype probe_run = ProbeTimedOut | ProbeExit int bytes

definition probe_video ::
  "(bytes \<Rightarrow> pyval result) \<Rightarrow> (pyval \<Rightarrow> string) \<Rightarrow> probe_run \<Rightarrow> probe_exc + video_metadata" where
  "probe_video loads repr run =
     (case run of
        ProbeTimedOut \<Rightarrow> Inl (ProbeError ''VIDEO_PROBE_TIMEOUT'')
      | ProbeExit code stdout \<Rightarrow>
          if code \<noteq> 0 then Inl (ProbeError ''VIDEO_INVALID'') else parse_probe_payload loads repr stdout)"

section \<open>Sampling\<close>

record sampling_settings =
  video_default_sampling_mode :: string
  video_default_frames_per_second :: real

record sampling_choice =
  sc_mode :: string
  sc_requested_fps :: real
  sc_every_n :: int
  sc_effective_fps :: real

datatype sampling_exc = InvalidSampling | SamplingCrash py_exc

text \<open>A comparison with a value that is not a number is false, so it gets as far as \<open>round\<close>.\<close>

definition resolve_sampling ::
  "sampling_settings \<Rightarrow> real \<Rightarrow> string option \<Rightarrow> int option \<Rightarrow> pyfloat option \<Rightarrow> sampling_exc + sampling_choice" where
  "resolve_sampling cfg source_fps mode every_n_frames frames_per_second =
     (let selected = (case mode of None \<Rightarrow> video_default_sampling_mode cfg
                       | Some m \<Rightarrow> if m = [] then video_default_sampling_mode cfg else m);
          choice = (\<lambda>fps n. Inr \<lparr>sc_mode = selected, sc_requested_fps = fps, sc_every_n = n,
                                 sc_effective_fps = source_fps / of_int n\<rparr>)
      in if selected = ''every_frame'' then
           (if every_n_frames \<noteq> None \<or> frames_per_second \<noteq> None then Inl InvalidSampling else choice source_fps 1)
         else if selected = ''every_n_frames'' then
           (case every_n_frames of
              None \<Rightarrow> Inl InvalidSampling
            | Some n \<Rightarrow> if n \<le> 0 \<or> frames_per_second \<noteq> None then Inl InvalidSampling else choice (source_fps / of_int n) n)
         else if selected = ''frames_per_second'' then
           (case (case frames_per_second of None \<Rightarrow> Fin (video_default_frames_per_second cfg) | Some f \<Rightarrow> f) of
              Fin fps \<Rightarrow>
                if every_n_frames \<noteq> None \<or> fps \<le> 0 \<or> source_fps < fps then Inl InvalidSampling
                else choice fps (max 1 (round_half_even (source_fps / fps)))
            | NaN \<Rightarrow>
                if every_n_frames \<noteq> None then Inl InvalidSampling
                else Inl (SamplingCrash (ValueError ''cannot convert float NaN to integer''))
            | _ \<Rightarrow> Inl InvalidSampling)
         else Inl InvalidSampling)"

lemma accepted_sampling:
  assumes "resolve_sampling cfg source_fps mode every_n_frames frames_per_second = Inr c"
  obtains "c = \<lparr>sc_mode = ''every_frame'', sc_requested_fps = source_fps, sc_every_n = 1, sc_effective_fps = source_fps\<rparr>"
  | n where "0 < n" "c = \<lparr>sc_mode = ''every_n_frames'', sc_requested_fps = source_fps / of_int n, sc_every_n = n,
      sc_effective_fps = source_fps / of_int n\<rparr>"
  | fps where "0 < fps" "fps \<le> source_fps"
      "c = (let n = max 1 (round_half_even (source_fps / fps)) in
        \<lparr>sc_mode = ''frames_per_second'', sc_requested_fps = fps, sc_every_n = n, sc_effective_fps = source_fps / of_int n\<rparr>)"
  using assms unfolding resolve_sampling_def Let_def not_le not_less
  by (auto simp: not_le not_less split: if_splits option.splits pyfloat.splits)

text \<open>
  Whatever is asked for, a sampling that is accepted takes every n-th frame for a positive n, never more
  frames than the video has, and for a requested rate the n is the ratio of the rates to within a half.
\<close>

theorem sampling_sound:
  assumes "resolve_sampling cfg source_fps mode every_n_frames frames_per_second = Inr c" and "0 < source_fps"
  shows "0 < sc_every_n c \<and> sc_effective_fps c = source_fps / of_int (sc_every_n c)
    \<and> 0 < sc_effective_fps c \<and> sc_effective_fps c \<le> source_fps \<and> sc_requested_fps c \<le> source_fps
    \<and> (sc_mode c = ''frames_per_second'' \<longrightarrow> \<bar>of_int (sc_every_n c) - source_fps / sc_requested_fps c\<bar> \<le> 1 / 2)"
proof -
  have near: "\<bar>of_int (round_half_even x) - x\<bar> \<le> 1 / 2" for x
    unfolding round_half_even_def Let_def by (simp split: if_splits)
  have one: "1 \<le> round_half_even x" if "1 \<le> x" for x
    using that near [of x] unfolding round_half_even_def Let_def by (auto split: if_splits)
  have pick: "0 < source_fps / of_int n \<and> source_fps / of_int n \<le> source_fps" if "0 < n" for n :: int
    using that assms(2) by (simp add: field_simps)
  have rate: "max 1 (round_half_even (source_fps / fps)) = round_half_even (source_fps / fps)
      \<and> 0 < round_half_even (source_fps / fps)" if "0 < fps" "fps \<le> source_fps" for fps
  proof -
    have "1 \<le> source_fps / fps" using that by (simp add: field_simps)
    from one [OF this] show ?thesis by simp
  qed
  show ?thesis
  proof (cases rule: accepted_sampling [OF assms(1)])
    case 1
    then show ?thesis using assms(2) by simp
  next
    case (2 n)
    then show ?thesis using pick [of n] by simp
  next
    case (3 fps)
    then show ?thesis
      using rate [of fps] near [of "source_fps / fps"] pick [of "round_half_even (source_fps / fps)"]
      by (simp add: Let_def)
  qed
qed

end
