(* ===== verification/Video_Upload.thy ===== *)
theory Video_Upload
  imports Video_Results Video_Probe
begin

text \<open>
  The upload of a video: \<open>VideoUploadService\<close> of \<open>src/backend/app/services/video_upload_service.py\<close>. The
  request's body is the list of what its reads give; ffprobe and the decoding of its report are
  parameters; the temporary file is its content, which every path removes.
\<close>

section \<open>The service\<close>

record ('o, 'v) upload_env =
  ue_face :: "('o, 'v) face_env"
  ue_ffprobe :: "bytes \<Rightarrow> probe_run"
  ue_loads :: "bytes \<Rightarrow> pyval result"
  ue_repr :: "pyval \<Rightarrow> string"
  ue_sampling :: sampling_settings
  video_allowed_container_set :: "string list"
  video_allowed_codec_set :: "string list"
  video_max_duration_seconds :: int
  video_minio_prefix :: string
  video_job_max_attempts :: int
  video_retention_seconds :: int

text \<open>What the \<open>except\<close> clauses tell apart: errors with a code and a status, and all others.\<close>

datatype upload_exc = CodedExc string int | OtherExc

datatype body_read = Chunk bytes | ReadFailed

definition too_large :: upload_exc where
  "too_large = CodedExc ''VIDEO_TOO_LARGE'' 413"

fun stream_upload :: "nat \<Rightarrow> bytes \<Rightarrow> body_read list \<Rightarrow> upload_exc + bytes" where
  "stream_upload limit got [] = (if got = [] then Inl (CodedExc ''VIDEO_EMPTY'' 422) else Inr got)"
| "stream_upload limit got (ReadFailed # reads) = Inl OtherExc"
| "stream_upload limit got (Chunk c # reads) =
     (if c = [] then stream_upload limit got []
      else if limit < length (got @ c) then Inl too_large
      else stream_upload limit (got @ c) reads)"

definition validate_metadata :: "('o, 'v) upload_env \<Rightarrow> video_metadata \<Rightarrow> upload_exc + unit" where
  "validate_metadata env m =
     (if vm_container m \<notin> set (video_allowed_container_set env) then Inl (CodedExc ''VIDEO_UNSUPPORTED_CONTAINER'' 415)
      else if vm_codec m \<notin> set (video_allowed_codec_set env) then Inl (CodedExc ''VIDEO_UNSUPPORTED_CODEC'' 415)
      else if of_int (video_max_duration_seconds env) < vm_duration_seconds m
        then Inl (CodedExc ''VIDEO_DURATION_EXCEEDED'' 422)
      else Inr ())"

definition content_type_of :: "video_metadata \<Rightarrow> upload_exc + string" where
  "content_type_of m =
     (case map_of
        [(''mp4'', ''video/mp4''), (''mov'', ''video/quicktime''), (''avi'', ''video/x-msvideo''),
         (''matroska'', ''video/x-matroska'')] (vm_container m) of
        None \<Rightarrow> Inl OtherExc
      | Some t \<Rightarrow> Inr t)"

definition metadata_dict :: "video_metadata \<Rightarrow> pydict" where
  "metadata_dict m =
     [(PStr ''duration'', PFloat (Fin (vm_duration_seconds m))), (PStr ''fps'', PFloat (Fin (vm_fps m))),
      (PStr ''width'', PInt (vm_width m)), (PStr ''height'', PInt (vm_height m)),
      (PStr ''total_frames'', PInt (vm_total_frames m)), (PStr ''container'', PStr (vm_container m)),
      (PStr ''codec'', PStr (vm_codec m))]"

definition sampling_dict :: "sampling_choice \<Rightarrow> pydict" where
  "sampling_dict c =
     [(PStr ''mode'', PStr (sc_mode c)), (PStr ''requestedFramesPerSecond'', PFloat (Fin (sc_requested_fps c))),
      (PStr ''everyNFrames'', PInt (sc_every_n c)), (PStr ''effectiveFramesPerSecond'', PFloat (Fin (sc_effective_fps c)))]"

definition probe_failure :: "probe_exc \<Rightarrow> upload_exc" where
  "probe_failure e = (case e of ProbeError code \<Rightarrow> CodedExc code 422 | ProbeCrash _ \<Rightarrow> OtherExc)"

definition sampling_failure :: "sampling_exc \<Rightarrow> upload_exc" where
  "sampling_failure e = (case e of InvalidSampling \<Rightarrow> CodedExc ''INVALID_SAMPLING'' 422 | SamplingCrash _ \<Rightarrow> OtherExc)"

definition excuse :: "('e \<Rightarrow> upload_exc) \<Rightarrow> 'e + 'a \<Rightarrow> upload_exc + 'a" where
  "excuse f r = (case r of Inl e \<Rightarrow> Inl (f e) | Inr x \<Rightarrow> Inr x)"

text \<open>The request.\<close>

record upload_request =
  up_reads :: "body_read list"
  up_sampling_mode :: "string option"
  up_every_n_frames :: "int option"
  up_frames_per_second :: "pyfloat option"

text \<open>Up to the job's identifier nothing is stored: the content of the video, what is known of it and its sampling.\<close>

definition inspect :: "('o, 'v) upload_env \<Rightarrow> upload_request \<Rightarrow> upload_exc + bytes \<times> video_metadata \<times> sampling_choice" where
  "inspect env rq =
     rbind (stream_upload (video_max_upload_bytes (fv_minio_settings (ue_face env))) [] (up_reads rq)) (\<lambda>content.
     rbind (excuse probe_failure (probe_video (ue_loads env) (ue_repr env) (ue_ffprobe env content))) (\<lambda>m.
     rbind (validate_metadata env m) (\<lambda>_.
     rbind (excuse sampling_failure
              (resolve_sampling (ue_sampling env) (vm_fps m) (up_sampling_mode rq) (up_every_n_frames rq)
                 (up_frames_per_second rq))) (\<lambda>c.
       Inr (content, m, c)))))"

definition source_key :: "('o, 'v) upload_env \<Rightarrow> string \<Rightarrow> string" where
  "source_key env jid = video_minio_prefix env @ ''/'' @ jid @ ''/source''"

definition new_job ::
  "('o, 'v) upload_env \<Rightarrow> string \<Rightarrow> string \<Rightarrow> string \<Rightarrow> string \<Rightarrow> bytes \<Rightarrow> video_metadata \<Rightarrow> sampling_choice \<Rightarrow> video_job" where
  "new_job env jid pid bucket content_type content m c =
     (let now = fv_now (ue_face env)
      in \<lparr>job_id = jid, vj_process_id = pid, vj_status = ''pending'', stage = ''queued'', progress_percent = 0,
          cancellation_requested = False, attempt_count = 0, max_attempts = video_job_max_attempts env,
          available_at = now, worker_id = None, lease_token = None, lease_expires_at = None, vj_error_code = None,
          source_bucket = bucket, source_object_key = source_key env jid, source_content_type = content_type,
          source_size = int (length content), source_sha256 = mc_sha256 (fv_minio (ue_face env)) content,
          source_retention_until = now + seconds (video_retention_seconds env), source_deleted_at = None,
          container_format = vm_container m, video_codec = vm_codec m, duration_seconds = vm_duration_seconds m,
          fps = vm_fps m, frame_width = vm_width m, frame_height = vm_height m, total_frames = vm_total_frames m,
          processed_frames = 0, person_count = 0, sampling = sampling_dict c, vj_created_at = now,
          started_at = None, vj_completed_at = None, cancelled_at = None\<rparr>)"

definition job_details :: "video_job \<Rightarrow> video_metadata \<Rightarrow> pydict" where
  "job_details j m =
     [(PStr ''job_id'', PStr (job_id j)), (PStr ''video'', PDict (metadata_dict m)), (PStr ''sampling'', PDict (sampling j))]"

text \<open>The job, the details of its process and the event, in one transaction.\<close>

definition register_job :: "time \<Rightarrow> video_job \<Rightarrow> video_metadata \<Rightarrow> ('o, 'v) video_store \<Rightarrow> ('o, 'v) video_store result" where
  "register_job now j m s =
     rbind (job_create j (vb_jobs s)) (\<lambda>js.
     rbind (event_create (vj_process_id j) ''video_job_created''
              [(PStr ''job_id'', PStr (job_id j)), (PStr ''size'', PInt (source_size j)), (PStr ''sampling'', PDict (sampling j))] now
              ((vb_registry s)\<lparr>rg_processes :=
                 row_update pr_process_id (vj_process_id j) (\<lambda>p. p\<lparr>pr_details := job_details j m\<rparr>)
                   (rg_processes (vb_registry s))\<rparr>)) (\<lambda>g.
       Inr (s\<lparr>vb_registry := g, vb_jobs := js\<rparr>)))"

definition set_objects :: "'o \<Rightarrow> ('o, 'v) video_store \<Rightarrow> ('o, 'v) video_store" where
  "set_objects objs s = s\<lparr>vb_registry := (vb_registry s)\<lparr>rg_objects := objs\<rparr>\<rparr>"

text \<open>From the identifier on: the content type, the object, the check of its size and the job.\<close>

definition store_upload ::
  "('o, 'v) upload_env \<Rightarrow> string \<Rightarrow> string \<Rightarrow> bytes \<times> video_metadata \<times> sampling_choice \<Rightarrow> ('o, 'v) video_store \<Rightarrow>
   ('o, 'v) video_store \<times> (upload_exc + video_job)"
where
  "store_upload env jid pid found s =
     (case found of (content, m, c) \<Rightarrow>
        (case content_type_of m of
           Inl e \<Rightarrow> (s, Inl e)
         | Inr content_type \<Rightarrow>
             (case upload_video (fv_minio (ue_face env)) (fv_minio_settings (ue_face env)) (source_key env jid) content
                     content_type (mc_sha256 (fv_minio (ue_face env)) content) (rg_objects (vb_registry s)) of
                (objs, Inl _) \<Rightarrow> (set_objects objs s, Inl OtherExc)
              | (objs, Inr stat) \<Rightarrow>
                  if oi_size stat \<noteq> int (length content) then (set_objects objs s, Inl (CodedExc ''VIDEO_INVALID'' 422))
                  else (let j = new_job env jid pid (oi_bucket stat) content_type content m c
                        in case register_job (fv_now (ue_face env)) j m (set_objects objs s) of
                             Inl _ \<Rightarrow> (set_objects objs s, Inl OtherExc)
                           | Inr s' \<Rightarrow> (s', Inr j)))))"

definition upload_code :: "upload_exc \<Rightarrow> string" where
  "upload_code e = (case e of CodedExc code _ \<Rightarrow> code | OtherExc \<Rightarrow> ''VIDEO_INVALID'')"

definition upload_error :: "upload_exc \<Rightarrow> upload_exc" where
  "upload_error e = (case e of CodedExc code status \<Rightarrow> e | OtherExc \<Rightarrow> CodedExc ''VIDEO_INVALID'' 422)"

text \<open>\<open>_fail_process\<close>: the two writes are one transaction, and its failure is swallowed.\<close>

definition fail_upload :: "('o, 'v) upload_env \<Rightarrow> string \<Rightarrow> upload_exc \<Rightarrow> ('o, 'v) video_store \<Rightarrow> ('o, 'v) video_store" where
  "fail_upload env pid e s =
     (let now = fv_now (ue_face env); g = vb_registry s
      in case event_create pid ''video_upload_failed'' [(PStr ''error_code'', PStr (upload_code e))] now
             (g\<lparr>rg_processes := process_fail pid (upload_code e) now (rg_processes g)\<rparr>) of
           Inl _ \<Rightarrow> s
         | Inr g' \<Rightarrow> s\<lparr>vb_registry := g'\<rparr>)"

definition job_exists_for_object :: "string \<Rightarrow> ('o, 'v) video_store \<Rightarrow> bool" where
  "job_exists_for_object key s = (key \<in> source_object_key ` set (vb_jobs s))"

text \<open>The \<open>finally\<close> clause, once an object key was chosen.\<close>

definition drop_partial :: "('o, 'v) upload_env \<Rightarrow> string \<Rightarrow> ('o, 'v) video_store \<Rightarrow> ('o, 'v) video_store" where
  "drop_partial env key s =
     (if job_exists_for_object key s then s
      else set_objects (fst (delete_video (fv_minio (ue_face env)) (fv_minio_settings (ue_face env)) key
                               (rg_objects (vb_registry s)))) s)"

record upload_answer =
  ua_job_id :: string
  ua_process_id :: string
  ua_status :: string
  ua_status_url :: string
  ua_result_url :: string

definition upload_accepted :: "video_job \<Rightarrow> upload_answer" where
  "upload_accepted j =
     \<lparr>ua_job_id = job_id j, ua_process_id = vj_process_id j, ua_status = ''pending'',
      ua_status_url = ''/api/v1/videos/jobs/'' @ job_id j, ua_result_url = ''/api/v1/videos/jobs/'' @ job_id j @ ''/result''\<rparr>"

definition take_upload ::
  "('o, 'v) upload_env \<Rightarrow> upload_request \<Rightarrow> string \<Rightarrow> ('o, 'v) video_store \<Rightarrow> ('o, 'v) video_store \<times> (upload_exc + upload_answer)"
where
  "take_upload env rq pid s =
     (case inspect env rq of
        Inl e \<Rightarrow> (fail_upload env pid e s, Inl (upload_error e))
      | Inr found \<Rightarrow>
          (case fresh_id (ue_face env) (vb_registry s) of
             (g, Inl _) \<Rightarrow> (fail_upload env pid OtherExc (s\<lparr>vb_registry := g\<rparr>), Inl (upload_error OtherExc))
           | (g, Inr jid) \<Rightarrow>
               (case store_upload env jid pid found (s\<lparr>vb_registry := g\<rparr>) of
                  (s', Inl e) \<Rightarrow> (drop_partial env (source_key env jid) (fail_upload env pid e s'), Inl (upload_error e))
                | (s', Inr j) \<Rightarrow> (drop_partial env (source_key env jid) s', Inr (upload_accepted j)))))"

text \<open>\<open>submit\<close>: the process is created, and that committed, before the body is read.\<close>

definition submit_video ::
  "('o, 'v) upload_env \<Rightarrow> upload_request \<Rightarrow> string option \<Rightarrow> ('o, 'v) video_store \<Rightarrow> ('o, 'v) video_store \<times> (upload_exc + upload_answer)"
where
  "submit_video env rq given s =
     (case fbind (given_or_fresh (ue_face env) given)
             (\<lambda>pid. fbind (start_process pid ''video_recognize'' (fv_now (ue_face env))) (\<lambda>_. answered (Inr pid)))
             (vb_registry s) of
        (g, Inl _) \<Rightarrow> (s\<lparr>vb_registry := g\<rparr>, Inl OtherExc)
      | (g, Inr pid) \<Rightarrow> take_upload env rq pid (s\<lparr>vb_registry := g\<rparr>))"

section \<open>What an upload leaves\<close>

text \<open>What an object store with conditional failures still promises: what its calls do to the keys of a bucket.\<close>

definition keeps_keys :: "'o minio \<Rightarrow> string \<Rightarrow> ('o \<Rightarrow> string set) \<Rightarrow> bool" where
  "keeps_keys mc bucket keys =
     ((\<forall>k data t meta o1. keys o1 \<subseteq> keys (fst (mc_put mc bucket k data t meta o1))
         \<and> keys (fst (mc_put mc bucket k data t meta o1)) \<subseteq> insert k (keys o1)
         \<and> (snd (mc_put mc bucket k data t meta o1) = Inr () \<longrightarrow> k \<in> keys (fst (mc_put mc bucket k data t meta o1))))
      \<and> (\<forall>k o1. keys (fst (mc_stat mc bucket k o1)) = keys o1)
      \<and> (\<forall>k o1. keys (fst (mc_remove mc bucket k o1)) = keys o1 - {k}))"

lemma upload_video_keys:
  assumes "keeps_keys mc (minio_bucket_videos cfg) keys" and "upload_video mc cfg key data t sha o1 = (o2, r)"
  shows "o2 = o1 \<and> isl r \<or> video_key key \<and> keys o1 \<subseteq> keys o2 \<and> keys o2 \<subseteq> insert key (keys o1) \<and> (isl r \<or> key \<in> keys o2)"
proof -
  note k = conjunct1 [OF assms(1) [unfolded keeps_keys_def]]
    conjunct1 [OF conjunct2 [OF assms(1) [unfolded keeps_keys_def]]]
  let ?p = "mc_put mc (minio_bucket_videos cfg) key data t [(''X-Amz-Meta-Sha256'', sha)] o1"
  have put: "keys o1 \<subseteq> keys (fst ?p)" "keys (fst ?p) \<subseteq> insert key (keys o1)" "snd ?p = Inr () \<Longrightarrow> key \<in> keys (fst ?p)"
    using k(1) [rule_format, of o1 key data t "[(''X-Amz-Meta-Sha256'', sha)]"] by simp_all
  have stat: "keys (fst (mc_stat mc (minio_bucket_videos cfg) key o3)) = keys o3" for o3 using k(2) by simp
  have "o2 = o1 \<and> isl r \<or> video_key key \<and> (o2 = fst ?p \<and> isl r
      \<or> o2 = fst (mc_stat mc (minio_bucket_videos cfg) key (fst ?p)) \<and> snd ?p = Inr ())"
    using assms(2)
    by (cases ?p; cases "mc_stat mc (minio_bucket_videos cfg) key (fst ?p)")
       (auto simp: upload_video_def checked_call_def then_call_def translated_def stat_video_def stat_in_def
          validate_video_key_def translated_missing_def ensure_def split: sum.splits client_exc.splits if_splits)
  then show ?thesis
  proof (elim disjE conjE)
    assume "o2 = fst ?p" "isl r" "video_key key"
    then show ?thesis using put(1,2) by simp
  next
    assume "o2 = fst (mc_stat mc (minio_bucket_videos cfg) key (fst ?p))" "snd ?p = Inr ()" "video_key key"
    then show ?thesis using put stat by simp
  qed simp
qed

lemma delete_video_keys:
  assumes "keeps_keys mc (minio_bucket_videos cfg) keys"
  shows "keys (fst (delete_video mc cfg key o1)) = (if video_key key then keys o1 - {key} else keys o1)"
proof -
  have "keys (fst (mc_remove mc (minio_bucket_videos cfg) key o1)) = keys o1 - {key}"
    using conjunct2 [OF conjunct2 [OF assms [unfolded keeps_keys_def]]] by simp
  then show ?thesis
    by (cases "mc_remove mc (minio_bucket_videos cfg) key o1")
       (auto simp: delete_video_def checked_call_def translated_def validate_video_key_def ensure_def
          split: sum.splits client_exc.splits)
qed

lemma set_objects_parts [simp]:
  "vb_jobs (set_objects o1 s) = vb_jobs s" "vb_tracks (set_objects o1 s) = vb_tracks s"
  "rg_objects (vb_registry (set_objects o1 s)) = o1"
  "rg_processes (vb_registry (set_objects o1 s)) = rg_processes (vb_registry s)"
  by (simp_all add: set_objects_def)

lemma fail_upload_parts [simp]:
  "vb_jobs (fail_upload env pid e s) = vb_jobs s" "vb_tracks (fail_upload env pid e s) = vb_tracks s"
  "rg_objects (vb_registry (fail_upload env pid e s)) = rg_objects (vb_registry s)"
  by (auto simp: fail_upload_def Let_def event_create_def split: sum.splits)

lemma drop_partial_parts [simp]:
  "vb_jobs (drop_partial env key s) = vb_jobs s" "vb_tracks (drop_partial env key s) = vb_tracks s"
  "rg_processes (vb_registry (drop_partial env key s)) = rg_processes (vb_registry s)"
  by (simp_all add: drop_partial_def)

lemma start_process_parts:
  assumes "start_process pid ptype now g = (g', r)"
  shows "rg_objects g' = rg_objects g" "isl r \<Longrightarrow> g' = g"
    "\<not> isl r \<Longrightarrow> pid \<notin> pr_process_id ` set (rg_processes g) \<and> rg_processes g' = rg_processes g @
       [\<lparr>pr_process_id = pid, pr_process_type = ptype, pr_status = ''started'', pr_face_count = 0, pr_error_code = None,
         pr_details = [], pr_created_at = now, pr_completed_at = None\<rparr>]"
  using assms by (auto simp: start_process_def transaction_def process_create_def split: if_splits)

lemma register_job_parts:
  assumes "register_job now j m s = Inr s'"
  shows "vb_jobs s' = vb_jobs s @ [j]" "vb_tracks s' = vb_tracks s"
    "rg_objects (vb_registry s') = rg_objects (vb_registry s)"
    "rg_processes (vb_registry s') =
       row_update pr_process_id (vj_process_id j) (\<lambda>p. p\<lparr>pr_details := job_details j m\<rparr>) (rg_processes (vb_registry s))"
  using assms by (auto simp: register_job_def rbind_Inr_iff job_create_def event_create_def split: if_splits)

lemma store_upload_parts:
  assumes "store_upload env jid pid (content, m, c) s = (s', r)"
  shows "vb_tracks s' = vb_tracks s"
    and "isl r \<Longrightarrow> vb_jobs s' = vb_jobs s \<and> rg_processes (vb_registry s') = rg_processes (vb_registry s)"
    and "r = Inr j \<Longrightarrow> vb_jobs s' = vb_jobs s @ [j] \<and> (\<exists>b t. j = new_job env jid pid b t content m c)
      \<and> rg_processes (vb_registry s') =
        row_update pr_process_id pid (\<lambda>p. p\<lparr>pr_details := job_details j m\<rparr>) (rg_processes (vb_registry s))"
  using assms
  by (auto simp: store_upload_def Let_def new_job_def split: sum.splits prod.splits if_splits dest: register_job_parts)

lemma fail_upload_process:
  assumes "row_get pr_process_id pid (rg_processes (vb_registry s)) = Some p"
  shows "\<exists>q. row_get pr_process_id pid (rg_processes (vb_registry (fail_upload env pid e s))) = Some q
    \<and> pr_status q = ''failed'' \<and> pr_error_code q = Some (upload_code e)"
proof -
  have q: "row_get pr_process_id pid (process_fail pid code now (rg_processes (vb_registry s))) =
      Some (p\<lparr>pr_status := ''failed'', pr_error_code := Some code, pr_completed_at := Some now\<rparr>)" for code now
    using assms by (simp add: process_get)
  then have "pid \<in> pr_process_id ` set (process_fail pid code now (rg_processes (vb_registry s)))" for code now
    using row_get_None [of pr_process_id pid] by (metis option.distinct(1))
  then show ?thesis using q by (auto simp: fail_upload_def Let_def event_create_def)
qed

lemma upload_error_code [simp]: "\<exists>status. upload_error e = CodedExc (upload_code e) status"
  by (cases e) (simp_all add: upload_error_def upload_code_def)

lemma stream_upload_Inr:
  "stream_upload limit got reads = Inr content \<Longrightarrow> length got \<le> limit \<Longrightarrow> 0 < length content \<and> length content \<le> limit"
  by (induction limit got reads rule: stream_upload.induct) (auto split: if_splits)

lemma inspect_Inr:
  assumes "inspect env rq = Inr (content, m, c)"
  shows "0 < length content" and "length content \<le> video_max_upload_bytes (fv_minio_settings (ue_face env))"
    and "vm_container m \<in> set (video_allowed_container_set env)" and "vm_codec m \<in> set (video_allowed_codec_set env)"
    and "vm_duration_seconds m \<le> of_int (video_max_duration_seconds env)"
  using assms
  by (auto simp: inspect_def rbind_Inr_iff validate_metadata_def split: if_splits dest: stream_upload_Inr)

lemma take_upload_parts:
  assumes "take_upload env rq pid s = (s', r)"
  shows "vb_tracks s' = vb_tracks s"
    and "r = Inl e \<Longrightarrow> vb_jobs s' = vb_jobs s \<and>
      (row_get pr_process_id pid (rg_processes (vb_registry s)) \<noteq> None \<longrightarrow>
        (\<exists>q code status. e = CodedExc code status
          \<and> row_get pr_process_id pid (rg_processes (vb_registry s')) = Some q
          \<and> pr_status q = ''failed'' \<and> pr_error_code q = Some code))"
    and "r = Inr a \<Longrightarrow> \<exists>content m c jid b t. inspect env rq = Inr (content, m, c)
      \<and> vb_jobs s' = vb_jobs s @ [new_job env jid pid b t content m c] \<and> ua_job_id a = jid
      \<and> rg_processes (vb_registry s') =
        row_update pr_process_id pid (\<lambda>p. p\<lparr>pr_details := job_details (new_job env jid pid b t content m c) m\<rparr>)
          (rg_processes (vb_registry s))"
proof -
  let ?g = "(vb_registry s)\<lparr>rg_generated := rg_generated (vb_registry s) + 1\<rparr>"
  let ?jid = "fv_fresh (ue_face env) (rg_generated (vb_registry s))"
  have fresh: "fresh_id (ue_face env) (vb_registry s) = (?g, Inr ?jid)" by (simp add: fresh_id_def)
  consider (early) e0 where "inspect env rq = Inl e0" "s' = fail_upload env pid e0 s" "r = Inl (upload_error e0)"
    | (late) found s1 e0 where "inspect env rq = Inr found"
      "store_upload env ?jid pid found (s\<lparr>vb_registry := ?g\<rparr>) = (s1, Inl e0)"
      "s' = drop_partial env (source_key env ?jid) (fail_upload env pid e0 s1)" "r = Inl (upload_error e0)"
    | (accepted) found s1 j where "inspect env rq = Inr found"
      "store_upload env ?jid pid found (s\<lparr>vb_registry := ?g\<rparr>) = (s1, Inr j)"
      "s' = drop_partial env (source_key env ?jid) s1" "r = Inr (upload_accepted j)"
    using assms unfolding take_upload_def fresh by (auto split: sum.splits prod.splits)
  note cases = this
  show "vb_tracks s' = vb_tracks s"
    using cases by cases (auto dest: store_upload_parts(1) simp: split_paired_all)
  show "vb_jobs s' = vb_jobs s \<and>
      (row_get pr_process_id pid (rg_processes (vb_registry s)) \<noteq> None \<longrightarrow>
        (\<exists>q code status. e = CodedExc code status
          \<and> row_get pr_process_id pid (rg_processes (vb_registry s')) = Some q
          \<and> pr_status q = ''failed'' \<and> pr_error_code q = Some code))" if "r = Inl e"
    using cases
  proof cases
    case early
    with that upload_error_code [of e0] show ?thesis by (auto dest!: fail_upload_process [of pid s _ env e0])
  next
    case late
    obtain content m c where f: "found = (content, m, c)" by (cases found) auto
    have p: "vb_jobs s1 = vb_jobs s \<and> rg_processes (vb_registry s1) = rg_processes (vb_registry s)"
      using store_upload_parts(2) [OF late(2) [unfolded f]] by simp
    have "row_get pr_process_id pid (rg_processes (vb_registry s)) = Some q \<Longrightarrow> \<exists>q.
        row_get pr_process_id pid (rg_processes (vb_registry (fail_upload env pid e0 s1))) = Some q
        \<and> pr_status q = ''failed'' \<and> pr_error_code q = Some (upload_code e0)" for q
      using fail_upload_process [of pid s1 q env e0] p by simp
    with late(3,4) that upload_error_code [of e0] p show ?thesis by auto
  qed (use that in simp)
  show "\<exists>content m c jid b t. inspect env rq = Inr (content, m, c)
      \<and> vb_jobs s' = vb_jobs s @ [new_job env jid pid b t content m c] \<and> ua_job_id a = jid
      \<and> rg_processes (vb_registry s') =
        row_update pr_process_id pid (\<lambda>p. p\<lparr>pr_details := job_details (new_job env jid pid b t content m c) m\<rparr>)
          (rg_processes (vb_registry s))" if "r = Inr a"
    using cases
  proof cases
    case accepted
    obtain content m c where f: "found = (content, m, c)" by (cases found) auto
    have a: "a = upload_accepted j" using accepted(4) that by simp
    obtain b t where j: "j = new_job env ?jid pid b t content m c"
      and jobs: "vb_jobs s1 = vb_jobs s @ [j]" and procs: "rg_processes (vb_registry s1) =
        row_update pr_process_id pid (\<lambda>p. p\<lparr>pr_details := job_details j m\<rparr>) (rg_processes (vb_registry s))"
      using store_upload_parts(3) [OF accepted(2) [unfolded f] refl] by auto
    have id: "job_id (new_job env ?jid pid b t content m c) = ?jid" by (simp add: new_job_def Let_def)
    show ?thesis
      by (rule exI [of _ content], rule exI [of _ m], rule exI [of _ c], rule exI [of _ ?jid], rule exI [of _ b],
          rule exI [of _ t]) (simp add: accepted(1,3) f jobs procs j a upload_accepted_def id)
  qed (use that in simp_all)
qed

text \<open>
  C10. An upload is settled either way. If it is refused, no job is left, and the request's process, which
  was created before the body was read, has failed with the code of the answer; if it is accepted, exactly
  one job was added, which waits with the process that carries its details, and it is a video within the
  configured limits of size, length, container and codec.
\<close>

theorem upload_settled:
  assumes "submit_video env rq (Some pid) s = (s', r)" and "pid \<noteq> []"
    and "pid \<notin> pr_process_id ` set (rg_processes (vb_registry s))"
  shows "vb_tracks s' = vb_tracks s \<and> (\<exists>q. row_get pr_process_id pid (rg_processes (vb_registry s')) = Some q \<and>
    (case r of
       Inl e \<Rightarrow> vb_jobs s' = vb_jobs s \<and> pr_status q = ''failed'' \<and> (\<exists>code status. e = CodedExc code status \<and> pr_error_code q = Some code)
     | Inr a \<Rightarrow> (\<exists>j m. vb_jobs s' = vb_jobs s @ [j] \<and> vj_status j = ''pending'' \<and> vj_process_id j = pid \<and> job_id j = ua_job_id a
         \<and> pr_status q = ''started'' \<and> pr_details q = job_details j m
         \<and> 0 < source_size j \<and> source_size j \<le> int (video_max_upload_bytes (fv_minio_settings (ue_face env)))
         \<and> container_format j \<in> set (video_allowed_container_set env) \<and> video_codec j \<in> set (video_allowed_codec_set env)
         \<and> duration_seconds j \<le> of_int (video_max_duration_seconds env))))"
proof -
  let ?p = "\<lparr>pr_process_id = pid, pr_process_type = ''video_recognize'', pr_status = ''started'', pr_face_count = 0,
    pr_error_code = None, pr_details = [], pr_created_at = fv_now (ue_face env), pr_completed_at = None\<rparr>"
  have new: "row_get pr_process_id pid (rg_processes (vb_registry s) @ [?p]) = Some ?p"
  proof -
    have "row_get pr_process_id pid [?p] = Some ?p" by (simp add: row_get_def)
    moreover have "row_get pr_process_id pid (rg_processes (vb_registry s)) = None"
      using assms(3) by (simp add: row_get_None)
    ultimately show ?thesis by (simp add: row_get_append)
  qed
  let ?s1 = "s\<lparr>vb_registry := (vb_registry s)\<lparr>rg_processes := rg_processes (vb_registry s) @ [?p]\<rparr>\<rparr>"
  have t: "take_upload env rq pid ?s1 = (s', r)"
    using assms
    by (simp add: submit_video_def fbind_def given_or_fresh_def start_process_def transaction_def process_create_def
        answered_def PROCESS_TYPES_def PROCESS_STATUSES_def)
  note parts = take_upload_parts [OF t]
  show ?thesis
  proof (cases r)
    case (Inl e)
    with parts(1) parts(2) [OF Inl] new show ?thesis by auto
  next
    case (Inr a)
    obtain content m c jid b t where a: "inspect env rq = Inr (content, m, c)" "ua_job_id a = jid"
      "vb_jobs s' = vb_jobs s @ [new_job env jid pid b t content m c]"
      "rg_processes (vb_registry s') =
        row_update pr_process_id pid (\<lambda>p. p\<lparr>pr_details := job_details (new_job env jid pid b t content m c) m\<rparr>)
          (rg_processes (vb_registry s) @ [?p])"
      using parts(3) [OF Inr] by auto
    have q: "row_get pr_process_id pid (rg_processes (vb_registry s')) =
        Some (?p\<lparr>pr_details := job_details (new_job env jid pid b t content m c) m\<rparr>)"
      unfolding a(4) by (subst row_get_update_same) (use new in simp_all)
    show ?thesis using inspect_Inr [OF a(1)] parts(1) a(2,3) Inr q by (auto simp: new_job_def Let_def)
  qed
qed

lemma store_upload_objects:
  assumes "keeps_keys (fv_minio (ue_face env)) (minio_bucket_videos (fv_minio_settings (ue_face env))) keys"
    and "store_upload env jid pid (content, m, c) s = (s', r)"
  shows "isl r \<Longrightarrow> keys (rg_objects (vb_registry s')) = keys (rg_objects (vb_registry s))
      \<or> video_key (source_key env jid) \<and> keys (rg_objects (vb_registry s)) \<subseteq> keys (rg_objects (vb_registry s'))
        \<and> keys (rg_objects (vb_registry s')) \<subseteq> insert (source_key env jid) (keys (rg_objects (vb_registry s)))"
    and "\<not> isl r \<Longrightarrow> keys (rg_objects (vb_registry s')) = insert (source_key env jid) (keys (rg_objects (vb_registry s)))"
proof -
  let ?up = "\<lambda>t. upload_video (fv_minio (ue_face env)) (fv_minio_settings (ue_face env)) (source_key env jid) content t
    (mc_sha256 (fv_minio (ue_face env)) content) (rg_objects (vb_registry s))"
  have up: "keys (fst (?up t)) = keys (rg_objects (vb_registry s)) \<and> isl (snd (?up t)) \<or>
      video_key (source_key env jid) \<and> keys (rg_objects (vb_registry s)) \<subseteq> keys (fst (?up t))
      \<and> keys (fst (?up t)) \<subseteq> insert (source_key env jid) (keys (rg_objects (vb_registry s)))
      \<and> (isl (snd (?up t)) \<or> source_key env jid \<in> keys (fst (?up t)))" for t
    using upload_video_keys [OF assms(1) prod.collapse [of "?up t", symmetric]] by auto
  have "isl r \<and> s' = s \<or> (\<exists>t. rg_objects (vb_registry s') = fst (?up t) \<and> (isl r \<or> \<not> isl (snd (?up t))))"
    using assms(2)
    by (auto simp: store_upload_def Let_def split: sum.splits prod.splits if_splits dest: register_job_parts(3)
        intro!: exI [of _ "projr (content_type_of m)"])
  then show "isl r \<Longrightarrow> keys (rg_objects (vb_registry s')) = keys (rg_objects (vb_registry s))
      \<or> video_key (source_key env jid) \<and> keys (rg_objects (vb_registry s)) \<subseteq> keys (rg_objects (vb_registry s'))
        \<and> keys (rg_objects (vb_registry s')) \<subseteq> insert (source_key env jid) (keys (rg_objects (vb_registry s)))"
    "\<not> isl r \<Longrightarrow> keys (rg_objects (vb_registry s')) = insert (source_key env jid) (keys (rg_objects (vb_registry s)))"
    using up by fastforce+
qed

lemma drop_partial_keys:
  assumes "keeps_keys (fv_minio (ue_face env)) (minio_bucket_videos (fv_minio_settings (ue_face env))) keys"
  shows "keys (rg_objects (vb_registry (drop_partial env key s))) =
    (if key \<in> source_object_key ` set (vb_jobs s) \<or> \<not> video_key key then keys (rg_objects (vb_registry s))
     else keys (rg_objects (vb_registry s)) - {key})"
  using delete_video_keys [OF assms] by (simp add: drop_partial_def job_exists_for_object_def)


end
