(* ===== verification/Video_Witnesses.thy ===== *)
theory Video_Witnesses
  imports Face_Witnesses Video_Requests Video_Upload
begin

text \<open>
  Concrete inputs on which the theorems on videos apply: a claimed job whose worker saw one known person in
  two stretches of the video, requests on that job, and an upload.
\<close>

section \<open>One person, twice in a video\<close>

definition axis_vector :: "real list" where
  "axis_vector = 1 # replicate 511 0"

definition seen :: "int \<Rightarrow> int \<Rightarrow> track_output" where
  "seen i f =
     \<lparr>to_tracker_id = i, to_embedding = axis_vector, to_jpeg = [],
      to_detections = [sample_detection f, sample_detection (f + 1)]\<rparr>"

lemma zeros [simp]: "sum_list (replicate n (0::real)) = 0"
  by (induction n) simp_all

lemma axis_vector_norm: "vnorm axis_vector = 1"
  by (simp add: vnorm_def sum_squares_def axis_vector_def)

lemma axis_vector_normalize: "normalize axis_vector = Inr axis_vector"
  unfolding normalize_def axis_vector_norm by (simp add: scale_def)

lemma axis_vector_cosine: "cosine axis_vector axis_vector = 1"
proof -
  have "dot (replicate n 0) (replicate n 0) = 0" for n
    by (induction n) (simp_all add: dot_def)
  then show ?thesis by (simp add: cosine_def axis_vector_def dot_def)
qed

lemma axis_vector_valid: "validate_vector (map Fin axis_vector) = Inr ()"
proof -
  have "sum_list (map (\<lambda>x. case fin_value x of None \<Rightarrow> 0 | Some r \<Rightarrow> r * r) (map Fin (replicate n 0))) = 0" for n
    by (induction n) simp_all
  then have "fin_norm (map Fin axis_vector) = 1" by (simp add: fin_norm_def axis_vector_def)
  moreover have "list_all is_finite (map Fin xs)" for xs by (induction xs) (simp_all add: is_finite_def)
  ultimately show ?thesis by (simp add: validate_vector_Inr L2_TOLERANCE_def) (simp add: axis_vector_def)
qed

definition seen_track :: "int \<Rightarrow> int \<Rightarrow> canonical_track" where
  "seen_track i f =
     \<lparr>ct_track_id = ''n'', ct_source_tracker_ids = [i], ct_embedding = axis_vector, ct_jpeg = [],
      ct_detections = [sample_detection f, sample_detection (f + 1)],
      ct_appearances = [appearance_of (sample_detection f) (sample_detection (f + 1))],
      ct_first_seen = of_int f, ct_last_seen = of_int f + 1, ct_total_duration = 1,
      ct_source_templates = [source_template (seen i f)]\<rparr>"

lemma seen_new: "new_track ''n'' (seen i f) = Inr
   \<lparr>wt_track_id = ''n'', wt_source_tracker_ids = [i], wt_source_embeddings = [axis_vector],
    wt_source_templates = [source_template (seen i f)], wt_embedding = axis_vector, wt_jpeg = [],
    wt_representative_score = 9 / 10, wt_detections = [sample_detection f, sample_detection (f + 1)]\<rparr>"
  by (simp add: new_track_def seen_def axis_vector_normalize best_confidence_def sample_detection_def Let_def)

lemma seen_reconcile: "reconcile 2 5 (\<lambda>_. ''n'') [seen 7 1, seen 8 10] = Inr [seen_track 7 1, seen_track 8 10]"
proof -
  have "ordered_fragments [seen 7 1, seen 8 10] = [seen 7 1, seen 8 10]"
    by (simp add: ordered_fragments_def seen_def sample_detection_def less_eq_prod_def)
  then show ?thesis
    by (simp add: reconcile_def place_def seen_new)
       (simp add: seen_def axis_vector_cosine seen_track_def finalize_def Let_def sample_detection_def appearance_of_def round6_one)
qed

definition point_f :: scored_point where
  "point_f = \<lparr>sp_id = ''x'', sp_score = 8 / 10, sp_payload = Some [(PStr ''face_id'', PStr ''f'')]\<rparr>"

definition known_env :: "(unit, unit) face_env" where
  "known_env = (ready_env ready_minio)\<lparr>fv_qdrant := ready_qdrant\<lparr>qc_query_batch := \<lambda>vs _ _ s. (s, Inr (map (\<lambda>_. [point_f]) vs))\<rparr>\<rparr>"

definition video_env0 :: "(unit, unit) video_env" where
  "video_env0 =
     \<lparr>ve_face = known_env, ve_uuid5 = \<lambda>_ s. s, ve_extract = \<lambda>_. Inl RawExc, ve_reconcile_threshold = 2, ve_max_gap = 5\<rparr>"

lemma one_vote:
  "voting_resolve sample_match_settings {''known'', ''anonymous''} [t] [[sample_match]] =
     Inr \<lparr>vd_match = Some sample_match, vd_score = Some (8 / 10)\<rparr>"
  using template_weight_pos [of t]
  by (simp add: voting_resolve_def tally_def vote_template_def eligible_def sample_match_def
        sample_identity_def sample_match_settings_def
        strong_threshold_def cast_vote_def add_vote_def new_support_def face_of_def decide_def
        ranked_def mean_score_def clamp_unit_def Let_def)

definition worker_process :: process_record where
  "worker_process =
     \<lparr>pr_process_id = ''p1'', pr_process_type = ''video_recognize'', pr_status = ''started'', pr_face_count = 0,
      pr_error_code = None, pr_details = [], pr_created_at = 0, pr_completed_at = None\<rparr>"

definition known_registry :: "(unit, unit) registry" where
  "known_registry = one_identity\<lparr>rg_processes := [worker_process], rg_samples := [one_active\<lparr>fs_sample_id := ''x''\<rparr>]\<rparr>"

definition claimed_store :: "(unit, unit) video_store" where
  "claimed_store = \<lparr>vb_registry = known_registry, vb_jobs = [sample_claimed], vb_tracks = []\<rparr>"

definition decision_f :: identity_decision where
  "decision_f = \<lparr>vd_match = Some sample_match, vd_score = Some (8 / 10)\<rparr>"

lemma known_vote:
  assumes "rg_identities g = [sample_identity]" and "rg_vectors g = \<lparr>vi_index = (), vi_setup_complete = True\<rparr>"
  shows "vote_track known_env (seen_track i f) g = (g, Inr decision_f)"
proof -
  have "vector_search_batch (fv_qdrant known_env) (fv_qdrant_settings known_env) [map Fin axis_vector] 10 True
      (Some (fv_model_version known_env)) (Some (fv_preprocess_version known_env)) (rg_vectors g) = (rg_vectors g, Inr [[point_f]])"
    by (simp add: vector_search_batch_def vcheck_def axis_vector_valid vbind_def vector_setup_def assms(2) on_index_def
        known_env_def)
  moreover have "candidates_batch [sample_identity] 0 [[hit_of point_f]] = [[sample_match]]"
    by (simp add: candidates_batch_def hit_of_def point_f_def payload_value_def get_active_by_id_def sample_identity_def
        sample_match_def clamp_unit_def)
  moreover have "fv_match_settings known_env = sample_match_settings" by (simp add: known_env_def ready_env_def)
  ultimately show ?thesis
    by (simp add: vote_track_def seen_track_def source_template_def seen_def assms(1) one_vote decision_f_def)
qed

definition outcome_f :: track_outcome where
  "outcome_f = matched_outcome sample_match_settings sample_match"

definition row_f :: "nat \<Rightarrow> int \<Rightarrow> int \<Rightarrow> video_track" where
  "row_f n i f = track_row video_env0 sample_claimed (seen_track i f) outcome_f n"

definition final_f :: finalization where
  "final_f =
     add_track video_env0 sample_claimed (seen_track 8 10) outcome_f 1
       (add_track video_env0 sample_claimed (seen_track 7 1) outcome_f 0 no_rows)"

lemma known_voting:
  "fbind (canonical_tracks video_env0 [seen 7 1, seen 8 10]) (vote_tracks known_env) known_registry =
     (known_registry\<lparr>rg_generated := 2\<rparr>, Inr [(seen_track 7 1, decision_f), (seen_track 8 10, decision_f)])"
proof -
  have "canonical_tracks video_env0 [seen 7 1, seen 8 10] known_registry =
      (known_registry\<lparr>rg_generated := 2\<rparr>, Inr [seen_track 7 1, seen_track 8 10])"
    using seen_reconcile
    by (simp add: canonical_tracks_def video_env0_def known_env_def known_registry_def one_identity_def)
  then show ?thesis
    by (simp add: fbind_def answered_def known_vote known_registry_def one_identity_def)
qed

lemma outcome_f_fields [simp]:
  "oc_face_id outcome_f = ''f''" "oc_status outcome_f = ''known''" "oc_sample_id outcome_f = ''x''"
  by (simp_all add: outcome_f_def matched_outcome_def sample_match_def sample_identity_def Let_def)

lemma known_placing:
  assumes "g = known_registry\<lparr>rg_generated := 2\<rparr>"
  shows "place_tracks video_env0 sample_claimed 0 [(seen_track 7 1, decision_f), (seen_track 8 10, decision_f)] no_rows g = (g, Inr final_f)"
proof -
  have out: "identity_outcome video_env0 sample_claimed t decision_f n g = (g, Inr outcome_f)" for t n
    by (simp add: identity_outcome_def decision_f_def answered_def outcome_f_def video_env0_def known_env_def ready_env_def)
  have free: "unblocked (seen_track 7 1) decision_f (fz_assigned no_rows) = decision_f"
    "unblocked (seen_track 8 10) decision_f (assign ''f'' (seen_track 7 1) []) = decision_f"
    by (simp_all add: unblocked_def decision_f_def blocked_def placed_def no_rows_def add_track_def assign_def
        sample_match_def sample_identity_def seen_track_def)
  have ids: "deterministic_id video_env0 (job_id sample_claimed) (seen_track 7 1) 0 ''result'' \<noteq>
      deterministic_id video_env0 (job_id sample_claimed) (seen_track 8 10) 1 ''result''"
    by (simp add: deterministic_id_def video_env0_def nat_digits.simps)
  have ok: "results_ok g [track_result video_env0 sample_claimed (seen_track 7 1) outcome_f 0]"
    "results_ok g [track_result video_env0 sample_claimed (seen_track 7 1) outcome_f 0,
       track_result video_env0 sample_claimed (seen_track 8 10) outcome_f 1]"
    using ids
    by (simp_all add: results_ok_def track_result_def assms known_registry_def one_identity_def worker_process_def
        sample_identity_def RESULT_STATUSES_def sample_claimed_def start_claim_def sample_job_def)
  have rs: "rg_results g = []" by (simp add: assms known_registry_def one_identity_def)
  show ?thesis
    using ok
    by (simp add: fbind_def out free(1) rs answered_def final_f_def)
       (simp add: add_track_def no_rows_def free(2) fbind_def out rs answered_def)
qed

lemma known_finalized:
  "\<exists>s' faces. finalize_video video_env0 sample_claimed [seen 7 1, seen 8 10] ''w1'' ''t1'' 25 claimed_store = (s', Inr faces)
     \<and> list_by_job (job_id sample_claimed) (vb_tracks s') = [row_f 0 7 1, row_f 1 8 10]"
proof -
  let ?s = "claimed_store\<lparr>vb_registry := known_registry\<lparr>rg_generated := 2\<rparr>\<rparr>"
  have ve: "ve_face video_env0 = known_env" "fv_now known_env = 5" by (simp_all add: video_env0_def known_env_def)
  have v: "on_registry (fbind (canonical_tracks video_env0 [seen 7 1, seen 8 10]) (vote_tracks known_env)) claimed_store =
      (?s, Inr [(seen_track 7 1, decision_f), (seen_track 8 10, decision_f)])"
    by (simp add: on_registry_def known_voting claimed_store_def)
  have own: "lock_owned (job_id sample_claimed) ''w1'' ''t1'' 5 (vb_jobs ?s) \<noteq> None"
    by (simp add: lock_owned_def claimed_store_def sample_claimed_def start_claim_def sample_job_def active_def seconds_def)
  have p: "on_registry (place_tracks video_env0 sample_claimed 0 [(seen_track 7 1, decision_f), (seen_track 8 10, decision_f)] no_rows) ?s =
      (?s, Inr final_f)"
    by (simp add: on_registry_def known_placing [OF refl] del: place_tracks.simps)
  have rows: "fz_tracks final_f = [row_f 0 7 1, row_f 1 8 10]"
    by (simp add: final_f_def add_track_def no_rows_def row_f_def)
  have ids: "vt_track_id (row_f 0 7 1) \<noteq> vt_track_id (row_f 1 8 10)"
    by (simp add: row_f_def track_row_def deterministic_id_def video_env0_def nat_digits.simps)
  have t: "tracks_ok (vb_registry ?s) (rg_results (vb_registry ?s) @ fz_results final_f) (vb_jobs ?s) (fz_tracks final_f)"
    using ids
    by (simp add: tracks_ok_def rows)
       (simp add: row_f_def track_row_def final_f_def add_track_def track_result_def no_rows_def RESULT_STATUSES_def
         claimed_store_def known_registry_def one_identity_def face_ids_def sample_ids_def sample_identity_def
         sample_claimed_def start_claim_def sample_job_def)
  have "replace_for_job (vb_registry ?s) (rg_results (vb_registry ?s) @ fz_results final_f) (vb_jobs ?s) (job_id sample_claimed)
      (fz_tracks final_f) (vb_tracks ?s) = Inr (fz_tracks final_f)"
    using t by (simp add: replace_for_job_def checked_def delete_for_job_def claimed_store_def)
  moreover have "snd (complete (job_id sample_claimed) ''w1'' ''t1'' n 25 5 (vb_jobs ?s))" for n
    by (simp add: complete_def holds_def row_get_def claimed_store_def sample_claimed_def start_claim_def sample_job_def)
  then obtain js where "complete (job_id sample_claimed) ''w1'' ''t1'' (int (length (fz_tracks final_f))) 25 5 (vb_jobs ?s) = (js, True)"
    by (metis prod.collapse)
  ultimately have "\<exists>s'. commit_result video_env0 sample_claimed ''w1'' ''t1'' 25 final_f ?s = (s', Inr (fz_faces final_f))
      \<and> vb_tracks s' = fz_tracks final_f"
    by (simp add: commit_result_def Let_def ve)
  then obtain s' where "commit_result video_env0 sample_claimed ''w1'' ''t1'' 25 final_f ?s = (s', Inr (fz_faces final_f))"
    "vb_tracks s' = fz_tracks final_f" by blast
  moreover have "list_by_job (job_id sample_claimed) (fz_tracks final_f) = [row_f 0 7 1, row_f 1 8 10]"
    by (simp add: rows list_by_job_def) (simp add: row_f_def track_row_def)
  moreover have "finalize_video video_env0 sample_claimed [seen 7 1, seen 8 10] ''w1'' ''t1'' 25 claimed_store =
      commit_result video_env0 sample_claimed ''w1'' ''t1'' 25 final_f ?s"
    using own p by (auto simp: finalize_video_def ve v simp del: place_tracks.simps)
  ultimately show ?thesis by auto
qed

theorem attributed_tracks_disjoint_witness:
  "vt_last_seen (row_f 0 7 1) < vt_first_seen (row_f 1 8 10) \<or> vt_last_seen (row_f 1 8 10) < vt_first_seen (row_f 0 7 1)"
proof -
  obtain s' faces where f: "finalize_video video_env0 sample_claimed [seen 7 1, seen 8 10] ''w1'' ''t1'' 25 claimed_store = (s', Inr faces)"
    and ts: "list_by_job (job_id sample_claimed) (vb_tracks s') = [row_f 0 7 1, row_f 1 8 10]"
    using known_finalized by blast
  show ?thesis
    using attributed_tracks_disjoint [OF f ts [symmetric], of 0 1]
    by (simp add: row_f_def track_row_def)
qed

theorem finished_job_consistent_witness:
  "\<exists>s'. fst (finalize_video video_env0 sample_claimed [seen 7 1, seen 8 10] ''w1'' ''t1'' 25 claimed_store) = s'
     \<and> (\<exists>j. row_get job_id ''j1'' (vb_jobs s') = Some j \<and> vj_status j = ''completed'' \<and> person_count j = 2)"
proof -
  obtain s' faces where f: "finalize_video video_env0 sample_claimed [seen 7 1, seen 8 10] ''w1'' ''t1'' 25 claimed_store = (s', Inr faces)"
    and ts: "list_by_job (job_id sample_claimed) (vb_tracks s') = [row_f 0 7 1, row_f 1 8 10]"
    using known_finalized by blast
  have "job_id sample_claimed = ''j1''" by (simp add: sample_claimed_def start_claim_def sample_job_def)
  then show ?thesis using finished_job_consistent [OF f ts [symmetric]] f by auto
qed

section \<open>Passes of a worker\<close>

lemma claimed_job_fields [simp]:
  "job_id sample_claimed = ''j1''" "worker_id sample_claimed = Some ''w1''" "lease_token sample_claimed = Some ''t1''"
  "vj_process_id sample_claimed = ''p1''" "source_object_key sample_claimed = ''k1''" "source_size sample_claimed = 10"
  "source_retention_until sample_claimed = 100" "source_deleted_at sample_claimed = None"
  by (simp_all add: sample_claimed_def start_claim_def sample_job_def)

definition settings0 :: worker_settings where
  "settings0 = \<lparr>video_job_lease_seconds = 60, video_max_concurrent_jobs = 2, video_progress_update_interval = 1\<rparr>"

text \<open>Another upload arrives while the worker runs.\<close>

definition arrives :: "(unit, unit) video_store \<Rightarrow> (unit, unit) video_store" where
  "arrives s =
     s\<lparr>vb_jobs := (case job_create (sample_job\<lparr>job_id := ''j2'', vj_process_id := ''p2'', source_object_key := ''k2''\<rparr>) (vb_jobs s) of
        Inl _ \<Rightarrow> vb_jobs s | Inr js \<Rightarrow> js)\<rparr>"

lemma arrives_foreign: "foreign 2 arrives"
proof -
  let ?j = "sample_job\<lparr>job_id := ''j2'', vj_process_id := ''p2'', source_object_key := ''k2''\<rparr>"
  have "job_ok ?j" "vj_status ?j = ''pending''" using sample_job_ok by (simp_all add: job_ok_defs sample_job_def)
  then have "job_step 2 (c, js) (c, js')" if "job_create ?j js = Inr js'" for c js js'
    using that by (intro job_step.create)
  then show ?thesis by (auto simp: foreign_def arrives_def split: sum.split)
qed

definition waiting_job :: video_job where
  "waiting_job = sample_job\<lparr>source_object_key := ''videos/0198c5a0-0000-7000-8000-000000000001/source''\<rparr>"

definition seen_items :: "(unit, unit) run_item list" where
  "seen_items =
     [Written (VideoTrackOutput (seen 7 1)), Elsewhere arrives, Tick 6, LeaseRenewal, CancelPoll,
      Written (VideoCompleted \<lparr>vc_decoded_frames = 25, vc_processed_frames = 25, vc_track_count = 1\<rparr>)]"



definition late_run :: "(unit, unit) video_run" where
  "late_run =
     (start_run (claimed_store\<lparr>vb_jobs := [sample_cancelling]\<rparr>) 5)\<lparr>vr_tracks := [seen 7 1, seen 8 10]\<rparr>"

theorem late_cancellation_abandons_job_witness:
  "row_get job_id ''j1'' (vb_jobs (finish_video_run video_env0 sample_claimed ''w1'' ''t1''
     (late_run, Inr \<lparr>vc_decoded_frames = 25, vc_processed_frames = 25, vc_track_count = 2\<rparr>))) = Some sample_cancelling"
proof -
  have fields: "job_id sample_cancelling = ''j1''" "cancellation_requested sample_cancelling" "vj_status sample_cancelling = ''cancelling''"
    by (simp_all add: sample_cancelling_def cancel_row_def sample_claimed_def start_claim_def sample_job_def)
  have r: "row_get job_id (job_id sample_claimed) (run_jobs late_run) = Some sample_cancelling"
    "unique_keys job_id (run_jobs late_run)" "\<not> vr_lease_lost late_run"
    by (simp_all add: late_run_def run_jobs_def start_run_def row_get_def fields unique_keys_def)
  have "at_time video_env0 5 = video_env0" by (simp add: at_time_def video_env0_def known_env_def)
  then have "fbind (canonical_tracks (at_time video_env0 (vr_now late_run)) (vr_tracks late_run))
      (vote_tracks (ve_face (at_time video_env0 (vr_now late_run)))) (vb_registry (vr_store late_run)) =
      (known_registry\<lparr>rg_generated := 2\<rparr>, Inr [(seen_track 7 1, decision_f), (seen_track 8 10, decision_f)])"
    using known_voting by (simp add: late_run_def start_run_def claimed_store_def video_env0_def)
  from late_cancellation_abandons_job [OF r(1,2) fields(2,3) r(3) this] show ?thesis by simp
qed

section \<open>Requests\<close>

theorem byte_range_answered_witness:
  "parse_range (Some (''bytes='' @ nat_digits 2 @ ''-'' @ nat_digits 99)) 10 = Inr (2, 9)"
  using byte_range_answered [of 10 2 99] by (simp add: nat_digits.simps)

section \<open>Events\<close>

definition completed_frame :: "pyval" where
  "completed_frame =
     PDict [(PStr ''protocol_version'', PInt 1), (PStr ''event_type'', PStr ''completed''), (PStr ''decoded_frames'', PInt 25),
       (PStr ''processed_frames'', PInt 25), (PStr ''track_count'', PInt 1)]"

theorem decoded_video_event_wf_witness:
  "\<exists>e. decode_video_event (\<lambda>_. Inr completed_frame) (\<lambda>_. []) [0, 0, 0, 1, 7] = Inr e \<and> wf_video_event e"
proof -
  have "decode_video_event (\<lambda>_. Inr completed_frame) (\<lambda>_. []) [0, 0, 0, 1, 7] =
      Inr (VideoCompleted \<lparr>vc_decoded_frames = 25, vc_processed_frames = 25, vc_track_count = 1\<rparr>)"
    by (simp add: decode_video_event_def VIDEO_HEADER_SIZE_def unpack_be32_def MAX_EVENT_BYTES_def completed_frame_def
        decode_video_payload_def VIDEO_PROTOCOL_VERSION_def decode_completed_def count_item_def non_negative_def
        is_number_def getitem_def)
  from decoded_video_event_wf [OF this] this show ?thesis by blast
qed

section \<open>Uploads\<close>

definition bucket_minio :: "string set minio" where
  "bucket_minio =
     \<lparr>mc_put = \<lambda>_ k _ _ _ s. (insert k s, Inr ()),
      mc_stat = \<lambda>_ k s. (s, if k \<in> s then Inr \<lparr>os_size = Some 1, os_etag = None, os_metadata = []\<rparr> else Inl (S3Error ''NoSuchKey'')),
      mc_get = \<lambda>_ k _ s. (s, if k \<in> s then Inr [] else Inl (S3Error ''NoSuchKey'')), mc_remove = \<lambda>_ k s. (s - {k}, Inr ()),
      mc_sha256 = \<lambda>_. ''d''\<rparr>"

definition upload_env0 :: "(string set, unit) upload_env" where
  "upload_env0 =
     \<lparr>ue_face =
        \<lparr>fv_minio = bucket_minio, fv_minio_settings = fv_minio_settings (ready_env ready_minio), fv_qdrant = ready_qdrant,
         fv_qdrant_settings = fv_qdrant_settings (ready_env ready_minio), fv_detector_version = ''1'', fv_model_version = ''m'',
         fv_alignment_version = ''1'', fv_preprocess_version = ''p'', fv_match_settings = sample_match_settings,
         fv_fresh = \<lambda>_. ''0198c5a0-0000-7000-8000-000000000002'', fv_now = 5\<rparr>,
      ue_ffprobe = \<lambda>_. ProbeExit 0 [1],
      ue_loads = \<lambda>_. Inr (PDict
        [(PStr ''streams'', PList [PDict [(PStr ''codec_type'', PStr ''video''), (PStr ''codec_name'', PStr ''h264''),
            (PStr ''avg_frame_rate'', PStr ''25/1''), (PStr ''width'', PInt 64), (PStr ''height'', PInt 64),
            (PStr ''nb_frames'', PInt 25)]]),
         (PStr ''format'', PDict [(PStr ''format_name'', PStr ''mov,mp4''), (PStr ''duration'', PInt 1)])]),
      ue_repr = \<lambda>_. [], ue_sampling = \<lparr>video_default_sampling_mode = ''every_frame'', video_default_frames_per_second = 2\<rparr>,
      video_allowed_container_set = [''mp4'', ''mov''], video_allowed_codec_set = [''h264''], video_max_duration_seconds = 300,
      video_minio_prefix = ''videos'', video_job_max_attempts = 3, video_retention_seconds = 100\<rparr>"

definition upload0 :: upload_request where
  "upload0 = \<lparr>up_reads = [Chunk [7], Chunk []], up_sampling_mode = None, up_every_n_frames = None, up_frames_per_second = None\<rparr>"

definition bucket_store :: "(string set, unit) video_store" where
  "bucket_store =
     \<lparr>vb_registry =
        \<lparr>rg_identities = [], rg_samples = [], rg_processes = [worker_process], rg_results = [], rg_events = [],
         rg_objects = {''k1''}, rg_vectors = \<lparr>vi_index = (), vi_setup_complete = True\<rparr>, rg_generated = 0\<rparr>,
      vb_jobs = [sample_claimed], vb_tracks = []\<rparr>"

theorem upload_settled_witness:
  "snd (submit_video upload_env0 (upload0\<lparr>up_reads := []\<rparr>) (Some ''p2'') bucket_store) = Inl (CodedExc ''VIDEO_EMPTY'' 422)
   \<and> (\<exists>q. row_get pr_process_id ''p2''
        (rg_processes (vb_registry (fst (submit_video upload_env0 (upload0\<lparr>up_reads := []\<rparr>) (Some ''p2'') bucket_store)))) = Some q
      \<and> pr_status q = ''failed'' \<and> pr_error_code q = Some ''VIDEO_EMPTY'')
   \<and> (\<exists>q. row_get pr_process_id ''p2''
        (rg_processes (vb_registry (fst (submit_video upload_env0 upload0 (Some ''p2'') bucket_store)))) = Some q)"
proof -
  have new: "''p2'' \<notin> pr_process_id ` set (rg_processes (vb_registry bucket_store))"
    by (simp add: bucket_store_def worker_process_def)
  obtain s1 r1 where e: "submit_video upload_env0 (upload0\<lparr>up_reads := []\<rparr>) (Some ''p2'') bucket_store = (s1, r1)" by fastforce
  have "r1 = Inl (CodedExc ''VIDEO_EMPTY'' 422)"
    using e by (simp add: submit_video_def fbind_def given_or_fresh_def start_process_def transaction_def process_create_def
        answered_def PROCESS_TYPES_def PROCESS_STATUSES_def bucket_store_def worker_process_def take_upload_def inspect_def
        upload0_def upload_error_def)
  moreover obtain s2 r2 where "submit_video upload_env0 upload0 (Some ''p2'') bucket_store = (s2, r2)" by fastforce
  ultimately show ?thesis
    using upload_settled [OF e _ new] upload_settled [of upload_env0 upload0 "''p2''" bucket_store s2 r2, OF _ _ new] e by auto
qed


end
