(* ===== verification/Face_Api.thy ===== *)
theory Face_Api
  imports Face_Outcomes
begin

text \<open>
  The endpoints of the face API, \<open>src/backend/app/presentation/routers/faces.py\<close>, with the checks of the
  uploaded image (\<open>src/backend/app/services/image_validation.py\<close>) and of the metadata field. The decoding
  and conversion of an image by Pillow, \<open>json.loads\<close> and the pool of image workers are parameters; what
  the web framework checks before it calls an endpoint is left out.
\<close>

section \<open>Images\<close>

definition jpeg_bounds :: "bytes \<Rightarrow> bool" where
  "jpeg_bounds bs = (4 \<le> length bs \<and> take 2 bs = [0xff, 0xd8] \<and> drop (length bs - 2) bs = [0xff, 0xd9])"

definition validate_jpeg :: "bytes \<Rightarrow> nat \<Rightarrow> face_exc + unit" where
  "validate_jpeg bs limit =
     (if bs = [] then Inl (ValidationExc ''EMPTY_IMAGE'')
      else if limit < length bs then Inl (ValidationExc ''IMAGE_TOO_LARGE'')
      else if \<not> jpeg_bounds bs then Inl (ValidationExc ''INVALID_IMAGE'')
      else Inr ())"

text \<open>
  Pillow: opening gives the format of the image, loading and converting it the bytes of a JPEG image.
  Either may raise one of the two exceptions the code expects, or any other.
\<close>

datatype pillow_exc = UnidentifiedOrOSError | OtherPillowError

type_synonym pillow = "bytes \<Rightarrow> pillow_exc + string \<times> (pillow_exc + bytes)"

definition pillow_failure :: "pillow_exc \<Rightarrow> face_exc" where
  "pillow_failure e = (case e of UnidentifiedOrOSError \<Rightarrow> ValidationExc ''INVALID_IMAGE'' | OtherPillowError \<Rightarrow> RawExc)"

definition IMAGE_TYPES :: "string list" where
  "IMAGE_TYPES = [''image/jpeg'', ''image/jpg'', ''image/png'']"

definition normalize_image :: "pillow \<Rightarrow> bytes \<Rightarrow> string \<Rightarrow> nat \<Rightarrow> face_exc + bytes" where
  "normalize_image pil bs content_type limit =
     (if bs = [] then Inl (ValidationExc ''EMPTY_IMAGE'')
      else if limit < length bs then Inl (ValidationExc ''IMAGE_TOO_LARGE'')
      else if content_type \<notin> set IMAGE_TYPES then Inl (ValidationExc ''UNSUPPORTED_MEDIA_TYPE'')
      else case pil bs of
        Inl e \<Rightarrow> Inl (pillow_failure e)
      | Inr (format, converted) \<Rightarrow>
          if format \<notin> {''JPEG'', ''PNG''} then Inl (ValidationExc ''UNSUPPORTED_MEDIA_TYPE'')
          else (case converted of
                  Inl e \<Rightarrow> Inl (pillow_failure e)
                | Inr out \<Rightarrow> if limit < length out then Inl (ValidationExc ''IMAGE_TOO_LARGE'') else Inr out))"

record upload_image =
  ui_content_type :: "string option"
  ui_body :: bytes

definition read_image :: "pillow \<Rightarrow> nat \<Rightarrow> upload_image \<Rightarrow> face_exc + bytes" where
  "read_image pil limit u =
     (let content_type = (case ui_content_type u of None \<Rightarrow> [] | Some t \<Rightarrow> t)
      in if content_type \<notin> set IMAGE_TYPES then Inl (ValidationExc ''UNSUPPORTED_MEDIA_TYPE'')
         else normalize_image pil (take (limit + 1) (ui_body u)) content_type limit)"

section \<open>Metadata and identifiers\<close>

text \<open>\<open>json.loads\<close> raises \<open>JSONDecodeError\<close> on a text that is not JSON.\<close>

definition parse_metadata :: "(string \<Rightarrow> pyval result) \<Rightarrow> string option \<Rightarrow> face_exc + pydict" where
  "parse_metadata loads raw =
     (case raw of
        None \<Rightarrow> Inr []
      | Some text \<Rightarrow>
          if py_strip text = [] then Inr []
          else (case loads text of
                  Inl e \<Rightarrow> Inl (if e = OtherError ''JSONDecodeError'' then ValidationExc ''INVALID_METADATA'' else RawExc)
                | Inr (PDict d) \<Rightarrow> Inr d
                | Inr _ \<Rightarrow> Inl (ValidationExc ''INVALID_METADATA'')))"

definition hex_of :: "char \<Rightarrow> nat" where
  "hex_of c = (let n = char_code (py_lower_char c) in if n \<le> 57 then n - 48 else n - 87)"

text \<open>\<open>int(text, 16)\<close> of a text that is a number, underscores left out.\<close>

definition hex_value :: "string \<Rightarrow> nat" where
  "hex_value s = foldl (\<lambda>a c. if c = CHR ''_'' then a else 16 * a + hex_of c) 0 s"

definition uuid_hex :: "string \<Rightarrow> string" where
  "uuid_hex s = filter (\<lambda>c. c \<noteq> CHR ''-'') (strip_braces (remove_all ''uuid:'' (remove_all ''urn:'' s)))"

definition hex_body :: "string \<Rightarrow> string" where
  "hex_body s =
     (let t = snd (split_sign (number_strip s))
      in if py_lower (take 2 t) = ''0x'' then (if take 1 (drop 2 t) = ''_'' then drop 3 t else drop 2 t) else t)"

fun hex_text :: "nat \<Rightarrow> nat \<Rightarrow> string" where
  "hex_text 0 n = []"
| "hex_text (Suc w) n = hex_text w (n div 16) @ [''0123456789abcdef'' ! (n mod 16)]"

definition uuid_form :: "string \<Rightarrow> string" where
  "uuid_form h =
     take 8 h @ ''-'' @ take 4 (drop 8 h) @ ''-'' @ take 4 (drop 12 h) @ ''-'' @ take 4 (drop 16 h) @ ''-'' @ drop 20 h"

text \<open>\<open>str(UUID(value))\<close>.\<close>

definition validate_uuid :: "string \<Rightarrow> face_exc + string" where
  "validate_uuid s =
     (if uuid_text s then Inr (uuid_form (hex_text 32 (hex_value (hex_body (uuid_hex s)))))
      else Inl (ValidationExc ''INVALID_ID''))"

section \<open>Endpoints\<close>

record face_api =
  ap_pillow :: pillow
  ap_max_upload_bytes :: nat
  ap_loads :: "string \<Rightarrow> pyval result"
  ap_workers :: "bytes \<Rightarrow> gpu_exc + image_result"

text \<open>A \<open>ValidationError\<close> rejects the request under its process identifier; other exceptions pass.\<close>

definition rejecting ::
  "('o, 'v) face_env \<Rightarrow> string \<Rightarrow> string \<Rightarrow> string \<Rightarrow> face_exc + 'a \<Rightarrow> ('a \<Rightarrow> ('o, 'v, 'x, 'b) face_call) \<Rightarrow> ('o, 'v, 'x, 'b) face_call"
where
  "rejecting env pid ptype etype r f =
     (case r of
        Inr x \<Rightarrow> f x
      | Inl (ValidationExc code) \<Rightarrow>
          fbind (reject_request env pid ptype etype code) (\<lambda>_. answered (Inl (ValidationExc code)))
      | Inl e \<Rightarrow> answered (Inl e))"

definition recognize_endpoint :: "('o, 'v) face_env \<Rightarrow> face_api \<Rightarrow> upload_image \<Rightarrow> ('o, 'v, 'x, face_answer) face_call" where
  "recognize_endpoint env api u =
     fbind (fresh_id env) (\<lambda>pid.
       rejecting env pid ''recognize'' ''recognition_rejected'' (read_image (ap_pillow api) (ap_max_upload_bytes api) u)
         (\<lambda>bs. recognize env (ap_workers api bs) (Some pid)))"

definition enroll_form ::
  "face_api \<Rightarrow> upload_image \<Rightarrow> string option \<Rightarrow> string option \<Rightarrow> face_exc + string option \<times> pydict \<times> bytes" where
  "enroll_form api u metadata face_id =
     rbind (case face_id of
              None \<Rightarrow> Inr None
            | Some f \<Rightarrow> if f = [] then Inr None else rbind (validate_uuid f) (\<lambda>i. Inr (Some i))) (\<lambda>fid.
     rbind (parse_metadata (ap_loads api) metadata) (\<lambda>m.
     rbind (read_image (ap_pillow api) (ap_max_upload_bytes api) u) (\<lambda>bs. Inr (fid, m, bs))))"

definition enroll_endpoint ::
  "('o, 'v) face_env \<Rightarrow> face_api \<Rightarrow> upload_image \<Rightarrow> string \<Rightarrow> string option \<Rightarrow> string option \<Rightarrow> ('o, 'v, 'x, face_answer) face_call"
where
  "enroll_endpoint env api u name metadata face_id =
     fbind (fresh_id env) (\<lambda>pid.
       rejecting env pid ''enroll'' ''enrollment_rejected'' (enroll_form api u metadata face_id)
         (\<lambda>(fid, m, bs). enroll env (ap_workers api bs) name m fid (Some pid)))"

definition identified :: "(string \<Rightarrow> ('o, 'v, 'x, 'b) face_call) \<Rightarrow> string \<Rightarrow> ('o, 'v, 'x, 'b) face_call" where
  "identified f face_id = fbind (answered (validate_uuid face_id)) f"

definition get_endpoint :: "string \<Rightarrow> ('o, 'v, 'x, identity_view) face_call" where
  "get_endpoint face_id = identified (\<lambda>fid. get_identity fid None) face_id"

definition delete_endpoint :: "('o, 'v) face_env \<Rightarrow> string \<Rightarrow> ('o, 'v, 'x, string) face_call" where
  "delete_endpoint env face_id = identified (delete_identity env) face_id"

definition update_endpoint ::
  "('o, 'v) face_env \<Rightarrow> string \<Rightarrow> string \<Rightarrow> pydict \<Rightarrow> ('o, 'v, 'x, identity_view) face_call" where
  "update_endpoint env face_id name metadata = identified (\<lambda>fid. update_identity env fid name metadata) face_id"

definition history_endpoint ::
  "string \<Rightarrow> ('o, 'v, 'x) registry_scheme \<Rightarrow> face_exc + (string \<times> time \<times> string) list" where
  "history_endpoint face_id g = rbind (validate_uuid face_id) (\<lambda>fid. identity_history fid g)"

section \<open>Every answered request is on record\<close>

lemma reject_recorded:
  assumes "registry_ok g" and "pid \<notin> set (process_ids g)" and "ptype \<in> set PROCESS_TYPES"
    and "reject_request env pid ptype etype code g = (g', r)"
  shows "recorded pid (Inl e) g'"
proof -
  have "given_or_fresh env (Some pid) g = (g, Inr pid)" if "pid \<noteq> []" using that by (simp add: given_or_fresh_def)
  have res: "fresh_results pid g"
    using assms(1,2) by (auto simp: registry_ok_def results_ok_def list_all_iff fresh_results_def process_ids_def)
  from assms(2,3) obtain ps where c: "process_create pid ptype ''started'' 0 None [] (fv_now env) (rg_processes g) = Inr ps"
    by (auto simp: process_create_def process_ids_def PROCESS_STATUSES_def)
  then have g': "g' = fail_process env pid etype code (g\<lparr>rg_processes := ps\<rparr>)"
    using assms(4) by (simp add: reject_request_def fbind_def transaction_def fail_process_def)
  have "pid \<in> set (process_ids (g\<lparr>rg_processes := ps\<rparr>))"
    using process_create_Inr [OF c] by (auto simp: process_ids_def simp flip: set_map)
  then show ?thesis unfolding g' using res by (intro recorded_failure) (simp_all add: fresh_results_def)
qed

lemma rejecting_recorded:
  fixes g :: "('o, 'v) registry"
  assumes "registry_ok g" and "pid \<notin> set (process_ids g)" and "ptype \<in> set PROCESS_TYPES"
  shows "case rejecting env pid ptype etype (Inl (ValidationExc code)) f g of (g', r) \<Rightarrow> recorded pid r g'"
proof -
  obtain g' r where q: "reject_request env pid ptype etype code g = (g', r)" by fastforce
  show ?thesis
    using reject_recorded [OF assms q] q by (cases r) (simp_all add: rejecting_def fbind_def answered_def)
qed

text \<open>
  A request whose image, metadata and identifier are refused is on record like one that was served: under
  the identifier the endpoint chose there is a process record that says what the caller was told. The
  exceptions are an exception nobody expects, and a name of blanks.
\<close>

theorem endpoints_recorded:
  assumes "registry_ok g" and "pid = fv_fresh env (rg_generated g)" and "pid \<notin> set (process_ids g)" and "pid \<noteq> []"
  shows "read_image (ap_pillow api) (ap_max_upload_bytes api) u \<noteq> Inl RawExc \<longrightarrow>
      (case recognize_endpoint env api u g of (g', r) \<Rightarrow> recorded pid r g')"
    and "enroll_form api u metadata face_id \<noteq> Inl RawExc \<and> py_strip name \<noteq> [] \<longrightarrow>
      (case enroll_endpoint env api u name metadata face_id g of (g', r) \<Rightarrow> recorded pid r g')"
proof -
  let ?g = "g\<lparr>rg_generated := rg_generated g + 1\<rparr>"
  have chosen: "given_or_fresh env None g = (?g, Inr pid)" by (simp add: given_or_fresh_def fresh_id_def assms(2))
  have ok: "registry_ok ?g" "pid \<notin> set (process_ids ?g)"
    using stepping_keeps [OF stepping_given chosen assms(1)] assms(3) by (simp_all add: keeps_def process_ids_def)
  have given: "given_or_fresh env (Some pid) ?g = (?g, Inr pid)" using assms(4) by (simp add: given_or_fresh_def)
  have fresh: "fresh_id env g = (?g, Inr pid)" by (simp add: fresh_id_def assms(2))
  have image: "\<exists>code. x = ValidationExc code" if "read_image pil n v = Inl x" and "x \<noteq> RawExc" for pil n x v
    using that
    by (auto simp: read_image_def normalize_image_def Let_def pillow_failure_def
        split: if_splits sum.splits prod.splits pillow_exc.splits)
  have form: "\<exists>code. x = ValidationExc code" if "enroll_form api u metadata face_id = Inl x" and "x \<noteq> RawExc" for x
    using that
    by (auto simp: enroll_form_def rbind_Inl_iff validate_uuid_def parse_metadata_def
        split: if_splits option.splits sum.splits pyval.splits dest: image)
  show "read_image (ap_pillow api) (ap_max_upload_bytes api) u \<noteq> Inl RawExc \<longrightarrow>
      (case recognize_endpoint env api u g of (g', r) \<Rightarrow> recorded pid r g')"
  proof
    assume raw: "read_image (ap_pillow api) (ap_max_upload_bytes api) u \<noteq> Inl RawExc"
    show "case recognize_endpoint env api u g of (g', r) \<Rightarrow> recorded pid r g'"
    proof (cases "read_image (ap_pillow api) (ap_max_upload_bytes api) u")
      case (Inl x)
      with raw image obtain code where "x = ValidationExc code" by blast
      with Inl rejecting_recorded [OF ok, of "''recognize''"] show ?thesis
        by (simp add: recognize_endpoint_def fbind_def fresh PROCESS_TYPES_def)
    next
      case (Inr bs)
      with requests_settled [OF ok(1) given ok(2)] show ?thesis
        by (simp add: recognize_endpoint_def fbind_def fresh rejecting_def)
    qed
  qed
  show "enroll_form api u metadata face_id \<noteq> Inl RawExc \<and> py_strip name \<noteq> [] \<longrightarrow>
      (case enroll_endpoint env api u name metadata face_id g of (g', r) \<Rightarrow> recorded pid r g')"
  proof
    assume raw: "enroll_form api u metadata face_id \<noteq> Inl RawExc \<and> py_strip name \<noteq> []"
    show "case enroll_endpoint env api u name metadata face_id g of (g', r) \<Rightarrow> recorded pid r g'"
    proof (cases "enroll_form api u metadata face_id")
      case (Inl x)
      with raw form obtain code where "x = ValidationExc code" by blast
      with Inl rejecting_recorded [OF ok, of "''enroll''"] show ?thesis
        by (simp add: enroll_endpoint_def fbind_def fresh PROCESS_TYPES_def)
    next
      case (Inr m)
      with raw requests_settled [OF ok(1) given ok(2)] show ?thesis
        by (cases m) (simp add: enroll_endpoint_def fbind_def fresh rejecting_def)
    qed
  qed
qed

section \<open>Identifiers\<close>

lemma hex_text_length [simp]: "length (hex_text w n) = w"
  by (induction w n rule: hex_text.induct) simp_all

lemma hex_char_lower: "n < 16 \<Longrightarrow> lower_hex (''0123456789abcdef'' ! n)"
proof -
  have "\<forall>n \<in> {..<16}. lower_hex (''0123456789abcdef'' ! n)"
    by (simp add: lower_hex_def char_code_def lessThan_nat_numeral Let_def)
  then show "n < 16 \<Longrightarrow> lower_hex (''0123456789abcdef'' ! n)" by simp
qed

lemma hex_text_lower: "list_all lower_hex (hex_text w n)"
  by (induction w n rule: hex_text.induct) (simp_all add: hex_char_lower)

lemma uuid_form_canonical:
  assumes "length h = 32" and "list_all lower_hex h"
  shows "canonical_uuid (uuid_form h)"
proof -
  have "lower_hex (h ! i)" if "i < 32" for i using assms that by (simp add: list_all_length)
  moreover have "i < 36 \<Longrightarrow> uuid_form h ! i = (if i \<in> {8, 13, 18, 23} then CHR ''-''
      else h ! (if i < 8 then i else if i < 13 then i - 1 else if i < 18 then i - 2 else if i < 23 then i - 3 else i - 4))" for i
    using assms(1) by (auto simp: uuid_form_def nth_append nth_Cons' min_def)
  ultimately show ?thesis
    using assms(1)
    by (auto simp: canonical_uuid_def list_all_length uuid_form_def)
qed

text \<open>Every identifier an endpoint passes on has the canonical form, whatever spelling it was given in.\<close>

theorem validated_uuid_canonical: "validate_uuid s = Inr u \<Longrightarrow> canonical_uuid u"
  using uuid_form_canonical [OF hex_text_length hex_text_lower]
  by (auto simp: validate_uuid_def split: if_splits)

lemma lower_hex_char: "lower_hex c \<Longrightarrow> c \<in> set ''0123456789abcdef''"
proof -
  assume h: "lower_hex c"
  have c: "c = char_of (char_code c)" by (simp add: char_code_def)
  from h have "char_code c \<in> set ([48..<58] @ [97..<103])"
    unfolding lower_hex_def Let_def set_append set_upt Un_iff atLeastLessThan_iff by linarith
  then have "c \<in> set (map char_of ([48..<58] @ [97..<103]))" using c by (metis image_eqI list.set_map)
  also have "map char_of ([48..<58] @ [97..<103]) = ''0123456789abcdef''" by (simp add: upt_rec char_of_def bit_0)
  finally show ?thesis .
qed

lemma hex_lower: "list_all (\<lambda>c. py_lower_char c = c) ''0123456789abcdef''"
  by (simp add: py_lower_char_def char_code_def)

lemma hex_values: "map hex_of ''0123456789abcdef'' = [0..<16]"
  by (simp add: hex_of_def py_lower_char_def char_code_def Let_def upt_rec)

lemma hex_plain: "list_all (\<lambda>c. \<not> number_space c \<and> c \<notin> set ''-+_urx{}'') ''0123456789abcdef''"
  by (simp add: number_space_def char_code_def Let_def)

lemma lower_hex_cases:
  assumes "lower_hex c"
  shows "hex_digit c" "hex_of c < 16" "''0123456789abcdef'' ! hex_of c = c" "\<not> number_space c"
    "c \<notin> set ''-+_urx{}''" "py_lower_char c = c"
proof -
  from lower_hex_char [OF assms] show l: "py_lower_char c = c" and "\<not> number_space c" "c \<notin> set ''-+_urx{}''"
    using hex_lower [unfolded list_all_iff] hex_plain [unfolded list_all_iff] by blast+
  show "hex_digit c" using assms l by (simp add: hex_digit_def)
  have len: "length ''0123456789abcdef'' = 16" by simp
  obtain i where "i < length ''0123456789abcdef''" "''0123456789abcdef'' ! i = c"
    using lower_hex_char [OF assms] unfolding in_set_conv_nth by blast
  then have i: "i < 16" "c = ''0123456789abcdef'' ! i" unfolding len by simp_all
  have "hex_of c = map hex_of ''0123456789abcdef'' ! i" unfolding i(2) using i(1) by (subst nth_map) simp_all
  then have "hex_of c = i" unfolding hex_values using i(1) by simp
  with i show "hex_of c < 16" "''0123456789abcdef'' ! hex_of c = c" by simp_all
qed

lemma hex_text_value: "list_all lower_hex h \<Longrightarrow> hex_text (length h) (hex_value h) = h"
proof (induction h rule: rev_induct)
  case (snoc c h)
  then show ?case using lower_hex_cases [of c] by (auto simp: hex_value_def)
qed simp

text \<open>The canonical form of an identifier: its hexadecimal digits with hyphens between their groups.\<close>

lemma uuid_form_groups:
  assumes "length a = 8" and "length b = 4" and "length c = 4" and "length d = 4"
  shows "uuid_form (a @ b @ c @ d @ e) = a @ ''-'' @ b @ ''-'' @ c @ ''-'' @ d @ ''-'' @ e"
  using assms by (simp add: uuid_form_def)

lemma canonical_form:
  assumes "canonical_uuid s"
  obtains h where "length h = 32" "list_all lower_hex h" "s = uuid_form h"
proof -
  let ?h = "take 8 s @ take 4 (drop 9 s) @ take 4 (drop 14 s) @ take 4 (drop 19 s) @ drop 24 s"
  have len: "length s = 36" using assms by (simp add: canonical_uuid_def)
  have at: "if i \<in> {8, 13, 18, 23} then s ! i = CHR ''-'' else lower_hex (s ! i)" if "i < 36" for i
    using assms that len by (auto simp: canonical_uuid_def list_all_length)
  have piece: "list_all lower_hex (take k (drop n s))"
    if "n + k \<le> 36" and "{n..<n + k} \<inter> {8, 13, 18, 23} = {}" for n k
    unfolding list_all_length
  proof (intro allI impI)
    fix i
    assume i: "i < length (take k (drop n s))"
    with that have "n + i < 36" "n + i \<notin> {8, 13, 18, 23}" by auto
    then show "lower_hex (take k (drop n s) ! i)" using at [of "n + i"] i that(1) len by simp
  qed
  have "list_all lower_hex ?h"
    using piece [of 0 8] piece [of 9 4] piece [of 14 4] piece [of 19 4] piece [of 24 12] len by simp
  moreover have "length ?h = 32" using len by simp
  moreover have "s = uuid_form ?h"
  proof -
    have cut: "drop n s = take k (drop n s) @ s ! (n + k) # drop (Suc (n + k)) s" if "n + k < 36" for n k
      using id_take_nth_drop [of k "drop n s"] that len by (simp add: add.commute)
    have "s = take 8 s @ ''-'' @ drop 9 s" using cut [of 0 8] at [of 8] by simp
    also have "drop 9 s = take 4 (drop 9 s) @ ''-'' @ drop 14 s" using cut [of 9 4] at [of 13] by simp
    also have "drop 14 s = take 4 (drop 14 s) @ ''-'' @ drop 19 s" using cut [of 14 4] at [of 18] by simp
    also have "drop 19 s = take 4 (drop 19 s) @ ''-'' @ drop 24 s" using cut [of 19 4] at [of 23] by simp
    finally have "s = take 8 s @ ''-'' @ take 4 (drop 9 s) @ ''-'' @ take 4 (drop 14 s) @ ''-'' @ take 4 (drop 19 s) @ ''-'' @ drop 24 s" .
    also have "\<dots> = uuid_form ?h" using len by (intro uuid_form_groups [symmetric]) simp_all
    finally show ?thesis .
  qed
  ultimately show ?thesis by (intro that)
qed

lemma remove_all_absent: "list_all (\<lambda>c. c \<noteq> p) s \<Longrightarrow> remove_all (p # q) s = s"
  by (induction s) auto

lemma strip_braces_absent: "list_all (\<lambda>c. c \<notin> set ''{}'') s \<Longrightarrow> strip_braces s = s"
proof -
  assume h: "list_all (\<lambda>c. c \<notin> set ''{}'') s"
  have "dropWhile (\<lambda>c. c \<in> set ''{}'') t = t" if "set t = set s" for t
    using h that by (cases t) (auto simp: list_all_iff)
  from this [of s] this [of "rev s"] show ?thesis by (simp add: strip_braces_def)
qed

lemma hex_plain_text:
  assumes "list_all lower_hex h" and "length h = 32"
  shows "hex_body h = h" and "hex_number h"
proof -
  have plain: "hex_digit c" "\<not> number_space c" "c \<notin> set ''-+_urx{}''" "py_lower_char c = c" if "c \<in> set h" for c
    using lower_hex_cases [of c] assms(1) that by (auto simp: list_all_iff)
  have w: "dropWhile number_space t = t" if "set t = set h" for t using plain(2) that by (cases t) auto
  have strip: "number_strip h = h" using w [of h] w [of "rev h"] by (simp add: number_strip_def)
  obtain a b t where h: "h = a # b # t" using assms(2) by (cases h; cases "tl h") auto
  have sign: "split_sign h = (1, h)" using plain(3) [of a] by (simp add: h split_sign_def)
  have x: "py_lower (take 2 h) \<noteq> ''0x''" using plain(3,4) [of b] by (simp add: h py_lower_def)
  have "hex_after t" if "set t \<subseteq> set h" for t using that plain(1) by (induction t) auto
  then show "hex_number h" using plain(1) [of a] x by (simp add: hex_number_def strip sign Let_def) (simp add: h)
  show "hex_body h = h" using x by (simp add: hex_body_def strip sign Let_def)
qed

text \<open>An identifier in canonical form is passed on as it is.\<close>

theorem validate_uuid_roundtrip:
  assumes "canonical_uuid s"
  shows "validate_uuid s = Inr s"
proof -
  obtain h where h: "length h = 32" "list_all lower_hex h" "s = uuid_form h" using canonical_form [OF assms] .
  have c: "c \<notin> set ''+_urx{}''" if "c \<in> set s" for c
  proof -
    have "c = CHR ''-'' \<or> c \<in> set h" using that h(3) by (auto simp: uuid_form_def dest: in_set_takeD in_set_dropD)
    then show ?thesis using lower_hex_cases(5) [of c] h(2) by (auto simp: list_all_iff)
  qed
  have plain: "filter (\<lambda>c. c \<noteq> CHR ''-'') t = t" if "set t \<subseteq> set h" for t
    using that lower_hex_cases(5) h(2) by (intro filter_True) (auto simp: list_all_iff)
  have "filter (\<lambda>c. c \<noteq> CHR ''-'') s = take 8 h @ take 4 (drop 8 h) @ take 4 (drop 12 h) @ take 4 (drop 16 h) @ drop 20 h"
    unfolding h(3) uuid_form_def
    by (simp add: plain set_take_subset set_drop_subset order.trans [OF set_take_subset set_drop_subset])
  also have "\<dots> = h"
    using append_take_drop_id [of 4 "drop 16 h"] append_take_drop_id [of 4 "drop 12 h"] append_take_drop_id [of 4 "drop 8 h"]
      append_take_drop_id [of 8 h] by simp
  finally have f: "filter (\<lambda>c. c \<noteq> CHR ''-'') s = h" .
  have "remove_all ''urn:'' s = s" "remove_all ''uuid:'' s = s" "strip_braces s = s"
    using c by (auto intro!: remove_all_absent strip_braces_absent simp: list_all_iff)
  then have "uuid_hex s = h" "uuid_text s"
    using f hex_plain_text [OF h(2,1)] h(1) by (simp_all add: uuid_hex_def uuid_text_def Let_def)
  then show ?thesis
    using hex_plain_text(1) [OF h(2,1)] hex_text_value [OF h(2)] h(1,3) by (simp add: validate_uuid_def)
qed

end
