(* ===== verification/Index_Repair.thy ===== *)
theory Index_Repair
  imports Face_Registry "HOL-Library.Char_ord" "HOL-Library.List_Lexorder"
begin

text \<open>
  The repair of the vector index, \<open>src/backend/scripts/repair_qdrant_index.py\<close>: every active sample is read
  from the object store, embedded again by an image worker, and written to the index in batches. The
  clients of the database, the object store, the workers and the index are parameters; the embeddings
  run concurrently, and since each only reads, their order does not matter.
\<close>

section \<open>The script\<close>

record repair_sample =
  rp_sample_id :: string
  rp_face_id :: string
  rp_object_key :: string
  rp_embedding_model_version :: string
  rp_preprocess_version :: string

definition repair_row :: "face_sample \<Rightarrow> repair_sample" where
  "repair_row s =
     \<lparr>rp_sample_id = fs_sample_id s, rp_face_id = fs_face_id s, rp_object_key = fs_object_key s,
      rp_embedding_model_version = fs_embedding_model_version s, rp_preprocess_version = fs_preprocess_version s\<rparr>"

text \<open>\<open>fetchmany\<close> is the database client's; without a limit every row is fetched.\<close>

definition load_samples ::
  "(int \<Rightarrow> repair_sample list \<Rightarrow> repair_sample list) \<Rightarrow> int option \<Rightarrow> face_sample list \<Rightarrow> repair_sample list" where
  "load_samples fetchmany limit ss =
     (let rows = sort_key rp_sample_id (map repair_row (filter (\<lambda>s. fs_is_active s \<and> fs_state s = ''active'') ss))
      in case limit of None \<Rightarrow> rows | Some n \<Rightarrow> fetchmany n rows)"

text \<open>The text of the \<open>RuntimeError\<close>, or the embedding.\<close>

definition require_single_face :: "image_result \<Rightarrow> string \<Rightarrow> string + pyfloat list" where
  "require_single_face result request_id =
     (if im_request_id result \<noteq> request_id then Inl ''GPU worker returned a mismatched request ID''
      else if im_status result \<noteq> ''OK''
      then Inl (if im_error_code result \<noteq> [] then im_error_code result else ''GPU worker failed'')
      else case im_faces result of
        [f] \<Rightarrow> Inr (gf_embedding f)
      | fs \<Rightarrow> Inl (''Expected one face, received '' @ nat_digits (length fs)))"

record repair_env =
  re_read_object :: "string \<Rightarrow> string + bytes"
  re_process :: "bytes \<Rightarrow> string \<Rightarrow> string + image_result"

definition embed :: "repair_env \<Rightarrow> repair_sample \<Rightarrow> string + pyfloat list" where
  "embed env s =
     rbind (re_read_object env (rp_object_key s)) (\<lambda>image.
     rbind (re_process env image (rp_sample_id s)) (\<lambda>result. require_single_face result (rp_sample_id s)))"

fun embed_samples ::
  "repair_env \<Rightarrow> repair_sample list \<Rightarrow> (repair_sample \<times> pyfloat list) list \<times> (repair_sample \<times> string) list" where
  "embed_samples env [] = ([], [])"
| "embed_samples env (s # ss) =
     (case embed_samples env ss of (good, bad) \<Rightarrow>
        (case embed env s of Inl e \<Rightarrow> (good, (s, e) # bad) | Inr v \<Rightarrow> ((s, v) # good, bad)))"

definition repair_point :: "repair_sample \<times> pyfloat list \<Rightarrow> vector_point" where
  "repair_point p =
     (case p of (s, v) \<Rightarrow>
        \<lparr>pt_id = rp_sample_id s, pt_vector = v,
         pt_payload = sample_payload (rp_sample_id s) (rp_face_id s) True (rp_embedding_model_version s)
           (rp_preprocess_version s)\<rparr>)"

text \<open>\<open>range(0, n, batch_size)\<close>: a step of 0 raises, a negative one gives no batch.\<close>

function batches :: "nat \<Rightarrow> 'a list \<Rightarrow> 'a list list" where
  "batches n xs = (if n = 0 \<or> xs = [] then [] else take n xs # batches n (drop n xs))"
  by pat_completeness auto
termination by (relation "measure (\<lambda>(n, xs). length xs)") auto

declare batches.simps [simp del]

fun upsert_batches ::
  "(vector_point list \<Rightarrow> ('s, unit) client_call) \<Rightarrow> vector_point list list \<Rightarrow> 's \<Rightarrow> 's \<times> (py_exc + unit)" where
  "upsert_batches upsert [] s = (s, Inr ())"
| "upsert_batches upsert (b # bs) s =
     (case upsert b s of (s', Inl _) \<Rightarrow> (s', Inl (OtherError ''UpsertError'')) | (s', Inr _) \<Rightarrow> upsert_batches upsert bs s')"

definition upsert_points ::
  "(vector_point list \<Rightarrow> ('s, unit) client_call) \<Rightarrow> int \<Rightarrow> (repair_sample \<times> pyfloat list) list \<Rightarrow> 's \<Rightarrow> 's \<times> (py_exc + unit)" where
  "upsert_points upsert batch_size embeddings s =
     (if batch_size = 0 then (s, Inl (ValueError ''range() arg 3 must not be zero''))
      else upsert_batches upsert (map (map repair_point) (batches (nat batch_size) embeddings)) s)"

text \<open>\<open>main\<close>: the exit code, unless an exception ends it.\<close>

definition repair_index ::
  "repair_env \<Rightarrow> (vector_point list \<Rightarrow> ('s, unit) client_call) \<Rightarrow> (int \<Rightarrow> repair_sample list \<Rightarrow> repair_sample list) \<Rightarrow>
   int option \<Rightarrow> int \<Rightarrow> face_sample list \<Rightarrow> 's \<Rightarrow> 's \<times> (py_exc + int)"
where
  "repair_index env upsert fetchmany limit batch_size ss s =
     (case embed_samples env (load_samples fetchmany limit ss) of (good, bad) \<Rightarrow>
        (case upsert_points upsert batch_size good s of
           (s', Inl e) \<Rightarrow> (s', Inl e)
         | (s', Inr _) \<Rightarrow> (s', Inr (if bad = [] then 0 else 1))))"

section \<open>What it writes\<close>

lemma concat_batches: "0 < n \<Longrightarrow> concat (batches n xs) = xs"
  by (induction n xs rule: batches.induct) (subst batches.simps, auto)

lemma batches_bounded: "b \<in> set (batches n xs) \<Longrightarrow> b \<noteq> [] \<and> length b \<le> n"
proof (induction n xs rule: batches.induct)
  case (1 n xs)
  from 1(2) have "\<not> (n = 0 \<or> xs = [])" by (subst (asm) batches.simps) (auto split: if_splits)
  with 1 show ?case by (subst (asm) (2) batches.simps) auto
qed

lemma embed_samples_fst:
  "fst (embed_samples env ss) = [(s, v). s \<leftarrow> ss, v \<leftarrow> (case embed env s of Inl _ \<Rightarrow> [] | Inr v \<Rightarrow> [v])]"
  by (induction ss) (auto split: prod.splits sum.splits)

lemma embed_samples_snd: "snd (embed_samples env ss) = [] \<longleftrightarrow> (\<forall>s \<in> set ss. \<not> isl (embed env s))"
  by (induction ss) (auto split: prod.splits sum.splits)

text \<open>The reference: one call after the other for every point, as the sample service writes them.\<close>

fun upsert_each :: "(vector_point \<Rightarrow> 's \<Rightarrow> 's) \<Rightarrow> vector_point list \<Rightarrow> 's \<Rightarrow> 's" where
  "upsert_each put [] s = s"
| "upsert_each put (p # ps) s = upsert_each put ps (put p s)"

lemma upsert_each_append: "upsert_each put (xs @ ys) s = upsert_each put ys (upsert_each put xs s)"
  by (induction xs arbitrary: s) auto

text \<open>
  If a batch that the index accepts does the same as its points one by one, a repair without a limit that
  runs to its end has written, in the order of their identifiers, exactly the points of the active samples
  that could be embedded, each with the payload the sample service gives it; and it exits with 0 exactly if
  that was every active sample.
\<close>

theorem repair_rebuilds_index:
  assumes "\<And>b s s' u. upsert b s = (s', Inr u) \<Longrightarrow> s' = upsert_each put b s"
    and "repair_index env upsert fetchmany None batch_size ss s = (s', Inr code)" and "0 < batch_size"
  shows "s' = upsert_each put
      (map repair_point (fst (embed_samples env (load_samples fetchmany None ss)))) s
    \<and> (code = 0 \<longleftrightarrow> (\<forall>x \<in> set ss. fs_is_active x \<and> fs_state x = ''active'' \<longrightarrow> \<not> isl (embed env (repair_row x))))"
proof -
  have each: "upsert_batches upsert bs s = (s', Inr u) \<Longrightarrow> s' = upsert_each put (concat bs) s" for bs s s' u
    by (induction bs arbitrary: s) (auto simp: upsert_each_append split: prod.splits sum.splits dest!: assms(1))
  obtain good bad where e: "embed_samples env (load_samples fetchmany None ss) = (good, bad)" by fastforce
  with assms(2) have u: "upsert_points upsert batch_size good s = (s', Inr ())" and c: "code = (if bad = [] then 0 else 1)"
    by (auto simp: repair_index_def split: prod.splits sum.splits)
  have "concat (map (map repair_point) (batches (nat batch_size) good)) = map repair_point good"
    using assms(3) concat_batches [of "nat batch_size" good] by (simp add: map_concat [symmetric])
  then have "s' = upsert_each put (map repair_point good) s"
    using u assms(3) by (auto simp: upsert_points_def dest!: each)
  moreover have "bad = [] \<longleftrightarrow> (\<forall>x \<in> set (load_samples fetchmany None ss). \<not> isl (embed env x))"
    using embed_samples_snd [of env "load_samples fetchmany None ss"] e by simp
  ultimately show ?thesis using c e by (auto simp: load_samples_def)
qed

end
