(* ===== verification/Live_Notifier.thy ===== *)
theory Live_Notifier
  imports Live_Events "HOL-Library.Sublist"
begin

text \<open>
  The in-memory notifier of \<open>src/backend/app/services/live_event_service.py\<close>: subscribers hold bounded
  queues, and a full queue loses the event instead of delaying the service. A queue is known by a number,
  since the set the code keeps compares queues by identity; the order in which the set is walked does not
  matter, as every queue is served on its own.
\<close>

section \<open>Operations\<close>

record 'e notifier =
  nt_capacity :: int
  nt_subscribers :: "(nat \<times> 'e list) list"
  nt_created :: nat

definition new_notifier :: "int \<Rightarrow> 'e notifier" where
  "new_notifier capacity = \<lparr>nt_capacity = capacity, nt_subscribers = [], nt_created = 0\<rparr>"

text \<open>A queue whose maximal size is not positive is never full.\<close>

definition queue_full :: "int \<Rightarrow> 'e list \<Rightarrow> bool" where
  "queue_full capacity q = (0 < capacity \<and> capacity \<le> int (length q))"

definition subscribe :: "'e notifier \<Rightarrow> 'e notifier \<times> nat" where
  "subscribe n =
     (n\<lparr>nt_subscribers := nt_subscribers n @ [(nt_created n, [])], nt_created := nt_created n + 1\<rparr>, nt_created n)"

definition unsubscribe :: "nat \<Rightarrow> 'e notifier \<Rightarrow> 'e notifier" where
  "unsubscribe k n = n\<lparr>nt_subscribers := filter (\<lambda>(i, q). i \<noteq> k) (nt_subscribers n)\<rparr>"

definition publish :: "'e \<Rightarrow> 'e notifier \<Rightarrow> 'e notifier" where
  "publish e n =
     n\<lparr>nt_subscribers :=
         map (\<lambda>(i, q). (i, if queue_full (nt_capacity n) q then q else q @ [e])) (nt_subscribers n)\<rparr>"

text \<open>\<open>get_nowait\<close> of a subscriber on its queue.\<close>

definition next_event :: "nat \<Rightarrow> 'e notifier \<Rightarrow> 'e notifier \<times> 'e option" where
  "next_event k n =
     (case map_of (nt_subscribers n) k of
        Some (e # q) \<Rightarrow>
          (n\<lparr>nt_subscribers := map (\<lambda>(i, p). (i, if i = k then q else p)) (nt_subscribers n)\<rparr>, Some e)
      | _ \<Rightarrow> (n, None))"

section \<open>What a subscriber sees\<close>

datatype 'e notifier_op = Subscribing | Unsubscribing nat | Publishing 'e | Receiving nat

fun notifier_step :: "'e notifier_op \<Rightarrow> 'e notifier \<Rightarrow> 'e notifier" where
  "notifier_step Subscribing n = fst (subscribe n)"
| "notifier_step (Unsubscribing k) n = unsubscribe k n"
| "notifier_step (Publishing e) n = publish e n"
| "notifier_step (Receiving k) n = fst (next_event k n)"

fun received :: "nat \<Rightarrow> 'e notifier_op list \<Rightarrow> 'e notifier \<Rightarrow> 'e list" where
  "received k [] n = []"
| "received k (op # ops) n =
     (if op = Receiving k then (case snd (next_event k n) of None \<Rightarrow> [] | Some e \<Rightarrow> [e]) else [])
     @ received k ops (notifier_step op n)"

fun published :: "'e notifier_op list \<Rightarrow> 'e list" where
  "published [] = []"
| "published (Publishing e # ops) = e # published ops"
| "published (_ # ops) = published ops"

definition waiting :: "nat \<Rightarrow> 'e notifier \<Rightarrow> 'e list" where
  "waiting k n = (case map_of (nt_subscribers n) k of None \<Rightarrow> [] | Some q \<Rightarrow> q)"

lemma map_of_values: "map_of (map (\<lambda>(i, q). (i, f i q)) xs) k = map_option (f k) (map_of xs k)"
  by (induction xs) auto

definition numbered :: "'e notifier \<Rightarrow> bool" where
  "numbered n = (\<forall>i \<in> fst ` set (nt_subscribers n). i < nt_created n)"

lemma numbered_step: "numbered n \<Longrightarrow> numbered (notifier_step op n)"
  by (cases op)
     (auto simp: numbered_def subscribe_def unsubscribe_def publish_def next_event_def less_Suc_eq
        split: option.splits list.splits)

lemma waiting_publish:
  "waiting k (publish e n) =
     (case map_of (nt_subscribers n) k of None \<Rightarrow> []
      | Some q \<Rightarrow> if queue_full (nt_capacity n) q then q else q @ [e])"
  by (simp add: waiting_def publish_def map_of_values split: option.splits)

lemma waiting_subscribe: "numbered n \<Longrightarrow> waiting k (fst (subscribe n)) = waiting k n"
proof -
  assume n: "numbered n"
  have "map_of (nt_subscribers n) k = None" if "k = nt_created n"
    using n that by (auto simp: numbered_def map_of_eq_None_iff)
  then show ?thesis by (auto simp: waiting_def subscribe_def map_add_def split: option.splits)
qed

lemma map_of_filter_key: "map_of (filter (\<lambda>(i, q). i \<noteq> j) xs) k = (if k = j then None else map_of xs k)"
  by (induction xs) auto

lemma waiting_unsubscribe: "waiting k (unsubscribe j n) = (if j = k then [] else waiting k n)"
  by (simp add: waiting_def unsubscribe_def map_of_filter_key)

lemma waiting_next:
  "waiting k (fst (next_event j n)) = (if j = k then tl (waiting k n) else waiting k n)"
  "snd (next_event k n) = (case waiting k n of [] \<Rightarrow> None | e # _ \<Rightarrow> Some e)"
  by (auto simp: waiting_def next_event_def map_of_values split: option.splits list.splits)

text \<open>
  Whatever the clients do and in whatever order, what a subscriber has received is a subsequence of the
  events that were waiting for it followed by those published since: none is invented, repeated or
  reordered, and losing some is the only effect of a full queue.
\<close>

theorem notified_in_order:
  assumes "numbered n"
  shows "subseq (received k ops n @ waiting k (fold notifier_step ops n)) (waiting k n @ published ops)"
  using assms
proof (induction ops arbitrary: n)
  case (Cons op ops)
  note IH = Cons.IH [OF numbered_step [OF Cons.prems], of op]
  show ?case
  proof (cases op)
    case Subscribing
    with IH waiting_subscribe [OF Cons.prems] show ?thesis by simp
  next
    case (Unsubscribing j)
    have "subseq (waiting k (unsubscribe j n) @ published ops) (waiting k n @ published ops)"
      by (simp add: waiting_unsubscribe)
    with IH Unsubscribing show ?thesis by (auto intro: subseq_order.trans)
  next
    case (Publishing e)
    have "waiting k (publish e n) = waiting k n \<or> waiting k (publish e n) = waiting k n @ [e]"
      unfolding waiting_publish by (auto simp: waiting_def split: option.splits)
    then have "subseq (waiting k (publish e n) @ published ops) (waiting k n @ e # published ops)"
      using list_emb_append_mono [OF subseq_order.order_refl list_emb_Cons [OF subseq_order.order_refl],
        of "waiting k n" "published ops" e] by auto
    with IH Publishing show ?thesis by (auto intro: subseq_order.trans)
  next
    case (Receiving j)
    show ?thesis
    proof (cases "j = k")
      case True
      with IH Receiving show ?thesis by (cases "waiting k n") (auto simp: waiting_next)
    next
      case False
      with IH Receiving show ?thesis by (simp add: waiting_next)
    qed
  qed
qed simp

text \<open>
  No queue ever holds more events than its capacity, so a subscriber that does not read costs the service
  bounded memory.
\<close>

definition within_capacity :: "'e notifier \<Rightarrow> bool" where
  "within_capacity n =
     (0 < nt_capacity n \<longrightarrow> (\<forall>(i, q) \<in> set (nt_subscribers n). int (length q) \<le> nt_capacity n))"

theorem queues_bounded: "within_capacity (fold notifier_step ops (new_notifier capacity))"
proof -
  have step: "within_capacity (notifier_step op n)" if "within_capacity n" for op and n :: "'a notifier"
    using that
    by (cases op)
       (auto simp: within_capacity_def subscribe_def unsubscribe_def publish_def queue_full_def next_event_def
          dest!: map_of_SomeD split: option.splits list.splits if_splits, fastforce+)
  have "within_capacity n \<Longrightarrow> within_capacity (fold notifier_step ops n)" for n :: "'a notifier"
    using step by (induction ops arbitrary: n) auto
  then show ?thesis by (simp add: within_capacity_def new_notifier_def)
qed

text \<open>An event published while a subscriber's queue has room is the last one waiting for it.\<close>

theorem published_event_waits:
  assumes "map_of (nt_subscribers n) k = Some q" and "\<not> queue_full (nt_capacity n) q"
  shows "waiting k (publish e n) = waiting k n @ [e]"
  using assms by (simp add: waiting_publish) (simp add: waiting_def)

end
