(* ===== verification/Spec2Isabelle.thy ===== *)
theory Spec2Isabelle
  imports Camera_Service Video_Witnesses Face_Api Index_Repair Live_Notifier
begin

text \<open>
  A verification development of the Mvision face-recognition backend, the Python code under
  \<open>src/backend/app\<close>. File names below are relative to that directory.

  \<^bold>\<open>The program.\<close> The backend recognises faces in images, in uploaded videos and in live streams.
  Its state is a PostgreSQL database, a vector index of face embeddings and an object store. Uploaded
  videos become rows of a job table that worker processes claim under a lease. Live streams come in
  two generations of the API: cameras with an RTSP address, and sessions whose ingress path is
  provisioned on a media server. For both, a supervisor claims a run under a lease, starts a native
  worker process, sends it commands and reads its events from a framed MessagePack stream; evidence
  of a camera's tracks goes through a vote to identity decisions, which become rows of an event table
  and assignment commands back to the worker.

  \<^bold>\<open>Theories and code.\<close>
  \<^item> \<open>Prelude\<close>: exceptions and results, ordered dictionaries, tables as lists of rows.
    \<open>Py_Values\<close>: dynamically typed values as MessagePack and JSON have them, and the conversions the
    code applies to them. \<open>Py_Numbers\<close>: \<open>int()\<close> and \<open>float()\<close> on texts and values. \<open>Vectors\<close>: embeddings as lists of reals. \<open>Leases\<close>: the fencing contract
    (locale \<open>lease_fence\<close>) that the three claimed tables share.
  \<^item> \<open>Live_Messages\<close>, \<open>Live_Decode\<close>, \<open>Live_Protocol\<close>, \<open>Live_Stream\<close>: \<open>infrastructure/live/protocol.py\<close>
    and the event reader of \<open>infrastructure/live/native_runner.py\<close>. \<open>Command_Queue\<close>: the command queue
    and writer of the same file.
  \<^item> \<open>Processes\<close>, \<open>Video_Jobs\<close>: process records and the video job queue
    (\<open>infrastructure/database/repositories/process_repository.py\<close>, \<open>video_job_repository.py\<close>).
  \<^item> \<open>Face_Matching\<close>: identities, the matcher and the voting service
    (\<open>identity_repository.py\<close>, \<open>services/face_matcher.py\<close>, \<open>services/video_identity_voting_service.py\<close>).
    \<open>Video_Tracking\<close>: \<open>services/video_tracking_service.py\<close>.
  \<^item> \<open>Object_Store\<close>, \<open>Vector_Store\<close>: the adapters of the two stores
    (\<open>infrastructure/object_storage/minio_adapter.py\<close>, \<open>infrastructure/vector_store/qdrant_adapter.py\<close>).
    \<open>Gpu_Protocol\<close>: the image workers' frames and the pool that asks them (\<open>infrastructure/gpu\<close>).
  \<^item> \<open>Face_Samples\<close>: the tables of samples, results and process events with their repositories, and
    \<open>services/face_sample_persistence_service.py\<close>, \<open>storage_reconciliation_service.py\<close>. \<open>Face_Registry\<close>:
    the services of enrollment, recognition, identities and process queries. \<open>Face_Steps\<close>: the
    transactions of the registry as a step relation; \<open>Face_Properties\<close>, \<open>Face_Outcomes\<close>,
    \<open>Face_Witnesses\<close>: what holds of the requests, and inputs on which it applies. \<open>Face_Api\<close>: the
    endpoints of \<open>presentation/routers/faces.py\<close> with the checks of the uploaded image and the identifiers.
    \<open>Index_Repair\<close>: the script \<open>src/backend/scripts/repair_qdrant_index.py\<close>.
  \<^item> \<open>Video_Upload\<close>, \<open>Video_Probe\<close>: \<open>services/video_upload_service.py\<close> and \<open>infrastructure/video/probe.py\<close>.
    \<open>Video_Protocol\<close>: \<open>infrastructure/video/protocol.py\<close> and the reader of \<open>infrastructure/video/native_runner.py\<close>.
    \<open>Video_Processing\<close>: the run of the native process and \<open>services/video_processor.py\<close>. \<open>Video_Results\<close>:
    \<open>services/video_result_service.py\<close> and the track table. \<open>Video_Requests\<close>: \<open>services/video_job_service.py\<close>.
    \<open>Video_Witnesses\<close>: inputs on which the theorems on videos apply.
  \<^item> \<open>Live_Runs\<close>, \<open>Live_Sessions\<close>, \<open>Live_Connectors\<close>: the tables of cameras, camera runs, sessions,
    generations, session runs and connectors with their repositories.
  \<^item> \<open>Live_Identity\<close>, \<open>Live_Events\<close>: \<open>services/live_identity_service.py\<close>, \<open>services/live_event_service.py\<close>.
    \<open>Live_Notifier\<close>: the subscribers' queues of the latter.
  \<^item> \<open>Media_Client\<close>, \<open>Media_Reconciliation\<close>: \<open>infrastructure/media/mediamtx_client.py\<close> and
    \<open>services/mediamtx_reconciliation_service.py\<close>.
  \<^item> \<open>Live_Uri\<close>: \<open>infrastructure/live/uri_cipher.py\<close> and the address checks of the request schemas.
    \<open>Session_Compiler\<close>, \<open>Session_Service\<close>: \<open>services/live_session_compiler.py\<close> and
    \<open>services/live_session_service.py\<close>.
  \<^item> \<open>Supervisor_Commands\<close>, \<open>Session_Supervisor\<close>, \<open>Camera_Supervisor\<close>: \<open>services/live_supervisor.py\<close>.
    \<open>Camera_Service\<close>: \<open>services/live_camera_service.py\<close>.

  \<^bold>\<open>How the code is translated.\<close>
  A class that is a table or a data class is a record, a tagged union a datatype. A call that may raise
  returns a sum, \<open>Inl\<close> the exception. A repository operation is a function on the list of rows; a
  violated constraint is \<open>IntegrityError\<close>; one transaction is one step, since the row locks the code
  takes serialise them, and where the code reads without a lock the read and the write are two steps.
  Floating-point numbers are reals with an explicit non-finite case where the code tests for it.
  Strings are lists of code points up to 255. Timestamps are integers in microseconds.
  Parameters stand for code outside the repository: MessagePack, JSON text and digests, Fernet, fresh
  identifiers and clocks, the clients of the vector index and the object store (state transformers of a
  state of their own), the answers of the media server and of the image workers, ffprobe and ffmpeg, the
  locks other transactions hold, and the text of an exception. The three tables a face request touches,
  and the state of the two stores, form the record \<open>registry\<close>; \<open>video_store\<close> adds the tables of jobs and
  tracks. The live services use the tables and the stores through parameters of their own. What a theorem needs of them is among
  its hypotheses, and its witness instantiates them.

  \<^bold>\<open>Termination and bounds.\<close> Every function is total: the frame reader by the length of the input, the
  page loop of the media client by its page limit, redaction by the length of the text. There is no fuel.
  Concurrency is stated with inductive step relations whose steps are the transactions and the stretches
  between two awaits; the theorems on them hold for every interleaving.

  \<^bold>\<open>What is shown.\<close>
  The protocol round trips, and a reader only ever delivers well-formed events of its run in order. Leases
  are exclusive, and whoever lost one is refused. The job, camera, run, session and generation tables keep
  their invariants. The vote names only supported identities, a known track changes its identity only
  after three agreeing votes. Requests of the face API refine a machine of whole transactions that keeps every
  constraint and reference; each request settles its process record with what its caller is told, a sample
  is active exactly if both stores took it, and a deleted identity never comes back. A request the image or
  form checks refuse is on record too, and the identifiers passed on are canonical. A subscriber of live events
  sees a subsequence of what was published, in order; the index repair writes the points of all active samples. An upload ends with one
  waiting job or with none and no object left behind; a video worker changes the job table by operations of
  the queue only; a finished job shows tracks, results and counts that agree, and no person in two places
  at once; a byte range of its source is answered inside the source. A reconciliation pass deletes only stale paths. A source address reaches no
  row and no answer but through the cipher, and no redacted diagnostic. A claimed session run is always
  brought to an end, and a camera's supervisor refines the transaction machine on its tables and sends only
  commands the worker can decode. Some theorems state behaviour the code should not have; the manifest
  lists them as findings.

  \<^bold>\<open>Not modelled.\<close> HTTP routing but for the endpoints of faces, authentication and response schemas,
  telemetry and metrics export, configuration parsing, database migrations, the other operational scripts, the web front end and the native C++
  workers: they hold no state of the program's own or are not Python. Process spawning, signals and the command lines of
  subprocesses; image decoding by Pillow, a parameter; the cancellation of a request in the middle of a service call, and
  a database that fails at an arbitrary statement, except where a violated constraint or an exception
  handler of the code makes the failure part of its behaviour.
\<close>

end
